(* ===== verification/Prelude.thy ===== *)
theory Prelude
  imports Main "HOL-Library.Multiset" "HOL-Library.Char_ord" "HOL-Library.List_Lexorder"
begin

text \<open>
  What every component of the model shares: Go's error values, the result type of fallible
  operations, \<open>slices.SortFunc\<close> over a comparison function, and the interface of a
  tenant-scoped store that the repositories of the program implement.
\<close>

named_theorems go_split \<open>case splits of the model's result types\<close>
named_theorems store_simps \<open>what a repository returns after an update\<close>

declare prod.splits [go_split] sum.splits [go_split] option.splits [go_split] if_splits [go_split]

section \<open>Error values\<close>

text \<open>
  A Go error is a sentinel (a package-level variable, identified here by its package and its
  text), an anonymous \<open>errors.New\<close>, or \<open>fmt.Errorf\<close> with a wrapped cause: the text before
  \<open>%w\<close>, the cause and the text after it.
\<close>

datatype goerr =
    Sentinel string string
  | Anonymous string
  | Wrapped string goerr string

type_synonym 'a result = "goerr + 'a"

fun error_text :: "goerr \<Rightarrow> string" where
  "error_text (Sentinel pkg text) = text"
| "error_text (Anonymous text) = text"
| "error_text (Wrapped before cause after) = before @ error_text cause @ after"

text \<open>\<open>errors.Is\<close>: the error itself or one of the causes it wraps.\<close>

fun errors_is :: "goerr \<Rightarrow> goerr \<Rightarrow> bool" where
  "errors_is (Wrapped before cause after) target =
     (Wrapped before cause after = target \<or> errors_is cause target)"
| "errors_is e target = (e = target)"

lemma errors_is_refl [simp]: "errors_is e e"
  by (cases e) auto

definition io_EOF :: goerr where
  "io_EOF = Sentinel ''io'' ''EOF''"

text \<open>\<open>fmt.Errorf(msg + ": %w", err)\<close>.\<close>

definition wrap :: "string \<Rightarrow> goerr \<Rightarrow> goerr" where
  "wrap msg e = Wrapped (msg @ '': '') e ''''"

lemma errors_is_wrap_Sentinel [simp]:
  "errors_is (wrap msg e) (Sentinel p t) \<longleftrightarrow> errors_is e (Sentinel p t)"
  by (simp add: wrap_def)

section \<open>Time\<close>

text \<open>
  A \<open>time.Time\<close> is its distance from Go's zero time in nanoseconds, so \<open>IsZero\<close> is being 0. A
  \<open>time.Duration\<close> is a number of nanoseconds that \<open>Sub\<close> keeps within 64 bits by saturating.
\<close>

type_synonym time = int
type_synonym duration = int

abbreviation zero_time :: time where "zero_time \<equiv> 0"

definition time_sub :: "time \<Rightarrow> time \<Rightarrow> duration" where
  "time_sub t u = max (- (2 ^ 63)) (min (2 ^ 63 - 1) (t - u))"

abbreviation milliseconds :: "int \<Rightarrow> duration" where "milliseconds n \<equiv> n * 1000000"
abbreviation seconds :: "int \<Rightarrow> duration" where "seconds n \<equiv> n * 1000000000"

section \<open>Sorting by a comparison function\<close>

text \<open>
  \<open>slices.SortFunc\<close> promises a permutation in which the comparison of neighbours is never
  positive; elements that compare equal may come in any order. The model sorts stably.
\<close>

fun insert_cmp :: "('a \<Rightarrow> 'a \<Rightarrow> int) \<Rightarrow> 'a \<Rightarrow> 'a list \<Rightarrow> 'a list" where
  "insert_cmp cmp x [] = [x]"
| "insert_cmp cmp x (y # ys) =
     (if cmp x y \<le> 0 then x # y # ys else y # insert_cmp cmp x ys)"

definition sort_func :: "('a \<Rightarrow> 'a \<Rightarrow> int) \<Rightarrow> 'a list \<Rightarrow> 'a list" where
  "sort_func cmp xs = foldr (insert_cmp cmp) xs []"

lemma mset_insert_cmp [simp]: "mset (insert_cmp cmp x ys) = add_mset x (mset ys)"
  by (induction ys) auto

lemma mset_sort_func [simp]: "mset (sort_func cmp xs) = mset xs"
  unfolding sort_func_def by (induction xs) auto

lemma set_sort_func [simp]: "set (sort_func cmp xs) = set xs"
  by (metis mset_sort_func set_mset_mset)

lemma length_sort_func [simp]: "length (sort_func cmp xs) = length xs"
  by (metis mset_sort_func size_mset)

definition cmp_sorted :: "('a \<Rightarrow> 'a \<Rightarrow> int) \<Rightarrow> 'a list \<Rightarrow> bool" where
  "cmp_sorted cmp = sorted_wrt (\<lambda>x y. cmp x y \<le> 0)"

text \<open>
  What a comparison function must satisfy for \<open>slices.SortFunc\<close> (a strict weak order), and what
  sorting by it then gives. The comparators of the repositories and of the retrieval step are
  interpretations.
\<close>

locale comparator =
  fixes cmp :: "'a \<Rightarrow> 'a \<Rightarrow> int"
  assumes cmp_total: "cmp x y \<le> 0 \<or> cmp y x \<le> 0"
    and cmp_trans: "cmp x y \<le> 0 \<Longrightarrow> cmp y z \<le> 0 \<Longrightarrow> cmp x z \<le> 0"
begin

lemma sorted_insert_cmp:
  "cmp_sorted cmp ys \<Longrightarrow> cmp_sorted cmp (insert_cmp cmp x ys)"
proof (induction ys)
  case Nil
  then show ?case by (simp add: cmp_sorted_def)
next
  case (Cons y ys)
  have elems: "set (insert_cmp cmp x ys) = insert x (set ys)"
    by (metis mset_insert_cmp set_mset_add_mset_insert set_mset_mset)
  from Cons show ?case
    using cmp_total [of x y] by (auto simp: cmp_sorted_def elems intro: cmp_trans)
qed

lemma sorted_sort_func: "cmp_sorted cmp (sort_func cmp xs)"
  unfolding sort_func_def
  by (induction xs) (auto simp: sorted_insert_cmp, simp add: cmp_sorted_def)

text \<open>
  Where elements that compare equal both ways are equal, every sorted permutation is the same
  list: the result does not depend on the sorting algorithm.
\<close>

lemma sorted_unique:
  assumes "mset xs = mset ys" and "cmp_sorted cmp xs" and "cmp_sorted cmp ys"
    and strict: "\<And>x y. x \<in> set xs \<Longrightarrow> y \<in> set xs \<Longrightarrow> cmp x y \<le> 0 \<Longrightarrow> cmp y x \<le> 0 \<Longrightarrow> x = y"
  shows "xs = ys"
  using assms
proof (induction xs arbitrary: ys)
  case Nil
  then show ?case by simp
next
  case (Cons x xs)
  then obtain y ys' where ys: "ys = y # ys'"
    by (cases ys) auto
  have same: "set (x # xs) = set (y # ys')"
    using Cons.prems(1) ys by (metis set_mset_mset)
  then have "y \<in> set (x # xs)" "x \<in> set (y # ys')" by auto
  then have "x = y \<or> cmp x y \<le> 0 \<and> cmp y x \<le> 0"
    using Cons.prems(2,3) ys by (auto simp: cmp_sorted_def)
  then have "x = y"
    using Cons.prems(4) [of x y] \<open>y \<in> set (x # xs)\<close> by auto
  moreover have "xs = ys'"
    using Cons.prems ys \<open>x = y\<close> by (intro Cons.IH) (auto simp: cmp_sorted_def)
  ultimately show ?case using ys by simp
qed

end

text \<open>\<open>strings.Compare\<close>: bytewise lexicographic order.\<close>

definition str_compare :: "string \<Rightarrow> string \<Rightarrow> int" where
  "str_compare a b = (if a < b then -1 else if b < a then 1 else 0)"

lemma str_compare_le [simp]: "str_compare a b \<le> 0 \<longleftrightarrow> a \<le> b"
  by (auto simp: str_compare_def)

section \<open>Tenant-scoped stores\<close>

text \<open>
  The contract that the document, workflow and run repositories share: a record is stored under
  its id, and a read returns it to its owner only. The laws are what the services rely on; each
  in-memory repository of the program is an interpretation.
\<close>

locale scoped_store =
  fixes put :: "'a \<Rightarrow> 's \<Rightarrow> 's"
    and get :: "string \<Rightarrow> string \<Rightarrow> 's \<Rightarrow> 'a result"
    and key :: "'a \<Rightarrow> string"
    and owner :: "'a \<Rightarrow> string"
    and missing :: goerr
  assumes get_put_same: "get t (key x) (put x s) = (if owner x = t then Inr x else Inl missing)"
    and get_put_other: "k \<noteq> key x \<Longrightarrow> get t k (put x s) = get t k s"
    and get_owner: "get t k s = Inr x \<Longrightarrow> owner x = t"
    and get_error: "get t k s = Inl e \<Longrightarrow> e = missing"
begin

lemma get_put:
  "get t k (put x s) =
     (if k = key x then (if owner x = t then Inr x else Inl missing) else get t k s)"
  by (simp add: get_put_same get_put_other)

text \<open>After a sequence of writes a read sees the last write of its key, or the old state.\<close>

lemma get_puts:
  "get t k (fold put xs s) =
     (case find (\<lambda>x. key x = k) (rev xs) of
        Some x \<Rightarrow> if owner x = t then Inr x else Inl missing
      | None \<Rightarrow> get t k s)"
  by (induction xs rule: rev_induct) (auto simp: get_put)

text \<open>Writes under other keys are invisible.\<close>

lemma get_puts_fresh:
  "k \<notin> key ` set xs \<Longrightarrow> get t k (fold put xs s) = get t k s"
  by (induction xs rule: rev_induct) (auto simp: get_put)

text \<open>A tenant never reads another tenant's record, whatever was written.\<close>

lemma isolation:
  "\<forall>x \<in> set xs. owner x \<noteq> t \<Longrightarrow> get t k (fold put xs s) = Inr y \<Longrightarrow> get t k s = Inr y"
  by (auto simp: get_puts split: option.splits if_splits dest: find_Some_iff [THEN iffD1])
     (metis find_Some_iff nth_mem set_rev)

end

end
