(* ===== verification/GoStrings.thy ===== *)
theory GoStrings
  imports Prelude
begin

text \<open>
  The functions of Go's packages \<open>strings\<close>, \<open>strconv\<close> and \<open>path\<close> that the program uses. A Go
  string is a sequence of bytes, and so is \<^typ>\<open>string\<close> (a list of 8-bit characters). White
  space is Unicode white space in UTF-8, so \<open>TrimSpace\<close> and \<open>Fields\<close> are exact on every byte
  sequence; case mapping is that of ASCII, and leaves every other byte alone.
\<close>

section \<open>White space\<close>

definition ascii_space :: "char \<Rightarrow> bool" where
  "ascii_space c \<longleftrightarrow> c \<in> {CHR 0x09, CHR 0x0A, CHR 0x0B, CHR 0x0C, CHR 0x0D, CHR 0x20}"

definition space2 :: "char \<Rightarrow> char \<Rightarrow> bool" where
  "space2 c d \<longleftrightarrow> c = CHR 0xC2 \<and> (d = CHR 0x85 \<or> d = CHR 0xA0)"

definition space3 :: "char \<Rightarrow> char \<Rightarrow> char \<Rightarrow> bool" where
  "space3 c d e \<longleftrightarrow>
     (c = CHR 0xE1 \<and> d = CHR 0x9A \<and> e = CHR 0x80) \<or>
     (c = CHR 0xE2 \<and> d = CHR 0x80 \<and>
        e \<in> {CHR 0x80, CHR 0x81, CHR 0x82, CHR 0x83, CHR 0x84, CHR 0x85, CHR 0x86, CHR 0x87,
             CHR 0x88, CHR 0x89, CHR 0x8A, CHR 0xA8, CHR 0xA9, CHR 0xAF}) \<or>
     (c = CHR 0xE2 \<and> d = CHR 0x81 \<and> e = CHR 0x9F) \<or>
     (c = CHR 0xE3 \<and> d = CHR 0x80 \<and> e = CHR 0x80)"

text \<open>The number of bytes of the white-space rune that a string starts with; 0 if it has none.\<close>

fun space_len :: "string \<Rightarrow> nat" where
  "space_len [] = 0"
| "space_len [c] = (if ascii_space c then 1 else 0)"
| "space_len [c, d] = (if ascii_space c then 1 else if space2 c d then 2 else 0)"
| "space_len (c # d # e # s) =
     (if ascii_space c then 1 else if space2 c d then 2 else if space3 c d e then 3 else 0)"

text \<open>The same at the end, read backwards on the reversed string.\<close>

fun space_len_rev :: "string \<Rightarrow> nat" where
  "space_len_rev [] = 0"
| "space_len_rev [c] = (if ascii_space c then 1 else 0)"
| "space_len_rev [d, c] = (if ascii_space d then 1 else if space2 c d then 2 else 0)"
| "space_len_rev (e # d # c # s) =
     (if ascii_space e then 1 else if space2 d e then 2 else if space3 c d e then 3 else 0)"

lemma space_len_le: "space_len s \<le> length s"
  by (induction s rule: space_len.induct) auto

lemma space_len_rev_le: "space_len_rev s \<le> length s"
  by (induction s rule: space_len_rev.induct) auto

lemma space_len_pos: "0 < space_len s \<Longrightarrow> s \<noteq> []"
  by auto

lemma space_len_rev_pos: "0 < space_len_rev s \<Longrightarrow> s \<noteq> []"
  by auto

lemma drop_space_less: "0 < space_len s \<Longrightarrow> length s - space_len s < length s"
  by (rule diff_less) (auto dest: space_len_pos)

lemma drop_space_rev_less: "0 < space_len_rev s \<Longrightarrow> length s - space_len_rev s < length s"
  by (rule diff_less) (auto dest: space_len_rev_pos)

lemma space_len_ascii: "ascii_space c \<Longrightarrow> space_len (c # s) = Suc 0"
  by (cases s; cases "tl s") auto

lemma space_len_rev_ascii: "ascii_space c \<Longrightarrow> space_len_rev (c # s) = Suc 0"
  by (cases s; cases "tl s") auto

text \<open>A space at the head stays visible when the string is extended at its end.\<close>

lemma space_len_append: "0 < space_len s \<Longrightarrow> space_len (s @ t) = space_len s"
proof (induction s rule: space_len.induct)
  case (2 c)
  then show ?case by (auto split: if_splits intro: space_len_ascii)
next
  case (3 c d)
  then show ?case by (cases t) (auto split: if_splits)
qed auto

lemma space_len_rev_append: "0 < space_len_rev s \<Longrightarrow> space_len_rev (s @ t) = space_len_rev s"
proof (induction s rule: space_len_rev.induct)
  case (2 c)
  then show ?case by (auto split: if_splits intro: space_len_rev_ascii)
next
  case (3 d c)
  then show ?case by (cases t) (auto split: if_splits)
qed auto

lemma space_len_take: "space_len s = 0 \<Longrightarrow> space_len (take n s) = 0"
  by (metis append_take_drop_id bot_nat_0.not_eq_extremum space_len_append)

lemma space_len_rev_take: "space_len_rev s = 0 \<Longrightarrow> space_len_rev (take n s) = 0"
  by (metis append_take_drop_id bot_nat_0.not_eq_extremum space_len_rev_append)

text \<open>An ASCII space after a non-space start is not swallowed by a longer rune.\<close>

lemma space_len_before_space:
  "s \<noteq> [] \<Longrightarrow> space_len (s @ CHR '' '' # t) = space_len s"
  by (induction s rule: space_len.induct; cases t)
     (auto simp: space2_def space3_def)

section \<open>TrimSpace\<close>

function trim_left :: "string \<Rightarrow> string" where
  "trim_left s = (if space_len s = 0 then s else trim_left (drop (space_len s) s))"
  by pat_completeness auto
termination
  by (relation "measure length") (auto intro: drop_space_less)

function trim_rev :: "string \<Rightarrow> string" where
  "trim_rev s = (if space_len_rev s = 0 then s else trim_rev (drop (space_len_rev s) s))"
  by pat_completeness auto
termination
  by (relation "measure length") (auto intro: drop_space_rev_less)

declare trim_left.simps [simp del] trim_rev.simps [simp del]

definition trim_space :: "string \<Rightarrow> string" where
  "trim_space s = rev (trim_rev (rev (trim_left s)))"

lemma trim_left_no_space [simp]: "space_len (trim_left s) = 0"
  by (induction s rule: trim_left.induct) (metis trim_left.simps)

lemma trim_rev_no_space [simp]: "space_len_rev (trim_rev s) = 0"
  by (induction s rule: trim_rev.induct) (metis trim_rev.simps)

lemma trim_left_id: "space_len s = 0 \<Longrightarrow> trim_left s = s"
  by (simp add: trim_left.simps)

lemma trim_rev_id: "space_len_rev s = 0 \<Longrightarrow> trim_rev s = s"
  by (simp add: trim_rev.simps)

lemma trim_left_suffix: "\<exists>n. trim_left s = drop n s"
proof (induction s rule: trim_left.induct)
  case (1 s)
  show ?case
  proof (cases "space_len s = 0")
    case True
    then show ?thesis by (metis drop0 trim_left_id)
  next
    case False
    then show ?thesis using 1 by (metis drop_drop trim_left.simps)
  qed
qed

lemma trim_rev_suffix: "\<exists>n. trim_rev s = drop n s"
proof (induction s rule: trim_rev.induct)
  case (1 s)
  show ?case
  proof (cases "space_len_rev s = 0")
    case True
    then show ?thesis by (metis drop0 trim_rev_id)
  next
    case False
    then show ?thesis using 1 by (metis drop_drop trim_rev.simps)
  qed
qed

text \<open>A string is trimmed when it has no white space at either end; trimming gives such a one.\<close>

definition trimmed :: "string \<Rightarrow> bool" where
  "trimmed s \<longleftrightarrow> space_len s = 0 \<and> space_len_rev (rev s) = 0"

lemma trimmed_trim_space [simp]: "trimmed (trim_space s)"
proof -
  let ?t = "trim_left s"
  obtain n where n: "trim_rev (rev ?t) = drop n (rev ?t)"
    using trim_rev_suffix by blast
  have "trim_space s = take (length ?t - n) ?t"
    by (simp add: trim_space_def n rev_drop)
  then have "space_len (trim_space s) = 0"
    by (simp add: space_len_take)
  then show ?thesis
    by (simp add: trimmed_def trim_space_def)
qed

lemma trim_space_trimmed: "trimmed s \<Longrightarrow> trim_space s = s"
  by (simp add: trimmed_def trim_space_def trim_left_id trim_rev_id)

lemma trim_space_idem [simp]: "trim_space (trim_space s) = trim_space s"
  by (simp add: trim_space_trimmed)

lemma trim_space_Nil [simp]: "trim_space [] = []"
  by (simp add: trim_space_def trim_left.simps trim_rev.simps)

lemma length_trim_space: "length (trim_space s) \<le> length s"
  by (metis length_rev trim_left_suffix trim_rev_suffix trim_space_def length_drop diff_le_self
      le_trans)


lemma length_trim_left: "length (trim_left s) \<le> length s"
  by (metis trim_left_suffix length_drop diff_le_self)

section \<open>Fields and Join\<close>

text \<open>The number of bytes before the next white space.\<close>

fun word_len :: "string \<Rightarrow> nat" where
  "word_len [] = 0"
| "word_len (c # s) = (if space_len (c # s) = 0 then Suc (word_len s) else 0)"

lemma word_len_le: "word_len s \<le> length s"
  by (induction s) auto

lemma word_len_pos: "s \<noteq> [] \<Longrightarrow> space_len s = 0 \<Longrightarrow> 0 < word_len s"
  by (cases s) auto

function str_fields :: "string \<Rightarrow> string list" where
  "str_fields s =
     (let t = trim_left s in
      if t = [] then [] else take (word_len t) t # str_fields (drop (word_len t) t))"
  by pat_completeness auto
termination
proof (relation "measure length")
  fix s t :: string
  assume t: "t = trim_left s" "t \<noteq> []"
  then have "0 < word_len t" by (simp add: word_len_pos)
  then have "length (drop (word_len t) t) < length t"
    using word_len_le [of t] by simp
  also have "length t \<le> length s" using t length_trim_left by simp
  finally show "(drop (word_len t) t, s) \<in> measure length" by simp
qed simp

declare str_fields.simps [simp del]

definition is_word :: "string \<Rightarrow> bool" where
  "is_word w \<longleftrightarrow> w \<noteq> [] \<and> word_len w = length w"

lemma is_word_nonempty [simp]: "is_word w \<Longrightarrow> w \<noteq> []"
  by (simp add: is_word_def)

lemma word_len_take: "word_len (take (word_len t) t) = word_len t"
proof (induction t)
  case (Cons c s)
  then show ?case
    using space_len_take [of "c # s" "Suc (word_len s)"] by auto
qed simp

lemma fields_are_words: "w \<in> set (str_fields s) \<Longrightarrow> is_word w"
proof (induction s rule: str_fields.induct)
  case (1 s)
  let ?t = "trim_left s"
  show ?case
  proof (cases "?t = []")
    case True
    then show ?thesis using 1 by (simp add: str_fields.simps)
  next
    case False
    then have "is_word (take (word_len ?t) ?t)"
      using word_len_pos [OF False] word_len_le [of ?t]
      by (simp add: is_word_def word_len_take)
    then show ?thesis using 1 False by (subst (asm) str_fields.simps) (auto simp: Let_def)
  qed
qed

lemma word_space_len: "is_word w \<Longrightarrow> space_len w = 0"
  by (cases w) (auto simp: is_word_def split: if_splits)

lemma word_len_space: "word_len (CHR '' '' # t) = 0"
  by (simp add: space_len_ascii ascii_space_def)

lemma word_len_append_space:
  "word_len w = length w \<Longrightarrow> word_len (w @ CHR '' '' # t) = length w"
proof (induction w)
  case Nil
  then show ?case by (simp add: space_len_ascii ascii_space_def)
next
  case (Cons c w)
  then show ?case
    using space_len_before_space [of "c # w" t] by (auto split: if_splits)
qed

lemma trim_left_space: "trim_left (CHR '' '' # t) = trim_left t"
  by (subst trim_left.simps) (simp add: space_len_ascii ascii_space_def)

lemma fields_Nil [simp]: "str_fields [] = []"
  by (simp add: str_fields.simps trim_left.simps)

lemma fields_space: "str_fields (CHR '' '' # t) = str_fields t"
  by (simp add: str_fields.simps [of t] str_fields.simps [of "_ # t"] trim_left_space)

lemma fields_word: "is_word w \<Longrightarrow> str_fields w = [w]"
  by (subst str_fields.simps) (simp add: word_space_len trim_left_id is_word_def)

lemma fields_word_space:
  assumes "is_word w"
  shows "str_fields (w @ CHR '' '' # t) = w # str_fields t"
proof -
  have "space_len (w @ CHR '' '' # t) = 0"
    using assms by (simp add: space_len_before_space word_space_len)
  then show ?thesis
    using assms
    by (subst str_fields.simps)
       (simp add: trim_left_id is_word_def word_len_append_space fields_space)
qed

fun join :: "string \<Rightarrow> string list \<Rightarrow> string" where
  "join sep [] = []"
| "join sep [w] = w"
| "join sep (w # ws) = w @ sep @ join sep ws"

lemma fields_join: "\<forall>w \<in> set ws. is_word w \<Longrightarrow> str_fields (join '' '' ws) = ws"
proof (induction "'' ''" ws rule: join.induct)
  case (3 w v ws)
  then show ?case by (simp add: fields_word_space)
qed (auto simp: fields_word)

lemma fields_join_fields [simp]: "str_fields (join '' '' (str_fields s)) = str_fields s"
  by (simp add: fields_join fields_are_words)

lemma length_join_snoc:
  "ws \<noteq> [] \<Longrightarrow> join sep (ws @ [w]) = join sep ws @ sep @ w"
  by (induction sep ws rule: join.induct) auto

lemma join_eq_Nil: "\<forall>w \<in> set ws. w \<noteq> [] \<Longrightarrow> join sep ws = [] \<longleftrightarrow> ws = []"
  by (cases ws; cases "tl ws") auto

section \<open>Case, substrings, splitting\<close>

definition lower_char :: "char \<Rightarrow> char" where
  "lower_char c = (if CHR ''A'' \<le> c \<and> c \<le> CHR ''Z'' then char_of (of_char c + 32 :: nat) else c)"

definition upper_char :: "char \<Rightarrow> char" where
  "upper_char c = (if CHR ''a'' \<le> c \<and> c \<le> CHR ''z'' then char_of (of_char c - 32 :: nat) else c)"

definition to_lower :: "string \<Rightarrow> string" where
  "to_lower = map lower_char"

definition to_upper :: "string \<Rightarrow> string" where
  "to_upper = map upper_char"

definition equal_fold :: "string \<Rightarrow> string \<Rightarrow> bool" where
  "equal_fold a b \<longleftrightarrow> to_lower a = to_lower b"

lemma lower_char_idem [simp]: "lower_char (lower_char c) = lower_char c"
  by (auto simp: lower_char_def less_eq_char_def)

lemma to_lower_idem [simp]: "to_lower (to_lower s) = to_lower s"
  by (simp add: to_lower_def)

definition has_prefix :: "string \<Rightarrow> string \<Rightarrow> bool" where
  "has_prefix s p \<longleftrightarrow> take (length p) s = p"

definition has_suffix :: "string \<Rightarrow> string \<Rightarrow> bool" where
  "has_suffix s p \<longleftrightarrow> length p \<le> length s \<and> drop (length s - length p) s = p"

lemma has_prefix_iff: "has_prefix s p \<longleftrightarrow> (\<exists>t. s = p @ t)"
  unfolding has_prefix_def by (metis append_eq_conv_conj append_take_drop_id)

lemma has_suffix_iff: "has_suffix s p \<longleftrightarrow> (\<exists>t. s = t @ p)"
proof
  assume "has_suffix s p"
  then have "s = take (length s - length p) s @ p"
    by (metis append_take_drop_id has_suffix_def)
  then show "\<exists>t. s = t @ p" ..
qed (auto simp: has_suffix_def)

fun contains :: "string \<Rightarrow> string \<Rightarrow> bool" where
  "contains [] sub \<longleftrightarrow> sub = []"
| "contains (c # s) sub \<longleftrightarrow> has_prefix (c # s) sub \<or> contains s sub"

lemma contains_iff: "contains s sub \<longleftrightarrow> (\<exists>u v. s = u @ sub @ v)"
proof (induction s)
  case (Cons c s)
  have "(\<exists>u v. c # s = u @ sub @ v) \<longleftrightarrow>
        (\<exists>v. c # s = sub @ v) \<or> (\<exists>u v. s = u @ sub @ v)"
    by (metis append_Cons append_Nil append_eq_Cons_conv list.inject)
  with Cons show ?case by (simp add: has_prefix_iff)
qed simp

fun split_on :: "char \<Rightarrow> string \<Rightarrow> string list" where
  "split_on sep [] = [[]]"
| "split_on sep (c # s) =
     (if c = sep then [] # split_on sep s
      else (c # hd (split_on sep s)) # tl (split_on sep s))"

lemma split_on_nonempty [simp]: "split_on sep s \<noteq> []"
  by (cases s) auto

lemma split_on_parts: "p \<in> set (split_on sep s) \<Longrightarrow> sep \<notin> set p"
proof (induction s arbitrary: p)
  case (Cons c s)
  then show ?case
    by (cases "split_on sep s") (auto split: if_splits)
qed simp

lemma join_split_on [simp]: "join [sep] (split_on sep s) = s"
proof (induction s)
  case (Cons c s)
  then show ?case
    by (cases "split_on sep s"; cases "tl (split_on sep s)") auto
qed simp

text \<open>\<open>strings.ReplaceAll(s, CRLF, LF)\<close>.\<close>

fun replace_crlf :: "string \<Rightarrow> string" where
  "replace_crlf (c # d # s) =
     (if c = CHR 0x0D \<and> d = CHR 0x0A then CHR 0x0A # replace_crlf s
      else c # replace_crlf (d # s))"
| "replace_crlf s = s"

section \<open>Numbers as text\<close>

definition digit_char :: "nat \<Rightarrow> char" where
  "digit_char d = char_of (48 + d)"

fun nat_str :: "nat \<Rightarrow> string" where
  "nat_str n = (if n < 10 then [digit_char n] else nat_str (n div 10) @ [digit_char (n mod 10)])"

declare nat_str.simps [simp del]

definition int_str :: "int \<Rightarrow> string" where
  "int_str i = (if i < 0 then CHR ''-'' # nat_str (nat (- i)) else nat_str (nat i))"

section \<open>Paths\<close>

text \<open>\<open>filepath.Base\<close> and \<open>filepath.Ext\<close> on a system whose separator is the slash.\<close>

definition file_base :: "string \<Rightarrow> string" where
  "file_base p =
     (if p = [] then ''.''
      else let r = dropWhile (\<lambda>c. c = CHR ''/'') (rev p);
               b = rev (takeWhile (\<lambda>c. c \<noteq> CHR ''/'') r)
           in if b = [] then ''/'' else b)"

definition file_ext :: "string \<Rightarrow> string" where
  "file_ext p =
     (let r = rev p; e = takeWhile (\<lambda>c. c \<noteq> CHR ''/'' \<and> c \<noteq> CHR ''.'') r
      in (case drop (length e) r of
            [] \<Rightarrow> []
          | c # _ \<Rightarrow> if c = CHR ''.'' then CHR ''.'' # rev e else []))"

text \<open>\<open>path.Clean\<close>, element by element, and \<open>path.Join\<close> of two elements.\<close>

definition clean_step :: "bool \<Rightarrow> string list \<Rightarrow> string \<Rightarrow> string list" where
  "clean_step rooted out elem =
     (if elem = [] \<or> elem = ''.'' then out
      else if elem = ''..'' then
        (if out \<noteq> [] \<and> last out \<noteq> ''..'' then butlast out
         else if rooted then out else out @ [elem])
      else out @ [elem])"

definition path_clean :: "string \<Rightarrow> string" where
  "path_clean p =
     (case p of
        [] \<Rightarrow> ''.''
      | c # _ \<Rightarrow>
          let rooted = (c = CHR ''/'');
              body = join ''/'' (foldl (clean_step rooted) [] (split_on CHR ''/'' p))
          in if rooted then CHR ''/'' # body else if body = [] then ''.'' else body)"

definition path_join :: "string \<Rightarrow> string \<Rightarrow> string" where
  "path_join a b =
     (let p = join ''/'' (filter (\<lambda>e. e \<noteq> []) [a, b]) in if p = [] then [] else path_clean p)"

lemma split_on_no_sep: "sep \<notin> set s \<Longrightarrow> split_on sep s = [s]"
  by (induction s) auto

lemma split_on_append: "sep \<notin> set a \<Longrightarrow> split_on sep (a @ sep # b) = a # split_on sep b"
  by (induction a) auto

lemma file_base_no_slash: "CHR ''/'' \<in> set (file_base p) \<Longrightarrow> file_base p = ''/''"
  by (auto simp: file_base_def Let_def split: if_splits dest: set_takeWhileD)

lemma file_ext_no_slash: "CHR ''/'' \<notin> set (file_ext p)"
  by (auto simp: file_ext_def Let_def split: list.splits dest: set_takeWhileD)

lemma file_ext_shape: "file_ext p = [] \<or> hd (file_ext p) = CHR ''.''"
  by (auto simp: file_ext_def Let_def split: list.splits)

text \<open>A plain directory and a plain file name are joined by one slash.\<close>

lemma path_join_plain:
  assumes "CHR ''/'' \<notin> set a" "CHR ''/'' \<notin> set b"
    and "a \<notin> {[], ''.'', ''..''}" "b \<notin> {[], ''.'', ''..''}"
  shows "path_join a b = a @ ''/'' @ b"
proof -
  obtain c a' where a: "a = c # a'" using assms(3) by (cases a) auto
  with assms(1) have "c \<noteq> CHR ''/''" by auto
  moreover have "split_on CHR ''/'' (a @ CHR ''/'' # b) = [a, b]"
    using assms by (simp add: split_on_append split_on_no_sep)
  ultimately show ?thesis
    using assms a by (simp add: path_join_def path_clean_def clean_step_def)
qed

end
