(* ===== verification/Documents.thy ===== *)
theory Documents
  imports GoStrings
begin

text \<open>
  \<open>internal/documents/service.go\<close>: the document and chunk records, the in-memory repository, the
  chunking of text and the service operations. The service is modelled over its dependencies (the
  repository, the object store, the clock and the id source), which are fields of an environment
  and act on an abstract world \<open>'s\<close>.
\<close>

section \<open>Data\<close>

definition documents_ErrNotFound :: goerr where
  "documents_ErrNotFound = Sentinel ''documents'' ''document not found''"

definition documents_ErrInvalidTenant :: goerr where
  "documents_ErrInvalidTenant = Sentinel ''documents'' ''invalid tenant''"

definition documents_ErrInvalidFilename :: goerr where
  "documents_ErrInvalidFilename = Sentinel ''documents'' ''invalid filename''"

definition documents_ErrMissingContent :: goerr where
  "documents_ErrMissingContent = Sentinel ''documents'' ''missing content''"

definition documents_ErrUnsupportedContentType :: goerr where
  "documents_ErrUnsupportedContentType = Sentinel ''documents'' ''unsupported content type''"

datatype doc_status = StatusUploaded | StatusIngested

definition defaultChunkSize :: nat where
  "defaultChunkSize = 800"

record document =
  doc_ID :: string
  doc_TenantID :: string
  doc_Filename :: string
  doc_ContentType :: string
  doc_SizeBytes :: int
  doc_Checksum :: string
  doc_ObjectKey :: string
  doc_Status :: doc_status
  doc_CreatedAt :: time
  doc_IngestedAt :: time
  doc_ChunkCount :: nat

record chunk =
  chunk_ID :: string
  chunk_DocumentID :: string
  chunk_TenantID :: string
  chunk_ChunkIndex :: nat
  chunk_Content :: string
  chunk_TokenEstimate :: nat
  chunk_CreatedAt :: time

text \<open>\<open>Content\<close> is the reader: absent (nil), or what reading it to its end gives.\<close>

record create_params =
  cp_Filename :: string
  cp_ContentType :: string
  cp_Content :: "string result option"

record stored_object =
  so_SizeBytes :: int
  so_Checksum :: string

section \<open>The in-memory repository\<close>

record document_memory =
  dm_documents :: "string \<rightharpoonup> document"
  dm_chunks :: "string \<rightharpoonup> chunk list"

definition empty_document_memory :: document_memory where
  "empty_document_memory = \<lparr>dm_documents = Map.empty, dm_chunks = Map.empty\<rparr>"

definition doc_mem_Create ::
    "document \<Rightarrow> chunk list \<Rightarrow> document_memory \<Rightarrow> goerr option \<times> document_memory" where
  "doc_mem_Create d cs r =
     (None, r\<lparr>dm_documents := (dm_documents r)(doc_ID d \<mapsto> d),
              dm_chunks := (dm_chunks r)(doc_ID d \<mapsto> cs)\<rparr>)"

definition doc_mem_GetByID ::
    "string \<Rightarrow> string \<Rightarrow> document_memory \<Rightarrow> document result" where
  "doc_mem_GetByID tenant docID r =
     (case dm_documents r docID of
        None \<Rightarrow> Inl documents_ErrNotFound
      | Some d \<Rightarrow> if doc_TenantID d \<noteq> tenant then Inl documents_ErrNotFound else Inr d)"

definition doc_mem_ListChunks ::
    "string \<Rightarrow> string \<Rightarrow> document_memory \<Rightarrow> chunk list result" where
  "doc_mem_ListChunks tenant docID r =
     (case dm_documents r docID of
        None \<Rightarrow> Inl documents_ErrNotFound
      | Some d \<Rightarrow>
          if doc_TenantID d \<noteq> tenant then Inl documents_ErrNotFound
          else Inr (case dm_chunks r docID of None \<Rightarrow> [] | Some cs \<Rightarrow> cs))"

text \<open>A document with its chunks, as a tenant reads both.\<close>

definition doc_mem_read ::
    "string \<Rightarrow> string \<Rightarrow> document_memory \<Rightarrow> (document \<times> chunk list) result" where
  "doc_mem_read tenant docID r =
     (case doc_mem_GetByID tenant docID r of
        Inl e \<Rightarrow> Inl e
      | Inr d \<Rightarrow> (case doc_mem_ListChunks tenant docID r of Inl e \<Rightarrow> Inl e | Inr cs \<Rightarrow> Inr (d, cs)))"

interpretation doc_repo: scoped_store
  "\<lambda>x r. snd (doc_mem_Create (fst x) (snd x) r)"
  doc_mem_read
  "\<lambda>x. doc_ID (fst x)" "\<lambda>x. doc_TenantID (fst x)" documents_ErrNotFound
  by unfold_locales
     (auto simp: doc_mem_Create_def doc_mem_read_def doc_mem_GetByID_def doc_mem_ListChunks_def
           split: option.splits if_splits sum.splits)

section \<open>Chunking\<close>

definition normalizeContentType :: "string \<Rightarrow> string" where
  "normalizeContentType ct = to_lower (takeWhile (\<lambda>c. c \<noteq> CHR '';'') (trim_space ct))"

definition supportedContentType :: "string \<Rightarrow> bool" where
  "supportedContentType ct \<longleftrightarrow> has_prefix ct ''text/'' \<or> ct = ''application/pdf''"

text \<open>The loop of \<open>chunkText\<close>: the words to come, the finished chunks and the builder.\<close>

fun chunk_loop :: "nat \<Rightarrow> string list \<Rightarrow> string list \<Rightarrow> string \<Rightarrow> string list" where
  "chunk_loop m [] chunks b = (if 0 < length b then chunks @ [b] else chunks)"
| "chunk_loop m (w # ws) chunks b =
     (if length b = 0 then chunk_loop m ws chunks (b @ w)
      else
        let (chunks', b') = (if length b + 1 + length w > m then (chunks @ [b], [])
                             else (chunks, b));
            b'' = (if 0 < length b' then b' @ '' '' else b')
        in chunk_loop m ws chunks' (b'' @ w))"

definition chunkText :: "string \<Rightarrow> nat \<Rightarrow> string list" where
  "chunkText content m =
     (let words = str_fields (replace_crlf content) in
      if words = [] then [] else chunk_loop m words [] [])"

text \<open>
  The loop keeps: the builder is its words joined by single spaces; its first word was put there
  because it did not fit the chunk before it.
\<close>

definition chunk_fits :: "nat \<Rightarrow> string \<Rightarrow> bool" where
  "chunk_fits m c \<longleftrightarrow> length c \<le> m \<or> is_word c"

definition chunk_overflows :: "nat \<Rightarrow> string \<Rightarrow> string \<Rightarrow> bool" where
  "chunk_overflows m c d \<longleftrightarrow> m < length c + 1 + length (hd (str_fields d))"

lemma chunk_loop_words:
  assumes "\<forall>w \<in> set ws. is_word w" and "\<forall>w \<in> set bs. is_word w"
  shows "concat (map str_fields (chunk_loop m ws cs (join '' '' bs))) = concat (map str_fields cs) @ bs @ ws"
  using assms
proof (induction ws arbitrary: cs bs)
  case Nil
  have "0 < length (join '' '' bs) \<longleftrightarrow> bs \<noteq> []"
    using Nil by (metis is_word_nonempty join_eq_Nil length_greater_0_conv)
  with Nil show ?case by (simp add: fields_join)
next
  case (Cons w ws)
  show ?case
  proof (cases "bs = []")
    case True
    then show ?thesis using Cons.prems Cons.IH [of "[w]" cs] by simp
  next
    case False
    then have nonempty: "join '' '' bs \<noteq> []"
      using Cons.prems by (simp add: join_eq_Nil)
    have snoc: "join '' '' bs @ '' '' @ w = join '' '' (bs @ [w])"
      using False by (simp add: length_join_snoc)
    show ?thesis
      using nonempty Cons.prems Cons.IH [of "[w]" "cs @ [join '' '' bs]"]
        Cons.IH [of "bs @ [w]" cs] snoc
      by (simp add: fields_join)
  qed
qed

lemma chunk_loop_sizes:
  assumes "\<forall>w \<in> set ws. is_word w" and "\<forall>c \<in> set cs. chunk_fits m c"
    and "b = [] \<or> chunk_fits m b"
  shows "\<forall>c \<in> set (chunk_loop m ws cs b). chunk_fits m c"
  using assms
proof (induction ws arbitrary: cs b)
  case (Cons w ws)
  have word: "chunk_fits m w" "\<forall>v \<in> set ws. is_word v"
    using Cons.prems by (simp_all add: chunk_fits_def)
  consider "b = []" | "b \<noteq> []" "length b + 1 + length w > m" | "b \<noteq> []" "length b + 1 + length w \<le> m"
    by linarith
  then show ?case
  proof cases
    case 1
    then have step: "chunk_loop m (w # ws) cs b = chunk_loop m ws cs w" by simp
    show ?thesis unfolding step by (rule Cons.IH) (use word Cons.prems(2) in simp_all)
  next
    case 2
    then have step: "chunk_loop m (w # ws) cs b = chunk_loop m ws (cs @ [b]) w" by simp
    show ?thesis unfolding step by (rule Cons.IH) (use word Cons.prems(2,3) 2 in auto)
  next
    case 3
    then have step: "chunk_loop m (w # ws) cs b = chunk_loop m ws cs (b @ '' '' @ w)" by simp
    have "chunk_fits m (b @ '' '' @ w)" using 3 by (simp add: chunk_fits_def)
    then show ?thesis unfolding step by (intro Cons.IH) (use word Cons.prems(2) in simp_all)
  qed
qed auto

lemma chunk_loop_greedy:
  assumes "\<forall>w \<in> set ws. is_word w" and "\<forall>w \<in> set bs. is_word w" "bs \<noteq> []"
    and "successively (chunk_overflows m) (cs @ [join '' '' bs])"
  shows "successively (chunk_overflows m) (chunk_loop m ws cs (join '' '' bs))"
  using assms
proof (induction ws arbitrary: cs bs)
  case Nil
  then show ?case by (auto simp: successively_append_iff)
next
  case (Cons w ws)
  have nonempty: "join '' '' bs \<noteq> []"
    using Cons.prems by (simp add: join_eq_Nil)
  have snoc: "join '' '' bs @ '' '' @ w = join '' '' (bs @ [w])"
    using Cons.prems by (simp add: length_join_snoc)
  have grown: "successively (chunk_overflows m) (cs @ [join '' '' (bs @ [w])])"
    using Cons.prems by (auto simp: successively_append_iff chunk_overflows_def fields_join)
  show ?case
  proof (cases "length (join '' '' bs) + 1 + length w > m")
    case True
    have step: "chunk_loop m (w # ws) cs (join '' '' bs) =
        chunk_loop m ws (cs @ [join '' '' bs]) (join '' '' [w])"
      using True nonempty by simp
    have "successively (chunk_overflows m) ((cs @ [join '' '' bs]) @ [join '' '' [w]])"
      using Cons.prems True
      by (auto simp: successively_append_iff chunk_overflows_def fields_word)
    then show ?thesis unfolding step by (intro Cons.IH) (use Cons.prems in simp_all)
  next
    case False
    have step: "chunk_loop m (w # ws) cs (join '' '' bs) = chunk_loop m ws cs (join '' '' (bs @ [w]))"
      using False nonempty snoc by simp
    show ?thesis unfolding step using grown by (intro Cons.IH) (use Cons.prems in simp_all)
  qed
qed

lemma chunk_loop_start: "chunk_loop m (w # ws) [] [] = chunk_loop m ws [] (join '' '' [w])"
  by simp

section \<open>The service\<close>

record 's doc_env =
  de_Create :: "document \<Rightarrow> chunk list \<Rightarrow> 's \<Rightarrow> goerr option \<times> 's"
  de_GetByID :: "string \<Rightarrow> string \<Rightarrow> 's \<Rightarrow> document result"
  de_ListChunks :: "string \<Rightarrow> string \<Rightarrow> 's \<Rightarrow> chunk list result"
  de_Put :: "string \<Rightarrow> string \<Rightarrow> 's \<Rightarrow> stored_object result \<times> 's"
  de_now :: "'s \<Rightarrow> time \<times> 's"
  de_newID :: "'s \<Rightarrow> string result \<times> 's"

fun build_chunk_list ::
    "'s doc_env \<Rightarrow> string \<Rightarrow> string \<Rightarrow> time \<Rightarrow> nat \<Rightarrow> string list \<Rightarrow> 's \<Rightarrow> chunk list result \<times> 's" where
  "build_chunk_list E documentID tenantID createdAt index [] s = (Inr [], s)"
| "build_chunk_list E documentID tenantID createdAt index (part # parts) s =
     (case de_newID E s of
        (Inl e, s1) \<Rightarrow> (Inl (wrap ''generate chunk id'' e), s1)
      | (Inr chunkID, s1) \<Rightarrow>
          (case build_chunk_list E documentID tenantID createdAt (Suc index) parts s1 of
             (Inl e, s2) \<Rightarrow> (Inl e, s2)
           | (Inr cs, s2) \<Rightarrow>
               (Inr (\<lparr>chunk_ID = chunkID, chunk_DocumentID = documentID,
                      chunk_TenantID = tenantID, chunk_ChunkIndex = index,
                      chunk_Content = part, chunk_TokenEstimate = length (str_fields part),
                      chunk_CreatedAt = createdAt\<rparr> # cs), s2)))"

definition buildChunks ::
    "'s doc_env \<Rightarrow> string \<Rightarrow> string \<Rightarrow> string \<Rightarrow> string \<Rightarrow> time \<Rightarrow> 's \<Rightarrow> chunk list result \<times> 's" where
  "buildChunks E documentID tenantID contentType content createdAt s =
     (if \<not> has_prefix contentType ''text/'' then (Inr [], s)
      else build_chunk_list E documentID tenantID createdAt 0
             (chunkText content defaultChunkSize) s)"

definition new_document ::
    "string \<Rightarrow> string \<Rightarrow> string \<Rightarrow> string \<Rightarrow> string \<Rightarrow> stored_object \<Rightarrow> time \<Rightarrow> chunk list \<Rightarrow> document" where
  "new_document documentID tenantID filename contentType objectKey stored createdAt chunks =
     (let d = \<lparr>doc_ID = documentID, doc_TenantID = tenantID, doc_Filename = filename,
               doc_ContentType = contentType, doc_SizeBytes = so_SizeBytes stored,
               doc_Checksum = so_Checksum stored, doc_ObjectKey = objectKey,
               doc_Status = StatusUploaded, doc_CreatedAt = createdAt,
               doc_IngestedAt = zero_time, doc_ChunkCount = length chunks\<rparr>
      in if 0 < length chunks then d\<lparr>doc_Status := StatusIngested, doc_IngestedAt := createdAt\<rparr>
         else d)"

text \<open>From the reading of the content on: store the object, chunk it, store the metadata.\<close>

definition store_document ::
    "'s doc_env \<Rightarrow> string \<Rightarrow> string \<Rightarrow> string \<Rightarrow> string \<Rightarrow> string \<Rightarrow> 's \<Rightarrow> document result \<times> 's" where
  "store_document E tenantID filename contentType documentID content s =
     (let objectKey = path_join tenantID (documentID @ file_ext filename) in
      case de_Put E objectKey content s of
        (Inl e, s1) \<Rightarrow> (Inl (wrap ''store document object'' e), s1)
      | (Inr stored, s1) \<Rightarrow>
          (case de_now E s1 of (createdAt, s2) \<Rightarrow>
             (case buildChunks E documentID tenantID contentType content createdAt s2 of
                (Inl e, s3) \<Rightarrow> (Inl e, s3)
              | (Inr chunks, s3) \<Rightarrow>
                  let d = new_document documentID tenantID filename contentType objectKey
                            stored createdAt chunks
                  in (case de_Create E d chunks s3 of
                        (Some e, s4) \<Rightarrow> (Inl (wrap ''persist document metadata'' e), s4)
                      | (None, s4) \<Rightarrow> (Inr d, s4)))))"

definition documents_Create ::
    "'s doc_env \<Rightarrow> string \<Rightarrow> create_params \<Rightarrow> 's \<Rightarrow> document result \<times> 's" where
  "documents_Create E tenantID params s =
     (if trim_space tenantID = [] then (Inl documents_ErrInvalidTenant, s)
      else
        let filename = file_base (trim_space (cp_Filename params)) in
        if filename = [] \<or> filename = ''.'' then (Inl documents_ErrInvalidFilename, s)
        else case cp_Content params of
          None \<Rightarrow> (Inl documents_ErrMissingContent, s)
        | Some reader \<Rightarrow>
            let contentType = normalizeContentType (cp_ContentType params) in
            if \<not> supportedContentType contentType
            then (Inl documents_ErrUnsupportedContentType, s)
            else (case de_newID E s of
                (Inl e, s1) \<Rightarrow> (Inl (wrap ''generate document id'' e), s1)
              | (Inr documentID, s1) \<Rightarrow>
                  (case reader of
                     Inl e \<Rightarrow> (Inl (wrap ''read document content'' e), s1)
                   | Inr content \<Rightarrow>
                       store_document E tenantID filename contentType documentID content s1)))"

definition documents_Get :: "'s doc_env \<Rightarrow> string \<Rightarrow> string \<Rightarrow> 's \<Rightarrow> document result" where
  "documents_Get E tenantID documentID s =
     (if trim_space tenantID = [] then Inl documents_ErrInvalidTenant
      else de_GetByID E tenantID documentID s)"

definition documents_ListChunks :: "'s doc_env \<Rightarrow> string \<Rightarrow> string \<Rightarrow> 's \<Rightarrow> chunk list result" where
  "documents_ListChunks E tenantID documentID s =
     (if trim_space tenantID = [] then Inl documents_ErrInvalidTenant
      else de_ListChunks E tenantID documentID s)"

section \<open>Properties\<close>

lemma build_chunk_list_result:
  "build_chunk_list E d t c i parts s = (Inr cs, s') \<Longrightarrow>
     map chunk_Content cs = parts \<and> map chunk_ChunkIndex cs = [i ..< i + length parts] \<and>
     (\<forall>k \<in> set cs. chunk_DocumentID k = d \<and> chunk_TenantID k = t \<and>
        chunk_TokenEstimate k = length (str_fields (chunk_Content k)))"
proof (induction parts arbitrary: i s cs s')
  case (Cons p parts)
  from Cons.prems obtain k s1 cs1 where k: "de_newID E s = (Inr k, s1)"
    and cs1: "build_chunk_list E d t c (Suc i) parts s1 = (Inr cs1, s')"
    and cs: "cs = \<lparr>chunk_ID = k, chunk_DocumentID = d, chunk_TenantID = t, chunk_ChunkIndex = i,
                  chunk_Content = p, chunk_TokenEstimate = length (str_fields p),
                  chunk_CreatedAt = c\<rparr> # cs1"
    by (auto split: go_split)
  have "[i ..< i + length (p # parts)] = i # [Suc i ..< Suc i + length parts]"
    by (simp add: upt_conv_Cons del: upt_Suc)
  then show ?case using Cons.IH [OF cs1] cs by auto
qed simp

lemma chunkText_words: "concat (map str_fields (chunkText content m)) = str_fields (replace_crlf content)"
proof (cases "str_fields (replace_crlf content)")
  case (Cons w ws)
  then have "\<forall>v \<in> set (w # ws). is_word v"
    using fields_are_words by metis
  then show ?thesis
    using Cons chunk_loop_words [of "w # ws" "[]" m "[]"] by (simp add: chunkText_def)
qed (simp add: chunkText_def)

text \<open>C39: \<open>chunkText\<close> loses nothing and invents nothing. Splitting the chunks into words again gives
  exactly the words of the document, in their order, whatever the chunk size.\<close>
theorem chunkText_lossless:
  "concat (map str_fields (chunkText content m)) = str_fields (replace_crlf content)"
  by (rule chunkText_words)

text \<open>Every chunk fits the limit, except that a single word longer than the limit is a chunk
  of its own; and chunking is greedy: the first word of each chunk would not have fitted at the
  end of the chunk before it.\<close>
theorem chunkText_bounds:
  "list_all (\<lambda>c. length c \<le> m \<or> is_word c) (chunkText content m) \<and>
   successively (\<lambda>c d. m < length c + 1 + length (hd (str_fields d))) (chunkText content m)"
proof (cases "str_fields (replace_crlf content)")
  case (Cons w ws)
  then have words: "\<forall>v \<in> set (w # ws). is_word v"
    using fields_are_words by metis
  have "\<forall>c \<in> set (chunk_loop m (w # ws) [] []). chunk_fits m c"
    by (rule chunk_loop_sizes) (use words in auto)
  moreover have "successively (chunk_overflows m) (chunk_loop m ws [] (join '' '' [w]))"
    by (rule chunk_loop_greedy) (use words in auto)
  ultimately show ?thesis
    using Cons by (simp add: chunkText_def chunk_fits_def chunk_overflows_def [abs_def] list_all_iff)
qed (simp add: chunkText_def)

lemma chunk_tokens_total:
  "map chunk_Content cs = chunkText content m \<Longrightarrow>
   \<forall>k \<in> set cs. chunk_TokenEstimate k = length (str_fields (chunk_Content k)) \<Longrightarrow>
   sum_list (map chunk_TokenEstimate cs) = length (str_fields (replace_crlf content))"
proof -
  assume contents: "map chunk_Content cs = chunkText content m"
    and tokens: "\<forall>k \<in> set cs. chunk_TokenEstimate k = length (str_fields (chunk_Content k))"
  have "map chunk_TokenEstimate cs = map (length \<circ> str_fields) (map chunk_Content cs)"
    using tokens by simp
  also have "sum_list \<dots> = length (concat (map str_fields (chunkText content m)))"
    by (simp add: contents length_concat)
  finally show ?thesis by (simp add: chunkText_words)
qed

text \<open>What a successful upload amounts to, read off the operation once for the properties below.\<close>

lemma documents_Create_success:
  assumes "documents_Create E t p s = (Inr d, s')"
  obtains content s0 chunks s2 s3 filename where
    "trim_space t \<noteq> []" "cp_Content p = Some (Inr content)"
    "filename = file_base (trim_space (cp_Filename p))"
    "doc_ContentType d = normalizeContentType (cp_ContentType p)"
    "supportedContentType (doc_ContentType d)"
    "doc_ObjectKey d = path_join t (doc_ID d @ file_ext filename)"
    "buildChunks E (doc_ID d) t (doc_ContentType d) content (doc_CreatedAt d) s2 = (Inr chunks, s3)"
    "de_newID E s = (Inr (doc_ID d), s0)"
    "de_Create E d chunks s3 = (None, s')"
    "doc_TenantID d = t" "doc_ChunkCount d = length chunks"
    "doc_Status d = StatusIngested \<longleftrightarrow> chunks \<noteq> []"
proof -
  obtain content documentID s1 where step:
    "trim_space t \<noteq> []" "cp_Content p = Some (Inr content)" "de_newID E s = (Inr documentID, s1)"
    "supportedContentType (normalizeContentType (cp_ContentType p))"
    "store_document E t (file_base (trim_space (cp_Filename p)))
       (normalizeContentType (cp_ContentType p)) documentID content s1 = (Inr d, s')"
    using assms by (auto simp: documents_Create_def Let_def split: go_split)
  let ?key = "path_join t (documentID @ file_ext (file_base (trim_space (cp_Filename p))))"
  obtain stored createdAt chunks s2 s3 where
    "buildChunks E documentID t (normalizeContentType (cp_ContentType p)) content createdAt s2
       = (Inr chunks, s3)"
    "d = new_document documentID t (file_base (trim_space (cp_Filename p)))
           (normalizeContentType (cp_ContentType p)) ?key stored createdAt chunks"
    "de_Create E d chunks s3 = (None, s')"
    using step(5) by (auto simp: store_document_def Let_def split: go_split)
  with step show ?thesis
    by (intro that) (auto simp: new_document_def Let_def)
qed

text \<open>A successful upload stores the document under the caller's tenant together with its
  chunks, whose indices count from 0, which belong to the document and the tenant, and whose token
  estimates add up to the number of words of a text document; the status is ingested exactly when
  there are chunks.\<close>
theorem documents_Create_stores:
  assumes "documents_Create E t p s = (Inr d, s')" and "cp_Content p = Some (Inr content)"
  shows "\<exists>chunks s3. de_Create E d chunks s3 = (None, s') \<and> doc_TenantID d = t \<and>
    doc_ChunkCount d = length chunks \<and> (doc_Status d = StatusIngested \<longleftrightarrow> chunks \<noteq> []) \<and>
    map chunk_ChunkIndex chunks = [0 ..< length chunks] \<and>
    list_all (\<lambda>k. chunk_DocumentID k = doc_ID d \<and> chunk_TenantID k = t) chunks \<and>
    sum_list (map chunk_TokenEstimate chunks) =
      (if has_prefix (doc_ContentType d) ''text/'' then length (str_fields (replace_crlf content))
       else 0)"
  using assms(1)
proof (rule documents_Create_success)
  fix content' s0 chunks s2 s3 filename
  assume c: "cp_Content p = Some (Inr content')"
    and built: "buildChunks E (doc_ID d) t (doc_ContentType d) content' (doc_CreatedAt d) s2
      = (Inr chunks, s3)"
    and rest: "de_Create E d chunks s3 = (None, s')" "doc_TenantID d = t"
      "doc_ChunkCount d = length chunks" "doc_Status d = StatusIngested \<longleftrightarrow> chunks \<noteq> []"
  have "map chunk_ChunkIndex chunks = [0 ..< length chunks] \<and>
    list_all (\<lambda>k. chunk_DocumentID k = doc_ID d \<and> chunk_TenantID k = t) chunks \<and>
    sum_list (map chunk_TokenEstimate chunks) =
      (if has_prefix (doc_ContentType d) ''text/'' then length (str_fields (replace_crlf content))
       else 0)"
  proof (cases "has_prefix (doc_ContentType d) ''text/''")
    case True
    then have "build_chunk_list E (doc_ID d) t (doc_CreatedAt d) 0
        (chunkText content defaultChunkSize) s2 = (Inr chunks, s3)"
      using built c assms(2) by (simp add: buildChunks_def)
    note list = build_chunk_list_result [OF this]
    then have "length chunks = length (chunkText content defaultChunkSize)"
      by (metis length_map)
    with list True show ?thesis
      by (simp add: list_all_iff chunk_tokens_total)
  next
    case False
    then show ?thesis using built by (simp add: buildChunks_def)
  qed
  with rest show ?thesis by blast
qed

definition demo_upload :: create_params where
  "demo_upload = \<lparr>cp_Filename = ''notes/a.txt'', cp_ContentType = ''text/plain'',
     cp_Content = Some (Inr ''refunds take days'')\<rparr>"

definition demo_documents :: "unit doc_env" where
  "demo_documents = \<lparr>de_Create = (\<lambda>d cs s. (None, s)), de_GetByID = (\<lambda>t k s. Inl documents_ErrNotFound),
     de_ListChunks = (\<lambda>t k s. Inl documents_ErrNotFound),
     de_Put = (\<lambda>k c s. (Inr \<lparr>so_SizeBytes = int (length c), so_Checksum = c\<rparr>, s)),
     de_now = (\<lambda>s. (1, s)), de_newID = (\<lambda>s. (Inr ''d1'', s))\<rparr>"

lemma demo_upload_result:
  "case documents_Create demo_documents ''acme'' demo_upload () of
     (Inr d, s) \<Rightarrow> doc_ID d = ''d1'' | _ \<Rightarrow> False"
  by code_simp

lemma demo_uploadE:
  obtains d s where "documents_Create demo_documents ''acme'' demo_upload () = (Inr d, s)"
    "doc_ID d = ''d1''"
  using demo_upload_result by (auto split: prod.split_asm sum.split_asm)

theorem documents_Create_stores_witness:
  "\<exists>d s. documents_Create demo_documents ''acme'' demo_upload () = (Inr d, s) \<and> doc_TenantID d = ''acme''"
proof -
  obtain d s where created: "documents_Create demo_documents ''acme'' demo_upload () = (Inr d, s)"
    by (rule demo_uploadE)
  have "cp_Content demo_upload = Some (Inr ''refunds take days'')" by (simp add: demo_upload_def)
  from documents_Create_stores [OF created this] created show ?thesis by blast
qed

text \<open>Whatever filename the client sends, the object of an uploaded document is stored in the
  tenant's own directory under the document's id: the key is the tenant, one slash, the id and an
  extension without a slash. (Ids are hexadecimal; tenant ids are single path elements.)\<close>
theorem documents_Create_object_key:
  assumes "documents_Create E t p s = (Inr d, s')"
    and "CHR ''/'' \<notin> set t" "t \<notin> {[], ''.'', ''..''}"
    and "doc_ID d \<noteq> []" "CHR ''/'' \<notin> set (doc_ID d)" "CHR ''.'' \<notin> set (doc_ID d)"
  shows "\<exists>ext. doc_ObjectKey d = t @ ''/'' @ doc_ID d @ ext \<and> CHR ''/'' \<notin> set ext"
  using assms(1)
proof (rule documents_Create_success)
  fix filename
  let ?ext = "file_ext filename"
  assume key: "doc_ObjectKey d = path_join t (doc_ID d @ ?ext)"
  obtain c rest where "doc_ID d = c # rest" "c \<noteq> CHR ''.''"
    using assms(4,6) by (cases "doc_ID d") auto
  then have "doc_ID d @ ?ext \<notin> {[], ''.'', ''..''}" by auto
  then have "doc_ObjectKey d = t @ ''/'' @ doc_ID d @ ?ext"
    unfolding key using assms file_ext_no_slash [of filename] by (intro path_join_plain) auto
  then show ?thesis using file_ext_no_slash by blast
qed

theorem documents_Create_object_key_witness:
  "\<exists>d s ext. documents_Create demo_documents ''acme'' demo_upload () = (Inr d, s) \<and>
     doc_ObjectKey d = ''acme'' @ ''/'' @ ''d1'' @ ext"
proof -
  obtain d s where created: "documents_Create demo_documents ''acme'' demo_upload () = (Inr d, s)"
    and k: "doc_ID d = ''d1''"
    by (rule demo_uploadE)
  have "\<exists>ext. doc_ObjectKey d = ''acme'' @ ''/'' @ doc_ID d @ ext \<and> CHR ''/'' \<notin> set ext"
    by (rule documents_Create_object_key [OF created]) (simp_all add: k)
  with created k show ?thesis by auto
qed

end
