(* ===== verification/Values.thy ===== *)
theory Values
  imports Documents Complex_Main "HOL-Library.AList"
begin

text \<open>
  \<open>internal/executor/helpers.go\<close> and the dynamic values (\<open>any\<close>) it works on: the configuration
  and input of workflow nodes, step outputs and metadata. A \<open>map[string]any\<close> is an association
  list; a nil map and an empty one are the same here, as \<open>len\<close>, \<open>range\<close> and lookups see them. A
  finite float64 is a rational number.
\<close>

section \<open>Dynamic values\<close>

text \<open>One constructor for each dynamic type that the program puts into an \<open>any\<close> or tests for.\<close>

datatype anyv =
    VNil
  | VBool bool
  | VInt int
  | VInt64 int
  | VFloat rat
  | VStr string
  | VStrs "string list"
  | VList "anyv list"
  | VMap "(string \<times> anyv) list"
  | VStrMap "(string \<times> string) list"
  | VChunks "chunk list"

type_synonym vmap = "(string \<times> anyv) list"

text \<open>
  The texts that the standard library gives to non-integral floats and to times, and \<open>fmt.Sprint\<close>
  of a value that is neither nil nor a string, are parameters.
\<close>

record gofmt =
  fmt_float_json :: "rat \<Rightarrow> string"
  fmt_time_json :: "time \<Rightarrow> string"
  fmt_Sprint :: "anyv \<Rightarrow> string"

section \<open>JSON encoding\<close>

definition hex_digit :: "nat \<Rightarrow> char" where
  "hex_digit n = (if n < 10 then char_of (48 + n) else char_of (87 + n))"

definition json_escape :: "char \<Rightarrow> string" where
  "json_escape c =
     (if c = CHR 0x22 \<or> c = CHR 0x5C then [CHR 0x5C, c]
      else if c = CHR 0x08 then [CHR 0x5C, CHR ''b'']
      else if c = CHR 0x0C then [CHR 0x5C, CHR ''f'']
      else if c = CHR 0x0A then [CHR 0x5C, CHR ''n'']
      else if c = CHR 0x0D then [CHR 0x5C, CHR ''r'']
      else if c = CHR 0x09 then [CHR 0x5C, CHR ''t'']
      else if of_char c < (32 :: nat) \<or> c = CHR ''<'' \<or> c = CHR ''>'' \<or> c = CHR ''&'' then
        CHR 0x5C # ''u00'' @ [hex_digit (of_char c div 16), hex_digit (of_char c mod 16)]
      else [c])"

text \<open>Bytes from 128 on are copied, but the two line separators U+2028 and U+2029 are escaped.\<close>

fun json_chars :: "string \<Rightarrow> string" where
  "json_chars (c # d # e # s) =
     (if c = CHR 0xE2 \<and> d = CHR 0x80 \<and> (e = CHR 0xA8 \<or> e = CHR 0xA9)
      then CHR 0x5C # (if e = CHR 0xA8 then ''u2028'' else ''u2029'') @ json_chars s
      else json_escape c @ json_chars (d # e # s))"
| "json_chars (c # s) = json_escape c @ json_chars s"
| "json_chars [] = []"

definition json_string :: "string \<Rightarrow> string" where
  "json_string s = CHR 0x22 # json_chars s @ [CHR 0x22]"

definition json_float :: "gofmt \<Rightarrow> rat \<Rightarrow> string" where
  "json_float F r = (if of_int \<lfloor>r\<rfloor> = r \<and> \<bar>r\<bar> < 2 ^ 53 then int_str \<lfloor>r\<rfloor> else fmt_float_json F r)"

definition json_array :: "string list \<Rightarrow> string" where
  "json_array items = ''['' @ join '','' items @ '']''"

text \<open>Keys are encoded in sorted order, so the text does not depend on Go's map iteration.\<close>

definition json_object :: "(string \<times> string) list \<Rightarrow> string" where
  "json_object members =
     ''{'' @ join '','' (map (\<lambda>(k, v). json_string k @ '':'' @ v) (sort_key fst members)) @ ''}''"

definition json_struct :: "(string \<times> string) list \<Rightarrow> string" where
  "json_struct members =
     ''{'' @ join '','' (map (\<lambda>(k, v). json_string k @ '':'' @ v) members) @ ''}''"

definition json_chunk :: "gofmt \<Rightarrow> chunk \<Rightarrow> string" where
  "json_chunk F c = json_struct
     [(''id'', json_string (chunk_ID c)),
      (''document_id'', json_string (chunk_DocumentID c)),
      (''tenant_id'', json_string (chunk_TenantID c)),
      (''chunk_index'', nat_str (chunk_ChunkIndex c)),
      (''content'', json_string (chunk_Content c)),
      (''token_estimate'', nat_str (chunk_TokenEstimate c)),
      (''created_at'', json_string (fmt_time_json F (chunk_CreatedAt c)))]"

fun json_marshal :: "gofmt \<Rightarrow> anyv \<Rightarrow> string" where
  "json_marshal F VNil = ''null''"
| "json_marshal F (VBool b) = (if b then ''true'' else ''false'')"
| "json_marshal F (VInt i) = int_str i"
| "json_marshal F (VInt64 i) = int_str i"
| "json_marshal F (VFloat r) = json_float F r"
| "json_marshal F (VStr s) = json_string s"
| "json_marshal F (VStrs ss) = json_array (map json_string ss)"
| "json_marshal F (VList vs) = json_array (map (json_marshal F) vs)"
| "json_marshal F (VMap kvs) = json_object (map (\<lambda>kv. (fst kv, json_marshal F (snd kv))) kvs)"
| "json_marshal F (VStrMap kvs) = json_object (map (\<lambda>kv. (fst kv, json_string (snd kv))) kvs)"
| "json_marshal F (VChunks cs) = json_array (map (json_chunk F) cs)"

lemma sort_key_fst_permutation:
  assumes "mset xs = mset ys" and "distinct (map fst xs)"
  shows "sort_key fst xs = sort_key fst ys"
proof (rule map_sorted_distinct_set_unique [where f = fst])
  have distinct: "distinct (map fst ys)"
    using assms by (metis mset_eq_imp_distinct_iff mset_map)
  have set: "set xs = set ys" using assms(1) by (metis set_mset_mset)
  show "inj_on fst (set (sort_key fst xs) \<union> set (sort_key fst ys))"
    using assms(2) set by (simp add: distinct_map)
  show "distinct (map fst (sort_key fst xs))" "distinct (map fst (sort_key fst ys))"
    using assms(2) distinct by (simp_all add: distinct_map)
  show "set (sort_key fst xs) = set (sort_key fst ys)" by (simp add: set)
qed simp_all

lemma json_object_permutation:
  "mset xs = mset ys \<Longrightarrow> distinct (map fst xs) \<Longrightarrow> json_object xs = json_object ys"
  unfolding json_object_def by (simp only: sort_key_fst_permutation)

section \<open>Rendering a value as text\<close>

text \<open>
  \<open>renderAny\<close>: nil is empty, everything else its JSON text. (\<open>json.Marshal\<close> fails on no value of
  this type, so the \<open>fmt.Sprint\<close> fallback of the source is not reached.)
\<close>

definition renderAny :: "gofmt \<Rightarrow> anyv \<Rightarrow> string" where
  "renderAny F v = (if v = VNil then [] else json_marshal F v)"

definition anyString :: "gofmt \<Rightarrow> anyv \<Rightarrow> string" where
  "anyString F v = (case v of VStr s \<Rightarrow> s | _ \<Rightarrow> renderAny F v)"

text \<open>Reading a missing key of a \<open>map[string]any\<close> gives nil.\<close>

definition lookup_any :: "vmap \<Rightarrow> string \<Rightarrow> anyv" where
  "lookup_any m k = (case map_of m k of None \<Rightarrow> VNil | Some v \<Rightarrow> v)"

section \<open>Configuration\<close>

definition stringSliceConfig :: "gofmt \<Rightarrow> vmap \<Rightarrow> string \<Rightarrow> string list" where
  "stringSliceConfig F config key =
     (case map_of config key of
        None \<Rightarrow> []
      | Some (VStrs typed) \<Rightarrow> typed
      | Some (VList typed) \<Rightarrow>
          filter (\<lambda>text. text \<noteq> []) (map (\<lambda>item. trim_space (anyString F item)) typed)
      | Some _ \<Rightarrow> [])"

definition stringConfig :: "gofmt \<Rightarrow> vmap \<Rightarrow> string \<Rightarrow> string \<Rightarrow> string" where
  "stringConfig F config key fallback =
     (case map_of config key of
        None \<Rightarrow> fallback
      | Some value \<Rightarrow>
          let text = trim_space (anyString F value) in if text \<noteq> [] then text else fallback)"

definition stringMapConfig :: "gofmt \<Rightarrow> vmap \<Rightarrow> string \<Rightarrow> (string \<times> string) list" where
  "stringMapConfig F config key =
     (case map_of config key of
        None \<Rightarrow> []
      | Some (VStrMap typed) \<Rightarrow>
          fold (\<lambda>(k, v) cloned.
            let cleanKey = trim_space k
            in if cleanKey \<noteq> [] then AList.update cleanKey (trim_space v) cloned else cloned)
            typed []
      | Some (VMap typed) \<Rightarrow>
          fold (\<lambda>(k, v) cloned.
            let cleanKey = trim_space k; cleanValue = trim_space (anyString F v)
            in if cleanKey \<noteq> [] \<and> cleanValue \<noteq> [] then AList.update cleanKey cleanValue cloned
               else cloned)
            typed []
      | Some _ \<Rightarrow> [])"

text \<open>\<open>int(f)\<close> of a float64 truncates towards zero.\<close>

definition truncate_float :: "rat \<Rightarrow> int" where
  "truncate_float r = (if 0 \<le> r then \<lfloor>r\<rfloor> else \<lceil>r\<rceil>)"

definition intConfig :: "vmap \<Rightarrow> string \<Rightarrow> int \<Rightarrow> int" where
  "intConfig config key fallback =
     (case map_of config key of
        None \<Rightarrow> fallback
      | Some (VInt typed) \<Rightarrow> typed
      | Some (VInt64 typed) \<Rightarrow> typed
      | Some (VFloat typed) \<Rightarrow> truncate_float typed
      | Some _ \<Rightarrow> fallback)"

lemma stringConfig_trimmed:
  "trimmed fallback \<Longrightarrow> trimmed (stringConfig F config key fallback)"
  by (auto simp: stringConfig_def Let_def split: option.splits)

lemma stringConfig_missing [simp]: "stringConfig F [] key fallback = fallback"
  by (simp add: stringConfig_def)

section \<open>Maps and queues\<close>

text \<open>Copies of maps: in the model values are not shared, so a copy is the value itself.\<close>

definition cloneMap :: "vmap \<Rightarrow> vmap" where
  "cloneMap input = input"

definition cloneBoolMap :: "string set \<Rightarrow> string set" where
  "cloneBoolMap input = input"

definition mergeInput :: "vmap \<Rightarrow> vmap \<Rightarrow> vmap" where
  "mergeInput base extra = fold (\<lambda>(k, v) merged. AList.update k v merged) extra (cloneMap base)"

lemma map_of_mergeInput:
  "distinct (map fst extra) \<Longrightarrow> map_of (mergeInput base extra) = map_of base ++ map_of extra"
proof (induction extra rule: rev_induct)
  case (snoc kv extra)
  then show ?case
    by (cases kv) (auto simp: mergeInput_def update_conv' map_add_def fun_eq_iff map_of_eq_None_iff
        rev_image_eqI split: option.splits)
qed (simp add: mergeInput_def cloneMap_def)

text \<open>
  The nodes that become ready are appended to the queue unless they were executed or are queued
  already; \<open>executed\<close> and \<open>queued\<close> are the maps from node ids to true.
\<close>

fun push_next ::
    "string set \<Rightarrow> string list \<Rightarrow> string list \<Rightarrow> string set \<Rightarrow> string list \<times> string set" where
  "push_next executed [] queue queued = (queue, queued)"
| "push_next executed (nodeID # next_ids) queue queued =
     (if nodeID \<in> executed \<or> nodeID \<in> queued then push_next executed next_ids queue queued
      else push_next executed next_ids (queue @ [nodeID]) (insert nodeID queued))"

definition appendQueue :: "string list \<Rightarrow> string list \<Rightarrow> string set \<Rightarrow> string list" where
  "appendQueue existing next_ids executed =
     fst (push_next executed next_ids existing (set existing))"

lemma push_next_queue:
  assumes "push_next executed ns queue queued = (queue', queued')"
  shows "\<exists>new. queue' = queue @ new \<and> queued' = queued \<union> set new \<and> distinct new \<and>
    set new \<subseteq> set ns \<and> set new \<inter> (executed \<union> queued) = {} \<and>
    set ns \<subseteq> executed \<union> queued \<union> set new"
  using assms
proof (induction executed ns queue queued rule: push_next.induct)
  case (2 executed n ns queue queued)
  show ?case
  proof (cases "n \<in> executed \<or> n \<in> queued")
    case True
    then show ?thesis using 2 by auto
  next
    case False
    then obtain new where new: "queue' = (queue @ [n]) @ new" "queued' = insert n queued \<union> set new"
      "distinct new" "set new \<subseteq> set ns" "set new \<inter> (executed \<union> insert n queued) = {}"
      "set ns \<subseteq> executed \<union> insert n queued \<union> set new"
      using "2.IH"(2) "2.prems" by auto
    then show ?thesis using False by (intro exI [of _ "n # new"]) auto
  qed
qed auto

text \<open>\<open>queued\<close> as the set of the queue's elements is maintained.\<close>

lemma push_next_set:
  "push_next executed ns queue (set queue) = (queue', queued') \<Longrightarrow> queued' = set queue'"
  using push_next_queue by fastforce

lemma set_appendQueue:
  "set (appendQueue existing ns executed) = set existing \<union> (set ns - executed)"
  using push_next_queue [of executed ns existing "set existing"]
  by (cases "push_next executed ns existing (set existing)") (auto simp: appendQueue_def)

text \<open>\<open>lexicalScore\<close>: how many words of the query occur in the content, or 1 for no query.\<close>

definition lexicalScore :: "string \<Rightarrow> string \<Rightarrow> int" where
  "lexicalScore query content =
     (if query = [] then 1
      else int (length (filter (contains (to_lower content)) (str_fields query))))"

lemma lexicalScore_bounds:
  "0 \<le> lexicalScore query content \<and>
   lexicalScore query content \<le> (if query = [] then 1 else int (length (str_fields query)))"
  by (simp add: lexicalScore_def)

end
