(* ===== verification/RunStore.thy ===== *)
theory RunStore
  imports Values
begin

text \<open>
  The data of \<open>internal/executor/service.go\<close> (runs, steps, the state of a run that waits for an
  approval) and its in-memory repository. The repository's methods run under its mutex, so each is
  one atomic step on its state.
\<close>

section \<open>Data\<close>

definition exec_ErrNotFound :: goerr where
  "exec_ErrNotFound = Sentinel ''executor'' ''workflow run not found''"

definition exec_ErrInvalidTenant :: goerr where
  "exec_ErrInvalidTenant = Sentinel ''executor'' ''invalid tenant''"

definition ErrRunNotAwaitingReview :: goerr where
  "ErrRunNotAwaitingReview = Sentinel ''executor'' ''workflow run is not awaiting approval''"

definition ErrAsyncDisabled :: goerr where
  "ErrAsyncDisabled = Sentinel ''executor'' ''async execution is not configured''"

datatype run_status =
    RunStatusQueued
  | RunStatusRunning
  | RunStatusWaitingApproval
  | RunStatusCompleted
  | RunStatusFailed
  | RunStatusDeadLetter

fun run_status_text :: "run_status \<Rightarrow> string" where
  "run_status_text RunStatusQueued = ''queued''"
| "run_status_text RunStatusRunning = ''running''"
| "run_status_text RunStatusWaitingApproval = ''waiting_approval''"
| "run_status_text RunStatusCompleted = ''completed''"
| "run_status_text RunStatusFailed = ''failed''"
| "run_status_text RunStatusDeadLetter = ''dead_letter''"

text \<open>The zero \<open>Step{}\<close> has the empty status.\<close>

datatype step_status =
    StepStatusNone
  | StepStatusWaitingApproval
  | StepStatusCompleted
  | StepStatusFailed

record run =
  run_ID :: string
  run_TenantID :: string
  run_WorkflowID :: string
  run_Status :: run_status
  run_TriggerMode :: string
  run_Attempt :: int
  run_MaxAttempts :: int
  run_Input :: vmap
  run_Output :: anyv
  run_Error :: string
  run_CreatedAt :: time
  run_StartedAt :: time
  run_CompletedAt :: time

record step =
  step_ID :: string
  step_RunID :: string
  step_NodeID :: string
  step_NodeType :: string
  step_Status :: step_status
  step_Attempt :: int
  step_Input :: vmap
  step_Output :: anyv
  step_Error :: string
  step_StartedAt :: time
  step_CompletedAt :: time

definition zero_step :: step where
  "zero_step = \<lparr>step_ID = [], step_RunID = [], step_NodeID = [], step_NodeType = [],
     step_Status = StepStatusNone, step_Attempt = 0, step_Input = [], step_Output = VNil,
     step_Error = [], step_StartedAt = zero_time, step_CompletedAt = zero_time\<rparr>"

record pending_state =
  pn_WaitingNodeID :: string
  pn_Queue :: "string list"
  pn_StepOutputs :: vmap
  pn_Executed :: "string set"

record async_job =
  job_RunID :: string
  job_TenantID :: string
  job_WorkflowID :: string
  job_Attempt :: int
  job_MaxAttempts :: int
  job_Input :: vmap

definition clonePendingState :: "pending_state \<Rightarrow> pending_state" where
  "clonePendingState p =
     \<lparr>pn_WaitingNodeID = pn_WaitingNodeID p, pn_Queue = pn_Queue p,
      pn_StepOutputs = cloneMap (pn_StepOutputs p), pn_Executed = cloneBoolMap (pn_Executed p)\<rparr>"

lemma clonePendingState [simp]: "clonePendingState p = p"
  by (simp add: clonePendingState_def cloneMap_def cloneBoolMap_def)

section \<open>The in-memory repository\<close>

text \<open>
  The runs are kept as an association list, because \<open>ListRuns\<close> ranges over them; reading a missing
  key of the map of step slices gives the empty slice.
\<close>

record run_memory =
  rm_runs :: "(string \<times> run) list"
  rm_steps :: "string \<Rightarrow> step list"
  rm_pending :: "string \<rightharpoonup> pending_state"

definition empty_run_memory :: run_memory where
  "empty_run_memory = \<lparr>rm_runs = [], rm_steps = (\<lambda>_. []), rm_pending = Map.empty\<rparr>"

definition put_run :: "run \<Rightarrow> run_memory \<Rightarrow> run_memory" where
  "put_run r m = m\<lparr>rm_runs := AList.update (run_ID r) r (rm_runs m)\<rparr>"

definition run_mem_CreateRun :: "run \<Rightarrow> run_memory \<Rightarrow> goerr option \<times> run_memory" where
  "run_mem_CreateRun r m = (None, put_run r m)"

definition run_mem_UpdateRun :: "run \<Rightarrow> run_memory \<Rightarrow> goerr option \<times> run_memory" where
  "run_mem_UpdateRun r m = (None, put_run r m)"

definition run_mem_CompleteRun ::
    "run \<Rightarrow> step list \<Rightarrow> run_memory \<Rightarrow> goerr option \<times> run_memory" where
  "run_mem_CompleteRun r steps m =
     (None, (put_run r m)\<lparr>rm_steps := (rm_steps m)(run_ID r := steps),
                          rm_pending := (rm_pending m)(run_ID r := None)\<rparr>)"

definition run_mem_SavePending ::
    "run \<Rightarrow> step list \<Rightarrow> pending_state \<Rightarrow> run_memory \<Rightarrow> goerr option \<times> run_memory" where
  "run_mem_SavePending r steps pending m =
     (None, (put_run r m)\<lparr>rm_steps := (rm_steps m)(run_ID r := steps),
                          rm_pending := (rm_pending m)(run_ID r \<mapsto> clonePendingState pending)\<rparr>)"

definition run_mem_GetRun :: "string \<Rightarrow> string \<Rightarrow> run_memory \<Rightarrow> run result" where
  "run_mem_GetRun tenantID runID m =
     (case map_of (rm_runs m) runID of
        None \<Rightarrow> Inl exec_ErrNotFound
      | Some r \<Rightarrow> if run_TenantID r \<noteq> tenantID then Inl exec_ErrNotFound else Inr r)"

definition run_mem_LoadPending ::
    "string \<Rightarrow> string \<Rightarrow> run_memory \<Rightarrow> (run \<times> step list \<times> pending_state) result" where
  "run_mem_LoadPending tenantID runID m =
     (case map_of (rm_runs m) runID of
        None \<Rightarrow> Inl exec_ErrNotFound
      | Some r \<Rightarrow>
          if run_TenantID r \<noteq> tenantID then Inl exec_ErrNotFound
          else case rm_pending m runID of
            None \<Rightarrow> Inl ErrRunNotAwaitingReview
          | Some pending \<Rightarrow> Inr (r, rm_steps m runID, clonePendingState pending))"

definition run_mem_ListSteps :: "string \<Rightarrow> string \<Rightarrow> run_memory \<Rightarrow> step list result" where
  "run_mem_ListSteps tenantID runID m =
     (case map_of (rm_runs m) runID of
        None \<Rightarrow> Inl exec_ErrNotFound
      | Some r \<Rightarrow> if run_TenantID r \<noteq> tenantID then Inl exec_ErrNotFound else Inr (rm_steps m runID))"

text \<open>Newest first, ties by id.\<close>

definition run_compare :: "run \<Rightarrow> run \<Rightarrow> int" where
  "run_compare left right =
     (if run_CreatedAt right < run_CreatedAt left then -1
      else if run_CreatedAt left < run_CreatedAt right then 1
      else str_compare (run_ID left) (run_ID right))"

interpretation run_order: comparator run_compare
  by unfold_locales (auto simp: run_compare_def split: if_splits)

definition run_mem_ListRuns :: "string \<Rightarrow> string \<Rightarrow> run_memory \<Rightarrow> run list result" where
  "run_mem_ListRuns tenantID status m =
     Inr (sort_func run_compare
       (filter (\<lambda>r. run_TenantID r = tenantID \<and> (status = [] \<or> run_status_text (run_Status r) = status))
         (map snd (rm_runs m))))"

section \<open>What the repository guarantees\<close>

text \<open>Every run is stored once, under its own id.\<close>

definition run_memory_ok :: "run_memory \<Rightarrow> bool" where
  "run_memory_ok m \<longleftrightarrow>
     distinct (map fst (rm_runs m)) \<and> list_all (\<lambda>(k, r). run_ID r = k) (rm_runs m)"

lemma update_keys_ok:
  "list_all (\<lambda>(k, r). run_ID r = k) rs \<Longrightarrow>
     list_all (\<lambda>(k, r). run_ID r = k) (AList.update (run_ID r) r rs)"
  by (induction rs) auto

lemma run_memory_ok_empty [simp]: "run_memory_ok empty_run_memory"
  by (simp add: run_memory_ok_def empty_run_memory_def)

lemma run_memory_ok_put [simp]: "run_memory_ok m \<Longrightarrow> run_memory_ok (put_run r m)"
  by (simp add: run_memory_ok_def put_run_def update_keys_ok distinct_update)

lemma run_memory_ok_writes [simp]:
  assumes "run_memory_ok m"
  shows "run_memory_ok (snd (run_mem_CreateRun r m))"
    and "run_memory_ok (snd (run_mem_UpdateRun r m))"
    and "run_memory_ok (snd (run_mem_CompleteRun r steps m))"
    and "run_memory_ok (snd (run_mem_SavePending r steps p m))"
  using run_memory_ok_put [OF assms, of r]
  by (simp_all add: run_mem_CreateRun_def run_mem_UpdateRun_def run_mem_CompleteRun_def
      run_mem_SavePending_def run_memory_ok_def)

interpretation run_repo: scoped_store
  "\<lambda>r m. snd (run_mem_CreateRun r m)" run_mem_GetRun run_ID run_TenantID exec_ErrNotFound
  by unfold_locales
     (auto simp: run_mem_CreateRun_def run_mem_GetRun_def put_run_def update_conv'
       split: option.splits if_splits)

text \<open>What the four writes leave to be read.\<close>

lemma put_run_simps [simp]:
  "rm_steps (put_run r m) = rm_steps m" "rm_pending (put_run r m) = rm_pending m"
  "map_of (rm_runs (put_run r m)) k = (if k = run_ID r then Some r else map_of (rm_runs m) k)"
  by (simp_all add: put_run_def update_conv')

lemma run_writes [store_simps]:
  "run_mem_GetRun t k (snd (run_mem_CreateRun r m)) =
     (if k = run_ID r then if run_TenantID r = t then Inr r else Inl exec_ErrNotFound
      else run_mem_GetRun t k m)"
  "run_mem_GetRun t k (snd (run_mem_UpdateRun r m)) =
     (if k = run_ID r then if run_TenantID r = t then Inr r else Inl exec_ErrNotFound
      else run_mem_GetRun t k m)"
  "run_mem_GetRun t k (snd (run_mem_CompleteRun r steps m)) =
     (if k = run_ID r then if run_TenantID r = t then Inr r else Inl exec_ErrNotFound
      else run_mem_GetRun t k m)"
  "run_mem_GetRun t k (snd (run_mem_SavePending r steps p m)) =
     (if k = run_ID r then if run_TenantID r = t then Inr r else Inl exec_ErrNotFound
      else run_mem_GetRun t k m)"
  by (simp_all add: run_mem_GetRun_def run_mem_CreateRun_def run_mem_UpdateRun_def
      run_mem_CompleteRun_def run_mem_SavePending_def)

lemma run_write_errors [store_simps]:
  "fst (run_mem_CreateRun r m) = None" "fst (run_mem_UpdateRun r m) = None"
  "fst (run_mem_CompleteRun r steps m) = None" "fst (run_mem_SavePending r steps p m) = None"
  by (simp_all add: run_mem_CreateRun_def run_mem_UpdateRun_def run_mem_CompleteRun_def
      run_mem_SavePending_def)

lemma update_key_mset:
  assumes "distinct (map fst rs)" and "list_all (\<lambda>(k, r). run_ID r = k) rs"
  shows "mset (map snd (AList.update (run_ID r) r rs)) =
    add_mset r (filter_mset (\<lambda>x. run_ID x \<noteq> run_ID r) (mset (map snd rs)))"
  using assms
proof (induction rs)
  case (Cons kr rs)
  obtain k x where kr: "kr = (k, x)" by (cases kr)
  show ?case
  proof (cases "k = run_ID r")
    case True
    have "\<forall>y \<in># mset (map snd rs). run_ID y \<noteq> run_ID r"
      using Cons.prems True by (force simp: kr list_all_iff)
    then have "filter_mset (\<lambda>y. run_ID y \<noteq> run_ID r) (mset (map snd rs)) = mset (map snd rs)"
      by (simp only: filter_mset_eq_conv) simp
    then show ?thesis using Cons.prems True by (simp add: kr)
  next
    case False
    then show ?thesis using Cons by (simp add: kr)
  qed
qed simp

lemma sort_runs_unique:
  assumes "mset xs = mset ys" and "distinct (map run_ID xs)"
  shows "sort_func run_compare xs = sort_func run_compare ys"
proof (rule run_order.sorted_unique)
  show "mset (sort_func run_compare xs) = mset (sort_func run_compare ys)" using assms by simp
  fix x y
  assume xy: "x \<in> set (sort_func run_compare xs)" "y \<in> set (sort_func run_compare xs)"
    and "run_compare x y \<le> 0" "run_compare y x \<le> 0"
  then have "run_ID x = run_ID y"
    by (auto simp: run_compare_def str_compare_def split: if_splits)
  then show "x = y" using assms(2) xy by (auto simp: distinct_map inj_on_def)
qed (simp_all add: run_order.sorted_sort_func)

lemma run_memory_ok_distinct:
  "run_memory_ok m \<Longrightarrow> distinct (map run_ID (filter P (map snd (rm_runs m))))"
proof -
  assume ok: "run_memory_ok m"
  then have keys: "map run_ID (map snd (rm_runs m)) = map fst (rm_runs m)"
    by (auto simp: run_memory_ok_def list_all_iff)
  have "distinct (map run_ID (map snd (rm_runs m)))"
    unfolding keys using ok by (simp add: run_memory_ok_def)
  then show ?thesis by (rule distinct_map_filter)
qed

section \<open>Properties\<close>

text \<open>The listing of runs does not depend on the order in which Go ranges over the map of runs:
  two repositories that hold the same runs list the same, newest first with ties by id, and only
  runs of the tenant with the requested status.\<close>
theorem run_mem_ListRuns_deterministic:
  assumes "run_memory_ok m" and "mset (rm_runs m) = mset (rm_runs m')"
  shows "run_mem_ListRuns t st m = run_mem_ListRuns t st m' \<and>
    (\<exists>rs. run_mem_ListRuns t st m = Inr rs \<and> cmp_sorted run_compare rs \<and>
       set rs = {r \<in> snd ` set (rm_runs m).
         run_TenantID r = t \<and> (st = [] \<or> run_status_text (run_Status r) = st)})"
proof -
  let ?P = "\<lambda>r. run_TenantID r = t \<and> (st = [] \<or> run_status_text (run_Status r) = st)"
  let ?rs = "sort_func run_compare (filter ?P (map snd (rm_runs m)))"
  have "mset (filter ?P (map snd (rm_runs m))) = mset (filter ?P (map snd (rm_runs m')))"
    using assms(2) by simp
  then have same: "run_mem_ListRuns t st m = run_mem_ListRuns t st m'"
    unfolding run_mem_ListRuns_def
    by (intro arg_cong [where f = Inr] sort_runs_unique run_memory_ok_distinct assms)
  have "set ?rs = {r \<in> snd ` set (rm_runs m). ?P r}" by auto
  then have "run_mem_ListRuns t st m = Inr ?rs \<and> cmp_sorted run_compare ?rs \<and>
      set ?rs = {r \<in> snd ` set (rm_runs m). ?P r}"
    using run_order.sorted_sort_func by (intro conjI) (simp_all only: run_mem_ListRuns_def)
  with same show ?thesis by blast
qed

definition demo_run :: "string \<Rightarrow> time \<Rightarrow> run" where
  "demo_run k created = \<lparr>run_ID = k, run_TenantID = ''acme'', run_WorkflowID = ''w1'',
     run_Status = RunStatusCompleted, run_TriggerMode = ''sync'', run_Attempt = 0,
     run_MaxAttempts = 0, run_Input = [], run_Output = VNil, run_Error = [],
     run_CreatedAt = created, run_StartedAt = created, run_CompletedAt = created\<rparr>"

theorem run_mem_ListRuns_deterministic_witness:
  "run_mem_ListRuns ''acme'' []
     (empty_run_memory\<lparr>rm_runs := [(''r1'', demo_run ''r1'' 5), (''r2'', demo_run ''r2'' 7)]\<rparr>) =
   run_mem_ListRuns ''acme'' []
     (empty_run_memory\<lparr>rm_runs := [(''r2'', demo_run ''r2'' 7), (''r1'', demo_run ''r1'' 5)]\<rparr>)"
  by (rule run_mem_ListRuns_deterministic [THEN conjunct1])
     (simp_all add: run_memory_ok_def empty_run_memory_def demo_run_def)

text \<open>Completing, creating, updating or parking a run of another tenant changes nothing that a
  tenant can read or list, when the run's id is not one of the tenant's.\<close>
theorem run_writes_invisible:
  assumes "run_memory_ok m" and "run_TenantID r \<noteq> t"
    and "run_mem_GetRun t (run_ID r) m = Inl exec_ErrNotFound"
    and "m' \<in> {snd (run_mem_CreateRun r m), snd (run_mem_UpdateRun r m),
               snd (run_mem_CompleteRun r steps m), snd (run_mem_SavePending r steps p m)}"
  shows "run_mem_GetRun t k m' = run_mem_GetRun t k m \<and>
    run_mem_ListSteps t k m' = run_mem_ListSteps t k m \<and>
    run_mem_LoadPending t k m' = run_mem_LoadPending t k m \<and>
    run_mem_ListRuns t st m' = run_mem_ListRuns t st m"
proof -
  let ?P = "\<lambda>r. run_TenantID r = t \<and> (st = [] \<or> run_status_text (run_Status r) = st)"
  have runs: "rm_runs m' = rm_runs (put_run r m)"
    and steps: "k \<noteq> run_ID r \<Longrightarrow> rm_steps m' k = rm_steps m k"
    and pending: "k \<noteq> run_ID r \<Longrightarrow> rm_pending m' k = rm_pending m k"
    using assms(4)
    by (auto simp: run_mem_CreateRun_def run_mem_UpdateRun_def run_mem_CompleteRun_def
        run_mem_SavePending_def)
  have mine: "filter_mset ?P (mset (map snd (AList.update (run_ID r) r (rm_runs m)))) =
      filter_mset ?P (mset (map snd (rm_runs m)))"
  proof -
    have "x \<in> snd ` set (rm_runs m) \<Longrightarrow> run_TenantID x = t \<Longrightarrow> run_ID x \<noteq> run_ID r" for x
    proof
      assume x: "x \<in> snd ` set (rm_runs m)" "run_TenantID x = t" "run_ID x = run_ID r"
      then have "map_of (rm_runs m) (run_ID r) = Some x"
        using assms(1) by (force simp: run_memory_ok_def list_all_iff)
      then show False using assms(3) x(2) by (simp add: run_mem_GetRun_def)
    qed
    then have "filter_mset ?P (filter_mset (\<lambda>x. run_ID x \<noteq> run_ID r) (mset (map snd (rm_runs m)))) =
        filter_mset ?P (mset (map snd (rm_runs m)))"
      by (simp only: filter_filter_mset) (intro filter_mset_cong refl, auto)
    then show ?thesis
      using assms(1,2) update_key_mset [of "rm_runs m" r] by (simp add: run_memory_ok_def)
  qed
  have "sort_func run_compare (filter ?P (map snd (AList.update (run_ID r) r (rm_runs m)))) =
      sort_func run_compare (filter ?P (map snd (rm_runs m)))"
    using mine run_memory_ok_distinct [OF assms(1), of ?P]
    by (intro sort_runs_unique [symmetric]) (simp_all only: mset_filter mset_map)
  then have lists: "run_mem_ListRuns t st m' = run_mem_ListRuns t st m"
    by (simp add: run_mem_ListRuns_def runs put_run_def)
  have own: "map_of (rm_runs m) (run_ID r) = Some x \<Longrightarrow> run_TenantID x \<noteq> t" for x
    using assms(3) by (auto simp: run_mem_GetRun_def)
  show ?thesis
    using own assms(2) steps pending lists
    by (cases "k = run_ID r")
       (auto simp: run_mem_GetRun_def run_mem_ListSteps_def run_mem_LoadPending_def runs
         split: option.splits)
qed

theorem run_writes_invisible_witness:
  "run_mem_GetRun ''globex'' ''r1'' (snd (run_mem_CreateRun (demo_run ''r1'' 5) empty_run_memory)) =
   run_mem_GetRun ''globex'' ''r1'' empty_run_memory"
  by (rule run_writes_invisible [where r = "demo_run ''r1'' 5", THEN conjunct1])
     (simp_all add: demo_run_def run_mem_GetRun_def empty_run_memory_def run_memory_ok_def)

end
