(* ===== verification/Egress.thy ===== *)
theory Egress
  imports GoStrings "HOL-Library.Word"
begin

unbundle bit_operations_syntax

text \<open>
  \<open>internal/platform/egress/policy.go\<close>: which URLs an HTTP tool node may call. \<open>url.Parse\<close> and
  \<open>net.ParseIP\<close> are parameters; the predicates of \<open>net.IP\<close> that the policy uses are written out on
  the 16 bytes that \<open>ParseIP\<close> returns (an IPv4 address in its IPv4-mapped form).
\<close>

type_synonym ip = "8 word list"

record parsed_url =
  url_Scheme :: string
  url_User :: bool
  url_Hostname :: string

record net_lib =
  url_Parse :: "string \<Rightarrow> parsed_url option"
  net_ParseIP :: "string \<Rightarrow> ip option"

definition ErrMissingURL :: goerr where
  "ErrMissingURL = Sentinel ''egress'' ''http_tool url is required''"

definition ErrInvalidURL :: goerr where
  "ErrInvalidURL = Sentinel ''egress'' ''http_tool url must be an absolute http or https URL''"

definition ErrUnsafeTargetURL :: goerr where
  "ErrUnsafeTargetURL = Sentinel ''egress'' ''http_tool url target is not allowed''"

section \<open>Addresses\<close>

text \<open>\<open>To4\<close> of a 16-byte address: the last four bytes of an IPv4-mapped one.\<close>

definition to4 :: "ip \<Rightarrow> ip option" where
  "to4 a =
     (if length a = 4 then Some a
      else if length a = 16 \<and> take 10 a = replicate 10 0 \<and> a ! 10 = 0xff \<and> a ! 11 = 0xff
      then Some (drop 12 a) else None)"

definition IsUnspecified :: "ip \<Rightarrow> bool" where
  "IsUnspecified a \<longleftrightarrow> to4 a = Some [0, 0, 0, 0] \<or> a = replicate 16 0"

definition IsLoopback :: "ip \<Rightarrow> bool" where
  "IsLoopback a =
     (case to4 a of Some v \<Rightarrow> v ! 0 = 127 | None \<Rightarrow> a = replicate 15 0 @ [1])"

definition IsPrivate :: "ip \<Rightarrow> bool" where
  "IsPrivate a =
     (case to4 a of
        Some v \<Rightarrow> v ! 0 = 10 \<or> (v ! 0 = 172 \<and> (v ! 1) AND 0xf0 = 16) \<or> (v ! 0 = 192 \<and> v ! 1 = 168)
      | None \<Rightarrow> length a = 16 \<and> (a ! 0) AND 0xfe = 0xfc)"

definition IsMulticast :: "ip \<Rightarrow> bool" where
  "IsMulticast a =
     (case to4 a of Some v \<Rightarrow> (v ! 0) AND 0xf0 = 0xe0 | None \<Rightarrow> length a = 16 \<and> a ! 0 = 0xff)"

definition IsLinkLocalMulticast :: "ip \<Rightarrow> bool" where
  "IsLinkLocalMulticast a =
     (case to4 a of
        Some v \<Rightarrow> v ! 0 = 224 \<and> v ! 1 = 0 \<and> v ! 2 = 0
      | None \<Rightarrow> length a = 16 \<and> a ! 0 = 0xff \<and> (a ! 1) AND 0x0f = 0x02)"

definition IsLinkLocalUnicast :: "ip \<Rightarrow> bool" where
  "IsLinkLocalUnicast a =
     (case to4 a of
        Some v \<Rightarrow> v ! 0 = 169 \<and> v ! 1 = 254
      | None \<Rightarrow> length a = 16 \<and> a ! 0 = 0xfe \<and> (a ! 1) AND 0xc0 = 0x80)"

definition isBlockedIP :: "ip \<Rightarrow> bool" where
  "isBlockedIP a \<longleftrightarrow>
     IsLoopback a \<or> IsPrivate a \<or> IsLinkLocalUnicast a \<or> IsLinkLocalMulticast a \<or>
     IsMulticast a \<or> IsUnspecified a"

text \<open>The masks of the policy as ranges of a byte.\<close>

lemma byte_forall: "list_all (\<lambda>n. P (word_of_nat n)) [0 ..< 256] \<Longrightarrow> P (b :: 8 word)"
proof -
  assume all: "list_all (\<lambda>n. P (word_of_nat n)) [0 ..< 256]"
  have "unat b < 256" using unsigned_less [of b] by simp
  then have "unat b \<in> set [0 ..< 256]" by simp
  then have "P (word_of_nat (unat b))" using all unfolding list_all_iff by blast
  then show ?thesis by simp
qed

lemma mask_16: "b AND 0xf0 = 16 \<longleftrightarrow> 16 \<le> b \<and> b \<le> (31 :: 8 word)"
  by (rule byte_forall) code_simp

lemma mask_224: "b AND 0xf0 = 0xe0 \<longleftrightarrow> 224 \<le> b \<and> b \<le> (239 :: 8 word)"
  by (rule byte_forall) code_simp

section \<open>Host names and URLs\<close>

definition isBlockedHostname :: "string \<Rightarrow> bool" where
  "isBlockedHostname host =
     (if host = ''localhost'' then True
      else list_ex (has_suffix host)
             [''.localhost'', ''.local'', ''.internal'', ''.localdomain'', ''.home.arpa''])"

text \<open>The quoting of \<open>%q\<close>, for the printable ASCII that host names consist of.\<close>

definition quote :: "string \<Rightarrow> string" where
  "quote s = CHR 0x22 #
     concat (map (\<lambda>c. if c = CHR 0x22 \<or> c = CHR 0x5C then [CHR 0x5C, c] else [c]) s) @ [CHR 0x22]"

definition ValidateHTTPToolURL :: "net_lib \<Rightarrow> string \<Rightarrow> goerr option" where
  "ValidateHTTPToolURL N raw0 =
     (let raw = trim_space raw0 in
      if raw = [] then Some ErrMissingURL
      else case url_Parse N raw of
        None \<Rightarrow> Some ErrInvalidURL
      | Some parsed \<Rightarrow>
          if url_Scheme parsed = [] then Some ErrInvalidURL
          else let scheme = to_lower (url_Scheme parsed) in
          if scheme \<noteq> ''http'' \<and> scheme \<noteq> ''https'' then Some ErrInvalidURL
          else if url_User parsed then
            Some (Wrapped [] ErrUnsafeTargetURL '': embedded credentials are not supported'')
          else let host = to_lower (trim_space (url_Hostname parsed)) in
          if host = [] then Some ErrInvalidURL
          else if isBlockedHostname host then
            Some (Wrapped [] ErrUnsafeTargetURL ('': host '' @ quote host @ '' is local or private''))
          else case net_ParseIP N host of
            None \<Rightarrow> None
          | Some address \<Rightarrow>
              if isBlockedIP address then
                Some (Wrapped [] ErrUnsafeTargetURL ('': host '' @ quote host @ '' is local or private''))
              else None)"

section \<open>Properties\<close>

definition mapped_ipv4 :: "8 word \<Rightarrow> 8 word \<Rightarrow> 8 word \<Rightarrow> 8 word \<Rightarrow> ip" where
  "mapped_ipv4 a b c d = replicate 10 0 @ [0xff, 0xff, a, b, c, d]"

lemma to4_mapped [simp]: "to4 (mapped_ipv4 a b c d) = Some [a, b, c, d]"
  by (simp add: to4_def mapped_ipv4_def nth_append)

lemma zero_neq_numeral_byte: "(0 :: 8 word) \<noteq> 255"
  by simp

text \<open>The IPv4 addresses the policy blocks are exactly 0.0.0.0, 127/8, 10/8, 172.16/12,
  192.168/16, 169.254/16 and 224/4. (So 100.64/10, 198.18/15, 240/4 and the rest of 0/8 pass.)\<close>
theorem isBlockedIP_ipv4:
  "isBlockedIP (mapped_ipv4 a b c d) \<longleftrightarrow>
     a = 127 \<or> a = 10 \<or> (a = 172 \<and> 16 \<le> b \<and> b \<le> 31) \<or> (a = 192 \<and> b = 168) \<or>
     (a = 169 \<and> b = 254) \<or> (224 \<le> a \<and> a \<le> 239) \<or> (a = 0 \<and> b = 0 \<and> c = 0 \<and> d = 0)"
proof -
  have "mapped_ipv4 a b c d ! 10 = 255" "replicate 16 (0 :: 8 word) ! 10 = 0"
    by (simp_all add: mapped_ipv4_def nth_append)
  then have "mapped_ipv4 a b c d \<noteq> replicate 16 0"
    by (metis zero_neq_numeral_byte)
  moreover have "(224 :: 8 word) \<le> 224 \<and> (224 :: 8 word) \<le> 239" by simp
  ultimately show ?thesis
    by (auto simp: isBlockedIP_def IsLoopback_def IsPrivate_def IsLinkLocalUnicast_def
        IsLinkLocalMulticast_def IsMulticast_def IsUnspecified_def mask_16 mask_224)
qed

definition url_host :: "parsed_url \<Rightarrow> string" where
  "url_host u = to_lower (trim_space (url_Hostname u))"

text \<open>
  The addresses that are meant, by their ranges. IPv4: 0.0.0.0, 127/8, 10/8, 172.16/12, 192.168/16, 169.254/16 and 224/4, in
  four bytes or mapped into sixteen; IPv6: \<open>::\<close>, \<open>::1\<close>, \<open>fc00::/7\<close>, \<open>fe80::/10\<close> and \<open>ff00::/8\<close>.
\<close>

definition local_ipv4 :: "8 word \<Rightarrow> 8 word \<Rightarrow> 8 word \<Rightarrow> 8 word \<Rightarrow> bool" where
  "local_ipv4 a b c d \<longleftrightarrow>
     a = 127 \<or> a = 10 \<or> (a = 172 \<and> 16 \<le> b \<and> b \<le> 31) \<or> (a = 192 \<and> b = 168) \<or>
     (a = 169 \<and> b = 254) \<or> (224 \<le> a \<and> a \<le> 239) \<or> (a = 0 \<and> b = 0 \<and> c = 0 \<and> d = 0)"

definition local_address :: "ip \<Rightarrow> bool" where
  "local_address x \<longleftrightarrow>
     (\<exists>a b c d. local_ipv4 a b c d \<and> (x = mapped_ipv4 a b c d \<or> x = [a, b, c, d])) \<or>
     x = replicate 16 0 \<or> x = replicate 15 0 @ [1] \<or>
     (length x = 16 \<and> (x ! 0 = 0xfc \<or> x ! 0 = 0xfd \<or> (x ! 0 = 0xfe \<and> 0x80 \<le> x ! 1 \<and> x ! 1 \<le> 0xbf) \<or> x ! 0 = 0xff))"

lemma mask_fc: "b AND 0xfe = 0xfc \<longleftrightarrow> b = 0xfc \<or> b = (0xfd :: 8 word)"
  by (rule byte_forall) code_simp

lemma mask_80: "b AND 0xc0 = 0x80 \<longleftrightarrow> 0x80 \<le> b \<and> b \<le> (0xbf :: 8 word)"
  by (rule byte_forall) code_simp

lemma four_bytes: "length x = 4 \<Longrightarrow> \<exists>a b c d. x = [a, b, c, d]"
  by (auto simp: length_Suc_conv numeral_eq_Suc)

lemma to4_Some_iff: "to4 x = Some v \<longleftrightarrow> (\<exists>a b c d. v = [a, b, c, d] \<and> (x = mapped_ipv4 a b c d \<or> x = [a, b, c, d]))"
proof
  assume v: "to4 x = Some v"
  show "\<exists>a b c d. v = [a, b, c, d] \<and> (x = mapped_ipv4 a b c d \<or> x = [a, b, c, d])"
  proof (cases "length x = 4")
    case True
    then show ?thesis using v four_bytes by (fastforce simp: to4_def)
  next
    case False
    then have x: "length x = 16" "take 10 x = replicate 10 0" "x ! 10 = 255" "x ! 11 = 255" "v = drop 12 x"
      using v by (auto simp: to4_def split: if_splits)
    have "length v = 4" by (simp add: x)
    then obtain a b c d where abcd: "v = [a, b, c, d]" using four_bytes by blast
    have "x = take 10 x @ x ! 10 # x ! 11 # drop 12 x"
      using id_take_nth_drop [of 10 x] Cons_nth_drop_Suc [of 11 x] x(1) by simp
    then have "x = mapped_ipv4 a b c d" using x abcd by (simp add: mapped_ipv4_def)
    then show ?thesis using abcd by blast
  qed
qed (auto simp: to4_def mapped_ipv4_def nth_append)

lemma isBlockedIP_four: "isBlockedIP x \<longleftrightarrow> local_ipv4 a b c d" if "to4 x = Some [a, b, c, d]"
proof -
  have "x \<noteq> replicate 16 0" using that by (auto simp: to4_def)
  moreover have "(224 :: 8 word) \<le> 224 \<and> (224 :: 8 word) \<le> 239" by simp
  ultimately show ?thesis
    using that by (auto simp: isBlockedIP_def local_ipv4_def IsLoopback_def IsPrivate_def IsLinkLocalUnicast_def
        IsLinkLocalMulticast_def IsMulticast_def IsUnspecified_def mask_16 mask_224)
qed

lemma isBlockedIP_iff: "isBlockedIP x \<longleftrightarrow> local_address x"
proof (cases "to4 x")
  case None
  then have "\<nexists>a b c d. x = mapped_ipv4 a b c d \<or> x = [a, b, c, d]" using to4_Some_iff [of x] by auto
  then show ?thesis
    using None by (auto simp: isBlockedIP_def local_address_def IsLoopback_def IsPrivate_def IsLinkLocalUnicast_def
        IsLinkLocalMulticast_def IsMulticast_def IsUnspecified_def mask_fc mask_80)
next
  case (Some v)
  then obtain a b c d where v: "v = [a, b, c, d]" and x: "x = mapped_ipv4 a b c d \<or> x = [a, b, c, d]"
    using to4_Some_iff by blast
  have first: "mapped_ipv4 a b c d ! 0 = 0" by (simp add: mapped_ipv4_def nth_append)
  have "x \<noteq> replicate 16 0" "x \<noteq> replicate 15 0 @ [1]" using Some by (auto simp: to4_def nth_append)
  moreover have "x = mapped_ipv4 a' b' c' d' \<or> x = [a', b', c', d'] \<Longrightarrow> a' = a \<and> b' = b \<and> c' = c \<and> d' = d" for a' b' c' d'
    using x by (auto simp: mapped_ipv4_def)
  moreover have "length x = 16 \<Longrightarrow> x ! 0 = 0" using x first by auto
  ultimately have "local_address x \<longleftrightarrow> local_ipv4 a b c d" using x by (fastforce simp: local_address_def)
  then show ?thesis using isBlockedIP_four Some v by simp
qed

lemma isBlockedHostname_iff:
  "isBlockedHostname host \<longleftrightarrow> host = ''localhost'' \<or>
     (\<exists>sub. host \<in> {sub @ ''.localhost'', sub @ ''.local'', sub @ ''.internal'', sub @ ''.localdomain'', sub @ ''.home.arpa''})"
  by (simp add: isBlockedHostname_def has_suffix_iff ex_disj_distrib)

text \<open>C40: the egress policy accepts exactly the URLs that can be parsed, have the scheme http or https, carry no
  credentials, and whose host, in lower case and without white space around it, is not empty, not localhost, not a name under
  .localhost, .local, .internal, .localdomain or .home.arpa, and is not a literal of a local address: 0.0.0.0,
  127/8, 10/8, 172.16/12, 192.168/16, 169.254/16 or 224/4, or as IPv6 the unspecified or loopback address, fc00::/7, fe80::/10 or ff00::/8.
  (What url.Parse and net.ParseIP read is a parameter; the final dot of a name is not taken off.)\<close>
theorem ValidateHTTPToolURL_iff:
  "ValidateHTTPToolURL N raw = None \<longleftrightarrow>
     (\<exists>u. trim_space raw \<noteq> [] \<and> url_Parse N (trim_space raw) = Some u \<and>
        to_lower (url_Scheme u) \<in> {''http'', ''https''} \<and> \<not> url_User u \<and>
        url_host u \<noteq> [] \<and> url_host u \<noteq> ''localhost'' \<and>
        \<not> (\<exists>sub. url_host u \<in> {sub @ ''.localhost'', sub @ ''.local'', sub @ ''.internal'', sub @ ''.localdomain'',
              sub @ ''.home.arpa''}) \<and>
        (case net_ParseIP N (url_host u) of None \<Rightarrow> True | Some address \<Rightarrow> \<not> local_address address))"
proof -
  have scheme: "to_lower (url_Scheme u) \<in> {''http'', ''https''} \<Longrightarrow> url_Scheme u \<noteq> []" for u
    by (auto simp: to_lower_def)
  have "ValidateHTTPToolURL N raw = None \<longleftrightarrow>
     (\<exists>u. trim_space raw \<noteq> [] \<and> url_Parse N (trim_space raw) = Some u \<and>
        to_lower (url_Scheme u) \<in> {''http'', ''https''} \<and> \<not> url_User u \<and> url_host u \<noteq> [] \<and>
        \<not> isBlockedHostname (url_host u) \<and>
        (case net_ParseIP N (url_host u) of None \<Rightarrow> True | Some address \<Rightarrow> \<not> isBlockedIP address))"
    using scheme
    by (auto simp: ValidateHTTPToolURL_def url_host_def Let_def split: option.splits if_splits)
  moreover have "isBlockedIP = local_address" by (rule ext) (rule isBlockedIP_iff)
  ultimately show ?thesis by (simp only: isBlockedHostname_iff de_Morgan_disj conj_assoc)
qed

text \<open>A library that reads a few URLs, to evaluate the policy on.\<close>

definition demo_net :: net_lib where
  "demo_net = \<lparr>
     url_Parse = (\<lambda>u.
       if u = ''https://api.example.com/notify'' then
         Some \<lparr>url_Scheme = ''https'', url_User = False, url_Hostname = ''api.example.com''\<rparr>
       else if u = ''http://localhost./'' then
         Some \<lparr>url_Scheme = ''http'', url_User = False, url_Hostname = ''localhost.''\<rparr>
       else if u = ''http://127.0.0.1/'' then
         Some \<lparr>url_Scheme = ''http'', url_User = False, url_Hostname = ''127.0.0.1''\<rparr>
       else None),
     net_ParseIP = (\<lambda>h. if h = ''127.0.0.1'' then Some (mapped_ipv4 127 0 0 1) else None)\<rparr>"

lemma demo_accepts: "ValidateHTTPToolURL demo_net ''https://api.example.com/notify'' = None"
  by code_simp

text \<open>
  The root-anchored spelling of a blocked name is not recognised: any library that reads the
  host of a URL as \<open>localhost.\<close> (with its final dot, which names the same host) and does not take
  that for an IP address gets the URL accepted.
\<close>
theorem trailing_dot_accepted:
  assumes "url_Parse N ''http://localhost./'' =
      Some \<lparr>url_Scheme = ''http'', url_User = False, url_Hostname = ''localhost.''\<rparr>"
    and "net_ParseIP N ''localhost.'' = None"
  shows "ValidateHTTPToolURL N ''http://localhost./'' = None"
proof -
  have texts: "trim_space ''http://localhost./'' = ''http://localhost./''"
    "to_lower (trim_space ''localhost.'') = ''localhost.''" "to_lower ''http'' = ''http''"
    "\<not> isBlockedHostname ''localhost.''"
    by code_simp+
  show ?thesis
    by (simp add: ValidateHTTPToolURL_def texts assms)
qed

theorem trailing_dot_accepted_witness:
  "ValidateHTTPToolURL demo_net ''http://localhost./'' = None"
  by (rule trailing_dot_accepted) (code_simp, code_simp)

end
