(* ===== verification/Workflows.thy ===== *)
theory Workflows
  imports Values Egress
begin

text \<open>
  \<open>internal/workflow/service.go\<close>: workflow definitions, their validation, the in-memory repository
  and the service. Validation is the loop of the source, phase by phase; its specification is the
  predicate \<open>well_formed\<close>, and the two agree. The source ranges over the Go map \<open>nodeIDs\<close> in one
  phase; the model visits it in the order of the nodes, which only orders the reported errors.
\<close>

section \<open>Data\<close>

definition workflow_ErrNotFound :: goerr where
  "workflow_ErrNotFound = Sentinel ''workflow'' ''workflow not found''"

definition workflow_ErrInvalidTenant :: goerr where
  "workflow_ErrInvalidTenant = Sentinel ''workflow'' ''invalid tenant''"

definition workflow_ErrInvalidDefinition :: goerr where
  "workflow_ErrInvalidDefinition = Sentinel ''workflow'' ''invalid workflow definition''"

datatype wf_status = StatusDraft

datatype validation_status = ValidationStatusValid | ValidationStatusInvalid

record node =
  node_ID :: string
  node_Type :: string
  node_Config :: vmap

record edge =
  edge_From :: string
  edge_To :: string
  edge_Condition :: string

record wf_definition =
  def_Name :: string
  def_Description :: string
  def_Version :: int
  def_InputSchema :: vmap
  def_Nodes :: "node list"
  def_Edges :: "edge list"

record workflow =
  wf_ID :: string
  wf_TenantID :: string
  wf_Name :: string
  wf_Description :: string
  wf_Version :: int
  wf_Status :: wf_status
  wf_ValidationStatus :: validation_status
  wf_Definition :: wf_definition
  wf_CreatedAt :: time
  wf_UpdatedAt :: time

record validation_error =
  ve_Field :: string
  ve_Message :: string

record validation_result =
  vr_Valid :: bool
  vr_Errors :: "validation_error list"

section \<open>Validation\<close>

definition supportedNodeType :: "string \<Rightarrow> bool" where
  "supportedNodeType nodeType \<longleftrightarrow>
     nodeType \<in> {''retrieve_documents'', ''llm'', ''condition'', ''http_tool'', ''approval'', ''audit_log''}"

definition supportedHTTPMethod :: "string \<Rightarrow> bool" where
  "supportedHTTPMethod m \<longleftrightarrow> m \<in> {''GET'', ''POST'', ''PUT'', ''PATCH'', ''DELETE''}"

definition wf_anyString :: "gofmt \<Rightarrow> anyv \<Rightarrow> string" where
  "wf_anyString F v = (case v of VNil \<Rightarrow> [] | VStr s \<Rightarrow> s | _ \<Rightarrow> fmt_Sprint F v)"

definition verr :: "string \<Rightarrow> string \<Rightarrow> validation_error" where
  "verr f msg = \<lparr>ve_Field = f, ve_Message = msg\<rparr>"

definition node_field :: "nat \<Rightarrow> string \<Rightarrow> string" where
  "node_field index f = ''nodes['' @ nat_str index @ '']'' @ f"

definition edge_field :: "nat \<Rightarrow> string \<Rightarrow> string" where
  "edge_field index f = ''edges['' @ nat_str index @ '']'' @ f"

definition validateHTTPToolNode ::
    "net_lib \<Rightarrow> gofmt \<Rightarrow> node \<Rightarrow> nat \<Rightarrow> validation_error list" where
  "validateHTTPToolNode N F n index =
     (case ValidateHTTPToolURL N (wf_anyString F (lookup_any (node_Config n) ''url'')) of
        Some e \<Rightarrow> [verr (node_field index ''.config.url'') (error_text e)]
      | None \<Rightarrow> []) @
     (let m = to_upper (trim_space (wf_anyString F (lookup_any (node_Config n) ''method'')))
      in if m \<noteq> [] \<and> \<not> supportedHTTPMethod m
         then [verr (node_field index ''.config.method'') ''unsupported http method''] else [])"

definition validateNodeConfig :: "net_lib \<Rightarrow> gofmt \<Rightarrow> node \<Rightarrow> nat \<Rightarrow> validation_error list" where
  "validateNodeConfig N F n index =
     (if node_Type n = ''http_tool'' then validateHTTPToolNode N F n index else [])"

text \<open>The loop over the nodes; \<open>ids\<close> is the map \<open>nodeIDs\<close>, in the order of insertion.\<close>

fun validate_nodes ::
    "net_lib \<Rightarrow> gofmt \<Rightarrow> nat \<Rightarrow> node list \<Rightarrow> (string \<times> node) list \<Rightarrow>
     validation_error list \<times> (string \<times> node) list" where
  "validate_nodes N F index [] ids = ([], ids)"
| "validate_nodes N F index (n # nodes) ids =
     (let nodeID = trim_space (node_ID n) in
      if nodeID = [] then
        (case validate_nodes N F (Suc index) nodes ids of
           (errs, ids') \<Rightarrow> (verr (node_field index ''.id'') ''node id is required'' # errs, ids'))
      else if nodeID \<in> fst ` set ids then
        (case validate_nodes N F (Suc index) nodes ids of
           (errs, ids') \<Rightarrow> (verr (node_field index ''.id'') ''node id must be unique'' # errs, ids'))
      else
        (case validate_nodes N F (Suc index) nodes (ids @ [(nodeID, n)]) of
           (errs, ids') \<Rightarrow>
             ((if \<not> supportedNodeType (trim_space (node_Type n))
               then [verr (node_field index ''.type'') ''unsupported node type''] else []) @
              validateNodeConfig N F n index @ errs, ids')))"

text \<open>The loop over the edges, with the counters \<open>outgoing\<close> and \<open>incoming\<close>.\<close>

fun validate_edges ::
    "string set \<Rightarrow> nat \<Rightarrow> edge list \<Rightarrow> (string \<Rightarrow> nat) \<Rightarrow> (string \<Rightarrow> nat) \<Rightarrow>
     validation_error list \<times> (string \<Rightarrow> nat) \<times> (string \<Rightarrow> nat)" where
  "validate_edges ids index [] outgoing incoming = ([], outgoing, incoming)"
| "validate_edges ids index (e # edges) outgoing incoming =
     (let from_id = trim_space (edge_From e); to_id = trim_space (edge_To e) in
      if from_id = [] \<or> to_id = [] then
        (case validate_edges ids (Suc index) edges outgoing incoming of
           (errs, counts) \<Rightarrow> (verr (edge_field index []) ''edge endpoints are required'' # errs, counts))
      else
        (case validate_edges ids (Suc index) edges (outgoing(from_id := outgoing from_id + 1))
                (incoming(to_id := incoming to_id + 1)) of
           (errs, counts) \<Rightarrow>
             ((if from_id = to_id
               then [verr (edge_field index []) ''self-referential edges are not allowed''] else []) @
              (if from_id \<notin> ids
               then [verr (edge_field index ''.from'') ''edge source must reference an existing node'']
               else []) @
              (if to_id \<notin> ids
               then [verr (edge_field index ''.to'') ''edge destination must reference an existing node'']
               else []) @ errs, counts)))"

text \<open>The loop over the map of nodes: degrees and roots.\<close>

definition validate_degrees ::
    "(string \<Rightarrow> nat) \<Rightarrow> (string \<Rightarrow> nat) \<Rightarrow> (string \<times> node) list \<Rightarrow> validation_error list" where
  "validate_degrees outgoing incoming ids =
     concat (map (\<lambda>(nodeID, n).
       (if node_Type n = ''condition'' \<and> outgoing nodeID < 2
        then [verr ''edges'' ''condition nodes must have at least two outgoing edges''] else []) @
       (if 1 < incoming nodeID
        then [verr ''edges'' ''workflow merges are not supported yet''] else [])) ids) @
     (if ids \<noteq> [] \<and> length (filter (\<lambda>(nodeID, n). incoming nodeID = 0) ids) = 0
      then [verr ''nodes'' ''workflow must contain at least one root node''] else [])"

text \<open>The labels of the edges that leave a condition node.\<close>

fun validate_branches ::
    "string \<Rightarrow> edge list \<Rightarrow> bool \<Rightarrow> bool \<Rightarrow> validation_error list" where
  "validate_branches nodeID [] trueBranch falseBranch =
     (if \<not> trueBranch \<or> \<not> falseBranch
      then [verr ''edges'' ''condition nodes must define both true and false branches''] else [])"
| "validate_branches nodeID (e # edges) trueBranch falseBranch =
     (if edge_From e \<noteq> nodeID then validate_branches nodeID edges trueBranch falseBranch
      else let label = to_lower (trim_space (edge_Condition e)) in
        if label = ''true'' then validate_branches nodeID edges True falseBranch
        else if label = ''false'' then validate_branches nodeID edges trueBranch True
        else verr ''edges'' ''condition edges must be labeled true or false'' #
             validate_branches nodeID edges trueBranch falseBranch)"

definition validate_conditions :: "wf_definition \<Rightarrow> validation_error list" where
  "validate_conditions d =
     concat (map (\<lambda>n. if node_Type n \<noteq> ''condition'' then []
                       else validate_branches (node_ID n) (def_Edges d) False False) (def_Nodes d))"

definition ValidateDefinition :: "net_lib \<Rightarrow> gofmt \<Rightarrow> wf_definition \<Rightarrow> validation_result" where
  "ValidateDefinition N F d =
     (case validate_nodes N F 0 (def_Nodes d) [] of (nodeErrs, ids) \<Rightarrow>
      case validate_edges (fst ` set ids) 0 (def_Edges d) (\<lambda>_. 0) (\<lambda>_. 0) of
        (edgeErrs, outgoing, incoming) \<Rightarrow>
      let errs =
        (if trim_space (def_Name d) = [] then [verr ''name'' ''name is required''] else []) @
        (if def_Version d \<le> 0
         then [verr ''version'' ''version must be greater than zero''] else []) @
        (if length (def_Nodes d) = 0
         then [verr ''nodes'' ''at least one node is required''] else []) @
        nodeErrs @ edgeErrs @ validate_degrees outgoing incoming ids @ validate_conditions d
      in \<lparr>vr_Valid = (length errs = 0), vr_Errors = errs\<rparr>)"

section \<open>What validation accepts\<close>

definition node_ok :: "net_lib \<Rightarrow> gofmt \<Rightarrow> node \<Rightarrow> bool" where
  "node_ok N F n \<longleftrightarrow>
     trim_space (node_ID n) \<noteq> [] \<and> supportedNodeType (trim_space (node_Type n)) \<and>
     (node_Type n = ''http_tool'' \<longrightarrow>
        ValidateHTTPToolURL N (wf_anyString F (lookup_any (node_Config n) ''url'')) = None \<and>
        (let m = to_upper (trim_space (wf_anyString F (lookup_any (node_Config n) ''method'')))
         in m = [] \<or> supportedHTTPMethod m))"

definition trimmed_ids :: "wf_definition \<Rightarrow> string list" where
  "trimmed_ids d = map (\<lambda>n. trim_space (node_ID n)) (def_Nodes d)"

definition edge_ok :: "string set \<Rightarrow> edge \<Rightarrow> bool" where
  "edge_ok ids e \<longleftrightarrow>
     trim_space (edge_From e) \<noteq> [] \<and> trim_space (edge_To e) \<noteq> [] \<and>
     trim_space (edge_From e) \<noteq> trim_space (edge_To e) \<and>
     trim_space (edge_From e) \<in> ids \<and> trim_space (edge_To e) \<in> ids"

definition in_degree :: "wf_definition \<Rightarrow> string \<Rightarrow> nat" where
  "in_degree d k = length (filter (\<lambda>e. trim_space (edge_To e) = k) (def_Edges d))"

definition out_degree :: "wf_definition \<Rightarrow> string \<Rightarrow> nat" where
  "out_degree d k = length (filter (\<lambda>e. trim_space (edge_From e) = k) (def_Edges d))"

definition branch_labels :: "wf_definition \<Rightarrow> string \<Rightarrow> string list" where
  "branch_labels d k =
     map (\<lambda>e. to_lower (trim_space (edge_Condition e))) (filter (\<lambda>e. edge_From e = k) (def_Edges d))"

definition well_formed :: "net_lib \<Rightarrow> gofmt \<Rightarrow> wf_definition \<Rightarrow> bool" where
  "well_formed N F d \<longleftrightarrow>
     trim_space (def_Name d) \<noteq> [] \<and> 0 < def_Version d \<and> def_Nodes d \<noteq> [] \<and>
     (\<forall>n \<in> set (def_Nodes d). node_ok N F n) \<and> distinct (trimmed_ids d) \<and>
     (\<forall>e \<in> set (def_Edges d). edge_ok (set (trimmed_ids d)) e) \<and>
     (\<forall>k \<in> set (trimmed_ids d). in_degree d k \<le> 1) \<and>
     (\<exists>k \<in> set (trimmed_ids d). in_degree d k = 0) \<and>
     (\<forall>n \<in> set (def_Nodes d). node_Type n = ''condition'' \<longrightarrow>
        2 \<le> out_degree d (trim_space (node_ID n)) \<and>
        set (branch_labels d (node_ID n)) = {''true'', ''false''})"

lemma node_errors_ok:
  "trim_space (node_ID n) \<noteq> [] \<Longrightarrow>
     (if \<not> supportedNodeType (trim_space (node_Type n))
      then [verr (node_field index ''.type'') ''unsupported node type''] else []) @
     validateNodeConfig N F n index = [] \<longleftrightarrow> node_ok N F n"
  by (auto simp: node_ok_def validateNodeConfig_def validateHTTPToolNode_def Let_def
      split: option.splits)

lemma validate_nodes_ok:
  "validate_nodes N F index nodes ids = (errs, ids') \<Longrightarrow>
     (errs = [] \<longleftrightarrow>
        (\<forall>n \<in> set nodes. node_ok N F n) \<and> distinct (map (\<lambda>n. trim_space (node_ID n)) nodes) \<and>
        fst ` set ids \<inter> (\<lambda>n. trim_space (node_ID n)) ` set nodes = {}) \<and>
     (errs = [] \<longrightarrow> ids' = ids @ map (\<lambda>n. (trim_space (node_ID n), n)) nodes)"
proof (induction nodes arbitrary: index ids errs ids')
  case (Cons n nodes)
  let ?k = "trim_space (node_ID n)"
  consider "?k = []" | "?k \<noteq> []" "?k \<in> fst ` set ids" | "?k \<noteq> []" "?k \<notin> fst ` set ids"
    by blast
  then show ?case
  proof cases
    case 1
    then show ?thesis using Cons.prems by (auto simp: node_ok_def split: prod.splits)
  next
    case 2
    then show ?thesis using Cons.prems by (auto split: prod.splits)
  next
    case 3
    obtain errs1 where rest: "validate_nodes N F (Suc index) nodes (ids @ [(?k, n)]) = (errs1, ids')"
      and errs: "errs = ((if \<not> supportedNodeType (trim_space (node_Type n))
               then [verr (node_field index ''.type'') ''unsupported node type''] else []) @
              validateNodeConfig N F n index) @ errs1"
      using Cons.prems 3 by (auto simp: Let_def split: prod.splits)
    have "errs = [] \<longleftrightarrow> node_ok N F n \<and> errs1 = []"
      unfolding errs append_is_Nil_conv [of _ errs1] using node_errors_ok [OF 3(1)] by blast
    with Cons.IH [OF rest] 3 show ?thesis by auto
  qed
qed simp

lemma validate_edges_ok:
  "validate_edges ids index edges out inc = (errs, out', inc') \<Longrightarrow>
     (errs = [] \<longleftrightarrow> (\<forall>e \<in> set edges. edge_ok ids e)) \<and>
     (errs = [] \<longrightarrow>
        out' = (\<lambda>k. out k + length (filter (\<lambda>e. trim_space (edge_From e) = k) edges)) \<and>
        inc' = (\<lambda>k. inc k + length (filter (\<lambda>e. trim_space (edge_To e) = k) edges)))"
proof (induction edges arbitrary: index out inc errs)
  case (Cons e edges)
  let ?f = "trim_space (edge_From e)" and ?t = "trim_space (edge_To e)"
  show ?case
  proof (cases "?f = [] \<or> ?t = []")
    case True
    then show ?thesis using Cons.prems by (auto simp: edge_ok_def Let_def split: prod.splits)
  next
    case False
    then obtain errs1 where rest: "validate_edges ids (Suc index) edges (out(?f := out ?f + 1))
        (inc(?t := inc ?t + 1)) = (errs1, out', inc')"
      and errs: "errs = [] \<longleftrightarrow> ?f \<noteq> ?t \<and> ?f \<in> ids \<and> ?t \<in> ids \<and> errs1 = []"
      using Cons.prems by (auto simp: Let_def split: prod.splits if_splits)
    from errs False Cons.IH [OF rest] show ?thesis
      by (auto simp: edge_ok_def fun_eq_iff)
  qed
qed auto

lemma validate_branches_ok:
  "validate_branches k edges tb fb = [] \<longleftrightarrow>
     (let labels = map (\<lambda>e. to_lower (trim_space (edge_Condition e)))
                     (filter (\<lambda>e. edge_From e = k) edges)
      in set labels \<subseteq> {''true'', ''false''} \<and> (tb \<or> ''true'' \<in> set labels) \<and>
         (fb \<or> ''false'' \<in> set labels))"
  by (induction k edges tb fb rule: validate_branches.induct) (auto simp: Let_def)

lemma two_labels: "set xs \<subseteq> {a, b} \<and> a \<in> set xs \<and> b \<in> set xs \<longleftrightarrow> set xs = {a, b}"
  by auto

lemma validate_branches_start:
  "validate_branches (node_ID n) (def_Edges d) False False = [] \<longleftrightarrow>
     set (branch_labels d (node_ID n)) = {''true'', ''false''}"
  unfolding validate_branches_ok branch_labels_def Let_def two_labels [symmetric] by simp

lemma validate_conditions_ok:
  "validate_conditions d = [] \<longleftrightarrow>
     (\<forall>n \<in> set (def_Nodes d). node_Type n = ''condition'' \<longrightarrow>
        set (branch_labels d (node_ID n)) = {''true'', ''false''})"
  unfolding validate_conditions_def concat_eq_Nil_conv set_map ball_simps
  by (simp add: validate_branches_start)

lemma validate_degrees_ok:
  "validate_degrees out inc ids = [] \<longleftrightarrow>
     (\<forall>(k, n) \<in> set ids. (node_Type n = ''condition'' \<longrightarrow> 2 \<le> out k) \<and> inc k \<le> 1) \<and>
     (ids \<noteq> [] \<longrightarrow> (\<exists>(k, n) \<in> set ids. inc k = 0))"
  by (auto simp: validate_degrees_def filter_empty_conv not_less split: if_splits)

lemma ValidateDefinition_well_formed:
  "vr_Valid (ValidateDefinition N F d) \<longleftrightarrow> well_formed N F d"
proof -
  obtain errs ids where nodes: "validate_nodes N F 0 (def_Nodes d) [] = (errs, ids)"
    by (cases "validate_nodes N F 0 (def_Nodes d) []") auto
  obtain errs2 out inc where edges:
    "validate_edges (fst ` set ids) 0 (def_Edges d) (\<lambda>_. 0) (\<lambda>_. 0) = (errs2, out, inc)"
    by (cases "validate_edges (fst ` set ids) 0 (def_Edges d) (\<lambda>_. 0) (\<lambda>_. 0)") auto
  note nodes_ok = validate_nodes_ok [OF nodes] and edges_ok = validate_edges_ok [OF edges]
  have valid: "vr_Valid (ValidateDefinition N F d) \<longleftrightarrow>
      trim_space (def_Name d) \<noteq> [] \<and> 0 < def_Version d \<and> def_Nodes d \<noteq> [] \<and> errs = [] \<and>
      errs2 = [] \<and> validate_degrees out inc ids = [] \<and> validate_conditions d = []"
    by (auto simp: ValidateDefinition_def nodes edges)
  show ?thesis
  proof (cases "errs = [] \<and> errs2 = []")
    case False
    then show ?thesis
      using nodes_ok edges_ok unfolding valid well_formed_def trimmed_ids_def by (auto simp: image_image)
  next
    case True
    then have ids: "ids = map (\<lambda>n. (trim_space (node_ID n), n)) (def_Nodes d)"
      and counts: "out = out_degree d" "inc = in_degree d"
      using nodes_ok edges_ok by (auto simp: out_degree_def in_degree_def fun_eq_iff)
    have keys: "fst ` set ids = set (trimmed_ids d)"
      by (simp add: ids trimmed_ids_def image_image)
    have degrees: "validate_degrees out inc ids = [] \<longleftrightarrow>
        (\<forall>k \<in> set (trimmed_ids d). in_degree d k \<le> 1) \<and>
        (\<forall>n \<in> set (def_Nodes d). node_Type n = ''condition'' \<longrightarrow>
           2 \<le> out_degree d (trim_space (node_ID n))) \<and>
        (def_Nodes d \<noteq> [] \<longrightarrow> (\<exists>k \<in> set (trimmed_ids d). in_degree d k = 0))"
      unfolding validate_degrees_ok counts ids by (auto simp: trimmed_ids_def)
    have "(\<forall>n \<in> set (def_Nodes d). node_ok N F n) \<and> distinct (trimmed_ids d)"
      using nodes_ok True by (simp add: trimmed_ids_def)
    moreover have "\<forall>e \<in> set (def_Edges d). edge_ok (set (trimmed_ids d)) e"
      using edges_ok True keys by simp
    ultimately show ?thesis
      unfolding valid degrees validate_conditions_ok well_formed_def using True by blast
  qed
qed

section \<open>The in-memory repository\<close>

type_synonym workflow_memory = "string \<rightharpoonup> workflow"

definition wf_mem_Create :: "workflow \<Rightarrow> workflow_memory \<Rightarrow> goerr option \<times> workflow_memory" where
  "wf_mem_Create w r = (None, r(wf_ID w \<mapsto> w))"

definition wf_mem_GetByID :: "string \<Rightarrow> string \<Rightarrow> workflow_memory \<Rightarrow> workflow result" where
  "wf_mem_GetByID tenantID workflowID r =
     (case r workflowID of
        None \<Rightarrow> Inl workflow_ErrNotFound
      | Some w \<Rightarrow> if wf_TenantID w \<noteq> tenantID then Inl workflow_ErrNotFound else Inr w)"

interpretation wf_repo: scoped_store
  "\<lambda>w r. snd (wf_mem_Create w r)" wf_mem_GetByID wf_ID wf_TenantID workflow_ErrNotFound
  by unfold_locales (auto simp: wf_mem_Create_def wf_mem_GetByID_def split: option.splits if_splits)

section \<open>The service\<close>

record 's wf_env =
  we_Create :: "workflow \<Rightarrow> 's \<Rightarrow> goerr option \<times> 's"
  we_GetByID :: "string \<Rightarrow> string \<Rightarrow> 's \<Rightarrow> workflow result"
  we_now :: "'s \<Rightarrow> time \<times> 's"
  we_newID :: "'s \<Rightarrow> string result \<times> 's"
  we_net :: net_lib
  we_fmt :: gofmt

definition no_validation :: validation_result where
  "no_validation = \<lparr>vr_Valid = False, vr_Errors = []\<rparr>"

definition new_workflow :: "string \<Rightarrow> string \<Rightarrow> wf_definition \<Rightarrow> time \<Rightarrow> workflow" where
  "new_workflow workflowID tenantID d now =
     \<lparr>wf_ID = workflowID, wf_TenantID = tenantID, wf_Name = def_Name d,
      wf_Description = def_Description d, wf_Version = def_Version d, wf_Status = StatusDraft,
      wf_ValidationStatus = ValidationStatusValid, wf_Definition = d,
      wf_CreatedAt = now, wf_UpdatedAt = now\<rparr>"

text \<open>\<open>Create\<close> returns the validation result beside the workflow, and beside the error.\<close>

definition workflows_Create ::
    "'s wf_env \<Rightarrow> string \<Rightarrow> wf_definition \<Rightarrow> 's \<Rightarrow>
     ((goerr \<times> validation_result) + (workflow \<times> validation_result)) \<times> 's" where
  "workflows_Create E tenantID d s =
     (if trim_space tenantID = [] then (Inl (workflow_ErrInvalidTenant, no_validation), s)
      else
        let validation = ValidateDefinition (we_net E) (we_fmt E) d in
        if \<not> vr_Valid validation then (Inl (workflow_ErrInvalidDefinition, validation), s)
        else case we_newID E s of
          (Inl e, s1) \<Rightarrow> (Inl (wrap ''generate workflow id'' e, no_validation), s1)
        | (Inr workflowID, s1) \<Rightarrow>
            (case we_now E s1 of (now, s2) \<Rightarrow>
               let w = new_workflow workflowID tenantID d now in
               case we_Create E w s2 of
                 (Some e, s3) \<Rightarrow> (Inl (wrap ''persist workflow'' e, no_validation), s3)
               | (None, s3) \<Rightarrow> (Inr (w, validation), s3)))"

definition workflows_Get :: "'s wf_env \<Rightarrow> string \<Rightarrow> string \<Rightarrow> 's \<Rightarrow> workflow result" where
  "workflows_Get E tenantID workflowID s =
     (if trim_space tenantID = [] then Inl workflow_ErrInvalidTenant
      else we_GetByID E tenantID workflowID s)"

definition workflows_Validate ::
    "'s wf_env \<Rightarrow> string \<Rightarrow> string \<Rightarrow> 's \<Rightarrow> validation_result result" where
  "workflows_Validate E tenantID workflowID s =
     (case workflows_Get E tenantID workflowID s of
        Inl e \<Rightarrow> Inl e
      | Inr w \<Rightarrow> Inr (ValidateDefinition (we_net E) (we_fmt E) (wf_Definition w)))"

section \<open>Properties\<close>

text \<open>C11: the validator accepts exactly the well-formed definitions: a name, a positive version, at
  least one node, distinct non-blank node ids with supported types and safe HTTP targets, edges
  between two different existing nodes, no merges, a root, and condition nodes with at least two
  outgoing edges that are labelled true and false, each at least once.\<close>
theorem ValidateDefinition_iff:
  "vr_Valid (ValidateDefinition N F d) = well_formed N F d \<and>
   vr_Valid (ValidateDefinition N F d) = (vr_Errors (ValidateDefinition N F d) = [])"
  by (auto simp: ValidateDefinition_well_formed)
     (auto simp: ValidateDefinition_def Let_def simp flip: ValidateDefinition_well_formed split: prod.splits)

lemma workflows_Create_InrE:
  assumes "workflows_Create E t d s = (Inr (w, v), s')"
  obtains s2 now k where "trim_space t \<noteq> []" "vr_Valid (ValidateDefinition (we_net E) (we_fmt E) d)"
    "v = ValidateDefinition (we_net E) (we_fmt E) d" "w = new_workflow k t d now"
    "we_Create E w s2 = (None, s')"
  using assms by (auto simp: workflows_Create_def Let_def split: go_split)

lemma new_workflow_simps [simp]:
  "wf_ID (new_workflow k t d now) = k" "wf_TenantID (new_workflow k t d now) = t"
  "wf_Definition (new_workflow k t d now) = d"
  by (simp_all add: new_workflow_def)

text \<open>Creating a workflow either refuses a definition that is not well formed, reporting at
  least one error and leaving the store as it was, or stores exactly the submitted, well-formed
  definition under the caller's tenant.\<close>
theorem workflows_Create_outcome:
  "case workflows_Create E t d s of
     (Inl (e, v), s') \<Rightarrow>
       (e = workflow_ErrInvalidDefinition) =
         (trim_space t \<noteq> [] \<and> \<not> well_formed (we_net E) (we_fmt E) d) \<and>
       (if e = workflow_ErrInvalidDefinition \<or> e = workflow_ErrInvalidTenant then s' = s else True) \<and>
       (if e = workflow_ErrInvalidDefinition then vr_Errors v \<noteq> [] else True)
   | (Inr (w, v), s') \<Rightarrow>
       well_formed (we_net E) (we_fmt E) d \<and> wf_Definition w = d \<and> wf_TenantID w = t \<and>
       (\<exists>s2. we_Create E w s2 = (None, s'))"
proof -
  have wrapped: "wrap m e \<noteq> Sentinel p q" for m e p q by (simp add: wrap_def)
  have errors: "\<not> vr_Valid (ValidateDefinition N F d) \<Longrightarrow>
      vr_Errors (ValidateDefinition N F d) \<noteq> []" for N F
    by (auto simp: ValidateDefinition_def Let_def split: prod.splits)
  show ?thesis
    by (auto simp: workflows_Create_def Let_def wrapped errors workflow_ErrInvalidDefinition_def
        workflow_ErrInvalidTenant_def simp flip: ValidateDefinition_well_formed split: go_split)
qed

end
