(* ===== verification/Graph.thy ===== *)
theory Graph
  imports Workflows
begin

text \<open>
  \<open>internal/executor/graph.go\<close>: the execution graph of a definition, the successors of an executed
  node and the output of a run. The lookups use the ids as they are written, while the validator
  trims them; the last section states what holds for definitions whose ids carry no white space
  and what goes wrong for the others.
\<close>

record graph =
  graph_nodes :: "string \<rightharpoonup> node"
  graph_outbound :: "string \<Rightarrow> edge list"
  graph_roots :: "string list"

definition count_incoming :: "edge list \<Rightarrow> string \<Rightarrow> nat" where
  "count_incoming edges = fold (\<lambda>e f. f(edge_To e := f (edge_To e) + 1)) edges (\<lambda>_. 0)"

definition group_outbound :: "edge list \<Rightarrow> string \<Rightarrow> edge list" where
  "group_outbound edges = fold (\<lambda>e f. f(edge_From e := f (edge_From e) @ [e])) edges (\<lambda>_. [])"

definition buildGraph :: "wf_definition \<Rightarrow> graph result" where
  "buildGraph d =
     (let nodeByID = fold (\<lambda>n m. m(node_ID n \<mapsto> n)) (def_Nodes d) Map.empty;
          inDegree = count_incoming (def_Edges d);
          roots = map node_ID (filter (\<lambda>n. inDegree (node_ID n) = 0) (def_Nodes d))
      in if length roots = 0
         then Inl (Anonymous ''workflow contains a cycle and cannot be executed'')
         else Inr \<lparr>graph_nodes = nodeByID, graph_outbound = group_outbound (def_Edges d),
                   graph_roots = roots\<rparr>)"

definition graph_next :: "graph \<Rightarrow> node \<Rightarrow> anyv \<Rightarrow> string list" where
  "graph_next g n output =
     (let edges = graph_outbound g (node_ID n) in
      if node_Type n \<noteq> ''condition'' then map edge_To edges
      else
        let matched = (case output of
                VMap payload \<Rightarrow> (case map_of payload ''matched'' of Some (VBool b) \<Rightarrow> b | _ \<Rightarrow> False)
              | _ \<Rightarrow> False);
            label = (if matched then ''true'' else ''false'')
        in map edge_To (filter (\<lambda>e. equal_fold (trim_space (edge_Condition e)) label) edges))"

definition buildRunOutput :: "string \<Rightarrow> vmap \<Rightarrow> anyv" where
  "buildRunOutput lastNodeID stepOutputs =
     (if lastNodeID = [] then VNil
      else VMap [(''last_node'', VStr lastNodeID), (''result'', lookup_any stepOutputs lastNodeID)])"

text \<open>The zero \<open>workflow.Node\<close>, which reading a missing key of the node map gives.\<close>

definition zero_node :: node where
  "zero_node = \<lparr>node_ID = [], node_Type = [], node_Config = []\<rparr>"

definition graph_node :: "graph \<Rightarrow> string \<Rightarrow> node" where
  "graph_node g nodeID = (case graph_nodes g nodeID of None \<Rightarrow> zero_node | Some n \<Rightarrow> n)"

section \<open>The maps of a built graph\<close>

lemma count_incoming_eq:
  "count_incoming edges k = length (filter (\<lambda>e. edge_To e = k) edges)"
  unfolding count_incoming_def by (induction edges rule: rev_induct) auto

lemma group_outbound_eq: "group_outbound edges k = filter (\<lambda>e. edge_From e = k) edges"
  unfolding group_outbound_def by (induction edges rule: rev_induct) auto

lemma node_map_Some:
  "fold (\<lambda>n m. m(node_ID n \<mapsto> n)) nodes Map.empty k = Some n \<Longrightarrow> n \<in> set nodes \<and> node_ID n = k"
  by (induction nodes rule: rev_induct) (auto split: if_splits)

lemma node_map_dom:
  "dom (fold (\<lambda>n m. m(node_ID n \<mapsto> n)) nodes Map.empty) = node_ID ` set nodes"
  by (induction nodes rule: rev_induct) (simp_all del: fun_upd_apply)

lemma node_map_distinct:
  "distinct (map node_ID nodes) \<Longrightarrow> n \<in> set nodes \<Longrightarrow>
     fold (\<lambda>n m. m(node_ID n \<mapsto> n)) nodes Map.empty (node_ID n) = Some n"
  by (induction nodes rule: rev_induct) (auto simp: image_iff)

lemma buildGraph_Inr:
  assumes "buildGraph d = Inr g"
  shows "graph_nodes g = fold (\<lambda>n m. m(node_ID n \<mapsto> n)) (def_Nodes d) Map.empty"
    and "graph_outbound g k = filter (\<lambda>e. edge_From e = k) (def_Edges d)"
    and "graph_roots g =
      map node_ID (filter (\<lambda>n. \<forall>e \<in> set (def_Edges d). edge_To e \<noteq> node_ID n) (def_Nodes d))"
  using assms
  by (auto simp: buildGraph_def Let_def count_incoming_eq group_outbound_eq filter_empty_conv
      split: if_splits intro!: arg_cong [where f = "map node_ID"] filter_cong)

lemma buildGraph_error_iff:
  "buildGraph d = Inl e \<longleftrightarrow>
     e = Anonymous ''workflow contains a cycle and cannot be executed'' \<and>
     (\<forall>n \<in> set (def_Nodes d). \<exists>e \<in> set (def_Edges d). edge_To e = node_ID n)"
  by (auto simp: buildGraph_def Let_def count_incoming_eq filter_empty_conv)

text \<open>The targets of a graph's edges are finitely many: the universe of what the queue can hold.\<close>

definition edge_targets :: "wf_definition \<Rightarrow> string set" where
  "edge_targets d = edge_To ` set (def_Edges d)"

lemma finite_edge_targets [simp]: "finite (edge_targets d)"
  by (simp add: edge_targets_def)

lemma graph_next_targets:
  "buildGraph d = Inr g \<Longrightarrow> set (graph_next g n output) \<subseteq> edge_targets d"
  by (auto simp: graph_next_def edge_targets_def buildGraph_Inr Let_def)

lemma graph_node_type: "graph_node g k = n \<Longrightarrow> node_Type n \<noteq> [] \<Longrightarrow> graph_nodes g k = Some n"
  by (auto simp: graph_node_def zero_node_def split: option.splits)

lemma graph_node_ID:
  "buildGraph d = Inr g \<Longrightarrow> node_Type (graph_node g k) \<noteq> [] \<Longrightarrow> node_ID (graph_node g k) = k"
  using node_map_Some [of "def_Nodes d" k] graph_node_type [OF refl, of g k]
  by (auto simp: buildGraph_Inr)

section \<open>Properties\<close>

text \<open>A definition that the validator accepts always has an execution graph with a root, so the
  executor's cycle error cannot occur for a stored workflow. (The validator counts edges by
  trimmed ids and the executor by raw ids: a raw edge into a node is also a trimmed one.)\<close>
theorem validated_has_graph:
  assumes "vr_Valid (ValidateDefinition N F d)"
  shows "\<exists>g. buildGraph d = Inr g \<and> graph_roots g \<noteq> []"
proof -
  obtain n where n: "n \<in> set (def_Nodes d)" "in_degree d (trim_space (node_ID n)) = 0"
    using assms unfolding ValidateDefinition_well_formed well_formed_def trimmed_ids_def by auto
  then have raw: "\<forall>e \<in> set (def_Edges d). edge_To e \<noteq> node_ID n"
    by (auto simp: in_degree_def filter_empty_conv)
  then have "buildGraph d \<noteq> Inl e" for e
    using n(1) unfolding buildGraph_error_iff by blast
  then obtain g where g: "buildGraph d = Inr g" by (cases "buildGraph d") auto
  moreover have "node_ID n \<in> set (graph_roots g)"
    using raw n(1) by (simp add: buildGraph_Inr [OF g])
  ultimately show ?thesis by auto
qed

text \<open>C36: in a validated definition each condition node has a branch for either outcome, the executor
  follows exactly the edges labelled with the outcome, and no edge belongs to both.\<close>
theorem condition_routing:
  assumes "vr_Valid (ValidateDefinition N F d)" and "buildGraph d = Inr g"
    and "n \<in> set (def_Nodes d)" and "node_Type n = ''condition''"
    and "map_of payload ''matched'' = Some (VBool b)"
  shows "graph_next g n (VMap payload) \<noteq> [] \<and>
    graph_next g n (VMap payload) =
      map edge_To (filter (\<lambda>e. edge_From e = node_ID n \<and>
        to_lower (trim_space (edge_Condition e)) = (if b then ''true'' else ''false'')) (def_Edges d))"
proof -
  have lower: "to_lower ''true'' = ''true''" "to_lower ''false'' = ''false''" by code_simp+
  have labels: "set (branch_labels d (node_ID n)) = {''true'', ''false''}"
    using assms(1,3,4) unfolding ValidateDefinition_well_formed well_formed_def by blast
  have eq: "graph_next g n (VMap payload) =
      map edge_To (filter (\<lambda>e. edge_From e = node_ID n \<and>
        to_lower (trim_space (edge_Condition e)) = (if b then ''true'' else ''false'')) (def_Edges d))"
    using assms(4,5) lower
    by (auto simp: graph_next_def buildGraph_Inr [OF assms(2)] equal_fold_def conj_commute
        intro!: arg_cong [where f = "map edge_To"] filter_cong)
  have "(if b then ''true'' else ''false'') \<in> set (branch_labels d (node_ID n))"
    unfolding labels by simp
  then show ?thesis
    unfolding eq by (auto simp: branch_labels_def filter_empty_conv)
qed

text \<open>
  A definition whose only edge is written with a blank before its target. The validator trims the
  blank; the executor looks the target up as it is written.
\<close>

definition audit_node :: "string \<Rightarrow> node" where
  "audit_node k = \<lparr>node_ID = k, node_Type = ''audit_log'', node_Config = []\<rparr>"

definition spaced_definition :: wf_definition where
  "spaced_definition = \<lparr>def_Name = ''spaced'', def_Description = [], def_Version = 1,
     def_InputSchema = [], def_Nodes = [audit_node ''a'', audit_node ''b''],
     def_Edges = [\<lparr>edge_From = ''a'', edge_To = '' b'', edge_Condition = []\<rparr>]\<rparr>"

lemma spaced_texts:
  "trim_space ''a'' = ''a''" "trim_space ''b'' = ''b''" "trim_space '' b'' = ''b''"
  "trim_space ''spaced'' = ''spaced''" "trim_space ''audit_log'' = ''audit_log''"
  by code_simp+

text \<open>Validation and execution disagree on ids with white space around them: the validator
  accepts a definition whose edge target is written with a leading blank, but in its graph both
  nodes are roots, the edge leads to an id that is no node, and the node the executor reads there
  is the zero node, whose type it does not support.\<close>
theorem validated_edge_to_missing_node:
  "vr_Valid (ValidateDefinition N F spaced_definition) \<and>
   (\<exists>g. buildGraph spaced_definition = Inr g \<and> graph_roots g = [''a'', ''b''] \<and>
      graph_next g (audit_node ''a'') output = ['' b''] \<and> graph_nodes g '' b'' = None \<and>
      graph_node g '' b'' = zero_node)"
proof -
  have "well_formed N F spaced_definition"
    by (simp add: well_formed_def spaced_definition_def audit_node_def node_ok_def edge_ok_def
        trimmed_ids_def in_degree_def spaced_texts supportedNodeType_def)
  then show ?thesis
    by (simp add: ValidateDefinition_well_formed)
       (simp add: buildGraph_def spaced_definition_def audit_node_def count_incoming_def
        group_outbound_def graph_next_def graph_node_def)
qed

section \<open>A definition with a branch\<close>

definition branch_node :: node where
  "branch_node = \<lparr>node_ID = ''c'', node_Type = ''condition'', node_Config = []\<rparr>"

definition branching_definition :: wf_definition where
  "branching_definition = \<lparr>def_Name = ''c'', def_Description = [], def_Version = 1,
     def_InputSchema = [], def_Nodes = [branch_node, audit_node ''a'', audit_node ''b''],
     def_Edges = [\<lparr>edge_From = ''c'', edge_To = ''a'', edge_Condition = ''true''\<rparr>,
                  \<lparr>edge_From = ''c'', edge_To = ''b'', edge_Condition = ''False''\<rparr>]\<rparr>"

lemma branching_texts:
  "trim_space ''c'' = ''c''" "trim_space ''condition'' = ''condition''"
  "to_lower (trim_space ''true'') = ''true''" "to_lower (trim_space ''False'') = ''false''"
  by code_simp+

lemma branching_valid: "vr_Valid (ValidateDefinition N F branching_definition)"
proof -
  have "well_formed N F branching_definition"
    by (simp add: well_formed_def branching_definition_def branch_node_def audit_node_def node_ok_def
        edge_ok_def trimmed_ids_def in_degree_def out_degree_def branch_labels_def spaced_texts
        branching_texts supportedNodeType_def)
  then show ?thesis by (simp add: ValidateDefinition_well_formed)
qed

theorem validated_has_graph_witness:
  "\<exists>g. buildGraph branching_definition = Inr g \<and> graph_roots g \<noteq> []"
  using validated_has_graph [OF branching_valid] .

theorem condition_routing_witness:
  "\<exists>g. buildGraph branching_definition = Inr g \<and>
     graph_next g branch_node (VMap [(''matched'', VBool False)]) = [''b'']"
proof -
  obtain g where g: "buildGraph branching_definition = Inr g"
    by (simp add: buildGraph_def branching_definition_def branch_node_def audit_node_def
        count_incoming_def)
  have "branch_node \<in> set (def_Nodes branching_definition)" "node_Type branch_node = ''condition''"
    "map_of [(''matched'', VBool False)] ''matched'' = Some (VBool False)"
    by (simp_all add: branching_definition_def branch_node_def)
  from condition_routing [OF branching_valid g this] g show ?thesis
    by (simp add: branching_definition_def branch_node_def branching_texts)
qed

end
