(* ===== verification/AuditLog.thy ===== *)
theory AuditLog
  imports Values
begin

text \<open>
  \<open>internal/audit/service.go\<close>: audit events, their in-memory repository and the service.
\<close>

section \<open>Data and repository\<close>

definition audit_ErrInvalidTenant :: goerr where
  "audit_ErrInvalidTenant = Sentinel ''audit'' ''invalid tenant''"

record event =
  event_ID :: string
  event_TenantID :: string
  event_RunID :: string
  event_WorkflowID :: string
  event_StepID :: string
  event_NodeID :: string
  event_Type :: string
  event_Message :: string
  event_Metadata :: vmap
  event_CreatedAt :: time

record record_params =
  rp_RunID :: string
  rp_WorkflowID :: string
  rp_StepID :: string
  rp_NodeID :: string
  rp_Type :: string
  rp_Message :: string
  rp_Metadata :: vmap

text \<open>A missing key of the map of slices reads as the empty slice.\<close>

type_synonym audit_memory = "string \<Rightarrow> event list"

definition audit_mem_Create :: "event \<Rightarrow> audit_memory \<Rightarrow> goerr option \<times> audit_memory" where
  "audit_mem_Create e events = (None, events(event_RunID e := events (event_RunID e) @ [e]))"

definition event_compare :: "event \<Rightarrow> event \<Rightarrow> int" where
  "event_compare left right =
     (if event_CreatedAt left < event_CreatedAt right then -1
      else if event_CreatedAt right < event_CreatedAt left then 1
      else str_compare (event_ID left) (event_ID right))"

definition audit_mem_ListByRun :: "string \<Rightarrow> string \<Rightarrow> audit_memory \<Rightarrow> event list" where
  "audit_mem_ListByRun tenantID runID events =
     sort_func event_compare (filter (\<lambda>e. event_TenantID e = tenantID) (events runID))"

interpretation event_order: comparator event_compare
  by unfold_locales (auto simp: event_compare_def split: if_splits)

section \<open>The service\<close>

record 's audit_env =
  ae_Create :: "event \<Rightarrow> 's \<Rightarrow> goerr option \<times> 's"
  ae_ListByRun :: "string \<Rightarrow> string \<Rightarrow> 's \<Rightarrow> event list result"
  ae_now :: "'s \<Rightarrow> time \<times> 's"
  ae_newID :: "'s \<Rightarrow> string result \<times> 's"

definition audit_Record ::
    "'s audit_env \<Rightarrow> string \<Rightarrow> record_params \<Rightarrow> 's \<Rightarrow> goerr option \<times> 's" where
  "audit_Record E tenantID p s =
     (if trim_space tenantID = [] then (Some audit_ErrInvalidTenant, s)
      else case ae_newID E s of
        (Inl e, s1) \<Rightarrow> (Some (wrap ''generate audit event id'' e), s1)
      | (Inr eventID, s1) \<Rightarrow>
          (case ae_now E s1 of (now, s2) \<Rightarrow>
             ae_Create E
               \<lparr>event_ID = eventID, event_TenantID = tenantID, event_RunID = rp_RunID p,
                event_WorkflowID = rp_WorkflowID p, event_StepID = rp_StepID p,
                event_NodeID = rp_NodeID p, event_Type = trim_space (rp_Type p),
                event_Message = trim_space (rp_Message p),
                event_Metadata = cloneMap (rp_Metadata p), event_CreatedAt = now\<rparr> s2))"

definition audit_ListRunEvents :: "'s audit_env \<Rightarrow> string \<Rightarrow> string \<Rightarrow> 's \<Rightarrow> event list result" where
  "audit_ListRunEvents E tenantID runID s =
     (if trim_space tenantID = [] then Inl audit_ErrInvalidTenant
      else ae_ListByRun E tenantID runID s)"

section \<open>Properties\<close>

text \<open>The audit trail is append-only and private to the tenant: creating an event adds exactly
  that event to the listing of its own run for its own tenant and changes no other listing; every
  listing is in chronological order, ties broken by id.\<close>
theorem audit_mem_Create_lists:
  "mset (audit_mem_ListByRun t k (snd (audit_mem_Create e events))) =
     mset (audit_mem_ListByRun t k events) +
       (if event_TenantID e = t \<and> event_RunID e = k then {#e#} else {#}) \<and>
   cmp_sorted event_compare (audit_mem_ListByRun t k events) \<and>
   list_all (\<lambda>e. event_TenantID e = t) (audit_mem_ListByRun t k events)"
  by (auto simp: audit_mem_ListByRun_def audit_mem_Create_def list_all_iff
      event_order.sorted_sort_func)

end
