(* ===== verification/Tenants.thy ===== *)
theory Tenants
  imports GoStrings
begin

text \<open>
  \<open>internal/tenant\<close>: tenant records and their in-memory repository (\<open>service.go\<close>), and the
  per-tenant execution quota and idempotency records (\<open>controls.go\<close>). The operations of
  \<open>TriggerControl\<close> run under its mutex, so each is one atomic step on its state.
\<close>

section \<open>Tenants\<close>

definition tenant_ErrNotFound :: goerr where
  "tenant_ErrNotFound = Sentinel ''tenant'' ''tenant not found''"

datatype tenant_status = TenantActive | TenantInactive

record tenant =
  tenant_ID :: string
  tenant_Name :: string
  tenant_Status :: tenant_status

definition tenant_NewMemoryRepository :: "tenant list \<Rightarrow> (string \<rightharpoonup> tenant)" where
  "tenant_NewMemoryRepository tenants = fold (\<lambda>t m. m(tenant_ID t \<mapsto> t)) tenants Map.empty"

definition tenant_GetByID :: "(string \<rightharpoonup> tenant) \<Rightarrow> string \<Rightarrow> tenant result" where
  "tenant_GetByID records k =
     (case records k of None \<Rightarrow> Inl tenant_ErrNotFound | Some t \<Rightarrow> Inr t)"

lemma tenant_map_Some:
  "fold (\<lambda>t m. m(tenant_ID t \<mapsto> t)) ts Map.empty k = Some t \<Longrightarrow> tenant_ID t = k \<and> t \<in> set ts"
  by (induction ts rule: rev_induct) (auto split: if_splits)

lemma tenant_GetByID_ID:
  "tenant_GetByID (tenant_NewMemoryRepository ts) k = Inr t \<Longrightarrow> tenant_ID t = k \<and> t \<in> set ts"
  unfolding tenant_GetByID_def tenant_NewMemoryRepository_def
  by (rule tenant_map_Some) (simp split: option.splits)

section \<open>Execution quotas\<close>

definition ErrRateLimited :: goerr where
  "ErrRateLimited = Sentinel ''tenant'' ''tenant execution rate limit exceeded''"

definition ErrIdempotencyConflict :: goerr where
  "ErrIdempotencyConflict =
     Sentinel ''tenant'' ''idempotency key already used with different request''"

record trigger_quota =
  tq_Limit :: int
  tq_Remaining :: int
  tq_ResetAt :: time

record idempotency_record =
  ir_Fingerprint :: string
  ir_RunID :: string
  ir_TriggerMode :: string

record quota_bucket =
  qb_windowStart :: time
  qb_count :: int

record trigger_control =
  tc_limit :: int
  tc_window :: duration
  tc_quotas :: "string \<rightharpoonup> quota_bucket"
  tc_records :: "string \<rightharpoonup> idempotency_record"

definition NewTriggerControl :: "int \<Rightarrow> duration \<Rightarrow> trigger_control" where
  "NewTriggerControl limit window =
     \<lparr>tc_limit = (if limit < 0 then 0 else limit),
      tc_window = (if window \<le> 0 then seconds 60 else window),
      tc_quotas = Map.empty, tc_records = Map.empty\<rparr>"

definition zero_quota :: trigger_quota where
  "zero_quota = \<lparr>tq_Limit = 0, tq_Remaining = 0, tq_ResetAt = zero_time\<rparr>"

definition zero_bucket :: quota_bucket where
  "zero_bucket = \<lparr>qb_windowStart = zero_time, qb_count = 0\<rparr>"

definition current_bucket :: "trigger_control \<Rightarrow> time \<Rightarrow> string \<Rightarrow> quota_bucket" where
  "current_bucket c now tenantID =
     (let bucket = (case tc_quotas c tenantID of None \<Rightarrow> zero_bucket | Some b \<Rightarrow> b) in
      if qb_windowStart bucket = zero_time \<or> tc_window c \<le> time_sub now (qb_windowStart bucket)
      then \<lparr>qb_windowStart = now, qb_count = 0\<rparr> else bucket)"

definition Allow ::
    "trigger_control \<Rightarrow> time \<Rightarrow> string \<Rightarrow> (trigger_quota \<times> goerr option) \<times> trigger_control" where
  "Allow c now tenantID =
     (if tc_limit c = 0 then ((zero_quota, None), c)
      else
        let bucket = current_bucket c now tenantID;
            resetAt = qb_windowStart bucket + tc_window c
        in if tc_limit c \<le> qb_count bucket then
             ((\<lparr>tq_Limit = tc_limit c, tq_Remaining = 0, tq_ResetAt = resetAt\<rparr>, Some ErrRateLimited), c)
           else
             let bucket' = bucket\<lparr>qb_count := qb_count bucket + 1\<rparr> in
             ((\<lparr>tq_Limit = tc_limit c, tq_Remaining = tc_limit c - qb_count bucket',
                tq_ResetAt = resetAt\<rparr>, None),
              c\<lparr>tc_quotas := (tc_quotas c)(tenantID \<mapsto> bucket')\<rparr>))"

section \<open>Idempotency records\<close>

definition recordKey :: "string \<Rightarrow> string \<Rightarrow> string" where
  "recordKey tenantID key = tenantID @ '':'' @ key"

definition tc_Lookup ::
    "trigger_control \<Rightarrow> string \<Rightarrow> string \<Rightarrow> string \<Rightarrow> idempotency_record option result" where
  "tc_Lookup c tenantID key0 fingerprint =
     (let key = trim_space key0 in
      if key = [] then Inr None
      else case tc_records c (recordKey tenantID key) of
        None \<Rightarrow> Inr None
      | Some r \<Rightarrow> if ir_Fingerprint r \<noteq> fingerprint then Inl ErrIdempotencyConflict else Inr (Some r))"

definition tc_Store ::
    "trigger_control \<Rightarrow> string \<Rightarrow> string \<Rightarrow> idempotency_record \<Rightarrow> goerr option \<times> trigger_control" where
  "tc_Store c tenantID key0 r =
     (let key = trim_space key0 in
      if key = [] then (None, c)
      else
        let storageKey = recordKey tenantID key in
        if (case tc_records c storageKey of
              None \<Rightarrow> False | Some existing \<Rightarrow> ir_Fingerprint existing \<noteq> ir_Fingerprint r)
        then (Some ErrIdempotencyConflict, c)
        else (None, c\<lparr>tc_records := (tc_records c)(storageKey \<mapsto> r)\<rparr>))"

section \<open>Properties of the quota\<close>

text \<open>A sequence of reservations by any tenants, and how many of those of one tenant succeeded.\<close>

fun allow_all :: "trigger_control \<Rightarrow> (string \<times> time) list \<Rightarrow> (string \<times> goerr option) list" where
  "allow_all c [] = []"
| "allow_all c ((u, now) # calls) =
     (case Allow c now u of ((q, e), c') \<Rightarrow> (u, e) # allow_all c' calls)"

definition granted :: "string \<Rightarrow> (string \<times> goerr option) list \<Rightarrow> int" where
  "granted t results = int (length (filter (\<lambda>(u, e). u = t \<and> e = None) results))"

definition requested :: "string \<Rightarrow> (string \<times> time) list \<Rightarrow> int" where
  "requested t calls = int (length (filter (\<lambda>(u, now). u = t) calls))"

text \<open>
  Within one window the bucket counts what was granted. \<open>b\<close> is the tenant's bucket; every call of
  the tenant falls into its window.
\<close>

lemma allow_all_window:
  assumes "0 < tc_limit c" and "tc_quotas c t = Some b" "qb_windowStart b \<noteq> zero_time"
    and "\<forall>(u, now) \<in> set calls. u = t \<longrightarrow> time_sub now (qb_windowStart b) < tc_window c"
    and "qb_count b \<le> tc_limit c"
  shows "granted t (allow_all c calls) = min (tc_limit c - qb_count b) (requested t calls)"
  using assms
proof (induction calls arbitrary: c b)
  case Nil
  then show ?case by (simp add: granted_def requested_def)
next
  case (Cons call calls)
  obtain u now where call: "call = (u, now)" by (cases call)
  obtain q e c' where allow: "Allow c now u = ((q, e), c')" by (metis prod.exhaust)
  have same: "tc_limit c' = tc_limit c" "tc_window c' = tc_window c"
    using allow by (auto simp: Allow_def Let_def split: if_splits)
  show ?case
  proof (cases "u = t")
    case False
    then have "tc_quotas c' t = Some b"
      using allow Cons.prems(2) by (auto simp: Allow_def Let_def split: if_splits)
    then have "granted t (allow_all c' calls) = min (tc_limit c - qb_count b) (requested t calls)"
      using Cons.IH [of c' b] Cons.prems same by auto
    then show ?thesis using False by (simp add: call allow granted_def requested_def)
  next
    case True
    have allow_t: "Allow c now t = ((q, e), c')" using allow True by simp
    have bucket: "current_bucket c now t = b"
      using Cons.prems call True by (auto simp: current_bucket_def)
    show ?thesis
    proof (cases "tc_limit c \<le> qb_count b")
      case full: True
      then have "c' = c" "e \<noteq> None"
        using allow True bucket Cons.prems(1) by (auto simp: Allow_def Let_def)
      then show ?thesis
        using Cons.IH [of c b] Cons.prems full True
        by (auto simp: call allow_t granted_def requested_def)
    next
      case room: False
      let ?b = "b\<lparr>qb_count := qb_count b + 1\<rparr>"
      have "tc_quotas c' t = Some ?b" "e = None"
        using allow True bucket Cons.prems(1) room by (auto simp: Allow_def Let_def)
      then show ?thesis
        using Cons.IH [of c' ?b] Cons.prems room True same
        by (auto simp: call allow_t granted_def requested_def)
    qed
  qed
qed

text \<open>C38: the quota is exact and per tenant: when a tenant's requests all fall into the window that
  its first request opens, the number granted is the smaller of the limit and the number made,
  however the requests of other tenants are interleaved with them.\<close>
theorem Allow_exact_quota:
  assumes "0 < tc_limit c" and "tc_quotas c t = None" and "start \<noteq> zero_time"
    and "list_all (\<lambda>(u, now). if u = t then time_sub now start < tc_window c else True) calls"
  shows "granted t (allow_all c ((t, start) # calls)) =
    min (tc_limit c) (1 + requested t calls)"
proof -
  let ?b = "\<lparr>qb_windowStart = start, qb_count = 1\<rparr>"
  obtain q e c' where allow: "Allow c start t = ((q, e), c')" by (metis prod.exhaust)
  have first: "current_bucket c start t = \<lparr>qb_windowStart = start, qb_count = 0\<rparr>"
    using assms(2) by (simp add: current_bucket_def zero_bucket_def)
  then have c': "tc_quotas c' t = Some ?b" "tc_limit c' = tc_limit c" "tc_window c' = tc_window c"
    "e = None"
    using allow assms(1) by (auto simp: Allow_def Let_def split: if_splits)
  have "granted t (allow_all c' calls) = min (tc_limit c' - qb_count ?b) (requested t calls)"
    by (rule allow_all_window) (use assms c' in \<open>auto simp: list_all_iff split: if_splits\<close>)
  then show ?thesis
    using c' by (auto simp: allow granted_def)
qed

lemma demo_window: "list_all (\<lambda>(u, now). if u = ''a'' then time_sub now 5 < seconds 60 else True)
    [(''b'', 6), (''a'', 7), (''a'', 8)]"
  by (simp add: time_sub_def)

theorem Allow_exact_quota_witness:
  "granted ''a'' (allow_all (NewTriggerControl 2 (seconds 60))
     [(''a'', 5), (''b'', 6), (''a'', 7), (''a'', 8)]) = 2"
proof -
  have "granted ''a'' (allow_all (NewTriggerControl 2 (seconds 60))
      ((''a'', 5) # [(''b'', 6), (''a'', 7), (''a'', 8)])) =
      min (tc_limit (NewTriggerControl 2 (seconds 60)))
        (1 + requested ''a'' [(''b'', 6), (''a'', 7), (''a'', 8)])"
    by (rule Allow_exact_quota)
       (use demo_window in \<open>simp_all add: NewTriggerControl_def\<close>)
  then show ?thesis by (simp add: NewTriggerControl_def requested_def)
qed

text \<open>A tenant whose window has run out starts a new one with a full quota; and a limit of 0
  turns the control off.\<close>
theorem Allow_new_window:
  assumes "0 < tc_limit c" and "tc_quotas c t = Some b"
    and "tc_window c \<le> time_sub now (qb_windowStart b)"
  shows "fst (Allow c now t) =
      (\<lparr>tq_Limit = tc_limit c, tq_Remaining = tc_limit c - 1, tq_ResetAt = now + tc_window c\<rparr>, None) \<and>
    Allow (c\<lparr>tc_limit := 0\<rparr>) now t = ((zero_quota, None), c\<lparr>tc_limit := 0\<rparr>)"
  using assms by (simp add: Allow_def current_bucket_def Let_def)

theorem Allow_new_window_witness:
  "let c = (NewTriggerControl 1 10)\<lparr>tc_quotas := [''a'' \<mapsto> \<lparr>qb_windowStart = 5, qb_count = 1\<rparr>]\<rparr> in
   snd (fst (Allow c 14 ''a'')) = Some ErrRateLimited \<and> snd (fst (Allow c 15 ''a'')) = None"
proof -
  let ?c = "(NewTriggerControl 1 10)\<lparr>tc_quotas := [''a'' \<mapsto> \<lparr>qb_windowStart = 5, qb_count = 1\<rparr>]\<rparr>"
  have "fst (Allow ?c 15 ''a'') =
      (\<lparr>tq_Limit = tc_limit ?c, tq_Remaining = tc_limit ?c - 1, tq_ResetAt = 15 + tc_window ?c\<rparr>, None) \<and>
    Allow (?c\<lparr>tc_limit := 0\<rparr>) 15 ''a'' = ((zero_quota, None), ?c\<lparr>tc_limit := 0\<rparr>)"
    by (rule Allow_new_window [of ?c "''a''" "\<lparr>qb_windowStart = 5, qb_count = 1\<rparr>"])
       (simp_all add: NewTriggerControl_def time_sub_def)
  moreover have "snd (fst (Allow ?c 14 ''a'')) = Some ErrRateLimited"
    by (simp add: Allow_def current_bucket_def NewTriggerControl_def time_sub_def Let_def)
  ultimately show ?thesis by (simp add: Let_def)
qed

section \<open>Properties of the idempotency records\<close>

lemma tc_Lookup_stored:
  "tc_Store c t k r = (None, c') \<Longrightarrow> trim_space k \<noteq> [] \<Longrightarrow>
     tc_Lookup c' t k (ir_Fingerprint r) = Inr (Some r)"
  by (auto simp: tc_Store_def tc_Lookup_def Let_def split: if_splits)

text \<open>What a lookup returns after a successful store: the stored record for the same storage key
  and fingerprint, a conflict for the same key and another fingerprint, and what it returned
  before for every other storage key.\<close>
theorem Lookup_after_Store:
  assumes "tc_Store c t k r = (None, c')" and "trim_space k \<noteq> []" and "trim_space k2 \<noteq> []"
  shows "tc_Lookup c' u k2 f =
    (if recordKey u (trim_space k2) = recordKey t (trim_space k)
     then (if f = ir_Fingerprint r then Inr (Some r) else Inl ErrIdempotencyConflict)
     else tc_Lookup c u k2 f)"
  using assms by (auto simp: tc_Store_def tc_Lookup_def Let_def split: if_splits)

theorem Lookup_after_Store_witness:
  "let r = \<lparr>ir_Fingerprint = ''f'', ir_RunID = ''r1'', ir_TriggerMode = ''sync''\<rparr> in
   tc_Lookup (snd (tc_Store (NewTriggerControl 5 10) ''acme'' '' k '' r)) ''acme'' ''k'' ''f'' = Inr (Some r)"
proof -
  let ?r = "\<lparr>ir_Fingerprint = ''f'', ir_RunID = ''r1'', ir_TriggerMode = ''sync''\<rparr>"
  let ?c = "NewTriggerControl 5 10"
  have trims: "trim_space '' k '' = ''k''" "trim_space ''k'' = ''k''" by code_simp+
  have "tc_Store ?c ''acme'' '' k '' ?r = (None, snd (tc_Store ?c ''acme'' '' k '' ?r))"
    by (simp add: tc_Store_def trims NewTriggerControl_def)
  from Lookup_after_Store [OF this, of "''k''" "''acme''" "''f''"] show ?thesis
    by (simp add: trims)
qed

text \<open>The storage key does not separate tenants: with a colon in a tenant id (which the
  configuration allows), a record stored by one tenant answers the lookups of another one, as a
  hit for the same fingerprint and as a conflict otherwise.\<close>
theorem idempotency_keys_collide:
  assumes "tc_Store c ''acme'' ''eu:42'' r = (None, c')"
  shows "tc_Lookup c' ''acme:eu'' ''42'' f =
    (if f = ir_Fingerprint r then Inr (Some r) else Inl ErrIdempotencyConflict)"
proof -
  have "trim_space ''eu:42'' = ''eu:42''" "trim_space ''42'' = ''42''" by code_simp+
  then show ?thesis
    using assms by (auto simp: tc_Store_def tc_Lookup_def recordKey_def Let_def split: if_splits)
qed

theorem idempotency_keys_collide_witness:
  "let r = \<lparr>ir_Fingerprint = ''f'', ir_RunID = ''r1'', ir_TriggerMode = ''sync''\<rparr> in
   tc_Lookup (snd (tc_Store (NewTriggerControl 5 10) ''acme'' ''eu:42'' r)) ''acme:eu'' ''42'' ''g''
     = Inl ErrIdempotencyConflict"
proof -
  let ?r = "\<lparr>ir_Fingerprint = ''f'', ir_RunID = ''r1'', ir_TriggerMode = ''sync''\<rparr>"
  let ?c = "NewTriggerControl 5 10"
  have "trim_space ''eu:42'' = ''eu:42''" by code_simp
  then have "tc_Store ?c ''acme'' ''eu:42'' ?r = (None, snd (tc_Store ?c ''acme'' ''eu:42'' ?r))"
    by (simp add: tc_Store_def NewTriggerControl_def)
  from idempotency_keys_collide [OF this, of "''g''"] show ?thesis by simp
qed

end
