(* ===== verification/Nodes.thy ===== *)
theory Nodes
  imports RunStore Graph AuditLog Tenants
begin

text \<open>
  \<open>internal/executor/nodes.go\<close> and the dispatch in \<open>internal/executor/service.go\<close>: what each type of
  workflow node computes. The dependencies of the executor's \<open>Service\<close> are the fields of a record
  over the state \<open>'s\<close> of the world around it, which every effect threads through.
\<close>

section \<open>The executor's dependencies\<close>

text \<open>
  A request as the HTTP client receives it, and a response: the body is what the connection
  delivers and the error, if any, that reading past it gives.
\<close>

record http_request =
  rq_Method :: string
  rq_URL :: string
  rq_Header :: "(string \<times> string) list"
  rq_Body :: "string option"

record http_response =
  rs_StatusCode :: int
  rs_ContentType :: string
  rs_Body :: "string \<times> goerr option"

record 's trigger_ops =
  to_Allow :: "string \<Rightarrow> 's \<Rightarrow> (trigger_quota \<times> goerr option) \<times> 's"
  to_Lookup :: "string \<Rightarrow> string \<Rightarrow> string \<Rightarrow> 's \<Rightarrow> idempotency_record option result"
  to_Store :: "string \<Rightarrow> string \<Rightarrow> idempotency_record \<Rightarrow> 's \<Rightarrow> goerr option \<times> 's"

text \<open>
  The fields of \<open>Service\<close>; the optional ones (audit, trigger control, job queue) may be nil. The
  standard library's checks of a request and its JSON decoder are parameters.
\<close>

record 's exec_env =
  ee_CreateRun :: "run \<Rightarrow> 's \<Rightarrow> goerr option \<times> 's"
  ee_UpdateRun :: "run \<Rightarrow> 's \<Rightarrow> goerr option \<times> 's"
  ee_CompleteRun :: "run \<Rightarrow> step list \<Rightarrow> 's \<Rightarrow> goerr option \<times> 's"
  ee_SavePending :: "run \<Rightarrow> step list \<Rightarrow> pending_state \<Rightarrow> 's \<Rightarrow> goerr option \<times> 's"
  ee_LoadPending :: "string \<Rightarrow> string \<Rightarrow> 's \<Rightarrow> (run \<times> step list \<times> pending_state) result"
  ee_GetRun :: "string \<Rightarrow> string \<Rightarrow> 's \<Rightarrow> run result"
  ee_ListRuns :: "string \<Rightarrow> string \<Rightarrow> 's \<Rightarrow> run list result"
  ee_ListSteps :: "string \<Rightarrow> string \<Rightarrow> 's \<Rightarrow> step list result"
  ee_workflows_Get :: "string \<Rightarrow> string \<Rightarrow> 's \<Rightarrow> workflow result"
  ee_documents_ListChunks :: "string \<Rightarrow> string \<Rightarrow> 's \<Rightarrow> chunk list result"
  ee_audit_Record :: "(string \<Rightarrow> record_params \<Rightarrow> 's \<Rightarrow> goerr option \<times> 's) option"
  ee_trigger :: "'s trigger_ops option"
  ee_Generate :: "string \<Rightarrow> 's \<Rightarrow> string result \<times> 's"
  ee_Do :: "http_request \<Rightarrow> 's \<Rightarrow> http_response result \<times> 's"
  ee_Enqueue :: "(async_job \<Rightarrow> 's \<Rightarrow> goerr option \<times> 's) option"
  ee_now :: "'s \<Rightarrow> time \<times> 's"
  ee_newID :: "'s \<Rightarrow> string result \<times> 's"
  ee_net :: net_lib
  ee_fmt :: gofmt
  ee_NewRequest :: "string \<Rightarrow> string \<Rightarrow> goerr option"
  ee_Unmarshal :: "string \<Rightarrow> anyv option"

section \<open>Retrieval\<close>

type_synonym scored_chunk = "chunk \<times> int"

definition score_chunks :: "string \<Rightarrow> chunk list \<Rightarrow> scored_chunk list" where
  "score_chunks query chunks =
     filter (\<lambda>(c, score). \<not> (query \<noteq> [] \<and> score = 0))
       (map (\<lambda>c. (c, lexicalScore query (chunk_Content c))) chunks)"

fun collect_chunks ::
    "'s exec_env \<Rightarrow> string \<Rightarrow> string \<Rightarrow> string list \<Rightarrow> 's \<Rightarrow> scored_chunk list result" where
  "collect_chunks E tenantID query [] s = Inr []"
| "collect_chunks E tenantID query (documentID # rest) s =
     (case ee_documents_ListChunks E tenantID documentID s of
        Inl e \<Rightarrow> Inl e
      | Inr chunks \<Rightarrow>
          (case collect_chunks E tenantID query rest s of
             Inl e \<Rightarrow> Inl e
           | Inr results \<Rightarrow> Inr (score_chunks query chunks @ results)))"

definition scored_compare :: "scored_chunk \<Rightarrow> scored_chunk \<Rightarrow> int" where
  "scored_compare left right =
     (if snd left \<noteq> snd right then snd right - snd left
      else if chunk_DocumentID (fst left) \<noteq> chunk_DocumentID (fst right)
      then str_compare (chunk_DocumentID (fst left)) (chunk_DocumentID (fst right))
      else int (chunk_ChunkIndex (fst left)) - int (chunk_ChunkIndex (fst right)))"

interpretation scored_order: comparator scored_compare
  by unfold_locales (auto simp: scored_compare_def split: if_splits)

definition retrieval_query :: "gofmt \<Rightarrow> vmap \<Rightarrow> vmap \<Rightarrow> string" where
  "retrieval_query F config input =
     to_lower (trim_space (anyString F
       (lookup_any input (stringConfig F config ''query_input_key'' ''query''))))"

definition executeRetrieval ::
    "'s exec_env \<Rightarrow> string \<Rightarrow> vmap \<Rightarrow> vmap \<Rightarrow> 's \<Rightarrow> anyv result" where
  "executeRetrieval E tenantID config workflowInput s =
     (let documentIDs = stringSliceConfig (ee_fmt E) config ''document_ids'' in
      if documentIDs = [] then Inl (Anonymous ''retrieve_documents requires document_ids'')
      else
        let query = retrieval_query (ee_fmt E) config workflowInput;
            limit = intConfig config ''limit'' 3
        in case collect_chunks E tenantID query documentIDs s of
             Inl e \<Rightarrow> Inl e
           | Inr results0 \<Rightarrow>
               let sorted = sort_func scored_compare results0;
                   results = (if 0 < limit \<and> limit < int (length sorted)
                              then take (nat limit) sorted else sorted)
               in Inr (VMap [(''query'', VStr query), (''documents'', VChunks (map fst results))]))"

section \<open>Language models\<close>

definition Generate_mock :: "string \<Rightarrow> string" where
  "Generate_mock prompt = ''mock-llm: '' @ join '' '' (str_fields prompt)"

definition llm_parts :: "gofmt \<Rightarrow> vmap \<Rightarrow> vmap \<Rightarrow> vmap \<Rightarrow> string list" where
  "llm_parts F config workflowInput stepOutputs =
     (let prompt = stringConfig F config ''prompt'' [];
          inputKey = stringConfig F config ''input_key'' [];
          contextStep = stringConfig F config ''context_step'' []
      in (if prompt \<noteq> [] then [prompt] else []) @
         (if inputKey \<noteq> [] then
            let inputValue = anyString F (lookup_any workflowInput inputKey)
            in if inputValue \<noteq> [] then [inputValue] else []
          else []) @
         (if contextStep \<noteq> [] then
            (case map_of stepOutputs contextStep of
               Some contextValue \<Rightarrow> [renderAny F contextValue] | None \<Rightarrow> [])
          else []))"

definition executeLLM ::
    "'s exec_env \<Rightarrow> vmap \<Rightarrow> vmap \<Rightarrow> vmap \<Rightarrow> 's \<Rightarrow> anyv result \<times> 's" where
  "executeLLM E config workflowInput stepOutputs s =
     (let prompt = join (replicate 2 (CHR 0x0A)) (llm_parts (ee_fmt E) config workflowInput stepOutputs) in
      case ee_Generate E prompt s of
        (Inl e, s') \<Rightarrow> (Inl e, s')
      | (Inr response, s') \<Rightarrow> (Inr (VMap [(''prompt'', VStr prompt), (''text'', VStr response)]), s'))"

section \<open>HTTP tools\<close>

definition httpToolPayload :: "gofmt \<Rightarrow> vmap \<Rightarrow> vmap \<Rightarrow> vmap \<Rightarrow> anyv" where
  "httpToolPayload F config workflowInput stepOutputs =
     (case map_of config ''body'' of
        Some body \<Rightarrow> body
      | None \<Rightarrow>
          let inputKey = stringConfig F config ''input_key'' [];
              contextStep = stringConfig F config ''context_step'' [];
              payload =
                (if inputKey \<noteq> [] then
                   [(''input'', lookup_any workflowInput inputKey), (''input_key'', VStr inputKey)]
                 else []) @
                (if contextStep \<noteq> [] then
                   [(''context'', lookup_any stepOutputs contextStep),
                    (''context_step'', VStr contextStep)]
                 else [])
          in if payload = [] then VNil else VMap payload)"

text \<open>
  \<open>http.Header.Set\<close> stores under the canonical form of the key: letters after the start and after
  a hyphen in upper case, the others in lower case, unless a byte is not allowed in a header name.
\<close>

definition header_char :: "char \<Rightarrow> bool" where
  "header_char c \<longleftrightarrow>
     (CHR ''a'' \<le> c \<and> c \<le> CHR ''z'') \<or> (CHR ''A'' \<le> c \<and> c \<le> CHR ''Z'') \<or>
     (CHR ''0'' \<le> c \<and> c \<le> CHR ''9'') \<or> c \<in> set ''!#$%&*+-.^_|~'' \<or> c = CHR 0x27 \<or> c = CHR 0x60"

fun canonical_chars :: "bool \<Rightarrow> string \<Rightarrow> string" where
  "canonical_chars upper [] = []"
| "canonical_chars upper (c # cs) =
     (if upper then upper_char c else lower_char c) # canonical_chars (c = CHR ''-'') cs"

definition canonical_header :: "string \<Rightarrow> string" where
  "canonical_header key = (if list_all header_char key then canonical_chars True key else key)"

definition header_set :: "string \<Rightarrow> string \<Rightarrow> (string \<times> string) list \<Rightarrow> (string \<times> string) list" where
  "header_set key value header = AList.update (canonical_header key) value header"

text \<open>
  The headers of the configuration are set in the order of the list that stands for the Go map; two
  of them with the same canonical form would otherwise come in any order.
\<close>

definition request_headers :: "(string \<times> string) list \<Rightarrow> anyv \<Rightarrow> (string \<times> string) list" where
  "request_headers configured payload =
     (let header = fold (\<lambda>(k, v). header_set k v) configured [];
          contentType = (case map_of header ''Content-Type'' of None \<Rightarrow> [] | Some v \<Rightarrow> v)
      in if payload \<noteq> VNil \<and> contentType = [] then header_set ''Content-Type'' ''application/json'' header
         else header)"

definition decodeHTTPToolBody :: "'s exec_env \<Rightarrow> string \<Rightarrow> string \<Rightarrow> anyv" where
  "decodeHTTPToolBody E contentType body =
     (let text = trim_space body in
      if text = [] then VStr []
      else if contains (to_lower contentType) ''application/json'' then
        (case ee_Unmarshal E body of Some decoded \<Rightarrow> decoded | None \<Rightarrow> VStr text)
      else VStr text)"

text \<open>\<open>io.ReadAll(io.LimitReader(body, 1<<20))\<close>: an error past the limit is never seen.\<close>

definition response_limit :: nat where
  "response_limit = 2 ^ 20"

definition read_limited :: "string \<times> goerr option \<Rightarrow> string result" where
  "read_limited body =
     (if response_limit \<le> length (fst body) then Inr (take response_limit (fst body))
      else case snd body of None \<Rightarrow> Inr (fst body) | Some e \<Rightarrow> Inl e)"

definition readHTTPToolResponse ::
    "'s exec_env \<Rightarrow> http_response \<Rightarrow> string \<Rightarrow> string \<Rightarrow> anyv result" where
  "readHTTPToolResponse E resp http_method url =
     (case read_limited (rs_Body resp) of
        Inl e \<Rightarrow> Inl (wrap ''read http tool response'' e)
      | Inr body \<Rightarrow>
          let fixed = [(''method'', VStr http_method), (''url'', VStr url),
                       (''status_code'', VInt (rs_StatusCode resp))];
              outcome = (if body \<noteq> []
                         then fixed @ [(''body'', decodeHTTPToolBody E (rs_ContentType resp) body)]
                         else fixed)
          in if 400 \<le> rs_StatusCode resp then
               Inl (Anonymous (''http tool returned status '' @ int_str (rs_StatusCode resp)))
             else Inr (VMap outcome))"

definition executeHTTPTool ::
    "'s exec_env \<Rightarrow> vmap \<Rightarrow> vmap \<Rightarrow> vmap \<Rightarrow> 's \<Rightarrow> anyv result \<times> 's" where
  "executeHTTPTool E config workflowInput stepOutputs s =
     (let url = stringConfig (ee_fmt E) config ''url'' [] in
      case ValidateHTTPToolURL (ee_net E) url of
        Some e \<Rightarrow> (Inl e, s)
      | None \<Rightarrow>
          let http_method = to_upper (stringConfig (ee_fmt E) config ''method'' ''POST'');
              payload = httpToolPayload (ee_fmt E) config workflowInput stepOutputs;
              body = (if payload \<noteq> VNil then Some (json_marshal (ee_fmt E) payload) else None)
          in case ee_NewRequest E http_method url of
               Some e \<Rightarrow> (Inl (wrap ''build http tool request'' e), s)
             | None \<Rightarrow>
                 let req = \<lparr>rq_Method = http_method, rq_URL = url,
                       rq_Header = request_headers (stringMapConfig (ee_fmt E) config ''headers'') payload,
                       rq_Body = body\<rparr>
                 in case ee_Do E req s of
                      (Inl e, s') \<Rightarrow> (Inl (wrap ''execute http tool request'' e), s')
                    | (Inr resp, s') \<Rightarrow> (readHTTPToolResponse E resp http_method url, s'))"

section \<open>Audit and condition nodes\<close>

definition executeAudit :: "gofmt \<Rightarrow> vmap \<Rightarrow> vmap \<Rightarrow> anyv" where
  "executeAudit F config stepOutputs =
     (let fromStep = stringConfig F config ''from_step'' [] in
      VMap ((''message'', VStr (stringConfig F config ''message'' ''audit logged'')) #
        (if fromStep \<noteq> [] then
           [(''from_step'', VStr fromStep), (''value'', lookup_any stepOutputs fromStep)]
         else [])))"

definition condition_value :: "gofmt \<Rightarrow> vmap \<Rightarrow> vmap \<Rightarrow> vmap \<Rightarrow> string" where
  "condition_value F config workflowInput stepOutputs =
     (let contextStep = stringConfig F config ''context_step'' [] in
      if contextStep \<noteq> [] then renderAny F (lookup_any stepOutputs contextStep)
      else anyString F (lookup_any workflowInput (stringConfig F config ''input_key'' [])))"

definition executeCondition :: "gofmt \<Rightarrow> vmap \<Rightarrow> vmap \<Rightarrow> vmap \<Rightarrow> anyv result" where
  "executeCondition F config workflowInput stepOutputs =
     (let value = condition_value F config workflowInput stepOutputs;
          operator = to_lower (stringConfig F config ''operator'' ''equals'');
          target = stringConfig F config ''equals'' (stringConfig F config ''value'' []);
          answer = (\<lambda>matched. VMap [(''matched'', VBool matched), (''operator'', VStr operator),
                                    (''value'', VStr value), (''target'', VStr target)])
      in if operator = ''equals'' then
           Inr (answer (equal_fold (trim_space value) (trim_space target)))
         else if operator = ''contains'' then
           Inr (answer (contains (to_lower value) (to_lower target)))
         else Inl (Anonymous (''unsupported condition operator '' @ quote operator)))"

section \<open>Dispatch\<close>

definition executeNode ::
    "'s exec_env \<Rightarrow> string \<Rightarrow> node \<Rightarrow> vmap \<Rightarrow> vmap \<Rightarrow> 's \<Rightarrow> anyv result \<times> 's" where
  "executeNode E tenantID n workflowInput stepOutputs s =
     (if node_Type n = ''retrieve_documents'' then
        (executeRetrieval E tenantID (node_Config n) workflowInput s, s)
      else if node_Type n = ''llm'' then executeLLM E (node_Config n) workflowInput stepOutputs s
      else if node_Type n = ''condition'' then
        (executeCondition (ee_fmt E) (node_Config n) workflowInput stepOutputs, s)
      else if node_Type n = ''http_tool'' then
        executeHTTPTool E (node_Config n) workflowInput stepOutputs s
      else if node_Type n = ''audit_log'' then
        (Inr (executeAudit (ee_fmt E) (node_Config n) stepOutputs), s)
      else (Inl (Anonymous (''node type '' @ quote (node_Type n) @
                            '' is not supported by sync execution yet'')), s))"

section \<open>Properties\<close>

lemma collect_chunks_Inr:
  "collect_chunks E t query ds s = Inr results \<Longrightarrow>
     (\<forall>d \<in> set ds. \<exists>cs. ee_documents_ListChunks E t d s = Inr cs) \<and>
     results = concat (map (\<lambda>d. case ee_documents_ListChunks E t d s of
                               Inl e \<Rightarrow> [] | Inr cs \<Rightarrow> score_chunks query cs) ds)"
  by (induction ds arbitrary: results) (auto split: sum.splits)

lemma score_chunks_set:
  "set (score_chunks query cs) =
     {(c, lexicalScore query (chunk_Content c)) | c. c \<in> set cs \<and>
        (query = [] \<or> lexicalScore query (chunk_Content c) \<noteq> 0)}"
  by (auto simp: score_chunks_def)

lemma take_drop_sorted:
  "cmp_sorted cmp xs \<Longrightarrow> cmp_sorted cmp (take n xs) \<and>
     list_all (\<lambda>d. list_all (\<lambda>p. cmp p d \<le> 0) (take n xs)) (drop n xs)"
  using sorted_wrt_append [of "\<lambda>x y. cmp x y \<le> 0" "take n xs" "drop n xs"]
  by (auto simp: cmp_sorted_def list_all_iff)


text \<open>An environment in which every dependency is trivial, to evaluate nodes in.\<close>

definition plain_fmt :: gofmt where
  "plain_fmt = \<lparr>fmt_float_json = (\<lambda>_. ''0.5''), fmt_time_json = (\<lambda>_. ''2024''),
     fmt_Sprint = json_marshal \<lparr>fmt_float_json = (\<lambda>_. ''0.5''), fmt_time_json = (\<lambda>_. ''2024''),
                                fmt_Sprint = (\<lambda>_. [])\<rparr>\<rparr>"

definition demo_chunk :: "nat \<Rightarrow> string \<Rightarrow> chunk" where
  "demo_chunk i content = \<lparr>chunk_ID = ''c'', chunk_DocumentID = ''d1'', chunk_TenantID = ''acme'',
     chunk_ChunkIndex = i, chunk_Content = content, chunk_TokenEstimate = 1, chunk_CreatedAt = 0\<rparr>"

definition demo_env :: "unit exec_env" where
  "demo_env = \<lparr>
     ee_CreateRun = (\<lambda>r s. (None, s)), ee_UpdateRun = (\<lambda>r s. (None, s)),
     ee_CompleteRun = (\<lambda>r st s. (None, s)), ee_SavePending = (\<lambda>r st p s. (None, s)),
     ee_LoadPending = (\<lambda>t k s. Inl exec_ErrNotFound), ee_GetRun = (\<lambda>t k s. Inl exec_ErrNotFound),
     ee_ListRuns = (\<lambda>t st s. Inr []), ee_ListSteps = (\<lambda>t k s. Inr []),
     ee_workflows_Get = (\<lambda>t k s. Inl workflow_ErrNotFound),
     ee_documents_ListChunks =
       (\<lambda>t k s. if t = ''acme'' \<and> k = ''d1''
                then Inr [demo_chunk 0 ''Refunds take days'', demo_chunk 1 ''Contact support'']
                else Inl documents_ErrNotFound),
     ee_audit_Record = None, ee_trigger = None,
     ee_Generate = (\<lambda>prompt s. (Inr (Generate_mock prompt), s)),
     ee_Do = (\<lambda>rq s. (Inr \<lparr>rs_StatusCode = 200, rs_ContentType = ''text/plain'',
                          rs_Body = (''ok'', None)\<rparr>, s)),
     ee_Enqueue = None, ee_now = (\<lambda>s. (1, s)), ee_newID = (\<lambda>s. (Inr ''n'', s)),
     ee_net = demo_net, ee_fmt = plain_fmt, ee_NewRequest = (\<lambda>m u. None),
     ee_Unmarshal = (\<lambda>s. None)\<rparr>"

definition demo_retrieval :: vmap where
  "demo_retrieval = [(''document_ids'', VStrs [''d1'']), (''limit'', VInt 1)]"


text \<open>A condition node with an operator it knows always answers with a Boolean, so that routing
  on the answer is decided; any other operator is an error and never an answer.\<close>
theorem executeCondition_decides:
  "let operator = to_lower (stringConfig F config ''operator'' ''equals'');
       value = condition_value F config input outputs;
       target = stringConfig F config ''equals'' (stringConfig F config ''value'' [])
   in case executeCondition F config input outputs of
        Inr (VMap payload) \<Rightarrow>
          (operator = ''equals'' \<and>
             map_of payload ''matched'' =
               Some (VBool (to_lower (trim_space value) = to_lower (trim_space target)))) \<or>
          (operator = ''contains'' \<and>
             map_of payload ''matched'' =
               Some (VBool (\<exists>before after. to_lower value = before @ to_lower target @ after)))
      | Inr other \<Rightarrow> False
      | Inl e \<Rightarrow> operator \<noteq> ''equals'' \<and> operator \<noteq> ''contains''"
  by (simp add: executeCondition_def Let_def equal_fold_def contains_iff)

section \<open>The egress policy\<close>

text \<open>
  The same environment with an HTTP client that treats requests to a URL which the policy rejects
  in any way whatsoever.
\<close>

definition guarded :: "(http_request \<Rightarrow> 's \<Rightarrow> http_response result \<times> 's) \<Rightarrow> 's exec_env \<Rightarrow> 's exec_env" where
  "guarded bad E =
     E\<lparr>ee_Do := (\<lambda>rq s. if ValidateHTTPToolURL (ee_net E) (rq_URL rq) = None then ee_Do E rq s
                       else bad rq s)\<rparr>"

named_theorems guarded_simps \<open>what does not depend on the HTTP client's answer to rejected URLs\<close>

lemma guarded_fields [simp]:
  "ee_CreateRun (guarded bad E) = ee_CreateRun E" "ee_UpdateRun (guarded bad E) = ee_UpdateRun E"
  "ee_CompleteRun (guarded bad E) = ee_CompleteRun E" "ee_SavePending (guarded bad E) = ee_SavePending E"
  "ee_LoadPending (guarded bad E) = ee_LoadPending E" "ee_GetRun (guarded bad E) = ee_GetRun E"
  "ee_workflows_Get (guarded bad E) = ee_workflows_Get E"
  "ee_documents_ListChunks (guarded bad E) = ee_documents_ListChunks E"
  "ee_audit_Record (guarded bad E) = ee_audit_Record E" "ee_Generate (guarded bad E) = ee_Generate E"
  "ee_Enqueue (guarded bad E) = ee_Enqueue E" "ee_now (guarded bad E) = ee_now E"
  "ee_newID (guarded bad E) = ee_newID E" "ee_net (guarded bad E) = ee_net E"
  "ee_fmt (guarded bad E) = ee_fmt E" "ee_NewRequest (guarded bad E) = ee_NewRequest E"
  "ee_Unmarshal (guarded bad E) = ee_Unmarshal E"
  by (simp_all add: guarded_def)

lemma collect_chunks_guarded [guarded_simps]:
  "collect_chunks (guarded bad E) t query ds s = collect_chunks E t query ds s"
  by (induction ds) (auto split: sum.splits)

lemma readHTTPToolResponse_guarded [guarded_simps]:
  "readHTTPToolResponse (guarded bad E) resp m url = readHTTPToolResponse E resp m url"
  unfolding readHTTPToolResponse_def decodeHTTPToolBody_def guarded_fields ..

lemma ee_Do_guarded:
  "ValidateHTTPToolURL (ee_net E) (rq_URL rq) = None \<Longrightarrow> ee_Do (guarded bad E) rq s = ee_Do E rq s"
  by (simp add: guarded_def)

lemma executeHTTPTool_guarded [guarded_simps]:
  "executeHTTPTool (guarded bad E) config input outputs s = executeHTTPTool E config input outputs s"
proof (cases "ValidateHTTPToolURL (ee_net E) (stringConfig (ee_fmt E) config ''url'' [])")
  case None
  then show ?thesis
    unfolding executeHTTPTool_def guarded_fields readHTTPToolResponse_guarded Let_def
    by (simp add: ee_Do_guarded cong: option.case_cong)
next
  case (Some e)
  then show ?thesis
    by (simp add: executeHTTPTool_def)
qed

lemma executeNode_guarded [guarded_simps]:
  "executeNode (guarded bad E) t n input outputs s = executeNode E t n input outputs s"
  unfolding executeNode_def executeRetrieval_def executeLLM_def guarded_fields guarded_simps ..

end
