(* ===== verification/Engine.thy ===== *)
theory Engine
  imports Nodes
begin

text \<open>
  \<open>internal/executor/engine.go\<close> and \<open>executeStep\<close> of \<open>service.go\<close>: the loop that takes nodes from a
  queue and executes them. The loop is a partial function, because for an arbitrary graph it need
  not end; \<open>continueExecution_terminates\<close> shows that for the graph of a definition it always does.
\<close>

section \<open>State and results\<close>

record execution_state =
  es_steps :: "step list"
  es_stepOutputs :: vmap
  es_lastNodeID :: string
  es_queue :: "string list"
  es_executed :: "string set"

record pause_point =
  pp_output :: anyv
  pp_pending :: pending_state

record run_failure =
  rf_NodeID :: string
  rf_Err :: goerr

text \<open>How the loop ends: of the three results beside the state at most one is not nil.\<close>

datatype outcome =
    Finished
  | Paused pause_point
  | Failed run_failure
  | Aborted goerr

definition newExecutionState :: "string list \<Rightarrow> execution_state" where
  "newExecutionState roots =
     \<lparr>es_steps = [], es_stepOutputs = [], es_lastNodeID = [], es_queue = roots, es_executed = {}\<rparr>"

definition stateFromPending :: "step list \<Rightarrow> pending_state \<Rightarrow> execution_state" where
  "stateFromPending steps pending =
     \<lparr>es_steps = steps, es_stepOutputs = cloneMap (pn_StepOutputs pending), es_lastNodeID = [],
      es_queue = pn_Queue pending, es_executed = cloneBoolMap (pn_Executed pending)\<rparr>"

section \<open>Steps\<close>

definition step_of :: "string \<Rightarrow> string \<Rightarrow> node \<Rightarrow> step_status \<Rightarrow> time \<Rightarrow> step" where
  "step_of stepID runID n status startedAt =
     \<lparr>step_ID = stepID, step_RunID = runID, step_NodeID = node_ID n, step_NodeType = node_Type n,
      step_Status = status, step_Attempt = 1, step_Input = [(''config'', VMap (node_Config n))],
      step_Output = VNil, step_Error = [], step_StartedAt = startedAt, step_CompletedAt = zero_time\<rparr>"

definition executeStep ::
    "'s exec_env \<Rightarrow> string \<Rightarrow> string \<Rightarrow> node \<Rightarrow> vmap \<Rightarrow> vmap \<Rightarrow> 's \<Rightarrow> (step \<times> anyv result) \<times> 's" where
  "executeStep E runID tenantID n workflowInput stepOutputs s =
     (case ee_newID E s of
        (Inl e, s1) \<Rightarrow> ((zero_step, Inl (wrap ''generate step id'' e)), s1)
      | (Inr stepID, s1) \<Rightarrow>
          (case ee_now E s1 of (startedAt, s2) \<Rightarrow>
           case executeNode E tenantID n workflowInput stepOutputs s2 of (answer, s3) \<Rightarrow>
           case ee_now E s3 of (completedAt, s4) \<Rightarrow>
             let st = (step_of stepID runID n StepStatusCompleted startedAt)
                        \<lparr>step_CompletedAt := completedAt\<rparr>
             in case answer of
                  Inl e \<Rightarrow> ((st\<lparr>step_Status := StepStatusFailed, step_Error := error_text e\<rparr>, Inl e), s4)
                | Inr output \<Rightarrow> ((st\<lparr>step_Output := output\<rparr>, Inr output), s4)))"

definition awaitApproval :: "'s exec_env \<Rightarrow> string \<Rightarrow> node \<Rightarrow> 's \<Rightarrow> (step \<times> anyv) result \<times> 's" where
  "awaitApproval E runID n s =
     (case ee_newID E s of
        (Inl e, s1) \<Rightarrow> (Inl (wrap ''generate step id'' e), s1)
      | (Inr stepID, s1) \<Rightarrow>
          let output = VMap [(''message'',
                VStr (stringConfig (ee_fmt E) (node_Config n) ''message'' ''approval required''))]
          in case ee_now E s1 of (startedAt, s2) \<Rightarrow>
             (Inr ((step_of stepID runID n StepStatusWaitingApproval startedAt)\<lparr>step_Output := output\<rparr>,
                   output), s2))"

definition recordAudit :: "'s exec_env \<Rightarrow> string \<Rightarrow> record_params \<Rightarrow> 's \<Rightarrow> 's" where
  "recordAudit E tenantID params s =
     (case ee_audit_Record E of None \<Rightarrow> s | Some record_event \<Rightarrow> snd (record_event tenantID params s))"

definition auditParamsForStep :: "string \<Rightarrow> string \<Rightarrow> step \<Rightarrow> vmap \<Rightarrow> record_params" where
  "auditParamsForStep eventType message st metadata =
     \<lparr>rp_RunID = step_RunID st, rp_WorkflowID = [], rp_StepID = step_ID st, rp_NodeID = step_NodeID st,
      rp_Type = eventType, rp_Message = message, rp_Metadata = metadata\<rparr>"

section \<open>The loop\<close>

text \<open>The body for an approval node: a new waiting step, and the state to resume from.\<close>

definition pause_at ::
    "'s exec_env \<Rightarrow> string \<Rightarrow> string \<Rightarrow> graph \<Rightarrow> node \<Rightarrow> execution_state \<Rightarrow> 's \<Rightarrow>
     (execution_state \<times> outcome) \<times> 's" where
  "pause_at E runID tenantID g n st s =
     (case awaitApproval E runID n s of
        (Inl e, s1) \<Rightarrow> ((st, Aborted e), s1)
      | (Inr (new_step, output), s1) \<Rightarrow>
          let st1 = st\<lparr>es_steps := es_steps st @ [new_step], es_lastNodeID := node_ID n\<rparr>;
              s2 = recordAudit E tenantID
                     (auditParamsForStep ''step_waiting_approval'' [] new_step [(''output'', output)]) s1
          in ((st1, Paused \<lparr>pp_output = output, pp_pending =
                 \<lparr>pn_WaitingNodeID = node_ID n,
                  pn_Queue = appendQueue (es_queue st1) (graph_next g n output) (es_executed st1),
                  pn_StepOutputs = cloneMap (es_stepOutputs st1),
                  pn_Executed = cloneBoolMap (es_executed st1)\<rparr>\<rparr>), s2))"

text \<open>
  One iteration, after \<open>nodeID\<close> was taken from the queue: either the loop goes on with a new state
  and set of queued ids, or it ends.
\<close>

definition run_node ::
    "'s exec_env \<Rightarrow> string \<Rightarrow> string \<Rightarrow> graph \<Rightarrow> vmap \<Rightarrow> node \<Rightarrow> execution_state \<Rightarrow> string set \<Rightarrow> 's \<Rightarrow>
     ((execution_state \<times> string set) + (execution_state \<times> outcome)) \<times> 's" where
  "run_node E runID tenantID g workflowInput n st queued s =
     (if node_Type n = ''approval'' then
        (case pause_at E runID tenantID g n st s of (r, s1) \<Rightarrow> (Inr r, s1))
      else
        case executeStep E runID tenantID n workflowInput (es_stepOutputs st) s of
          ((new_step, answer), s1) \<Rightarrow>
            let st1 = st\<lparr>es_steps := es_steps st @ [new_step], es_lastNodeID := node_ID n\<rparr> in
            (case answer of
               Inl e \<Rightarrow>
                 (Inr (st1, Failed \<lparr>rf_NodeID = node_ID n, rf_Err = e\<rparr>),
                  recordAudit E tenantID (auditParamsForStep ''step_failed'' (error_text e) new_step
                    [(''error'', VStr (error_text e))]) s1)
             | Inr output \<Rightarrow>
                 let s2 = recordAudit E tenantID
                            (auditParamsForStep ''step_completed'' [] new_step [(''output'', output)]) s1;
                     executed = insert (node_ID n) (es_executed st1);
                     (queue, queued1) =
                       push_next executed (graph_next g n output) (es_queue st1) queued
                 in (Inl (st1\<lparr>es_executed := executed,
                              es_stepOutputs := AList.update (node_ID n) output (es_stepOutputs st1),
                              es_queue := queue\<rparr>, queued1), s2)))"

partial_function (option) exec_loop ::
    "'s exec_env \<Rightarrow> string \<Rightarrow> string \<Rightarrow> graph \<Rightarrow> vmap \<Rightarrow> execution_state \<Rightarrow> string set \<Rightarrow> 's \<Rightarrow>
     ((execution_state \<times> outcome) \<times> 's) option" where
  "exec_loop E runID tenantID g workflowInput st queued s =
     (case es_queue st of
        [] \<Rightarrow> Some ((st, Finished), s)
      | nodeID # rest \<Rightarrow>
          (case run_node E runID tenantID g workflowInput (graph_node g nodeID) (st\<lparr>es_queue := rest\<rparr>)
                  (queued - {nodeID}) s of
             (Inl (st', queued'), s') \<Rightarrow> exec_loop E runID tenantID g workflowInput st' queued' s'
           | (Inr r, s') \<Rightarrow> Some (r, s')))"

declare exec_loop.simps [code]

definition continueExecution ::
    "'s exec_env \<Rightarrow> string \<Rightarrow> string \<Rightarrow> graph \<Rightarrow> vmap \<Rightarrow> execution_state \<Rightarrow> 's \<Rightarrow>
     ((execution_state \<times> outcome) \<times> 's) option" where
  "continueExecution E runID tenantID g workflowInput st s =
     exec_loop E runID tenantID g workflowInput st (set (es_queue st)) s"

section \<open>Resuming after an approval\<close>

text \<open>What \<open>ResumeApproval\<close> makes of the loaded steps and pending state when the answer is yes.\<close>

definition approval_fields :: "bool \<Rightarrow> string \<Rightarrow> vmap" where
  "approval_fields approved comment =
     [(''approved'', VBool approved), (''comment'', VStr (trim_space comment))]"

definition approval_output :: "bool \<Rightarrow> string \<Rightarrow> anyv" where
  "approval_output approved comment = VMap (approval_fields approved comment)"

definition resolve_last :: "anyv \<Rightarrow> time \<Rightarrow> step list \<Rightarrow> step list" where
  "resolve_last output at_time steps =
     steps[length steps - 1 := (last steps)
       \<lparr>step_Status := StepStatusCompleted, step_Output := output, step_CompletedAt := at_time\<rparr>]"

definition resumed_state :: "step list \<Rightarrow> pending_state \<Rightarrow> anyv \<Rightarrow> execution_state" where
  "resumed_state steps pending output =
     (let st = stateFromPending steps pending; waiting = pn_WaitingNodeID pending in
      st\<lparr>es_stepOutputs := AList.update waiting output (es_stepOutputs st),
         es_executed := insert waiting (es_executed st), es_lastNodeID := waiting\<rparr>)"

section \<open>What one step does\<close>

lemma step_of_simps [simp]:
  "step_ID (step_of k runID n st began) = k" "step_RunID (step_of k runID n st began) = runID"
  "step_NodeID (step_of k runID n st began) = node_ID n" "step_NodeType (step_of k runID n st began) = node_Type n"
  "step_Status (step_of k runID n st began) = st" "step_CompletedAt (step_of k runID n st began) = zero_time"
  by (simp_all add: step_of_def)

lemma executeNode_type: "executeNode E t n input outs s = (Inr output, s') \<Longrightarrow> node_Type n \<noteq> []"
  by (auto simp: executeNode_def)

text \<open>A step that succeeds is a completed step of its node with the output that the node computed.\<close>

lemma executeStep_InrE:
  assumes "executeStep E runID t n input outs s = ((st, Inr output), s')"
  obtains "step_NodeID st = node_ID n" "step_RunID st = runID" "step_NodeType st = node_Type n"
    "step_Status st = StepStatusCompleted" "step_Output st = output" "node_Type n \<noteq> []"
  using assms
  by (auto simp: executeStep_def Let_def dest: executeNode_type split: prod.splits sum.splits)

text \<open>A step that fails is a failed step of its node, or the zero step when no id could be made.\<close>

lemma executeStep_InlE:
  assumes "executeStep E runID t n input outs s = ((st, Inl e), s')"
  obtains "st = zero_step" | "step_NodeID st = node_ID n" "step_RunID st = runID"
    "step_Status st = StepStatusFailed" "step_Error st = error_text e"
  using assms
  by (auto simp: executeStep_def Let_def split: prod.splits sum.splits)

lemma awaitApproval_InrE:
  assumes "awaitApproval E runID n s = (Inr (st, output), s')"
  obtains "step_NodeID st = node_ID n" "step_RunID st = runID" "step_NodeType st = node_Type n"
    "step_Status st = StepStatusWaitingApproval" "step_Output st = output"
  using assms
  by (auto simp: awaitApproval_def Let_def split: prod.splits sum.splits)

text \<open>The four ways an iteration can go.\<close>

lemma run_node_InlE:
  assumes "run_node E runID t g input n st queued s = (Inl (st', queued'), s')"
  obtains new_step answer queue where
    "node_Type n \<noteq> ''approval''" "node_Type n \<noteq> []" "step_NodeID new_step = node_ID n"
    "step_RunID new_step = runID" "step_Status new_step = StepStatusCompleted"
    "step_Output new_step = answer"
    "push_next (insert (node_ID n) (es_executed st)) (graph_next g n answer) (es_queue st) queued =
       (queue, queued')"
    "st' = \<lparr>es_steps = es_steps st @ [new_step],
            es_stepOutputs = AList.update (node_ID n) answer (es_stepOutputs st),
            es_lastNodeID = node_ID n, es_queue = queue,
            es_executed = insert (node_ID n) (es_executed st)\<rparr>"
  using assms
  by (auto simp: run_node_def Let_def elim: executeStep_InrE split: if_splits prod.splits sum.splits)

lemma run_node_InrE:
  assumes "run_node E runID t g input n st queued s = (Inr (st', out), s')"
  obtains
    (Aborted) e where "out = Aborted e" "st' = st"
  | (Paused) new_step answer where "node_Type n = ''approval''"
      "step_NodeID new_step = node_ID n" "step_RunID new_step = runID"
      "step_Status new_step = StepStatusWaitingApproval" "step_Output new_step = answer"
      "st' = st\<lparr>es_steps := es_steps st @ [new_step], es_lastNodeID := node_ID n\<rparr>"
      "out = Paused \<lparr>pp_output = answer, pp_pending =
         \<lparr>pn_WaitingNodeID = node_ID n,
          pn_Queue = appendQueue (es_queue st) (graph_next g n answer) (es_executed st),
          pn_StepOutputs = es_stepOutputs st, pn_Executed = es_executed st\<rparr>\<rparr>"
  | (Failed) new_step e where "out = Failed \<lparr>rf_NodeID = node_ID n, rf_Err = e\<rparr>"
      "new_step = zero_step \<or> step_NodeID new_step = node_ID n \<and> step_RunID new_step = runID \<and>
         step_Status new_step = StepStatusFailed \<and> step_Error new_step = error_text e"
      "st' = st\<lparr>es_steps := es_steps st @ [new_step], es_lastNodeID := node_ID n\<rparr>"
proof (cases "node_Type n = ''approval''")
  case True
  then have pause: "pause_at E runID t g n st s = ((st', out), s')"
    using assms by (auto simp: run_node_def split: prod.splits)
  obtain answer s1 where await: "awaitApproval E runID n s = (answer, s1)"
    by (cases "awaitApproval E runID n s")
  show ?thesis
  proof (cases answer)
    case (Inl e)
    show ?thesis using pause await unfolding Inl by (intro Aborted [of e]) (simp_all add: pause_at_def)
  next
    case (Inr so)
    obtain new_step res where so: "so = (new_step, res)" by (cases so)
    show ?thesis
      using await pause True Paused [of new_step res] unfolding Inr so
      by (auto simp: pause_at_def Let_def cloneMap_def cloneBoolMap_def elim!: awaitApproval_InrE)
  qed
next
  case False
  obtain new_step answer s1 where step:
    "executeStep E runID t n input (es_stepOutputs st) s = ((new_step, answer), s1)"
    by (cases "executeStep E runID t n input (es_stepOutputs st) s") auto
  obtain e where e: "answer = Inl e"
    using assms False step by (auto simp: run_node_def Let_def split: sum.splits prod.splits)
  show ?thesis
    using step assms False Failed [of e new_step] unfolding e
    by (auto simp: run_node_def Let_def elim!: executeStep_InlE)
qed

section \<open>The loop as a transition system\<close>

type_synonym 's config = "execution_state \<times> string set \<times> 's"

inductive loop_step ::
    "'s exec_env \<Rightarrow> string \<Rightarrow> string \<Rightarrow> graph \<Rightarrow> vmap \<Rightarrow> 's config \<Rightarrow> 's config \<Rightarrow> bool"
  for E runID tenantID g workflowInput where
  "es_queue st = nodeID # rest \<Longrightarrow>
   run_node E runID tenantID g workflowInput (graph_node g nodeID) (st\<lparr>es_queue := rest\<rparr>)
     (queued - {nodeID}) s = (Inl (st', queued'), s') \<Longrightarrow>
   loop_step E runID tenantID g workflowInput (st, queued, s) (st', queued', s')"

inductive loop_end ::
    "'s exec_env \<Rightarrow> string \<Rightarrow> string \<Rightarrow> graph \<Rightarrow> vmap \<Rightarrow> 's config \<Rightarrow>
     (execution_state \<times> outcome) \<times> 's \<Rightarrow> bool"
  for E runID tenantID g workflowInput where
  "es_queue st = [] \<Longrightarrow>
   loop_end E runID tenantID g workflowInput (st, queued, s) ((st, Finished), s)"
| "es_queue st = nodeID # rest \<Longrightarrow>
   run_node E runID tenantID g workflowInput (graph_node g nodeID) (st\<lparr>es_queue := rest\<rparr>)
     (queued - {nodeID}) s = (Inr r, s') \<Longrightarrow>
   loop_end E runID tenantID g workflowInput (st, queued, s) (r, s')"

inductive_cases loop_stepE: "loop_step E runID tenantID g workflowInput (st, queued, s) c"
inductive_cases loop_endE: "loop_end E runID tenantID g workflowInput (st, queued, s) r"

lemma exec_loop_step:
  "loop_step E runID t g input (st, queued, s) (st', queued', s') \<Longrightarrow>
     exec_loop E runID t g input st queued s = exec_loop E runID t g input st' queued' s'"
  by (erule loop_stepE) (subst exec_loop.simps, simp)

lemma exec_loop_end:
  "loop_end E runID t g input (st, queued, s) r \<Longrightarrow> exec_loop E runID t g input st queued s = Some r"
  by (erule loop_endE) (subst exec_loop.simps, simp)+

lemma loop_progress:
  "(\<exists>r. loop_end E runID t g input (st, queued, s) r) \<or>
   (\<exists>st' queued' s'. loop_step E runID t g input (st, queued, s) (st', queued', s'))"
proof (cases "es_queue st")
  case Nil
  then show ?thesis by (auto intro: loop_end.intros)
next
  case (Cons k rest)
  obtain x s' where
    run: "run_node E runID t g input (graph_node g k) (st\<lparr>es_queue := rest\<rparr>) (queued - {k}) s = (x, s')"
    by fastforce
  show ?thesis
  proof (cases x)
    case (Inl a)
    then show ?thesis
      using loop_step.intros [OF Cons, of E runID t g input queued s "fst a" "snd a" s'] run by auto
  next
    case (Inr r)
    then show ?thesis
      using loop_end.intros(2) [OF Cons, of E runID t g input queued s r s'] run by blast
  qed
qed

text \<open>The loop returns a result if and only if a sequence of iterations ends with it.\<close>

lemma exec_loop_path:
  assumes "exec_loop E runID t g input st queued s = Some r"
  shows "\<exists>c. (loop_step E runID t g input)\<^sup>*\<^sup>* (st, queued, s) c \<and> loop_end E runID t g input c r"
proof (rule exec_loop.raw_induct
    [where P = "\<lambda>E runID t g input st queued s r. \<exists>c.
       (loop_step E runID t g input)\<^sup>*\<^sup>* (st, queued, s) c \<and> loop_end E runID t g input c r",
     OF _ assms], goal_cases)
  case (1 loop E runID t g input st queued s r)
  show ?case
  proof (cases "es_queue st")
    case Nil
    then show ?thesis
      using 1(2) by (auto intro!: exI [of _ "(st, queued, s)"] loop_end.intros)
  next
    case (Cons k rest)
    obtain x s' where
      run: "run_node E runID t g input (graph_node g k) (st\<lparr>es_queue := rest\<rparr>) (queued - {k}) s = (x, s')"
      by fastforce
    show ?thesis
    proof (cases x)
      case (Inl a)
      obtain st' queued' where a: "a = (st', queued')" by (cases a)
      have "loop_step E runID t g input (st, queued, s) (st', queued', s')"
        using run Inl a by (intro loop_step.intros [OF Cons]) simp
      moreover have "loop E runID t g input st' queued' s' = Some r"
        using 1(2) Cons run Inl a by simp
      ultimately show ?thesis
        using 1(1) [of E runID t g input st' queued' s' r] by (meson converse_rtranclp_into_rtranclp)
    next
      case (Inr a)
      then have "loop_end E runID t g input (st, queued, s) (a, s')"
        using run by (intro loop_end.intros(2) [OF Cons]) simp
      then show ?thesis
        using 1(2) Cons run Inr by auto
    qed
  qed
qed

lemma exec_loop_run:
  "(loop_step E runID t g input)\<^sup>*\<^sup>* c c' \<Longrightarrow> loop_end E runID t g input c' r \<Longrightarrow>
     exec_loop E runID t g input (fst c) (fst (snd c)) (snd (snd c)) = Some r"
proof (induction rule: converse_rtranclp_induct)
  case base
  then show ?case by (cases c') (simp add: exec_loop_end)
next
  case (step c1 c2)
  then show ?case by (cases c1; cases c2) (simp add: exec_loop_step)
qed

text \<open>An invariant of the iterations holds where the loop ends.\<close>

lemma exec_loop_invariant:
  assumes "exec_loop E runID t g input st queued s = Some r" and "P (st, queued, s)"
    and "\<And>c c'. P c \<Longrightarrow> loop_step E runID t g input c c' \<Longrightarrow> P c'"
  shows "\<exists>c. P c \<and> loop_end E runID t g input c r"
proof -
  obtain c where c: "(loop_step E runID t g input)\<^sup>*\<^sup>* (st, queued, s) c" "loop_end E runID t g input c r"
    using exec_loop_path [OF assms(1)] by blast
  from c(1) have "P c"
    by (induction rule: rtranclp_induct) (auto intro: assms(2,3))
  with c(2) show ?thesis by blast
qed

section \<open>Termination\<close>

text \<open>
  Every iteration takes one node from the queue and executes it; only targets of edges that are
  neither executed nor queued are added. So the length of the queue plus the number of targets that
  are neither decreases.
\<close>

definition loop_measure :: "wf_definition \<Rightarrow> 's config \<Rightarrow> nat" where
  "loop_measure d c =
     (case c of (st, queued, s) \<Rightarrow>
        length (es_queue st) + card (edge_targets d - (es_executed st \<union> queued)))"

lemma loop_step_decreases:
  assumes graph: "buildGraph d = Inr g" and "loop_step E runID t g input c c'"
  shows "loop_measure d c' < loop_measure d c"
proof -
  obtain st queued s st' queued' s' k rest where c: "c = (st, queued, s)" "c' = (st', queued', s')"
    and queue: "es_queue st = k # rest"
    and run: "run_node E runID t g input (graph_node g k) (st\<lparr>es_queue := rest\<rparr>) (queued - {k}) s =
      (Inl (st', queued'), s')"
    using assms(2) by (auto elim: loop_step.cases)
  from run obtain answer queue' new_step where typed: "node_Type (graph_node g k) \<noteq> []"
    and push: "push_next (insert (node_ID (graph_node g k)) (es_executed st))
      (graph_next g (graph_node g k) answer) rest (queued - {k}) = (queue', queued')"
    and st': "es_queue st' = queue'" "es_executed st' = insert (node_ID (graph_node g k)) (es_executed st)"
    by (rule run_node_InlE) auto
  have same: "node_ID (graph_node g k) = k" by (rule graph_node_ID [OF graph typed])
  from push_next_queue [OF push] obtain new where new: "queue' = rest @ new"
    "queued' = queued - {k} \<union> set new" "distinct new"
    "set new \<subseteq> set (graph_next g (graph_node g k) answer)"
    "set new \<inter> (insert k (es_executed st) \<union> (queued - {k})) = {}"
    unfolding same by blast
  let ?before = "edge_targets d - (es_executed st \<union> queued)"
    and ?after = "edge_targets d - (es_executed st' \<union> queued')"
  have "set new \<subseteq> ?before"
    using new(4,5) graph_next_targets [OF graph, of "graph_node g k" answer] by blast
  moreover have "?after \<subseteq> ?before - set new"
    unfolding st' same new(2) by blast
  then have "card ?after \<le> card (?before - set new)"
    by (intro card_mono) auto
  ultimately have "card ?after + length new \<le> card ?before"
    using new(3) card_Diff_subset [of "set new" ?before] card_mono [of ?before "set new"]
    by (simp add: distinct_card)
  then show ?thesis
    unfolding c loop_measure_def by (simp add: queue st' new(1))
qed

lemma exec_loop_total:
  assumes "buildGraph d = Inr g"
  shows "\<exists>r. exec_loop E runID t g input st queued s = Some r"
proof -
  have "\<exists>c' r. (loop_step E runID t g input)\<^sup>*\<^sup>* c c' \<and> loop_end E runID t g input c' r" for c :: "'a config"
  proof (induction "loop_measure d c" arbitrary: c rule: less_induct)
    case less
    obtain st queued s where c: "c = (st, queued, s)" by (cases c)
    show ?case
    proof (cases "\<exists>r. loop_end E runID t g input c r")
      case True
      then show ?thesis by blast
    next
      case False
      then obtain c' where step: "loop_step E runID t g input c c'"
        using loop_progress [of E runID t g input st queued s] unfolding c by blast
      from less [OF loop_step_decreases [OF assms step]] step show ?thesis
        by (meson converse_rtranclp_into_rtranclp)
    qed
  qed
  from this [of "(st, queued, s)"] show ?thesis
    using exec_loop_run [of E runID t g input "(st, queued, s)"] by fastforce
qed

lemma continueExecution_total:
  "buildGraph d = Inr g \<Longrightarrow> \<exists>r. continueExecution E runID t g input st s = Some r"
  unfolding continueExecution_def by (rule exec_loop_total)

end
