(* ===== verification/Engine_Run.thy ===== *)
theory Engine_Run
  imports Engine
begin

text \<open>
  What a run of the engine's loop means: the nodes that a run reaches, the invariant that every
  iteration keeps, and what holds when the loop ends. The invariant survives a pause for an approval
  and the resumption, so the properties are about runs with any number of approvals.
\<close>

section \<open>The nodes a run reaches\<close>

text \<open>The roots, and what the outputs of the executed nodes lead to.\<close>

inductive reached :: "graph \<Rightarrow> vmap \<Rightarrow> string \<Rightarrow> bool" for g outs where
  root: "k \<in> set (graph_roots g) \<Longrightarrow> reached g outs k"
| follow: "reached g outs n \<Longrightarrow> map_of outs n = Some v \<Longrightarrow>
    k \<in> set (graph_next g (graph_node g n) v) \<Longrightarrow> reached g outs k"

lemma reached_mono:
  assumes "reached g outs k" and "\<And>n v. map_of outs n = Some v \<Longrightarrow> map_of outs' n = Some v"
  shows "reached g outs' k"
  using assms(1) by induction (auto intro: reached.intros assms(2))

lemma reached_update:
  "reached g outs k \<Longrightarrow> map_of outs n = None \<Longrightarrow> reached g (AList.update n v outs) k"
  by (erule reached_mono) (auto simp: update_conv')

section \<open>The invariant\<close>

text \<open>The steps so far are completed steps of the run, one for each executed node, with its output.\<close>

definition steps_ok :: "string \<Rightarrow> execution_state \<Rightarrow> bool" where
  "steps_ok runID st \<longleftrightarrow>
     distinct (map step_NodeID (es_steps st)) \<and>
     set (map step_NodeID (es_steps st)) = es_executed st \<and>
     dom (map_of (es_stepOutputs st)) = es_executed st \<and>
     list_all (\<lambda>x. step_RunID x = runID \<and> step_Status x = StepStatusCompleted \<and>
       map_of (es_stepOutputs st) (step_NodeID x) = Some (step_Output x)) (es_steps st)"

text \<open>The queue holds what is reached and not yet executed.\<close>

definition queue_ok :: "graph \<Rightarrow> execution_state \<Rightarrow> bool" where
  "queue_ok g st \<longleftrightarrow>
     distinct (es_queue st) \<and> es_executed st \<inter> set (es_queue st) = {} \<and>
     set (graph_roots g) \<subseteq> es_executed st \<union> set (es_queue st) \<and>
     (\<forall>n v. map_of (es_stepOutputs st) n = Some v \<longrightarrow>
        set (graph_next g (graph_node g n) v) \<subseteq> es_executed st \<union> set (es_queue st)) \<and>
     (\<forall>k \<in> es_executed st \<union> set (es_queue st). reached g (es_stepOutputs st) k)"

definition engine_ok :: "graph \<Rightarrow> string \<Rightarrow> execution_state \<Rightarrow> bool" where
  "engine_ok g runID st \<longleftrightarrow> steps_ok runID st \<and> queue_ok g st"

lemma engine_ok_new: "distinct (graph_roots g) \<Longrightarrow> engine_ok g runID (newExecutionState (graph_roots g))"
  by (auto simp: engine_ok_def steps_ok_def queue_ok_def newExecutionState_def intro: reached.root)

text \<open>Executing a node that was at the head of the queue.\<close>

lemma steps_ok_execute:
  assumes "steps_ok runID st" and "k \<notin> es_executed st" and "step_NodeID x = k"
    and "step_RunID x = runID" and "step_Status x = StepStatusCompleted" and "step_Output x = v"
    and "es_steps st' = es_steps st @ [x]" and "es_executed st' = insert k (es_executed st)"
    and "es_stepOutputs st' = AList.update k v (es_stepOutputs st)"
  shows "steps_ok runID st'"
proof -
  have other: "y \<in> set (es_steps st) \<Longrightarrow> step_NodeID y \<noteq> k" for y
    using assms(1,2) by (auto simp: steps_ok_def)
  show ?thesis
    using assms other unfolding steps_ok_def
    by (auto simp: update_conv' list_all_iff)
qed

lemma queue_ok_execute:
  assumes ok: "queue_ok g st" and queue: "es_queue st = k # rest"
    and dom: "dom (map_of (es_stepOutputs st)) = es_executed st"
    and ex: "es_executed st' = insert k (es_executed st)"
    and outs: "es_stepOutputs st' = AList.update k v (es_stepOutputs st)"
    and queue': "es_queue st' = rest @ new" and new: "distinct new"
      "set new \<subseteq> set (graph_next g (graph_node g k) v)"
      "set new \<inter> (insert k (es_executed st) \<union> set rest) = {}"
      "set (graph_next g (graph_node g k) v) \<subseteq> insert k (es_executed st) \<union> set rest \<union> set new"
  shows "queue_ok g st'"
proof -
  have k: "k \<notin> es_executed st" "k \<notin> set rest" "distinct rest" "set rest \<inter> es_executed st = {}"
    using ok queue by (auto simp: queue_ok_def)
  have fresh: "map_of (es_stepOutputs st) k = None"
    using dom k(1) by (auto simp: dom_def)
  have old: "n \<in> es_executed st \<union> insert k (set rest) \<Longrightarrow> reached g (es_stepOutputs st') n" for n
    using ok queue fresh by (auto simp: queue_ok_def outs intro!: reached_update)
  have "reached g (es_stepOutputs st') n" if "n \<in> set new" for n
    using reached.follow [OF old [of k], of v n] that new(2) by (auto simp: outs update_conv')
  then have reach: "\<forall>n \<in> es_executed st' \<union> set (es_queue st'). reached g (es_stepOutputs st') n"
    using old by (auto simp: ex queue')
  have closed: "set (graph_next g (graph_node g n) w) \<subseteq> es_executed st' \<union> set (es_queue st')"
    if "map_of (es_stepOutputs st') n = Some w" for n w
  proof (cases "n = k")
    case True
    then show ?thesis using that new(4) by (auto simp: outs update_conv' ex queue')
  next
    case False
    then have "map_of (es_stepOutputs st) n = Some w" using that by (simp add: outs update_conv')
    then have "set (graph_next g (graph_node g n) w) \<subseteq> es_executed st \<union> set (es_queue st)"
      using ok by (simp add: queue_ok_def)
    then show ?thesis by (auto simp: ex queue queue')
  qed
  have roots: "set (graph_roots g) \<subseteq> es_executed st' \<union> set (es_queue st')"
    using ok by (auto simp: queue_ok_def ex queue queue')
  have "distinct (es_queue st') \<and> es_executed st' \<inter> set (es_queue st') = {}"
    using k new(1,3) by (auto simp: ex queue')
  with roots closed reach show ?thesis by (simp add: queue_ok_def)
qed

lemma loop_step_ok:
  assumes graph: "buildGraph d = Inr g" and ok: "engine_ok g runID st" and "queued = set (es_queue st)"
    and "loop_step E runID t g input (st, queued, s) (st', queued', s')"
  shows "engine_ok g runID st' \<and> queued' = set (es_queue st')"
  using assms(4)
proof (rule loop_stepE)
  fix k rest st1 queued1 s1
  assume c: "(st', queued', s') = (st1, queued1, s1)" and queue: "es_queue st = k # rest"
    and run: "run_node E runID t g input (graph_node g k) (st\<lparr>es_queue := rest\<rparr>) (queued - {k}) s =
      (Inl (st1, queued1), s1)"
  have k: "k \<notin> es_executed st" and rest: "queued - {k} = set rest"
    using ok queue assms(3) by (auto simp: engine_ok_def queue_ok_def)
  from run obtain x v queue' where typed: "node_Type (graph_node g k) \<noteq> []"
    and x: "step_NodeID x = node_ID (graph_node g k)" "step_RunID x = runID"
      "step_Status x = StepStatusCompleted" "step_Output x = v"
    and push: "push_next (insert (node_ID (graph_node g k)) (es_executed st))
      (graph_next g (graph_node g k) v) rest (set rest) = (queue', queued1)"
    and st1: "es_steps st1 = es_steps st @ [x]" "es_queue st1 = queue'"
      "es_stepOutputs st1 = AList.update (node_ID (graph_node g k)) v (es_stepOutputs st)"
      "es_executed st1 = insert (node_ID (graph_node g k)) (es_executed st)"
    unfolding rest by (rule run_node_InlE) auto
  have same: "node_ID (graph_node g k) = k" by (rule graph_node_ID [OF graph typed])
  from push_next_queue [OF push, unfolded same] obtain new where new: "queue' = rest @ new"
    "queued1 = set rest \<union> set new" "distinct new" "set new \<subseteq> set (graph_next g (graph_node g k) v)"
    "set new \<inter> (insert k (es_executed st) \<union> set rest) = {}"
    "set (graph_next g (graph_node g k) v) \<subseteq> insert k (es_executed st) \<union> set rest \<union> set new"
    by (elim exE conjE) (rule that)
  have "steps_ok runID st1"
    by (rule steps_ok_execute [OF _ k x(1) [unfolded same] x(2-4) st1(1,4,3) [unfolded same]])
       (use ok in \<open>simp add: engine_ok_def\<close>)
  moreover have "queue_ok g st1"
  proof (rule queue_ok_execute [OF _ queue])
    show "queue_ok g st" "dom (map_of (es_stepOutputs st)) = es_executed st"
      using ok by (simp_all add: engine_ok_def steps_ok_def)
    show "es_queue st1 = rest @ new" using st1(2) new(1) by simp
  qed (fact st1(3,4) [unfolded same] new(3-6))+
  ultimately show ?thesis
    using c new st1 by (simp add: engine_ok_def)
qed

text \<open>Where the loop ends, the invariant holds for the state before the last node was taken.\<close>

lemma continueExecution_ok:
  assumes "buildGraph d = Inr g" and "engine_ok g runID st"
    and "continueExecution E runID t g input st s = Some ((st', out), s')"
  obtains (Finished) "out = Finished" "engine_ok g runID st'" "es_queue st' = []"
  | (Stopped) st1 k rest s1 where "engine_ok g runID st1" "es_queue st1 = k # rest"
      "run_node E runID t g input (graph_node g k) (st1\<lparr>es_queue := rest\<rparr>) (set rest) s1 =
         (Inr (st', out), s')"
proof -
  let ?P = "\<lambda>c. engine_ok g runID (fst c) \<and> fst (snd c) = set (es_queue (fst c))"
  have "\<exists>c. ?P c \<and> loop_end E runID t g input c ((st', out), s')"
  proof (rule exec_loop_invariant [where P = ?P])
    show "exec_loop E runID t g input st (set (es_queue st)) s = Some ((st', out), s')"
      using assms(3) by (simp add: continueExecution_def)
    show "?P (st, set (es_queue st), s)" using assms(2) by simp
    fix c c'
    assume "?P c" "loop_step E runID t g input c c'"
    then show "?P c'"
      by (cases c; cases c') (auto dest: loop_step_ok [OF assms(1)])
  qed
  then obtain st1 s1 where ok: "engine_ok g runID st1"
    and ends: "loop_end E runID t g input (st1, set (es_queue st1), s1) ((st', out), s')"
    by auto
  from ends show ?thesis
  proof (rule loop_endE)
    assume "((st', out), s') = ((st1, outcome.Finished), s1)" "es_queue st1 = []"
    then show ?thesis using Finished ok by simp
  next
    fix k rest r s2
    assume r: "((st', out), s') = (r, s2)" and queue: "es_queue st1 = k # rest"
      and run: "run_node E runID t g input (graph_node g k) (st1\<lparr>es_queue := rest\<rparr>)
        (set (es_queue st1) - {k}) s1 = (Inr r, s2)"
    have "set (es_queue st1) - {k} = set rest"
      using ok queue by (auto simp: engine_ok_def queue_ok_def)
    then show ?thesis using Stopped [OF ok queue] run r by simp
  qed
qed

section \<open>Runs with approvals\<close>

text \<open>
  The states from which the loop is entered: the state of a new run, and the state that resuming
  makes of a paused one, with any answer \<open>v\<close> recorded at any time.
\<close>

inductive active ::
    "'s exec_env \<Rightarrow> string \<Rightarrow> string \<Rightarrow> graph \<Rightarrow> execution_state \<Rightarrow> bool"
  for E runID tenantID g where
  new_run: "active E runID tenantID g (newExecutionState (graph_roots g))"
| resumed: "active E runID tenantID g st \<Longrightarrow>
    continueExecution E runID tenantID g input st s = Some ((st', Paused pp), s') \<Longrightarrow>
    active E runID tenantID g
      (resumed_state (resolve_last v at_time (es_steps st')) (pp_pending pp) v)"

text \<open>The graph of a definition that the validator accepts.\<close>

definition valid_graph :: "net_lib \<Rightarrow> gofmt \<Rightarrow> wf_definition \<Rightarrow> graph \<Rightarrow> bool" where
  "valid_graph N F d g \<longleftrightarrow> vr_Valid (ValidateDefinition N F d) \<and> buildGraph d = Inr g"

lemma valid_graph_build: "valid_graph N F d g \<Longrightarrow> buildGraph d = Inr g"
  by (simp add: valid_graph_def)

lemma valid_graph_distinct:
  assumes "valid_graph N F d g"
  shows "distinct (graph_roots g)"
proof -
  have "distinct (map trim_space (map node_ID (def_Nodes d)))"
    using assms
    by (simp add: valid_graph_def ValidateDefinition_well_formed well_formed_def trimmed_ids_def comp_def)
  then have "distinct (map node_ID (def_Nodes d))"
    by (rule distinct_map [THEN iffD1, THEN conjunct1])
  then show ?thesis
    by (simp add: buildGraph_Inr(3) [OF valid_graph_build [OF assms]] distinct_map_filter)
qed

lemma valid_graph_irreflexive:
  assumes "valid_graph N F d g"
  shows "node_ID n \<notin> set (graph_next g n v)"
proof -
  have "\<forall>e \<in> set (def_Edges d). edge_From e \<noteq> edge_To e"
    using assms
    by (auto simp: valid_graph_def ValidateDefinition_well_formed well_formed_def edge_ok_def)
  then show ?thesis
    by (auto simp: graph_next_def buildGraph_Inr(2) [OF valid_graph_build [OF assms]] Let_def)
qed

lemma resolve_last_append:
  "resolve_last v at_time (xs @ [x]) =
     xs @ [x\<lparr>step_Status := StepStatusCompleted, step_Output := v, step_CompletedAt := at_time\<rparr>]"
  by (simp add: resolve_last_def)

lemma graph_next_any_output:
  "node_Type n \<noteq> ''condition'' \<Longrightarrow> graph_next g n v = graph_next g n w"
  by (simp add: graph_next_def)

lemma resume_ok:
  assumes valid: "valid_graph N F d g" and ok: "engine_ok g runID st"
    and run: "continueExecution E runID t g input st s = Some ((st', Paused pp), s')"
  shows "engine_ok g runID (resumed_state (resolve_last v at_time (es_steps st')) (pp_pending pp) v)"
    (is "engine_ok g runID ?st2")
  using valid_graph_build [OF valid] ok run
proof (rule continueExecution_ok)
  fix st1 k rest s1
  let ?n = "graph_node g k"
  assume ok: "engine_ok g runID st1" and queue: "es_queue st1 = k # rest"
    and run: "run_node E runID t g input ?n (st1\<lparr>es_queue := rest\<rparr>) (set rest) s1 =
      (Inr (st', Paused pp), s')"
  from run obtain x answer where approval: "node_Type ?n = ''approval''"
    and x: "step_NodeID x = node_ID ?n" "step_RunID x = runID"
    and st': "es_steps st' = es_steps st1 @ [x]"
    and pp: "pp_pending pp = \<lparr>pn_WaitingNodeID = node_ID ?n,
        pn_Queue = appendQueue rest (graph_next g ?n answer) (es_executed st1),
        pn_StepOutputs = es_stepOutputs st1, pn_Executed = es_executed st1\<rparr>"
    by (rule run_node_InrE) auto
  have same: "node_ID ?n = k"
    by (rule graph_node_ID [OF valid_graph_build [OF valid]]) (simp add: approval)
  have k: "k \<notin> es_executed st1" using ok queue by (auto simp: engine_ok_def queue_ok_def)
  obtain queue' queued' where
    push: "push_next (es_executed st1) (graph_next g ?n answer) rest (set rest) = (queue', queued')"
    by fastforce
  from push_next_queue [OF push] obtain new where new: "queue' = rest @ new"
    "queued' = set rest \<union> set new" "distinct new" "set new \<subseteq> set (graph_next g ?n answer)"
    "set new \<inter> (es_executed st1 \<union> set rest) = {}"
    "set (graph_next g ?n answer) \<subseteq> es_executed st1 \<union> set rest \<union> set new"
    by (elim exE conjE) (rule that)
  have no_loop: "k \<notin> set (graph_next g ?n answer)"
    using valid_graph_irreflexive [OF valid, of ?n answer] by (simp add: same)
  have next_any: "graph_next g ?n answer = graph_next g ?n v"
    by (rule graph_next_any_output) (simp add: approval)
  have st2: "es_steps ?st2 = es_steps st1 @ [x\<lparr>step_Status := StepStatusCompleted, step_Output := v,
        step_CompletedAt := at_time\<rparr>]"
      "es_executed ?st2 = insert k (es_executed st1)"
      "es_stepOutputs ?st2 = AList.update k v (es_stepOutputs st1)"
      "es_queue ?st2 = rest @ new"
    by (simp_all add: resumed_state_def stateFromPending_def pp st' same resolve_last_append Let_def
        cloneMap_def cloneBoolMap_def appendQueue_def push new(1))
  have "steps_ok runID ?st2"
  proof (rule steps_ok_execute [OF _ k _ _ _ _ st2(1,2,3)])
    show "steps_ok runID st1" using ok by (simp add: engine_ok_def)
  qed (simp_all add: x same)
  moreover have "queue_ok g ?st2"
  proof (rule queue_ok_execute [OF _ queue _ st2(2,3,4) new(3)])
    show "queue_ok g st1" "dom (map_of (es_stepOutputs st1)) = es_executed st1"
      using ok by (simp_all add: engine_ok_def steps_ok_def)
    show "set new \<subseteq> set (graph_next g (graph_node g k) v)" using new(4) by (simp add: next_any)
    show "set new \<inter> (insert k (es_executed st1) \<union> set rest) = {}" using new(4,5) no_loop by blast
    show "set (graph_next g (graph_node g k) v) \<subseteq> insert k (es_executed st1) \<union> set rest \<union> set new"
      using new(6) unfolding next_any by blast
  qed
  ultimately show ?thesis by (simp add: engine_ok_def)
qed simp

lemma active_ok:
  assumes "valid_graph N F d g" and "active E runID t g st"
  shows "engine_ok g runID st"
  using assms(2)
  by induction (auto intro: engine_ok_new valid_graph_distinct [OF assms(1)] resume_ok [OF assms(1)])

section \<open>The loop and the egress policy\<close>

lemma exec_loop_iff:
  "exec_loop E runID t g input st queued s = Some r \<longleftrightarrow>
     (\<exists>c. (loop_step E runID t g input)\<^sup>*\<^sup>* (st, queued, s) c \<and> loop_end E runID t g input c r)"
proof
  assume "exec_loop E runID t g input st queued s = Some r"
  then show "\<exists>c. (loop_step E runID t g input)\<^sup>*\<^sup>* (st, queued, s) c \<and> loop_end E runID t g input c r"
    by (rule exec_loop_path)
next
  assume "\<exists>c. (loop_step E runID t g input)\<^sup>*\<^sup>* (st, queued, s) c \<and> loop_end E runID t g input c r"
  then obtain c where "(loop_step E runID t g input)\<^sup>*\<^sup>* (st, queued, s) c" "loop_end E runID t g input c r"
    by (elim exE conjE)
  from exec_loop_run [OF this] show "exec_loop E runID t g input st queued s = Some r" by simp
qed

lemma run_node_guarded [guarded_simps]:
  "run_node (guarded bad E) = run_node E"
  unfolding run_node_def pause_at_def awaitApproval_def executeStep_def recordAudit_def guarded_fields
    guarded_simps ..

lemma loop_guarded:
  "loop_step (guarded bad E) = loop_step E" "loop_end (guarded bad E) = loop_end E"
  by (intro ext, simp only: loop_step.simps loop_end.simps run_node_guarded)+

lemma continueExecution_guarded [guarded_simps]:
  "continueExecution (guarded bad E) = continueExecution E"
proof (intro ext)
  fix runID t g input st s
  have "\<forall>r. continueExecution (guarded bad E) runID t g input st s = Some r \<longleftrightarrow>
      continueExecution E runID t g input st s = Some r"
    unfolding continueExecution_def exec_loop_iff loop_guarded by simp
  then show "continueExecution (guarded bad E) runID t g input st s = continueExecution E runID t g input st s"
    by (metis option.exhaust)
qed

section \<open>Properties\<close>

text \<open>Execution always ends: for the graph of any definition that has one, and from any state, the
  loop returns after finitely many nodes, whatever the nodes compute and whatever cycles the edges
  form.\<close>
theorem continueExecution_terminates:
  assumes "buildGraph d = Inr g"
  shows "\<exists>st' out s'. continueExecution E runID t g input st s = Some ((st', out), s')"
  using continueExecution_total [OF assms, of E runID t input st s] by auto

text \<open>C1: when a run of a validated workflow finishes, however many approvals it waited for, it has
  executed exactly the nodes that are reachable from the roots along the edges its outputs select,
  each of them once, and every step is a completed step of the run with its node's output.\<close>
theorem finished_exactly_reachable:
  assumes "valid_graph N F d g" and "active E runID t g st"
    and "continueExecution E runID t g input st s = Some ((st', Finished), s')"
  shows "set (map step_NodeID (es_steps st')) = {k. reached g (es_stepOutputs st') k} \<and>
    distinct (map step_NodeID (es_steps st')) \<and>
    list_all (\<lambda>x. step_RunID x = runID \<and> step_Status x = StepStatusCompleted \<and>
      map_of (es_stepOutputs st') (step_NodeID x) = Some (step_Output x)) (es_steps st')"
  using valid_graph_build [OF assms(1)] active_ok [OF assms(1,2)] assms(3)
proof (rule continueExecution_ok)
  assume ok: "engine_ok g runID st'" and queue: "es_queue st' = []"
  have "reached g (es_stepOutputs st') k \<Longrightarrow> k \<in> es_executed st'" for k
    by (induction rule: reached.induct)
       (use ok queue in \<open>auto simp: engine_ok_def queue_ok_def\<close>)
  then have "es_executed st' = {k. reached g (es_stepOutputs st') k}"
    using ok by (auto simp: engine_ok_def queue_ok_def)
  then show ?thesis using ok by (simp add: engine_ok_def steps_ok_def)
next
  fix st1 k rest s1
  assume "run_node E runID t g input (graph_node g k) (st1\<lparr>es_queue := rest\<rparr>) (set rest) s1 =
    (Inr (st', outcome.Finished), s')"
  then show ?thesis by (rule run_node_InrE) simp_all
qed

text \<open>C34: a run stops at the first step that fails: all steps before it are completed, each of another
  node, and the last one is the failed step of the node that the failure names, with the error's
  text (or the empty step, when no id for it could be made).\<close>
theorem failure_is_last_step:
  assumes "valid_graph N F d g" and "active E runID t g st"
    and "continueExecution E runID t g input st s = Some ((st', Failed failure), s')"
  shows "\<exists>done last_step. es_steps st' = done @ [last_step] \<and> distinct (map step_NodeID done) \<and>
    list_all (\<lambda>x. step_Status x = StepStatusCompleted \<and> step_RunID x = runID) done \<and>
    (last_step = zero_step \<or>
     step_NodeID last_step = rf_NodeID failure \<and> step_Status last_step = StepStatusFailed \<and>
     step_RunID last_step = runID \<and> step_Error last_step = error_text (rf_Err failure))"
  using valid_graph_build [OF assms(1)] active_ok [OF assms(1,2)] assms(3)
proof (rule continueExecution_ok)
  fix st1 k rest s1
  assume ok: "engine_ok g runID st1"
    and run: "run_node E runID t g input (graph_node g k) (st1\<lparr>es_queue := rest\<rparr>) (set rest) s1 =
      (Inr (st', Failed failure), s')"
  from run obtain x where "es_steps st' = es_steps st1 @ [x]"
    "x = zero_step \<or> step_NodeID x = rf_NodeID failure \<and> step_Status x = StepStatusFailed \<and>
      step_RunID x = runID \<and> step_Error x = error_text (rf_Err failure)"
    by (rule run_node_InrE) auto
  then show ?thesis
    using ok by (intro exI [of _ "es_steps st1"] exI [of _ x])
      (simp add: engine_ok_def steps_ok_def list_all_iff)
qed simp

text \<open>C2: a pause loses nothing: the node that a paused run waits for is a reached approval node that
  was not executed before, its waiting step is the last one, and what is saved beside it is exactly
  what the invariant of an active run needs: resuming gives a state in which the executed nodes are
  those of the completed steps, and the queue holds the rest of what is reached, without the node
  that was waited for.\<close>
theorem pause_keeps_progress:
  assumes "valid_graph N F d g" and "active E runID t g st"
    and "continueExecution E runID t g input st s = Some ((st', Paused pp), s')"
  shows "let waiting = pn_WaitingNodeID (pp_pending pp);
             resumed = resumed_state (resolve_last v at_time (es_steps st')) (pp_pending pp) v
    in node_Type (graph_node g waiting) = ''approval'' \<and>
       step_NodeID (last (es_steps st')) = waiting \<and>
       step_Status (last (es_steps st')) = StepStatusWaitingApproval \<and>
       waiting \<notin> pn_Executed (pp_pending pp) \<and> waiting \<notin> set (es_queue resumed) \<and>
       es_executed resumed = insert waiting (pn_Executed (pp_pending pp)) \<and>
       engine_ok g runID resumed"
proof -
  let ?resumed = "resumed_state (resolve_last v at_time (es_steps st')) (pp_pending pp) v"
  have again: "engine_ok g runID ?resumed"
    by (rule resume_ok [OF assms(1) active_ok [OF assms(1,2)] assms(3)])
  then have queue: "es_executed ?resumed \<inter> set (es_queue ?resumed) = {}"
    by (simp add: engine_ok_def queue_ok_def)
  have executed: "es_executed ?resumed = insert (pn_WaitingNodeID (pp_pending pp)) (pn_Executed (pp_pending pp))"
    by (simp add: resumed_state_def stateFromPending_def cloneBoolMap_def Let_def)
  have "\<exists>k. pn_WaitingNodeID (pp_pending pp) = k \<and> node_Type (graph_node g k) = ''approval'' \<and>
      step_NodeID (last (es_steps st')) = k \<and> step_Status (last (es_steps st')) = StepStatusWaitingApproval \<and>
      k \<notin> pn_Executed (pp_pending pp)"
    using valid_graph_build [OF assms(1)] active_ok [OF assms(1,2)] assms(3)
  proof (rule continueExecution_ok)
    fix st1 k rest s1
    assume ok: "engine_ok g runID st1" and queue: "es_queue st1 = k # rest"
      and run: "run_node E runID t g input (graph_node g k) (st1\<lparr>es_queue := rest\<rparr>) (set rest) s1 =
        (Inr (st', Paused pp), s')"
    from run have approval: "node_Type (graph_node g k) = ''approval''"
      and shape: "step_NodeID (last (es_steps st')) = node_ID (graph_node g k)"
        "step_Status (last (es_steps st')) = StepStatusWaitingApproval"
        "pn_WaitingNodeID (pp_pending pp) = node_ID (graph_node g k)"
        "pn_Executed (pp_pending pp) = es_executed st1"
      by (rule run_node_InrE; simp)+
    have "node_ID (graph_node g k) = k"
      by (rule graph_node_ID [OF valid_graph_build [OF assms(1)]]) (simp add: approval)
    moreover have "k \<notin> es_executed st1"
      using ok queue by (auto simp: engine_ok_def queue_ok_def)
    ultimately show ?thesis using approval shape by simp
  qed simp
  then show ?thesis
    using again queue executed by (auto simp: Let_def)
qed

section \<open>A run with an approval\<close>

text \<open>Three nodes in a row; the second waits for an approval.\<close>

definition flow_edge :: "string \<Rightarrow> string \<Rightarrow> edge" where
  "flow_edge f t = \<lparr>edge_From = f, edge_To = t, edge_Condition = []\<rparr>"

definition demo_flow :: wf_definition where
  "demo_flow = \<lparr>def_Name = ''a'', def_Description = [], def_Version = 1, def_InputSchema = [],
     def_Nodes = [audit_node ''a'', (audit_node ''b'')\<lparr>node_Type := ''approval''\<rparr>, audit_node ''c''],
     def_Edges = [flow_edge ''a'' ''b'', flow_edge ''b'' ''c'']\<rparr>"

definition demo_graph :: graph where
  "demo_graph = \<lparr>graph_nodes = fold (\<lambda>n m. m(node_ID n \<mapsto> n)) (def_Nodes demo_flow) Map.empty,
     graph_outbound = group_outbound (def_Edges demo_flow), graph_roots = [''a'']\<rparr>"

lemma flow_texts:
  "trim_space ''a'' = ''a''" "trim_space ''b'' = ''b''" "trim_space ''c'' = ''c''"
  "trim_space ''audit_log'' = ''audit_log''" "trim_space ''approval'' = ''approval''"
  by code_simp+

lemma demo_graph_valid: "valid_graph N F demo_flow demo_graph"
proof -
  have "well_formed N F demo_flow"
    by (simp add: well_formed_def demo_flow_def audit_node_def flow_edge_def node_ok_def edge_ok_def
        trimmed_ids_def in_degree_def flow_texts supportedNodeType_def)
  moreover have "buildGraph demo_flow = Inr demo_graph"
    by (simp add: buildGraph_def demo_graph_def demo_flow_def audit_node_def flow_edge_def
        count_incoming_def)
  ultimately show ?thesis by (simp add: valid_graph_def ValidateDefinition_well_formed)
qed

definition demo_new :: execution_state where
  "demo_new = newExecutionState (graph_roots demo_graph)"

definition demo_steps :: "execution_state \<Rightarrow> (string \<times> step_status) list" where
  "demo_steps st = map (\<lambda>x. (step_NodeID x, step_Status x)) (es_steps st)"

abbreviation demo_continue :: "execution_state \<Rightarrow> ((execution_state \<times> outcome) \<times> unit) option" where
  "demo_continue st \<equiv> continueExecution demo_env ''r1'' ''acme'' demo_graph [] st ()"

definition demo_answer :: anyv where
  "demo_answer = approval_output True '' fine ''"

definition demo_resumed :: "execution_state \<Rightarrow> pause_point \<Rightarrow> execution_state" where
  "demo_resumed st' pp = resumed_state (resolve_last demo_answer 9 (es_steps st')) (pp_pending pp) demo_answer"

definition finishes_with :: "execution_state \<Rightarrow> string list \<Rightarrow> bool" where
  "finishes_with st nodes =
     (case demo_continue st of
        Some ((st2, Finished), s2) \<Rightarrow> map step_NodeID (es_steps st2) = nodes
      | _ \<Rightarrow> False)"

lemma demo_run_paused:
  "case demo_continue demo_new of
     Some ((st', Paused pp), s') \<Rightarrow>
       demo_steps st' = [(''a'', StepStatusCompleted), (''b'', StepStatusWaitingApproval)] \<and>
       pn_WaitingNodeID (pp_pending pp) = ''b'' \<and> pn_Queue (pp_pending pp) = [''c''] \<and>
       finishes_with (demo_resumed st' pp) [''a'', ''b'', ''c'']
   | _ \<Rightarrow> False"
  by code_simp

lemma demo_pausedE:
  obtains st' pp st2 where
    "demo_continue demo_new = Some ((st', Paused pp), ())" "pn_WaitingNodeID (pp_pending pp) = ''b''"
    "demo_continue (demo_resumed st' pp) = Some ((st2, Finished), ())"
    "map step_NodeID (es_steps st2) = [''a'', ''b'', ''c'']"
proof -
  obtain st' pp where paused: "demo_continue demo_new = Some ((st', Paused pp), ())"
    "pn_WaitingNodeID (pp_pending pp) = ''b''" "finishes_with (demo_resumed st' pp) [''a'', ''b'', ''c'']"
    using demo_run_paused by (auto split: option.split_asm prod.split_asm outcome.split_asm)
  from paused(3) obtain st2 where fin: "demo_continue (demo_resumed st' pp) = Some ((st2, Finished), ())"
    "map step_NodeID (es_steps st2) = [''a'', ''b'', ''c'']"
    by (auto simp: finishes_with_def split: option.split_asm prod.split_asm outcome.split_asm)
  show thesis by (rule that [OF paused(1,2) fin])
qed

lemma demo_new_active: "active demo_env ''r1'' ''acme'' demo_graph demo_new"
  unfolding demo_new_def by (rule active.new_run)

theorem continueExecution_terminates_witness:
  "\<exists>st' out s'. continueExecution demo_env ''r1'' ''acme'' demo_graph [] demo_new () = Some ((st', out), s')"
  by (rule continueExecution_terminates [OF valid_graph_build [OF demo_graph_valid]])

theorem finished_exactly_reachable_witness:
  "\<exists>outs. {k. reached demo_graph outs k} = {''a'', ''b'', ''c''}"
proof -
  obtain st' pp st2 where paused: "demo_continue demo_new = Some ((st', Paused pp), ())"
    and fin: "demo_continue (demo_resumed st' pp) = Some ((st2, Finished), ())"
    and nodes: "map step_NodeID (es_steps st2) = [''a'', ''b'', ''c'']"
    by (rule demo_pausedE)
  have "active demo_env ''r1'' ''acme'' demo_graph (demo_resumed st' pp)"
    unfolding demo_resumed_def by (rule active.resumed [OF demo_new_active paused])
  from finished_exactly_reachable [OF demo_graph_valid this fin, unfolded nodes] show ?thesis
    by (intro exI [of _ "es_stepOutputs st2"]) simp
qed

theorem pause_keeps_progress_witness:
  "\<exists>st' pp. demo_continue demo_new = Some ((st', Paused pp), ()) \<and>
     ''b'' \<notin> pn_Executed (pp_pending pp) \<and> engine_ok demo_graph ''r1'' (demo_resumed st' pp)"
proof -
  obtain st' pp st2 where paused: "demo_continue demo_new = Some ((st', Paused pp), ())"
    and waiting: "pn_WaitingNodeID (pp_pending pp) = ''b''"
    by (rule demo_pausedE)
  from pause_keeps_progress [OF demo_graph_valid demo_new_active paused, of demo_answer 9] show ?thesis
    using paused waiting by (auto simp: Let_def demo_resumed_def)
qed

text \<open>A node that fails: a retrieval step that names no documents.\<close>

definition failing_flow :: wf_definition where
  "failing_flow = \<lparr>def_Name = ''a'', def_Description = [], def_Version = 1, def_InputSchema = [],
     def_Nodes = [(audit_node ''a'')\<lparr>node_Type := ''llm''\<rparr>, (audit_node ''b'')\<lparr>node_Type := ''retrieve_documents''\<rparr>],
     def_Edges = [flow_edge ''a'' ''b'']\<rparr>"

definition failing_graph :: graph where
  "failing_graph = \<lparr>graph_nodes = fold (\<lambda>n m. m(node_ID n \<mapsto> n)) (def_Nodes failing_flow) Map.empty,
     graph_outbound = group_outbound (def_Edges failing_flow), graph_roots = [''a'']\<rparr>"

lemma failing_graph_valid: "valid_graph N F failing_flow failing_graph"
proof -
  have texts: "trim_space ''retrieve_documents'' = ''retrieve_documents''" "trim_space ''llm'' = ''llm''"
    by code_simp+
  have "well_formed N F failing_flow"
    by (simp add: well_formed_def failing_flow_def audit_node_def flow_edge_def node_ok_def edge_ok_def
        trimmed_ids_def in_degree_def flow_texts texts supportedNodeType_def)
  moreover have "buildGraph failing_flow = Inr failing_graph"
    by (simp add: buildGraph_def failing_graph_def failing_flow_def audit_node_def flow_edge_def
        count_incoming_def)
  ultimately show ?thesis by (simp add: valid_graph_def ValidateDefinition_well_formed)
qed

lemma failing_run:
  "case continueExecution demo_env ''r1'' ''acme'' failing_graph []
       (newExecutionState (graph_roots failing_graph)) () of
     Some ((st', Failed failure), s') \<Rightarrow>
       demo_steps st' = [(''a'', StepStatusCompleted), (''b'', StepStatusFailed)] \<and>
       rf_NodeID failure = ''b''
   | _ \<Rightarrow> False"
  by code_simp

theorem failure_is_last_step_witness:
  "\<exists>st' failure s' last_step. continueExecution demo_env ''r1'' ''acme'' failing_graph []
       (newExecutionState (graph_roots failing_graph)) () = Some ((st', Failed failure), s') \<and>
     last_step \<in> set (es_steps st') \<and>
     (last_step = zero_step \<or> step_Error last_step = error_text (rf_Err failure))"
proof -
  obtain st' failure s' where run: "continueExecution demo_env ''r1'' ''acme'' failing_graph []
      (newExecutionState (graph_roots failing_graph)) () = Some ((st', Failed failure), s')"
    using failing_run by (auto split: option.split_asm prod.split_asm outcome.split_asm)
  from failure_is_last_step [OF failing_graph_valid active.new_run run]
  obtain ds x where "es_steps st' = ds @ [x]"
    "x = zero_step \<or> step_Error x = error_text (rf_Err failure)" by blast
  with run show ?thesis by (intro exI [of _ st'] exI [of _ failure] exI [of _ s'] exI [of _ x]) auto
qed

end
