(* ===== verification/Executor.thy ===== *)
theory Executor
  imports Engine_Run
begin

text \<open>
  The operations of the executor's \<open>Service\<close> (\<open>internal/executor/service.go\<close> and \<open>async.go\<close>). An
  operation that runs the engine's loop is partial in the model, with \<open>None\<close> for a loop that does
  not end; the theorems show that this never happens. The spans are in \<open>Tracing\<close>: they only record.
\<close>

section \<open>Running the graph of a run\<close>

definition defaultAsyncMaxAttempts :: int where
  "defaultAsyncMaxAttempts = 3"

definition newRunAudit :: "run \<Rightarrow> string \<Rightarrow> string \<Rightarrow> vmap \<Rightarrow> record_params" where
  "newRunAudit r eventType message metadata =
     \<lparr>rp_RunID = run_ID r, rp_WorkflowID = run_WorkflowID r, rp_StepID = [], rp_NodeID = [],
      rp_Type = eventType, rp_Message = message, rp_Metadata = metadata\<rparr>"

text \<open>Completing a run in the repository, with the audit event that follows.\<close>

definition complete_run ::
    "'s exec_env \<Rightarrow> string \<Rightarrow> run \<Rightarrow> step list \<Rightarrow> string \<Rightarrow> string \<Rightarrow> vmap \<Rightarrow> 's \<Rightarrow> run result \<times> 's" where
  "complete_run E context_text r steps eventType message metadata s =
     (case ee_CompleteRun E r steps s of
        (Some e, s1) \<Rightarrow> (Inl (wrap context_text e), s1)
      | (None, s1) \<Rightarrow>
          (Inr r, recordAudit E (run_TenantID r) (newRunAudit r eventType message metadata) s1))"

text \<open>What \<open>executeRun\<close> does with the end of the loop.\<close>

definition settle_run ::
    "'s exec_env \<Rightarrow> run \<Rightarrow> execution_state \<Rightarrow> outcome \<Rightarrow> 's \<Rightarrow> run result \<times> 's" where
  "settle_run E r st out s =
     (case out of
        Aborted e \<Rightarrow> (Inl e, s)
      | Failed failure \<Rightarrow>
          (case ee_now E s of (now, s1) \<Rightarrow>
             let failed_node = [(''failed_node'', VStr (rf_NodeID failure))];
                 r1 = r\<lparr>run_Status := RunStatusFailed, run_Error := error_text (rf_Err failure),
                        run_Output := VMap failed_node, run_CompletedAt := now\<rparr>
             in complete_run E ''complete failed run'' r1 (es_steps st) ''run_failed'' (run_Error r1)
                  failed_node s1)
      | Paused pause \<Rightarrow>
          let r1 = r\<lparr>run_Status := RunStatusWaitingApproval, run_Output := pp_output pause\<rparr> in
          (case ee_SavePending E r1 (es_steps st) (pp_pending pause) s of
             (Some e, s1) \<Rightarrow> (Inl (wrap ''save pending run'' e), s1)
           | (None, s1) \<Rightarrow>
               (Inr r1, recordAudit E (run_TenantID r1)
                  (newRunAudit r1 ''run_waiting_approval'' ''workflow run is waiting for approval'' []) s1))
      | Finished \<Rightarrow>
          (case ee_now E s of (now, s1) \<Rightarrow>
             let r1 = r\<lparr>run_Status := RunStatusCompleted,
                        run_Output := buildRunOutput (es_lastNodeID st) (es_stepOutputs st),
                        run_CompletedAt := now\<rparr>
             in complete_run E ''complete run'' r1 (es_steps st) ''run_completed''
                  ''workflow run completed'' [] s1))"

definition executeRun ::
    "'s exec_env \<Rightarrow> run \<Rightarrow> graph \<Rightarrow> vmap \<Rightarrow> execution_state \<Rightarrow> 's \<Rightarrow> (run result \<times> 's) option" where
  "executeRun E r g input st s =
     (let s1 = recordAudit E (run_TenantID r)
                 (newRunAudit r ''run_started'' ''workflow run started'' []) s in
      case continueExecution E (run_ID r) (run_TenantID r) g input st s1 of
        None \<Rightarrow> None
      | Some ((st', out), s2) \<Rightarrow> Some (settle_run E r st' out s2))"

section \<open>Synchronous runs and queries\<close>

definition sync_run :: "string \<Rightarrow> string \<Rightarrow> string \<Rightarrow> vmap \<Rightarrow> time \<Rightarrow> run" where
  "sync_run runID tenantID workflowID input startedAt =
     \<lparr>run_ID = runID, run_TenantID = tenantID, run_WorkflowID = workflowID,
      run_Status = RunStatusRunning, run_TriggerMode = ''sync'', run_Attempt = 0, run_MaxAttempts = 0,
      run_Input = cloneMap input, run_Output = VNil, run_Error = [], run_CreatedAt = startedAt,
      run_StartedAt = startedAt, run_CompletedAt = zero_time\<rparr>"

definition ExecuteSync ::
    "'s exec_env \<Rightarrow> string \<Rightarrow> string \<Rightarrow> vmap \<Rightarrow> 's \<Rightarrow> (run result \<times> 's) option" where
  "ExecuteSync E tenantID workflowID input s =
     (if trim_space tenantID = [] then Some (Inl exec_ErrInvalidTenant, s)
      else case ee_workflows_Get E tenantID workflowID s of
        Inl e \<Rightarrow> Some (Inl e, s)
      | Inr w \<Rightarrow>
          (case ee_newID E s of
             (Inl e, s1) \<Rightarrow> Some (Inl (wrap ''generate run id'' e), s1)
           | (Inr runID, s1) \<Rightarrow>
               (case ee_now E s1 of (startedAt, s2) \<Rightarrow>
                  let r = sync_run runID tenantID workflowID input startedAt in
                  case ee_CreateRun E r s2 of
                    (Some e, s3) \<Rightarrow> Some (Inl (wrap ''create run'' e), s3)
                  | (None, s3) \<Rightarrow>
                      (case buildGraph (wf_Definition w) of
                         Inl e \<Rightarrow> Some (Inl e, s3)
                       | Inr g \<Rightarrow> executeRun E r g input (newExecutionState (graph_roots g)) s3))))"

definition exec_GetRun :: "'s exec_env \<Rightarrow> string \<Rightarrow> string \<Rightarrow> 's \<Rightarrow> run result" where
  "exec_GetRun E tenantID runID s =
     (if trim_space tenantID = [] then Inl exec_ErrInvalidTenant else ee_GetRun E tenantID runID s)"

definition exec_ListSteps :: "'s exec_env \<Rightarrow> string \<Rightarrow> string \<Rightarrow> 's \<Rightarrow> step list result" where
  "exec_ListSteps E tenantID runID s =
     (if trim_space tenantID = [] then Inl exec_ErrInvalidTenant else ee_ListSteps E tenantID runID s)"

definition exec_ListRuns :: "'s exec_env \<Rightarrow> string \<Rightarrow> string \<Rightarrow> 's \<Rightarrow> run list result" where
  "exec_ListRuns E tenantID status s =
     (if trim_space tenantID = [] then Inl exec_ErrInvalidTenant else ee_ListRuns E tenantID status s)"

section \<open>Quotas and idempotency\<close>

definition ReserveExecution ::
    "'s exec_env \<Rightarrow> string \<Rightarrow> 's \<Rightarrow> (trigger_quota \<times> goerr option) \<times> 's" where
  "ReserveExecution E tenantID s =
     (if trim_space tenantID = [] then ((zero_quota, Some exec_ErrInvalidTenant), s)
      else case ee_trigger E of
        None \<Rightarrow> ((zero_quota, None), s)
      | Some tc \<Rightarrow> to_Allow tc tenantID s)"

text \<open>A stored record whose run cannot be read is treated as no record.\<close>

definition LookupIdempotentRun ::
    "'s exec_env \<Rightarrow> string \<Rightarrow> string \<Rightarrow> string \<Rightarrow> 's \<Rightarrow> run option result" where
  "LookupIdempotentRun E tenantID key fingerprint s =
     (case ee_trigger E of
        None \<Rightarrow> Inr None
      | Some tc \<Rightarrow>
          (case to_Lookup tc tenantID key fingerprint s of
             Inl e \<Rightarrow> Inl e
           | Inr None \<Rightarrow> Inr None
           | Inr (Some rec) \<Rightarrow>
               (case ee_GetRun E tenantID (ir_RunID rec) s of
                  Inl e \<Rightarrow> Inr None
                | Inr r \<Rightarrow> Inr (Some r))))"

definition StoreIdempotentRun ::
    "'s exec_env \<Rightarrow> string \<Rightarrow> string \<Rightarrow> string \<Rightarrow> run \<Rightarrow> 's \<Rightarrow> goerr option \<times> 's" where
  "StoreIdempotentRun E tenantID key fingerprint r s =
     (case ee_trigger E of
        None \<Rightarrow> (None, s)
      | Some tc \<Rightarrow> to_Store tc tenantID key
          \<lparr>ir_Fingerprint = fingerprint, ir_RunID = run_ID r, ir_TriggerMode = run_TriggerMode r\<rparr> s)"

section \<open>Approvals\<close>

definition ResumeApproval ::
    "'s exec_env \<Rightarrow> string \<Rightarrow> string \<Rightarrow> bool \<Rightarrow> string \<Rightarrow> vmap \<Rightarrow> 's \<Rightarrow> (run result \<times> 's) option" where
  "ResumeApproval E tenantID runID approved comment input s =
     (if trim_space tenantID = [] then Some (Inl exec_ErrInvalidTenant, s)
      else case ee_LoadPending E tenantID runID s of
        Inl e \<Rightarrow> Some (Inl e, s)
      | Inr (r0, steps0, pending) \<Rightarrow>
          (case ee_workflows_Get E tenantID (run_WorkflowID r0) s of
             Inl e \<Rightarrow> Some (Inl e, s)
           | Inr w \<Rightarrow>
               (case buildGraph (wf_Definition w) of
                  Inl e \<Rightarrow> Some (Inl e, s)
                | Inr g \<Rightarrow>
                    let r = r0\<lparr>run_Input := mergeInput (run_Input r0) input\<rparr>;
                        waiting = pn_WaitingNodeID pending
                    in if steps0 = [] \<or> step_NodeID (last steps0) \<noteq> waiting
                       then Some (Inl ErrRunNotAwaitingReview, s)
                       else
                         let approvalOutput = approval_output approved comment in
                         case ee_now E s of (resolvedAt, s1) \<Rightarrow>
                           let steps = resolve_last approvalOutput resolvedAt steps0;
                               s2 = recordAudit E tenantID
                                 \<lparr>rp_RunID = run_ID r, rp_WorkflowID = run_WorkflowID r,
                                  rp_StepID = step_ID (last steps), rp_NodeID = waiting,
                                  rp_Type = ''approval_resolved'',
                                  rp_Message = ''approval decision recorded'',
                                  rp_Metadata = approval_fields approved comment\<rparr> s1
                           in if \<not> approved then
                                (case ee_now E s2 of (now, s3) \<Rightarrow>
                                   let rejection = [(''failed_node'', VStr waiting),
                                                    (''approval'', approvalOutput)];
                                       r1 = r\<lparr>run_Status := RunStatusFailed,
                                              run_Error := ''approval rejected'',
                                              run_Output := VMap rejection, run_CompletedAt := now\<rparr>
                                   in Some (complete_run E ''complete rejected run'' r1 steps ''run_failed''
                                        (run_Error r1) rejection s3))
                              else
                                let r1 = r\<lparr>run_Status := RunStatusRunning, run_Error := [],
                                           run_Output := VNil, run_CompletedAt := zero_time\<rparr>
                                in executeRun E r1 g (run_Input r1)
                                     (resumed_state steps pending approvalOutput) s2)))"

section \<open>Asynchronous runs\<close>

definition queued_run :: "string \<Rightarrow> string \<Rightarrow> string \<Rightarrow> vmap \<Rightarrow> time \<Rightarrow> run" where
  "queued_run runID tenantID workflowID input createdAt =
     \<lparr>run_ID = runID, run_TenantID = tenantID, run_WorkflowID = workflowID,
      run_Status = RunStatusQueued, run_TriggerMode = ''async'', run_Attempt = 0,
      run_MaxAttempts = defaultAsyncMaxAttempts, run_Input = cloneMap input, run_Output = VNil,
      run_Error = [], run_CreatedAt = createdAt, run_StartedAt = zero_time,
      run_CompletedAt = zero_time\<rparr>"

definition new_job :: "run \<Rightarrow> vmap \<Rightarrow> async_job" where
  "new_job r input =
     \<lparr>job_RunID = run_ID r, job_TenantID = run_TenantID r, job_WorkflowID = run_WorkflowID r,
      job_Attempt = 0, job_MaxAttempts = defaultAsyncMaxAttempts, job_Input = cloneMap input\<rparr>"

definition ExecuteAsync ::
    "'s exec_env \<Rightarrow> string \<Rightarrow> string \<Rightarrow> vmap \<Rightarrow> 's \<Rightarrow> run result \<times> 's" where
  "ExecuteAsync E tenantID workflowID input s =
     (if trim_space tenantID = [] then (Inl exec_ErrInvalidTenant, s)
      else case ee_Enqueue E of
        None \<Rightarrow> (Inl ErrAsyncDisabled, s)
      | Some enqueue \<Rightarrow>
          (case ee_workflows_Get E tenantID workflowID s of
             Inl e \<Rightarrow> (Inl e, s)
           | Inr w \<Rightarrow>
               (case ee_newID E s of
                  (Inl e, s1) \<Rightarrow> (Inl (wrap ''generate run id'' e), s1)
                | (Inr runID, s1) \<Rightarrow>
                    (case ee_now E s1 of (createdAt, s2) \<Rightarrow>
                       let r = queued_run runID tenantID workflowID input createdAt in
                       case ee_CreateRun E r s2 of
                         (Some e, s3) \<Rightarrow> (Inl (wrap ''create async run'' e), s3)
                       | (None, s3) \<Rightarrow>
                           let s4 = recordAudit E tenantID
                                 (newRunAudit r ''run_queued'' ''async run queued'' []) s3
                           in case enqueue (new_job r input) s4 of
                                (None, s5) \<Rightarrow> (Inr r, s5)
                              | (Some e, s5) \<Rightarrow>
                                  (case ee_now E s5 of (now, s6) \<Rightarrow>
                                     let r1 = r\<lparr>run_Status := RunStatusFailed,
                                                run_Error := error_text e, run_CompletedAt := now\<rparr>
                                     in case ee_CompleteRun E r1 [] s6 of
                                          (Some e2, s7) \<Rightarrow>
                                            (Inl (Wrapped ''enqueue async run: '' e
                                              ('' (mark failed: '' @ error_text e2 @ '')'')), s7)
                                        | (None, s7) \<Rightarrow> (Inl (wrap ''enqueue async run'' e), s7))))))"

text \<open>A job whose workflow is gone or has no graph: the run fails with the error's text.\<close>

definition fail_job :: "'s exec_env \<Rightarrow> string \<Rightarrow> run \<Rightarrow> goerr \<Rightarrow> 's \<Rightarrow> run result \<times> 's" where
  "fail_job E context_text r e s =
     (case ee_now E s of (now, s1) \<Rightarrow>
        let r1 = r\<lparr>run_Status := RunStatusFailed, run_Error := error_text e, run_CompletedAt := now\<rparr> in
        case ee_CompleteRun E r1 [] s1 of
          (Some e2, s2) \<Rightarrow> (Inl (wrap context_text e2), s2)
        | (None, s2) \<Rightarrow> (Inr r1, s2))"

text \<open>The run as an attempt on it starts.\<close>

definition started_run :: "async_job \<Rightarrow> run \<Rightarrow> time \<Rightarrow> run" where
  "started_run job r startedAt =
     r\<lparr>run_Status := RunStatusRunning, run_Attempt := job_Attempt job + 1,
       run_MaxAttempts := (if 0 < job_MaxAttempts job then job_MaxAttempts job else run_MaxAttempts r),
       run_Input := mergeInput (run_Input r) (job_Input job), run_StartedAt := startedAt\<rparr>"

definition ProcessAsyncJob :: "'s exec_env \<Rightarrow> async_job \<Rightarrow> 's \<Rightarrow> (run result \<times> 's) option" where
  "ProcessAsyncJob E job s =
     (if trim_space (job_TenantID job) = [] then Some (Inl exec_ErrInvalidTenant, s)
      else case ee_GetRun E (job_TenantID job) (job_RunID job) s of
        Inl e \<Rightarrow> Some (Inl e, s)
      | Inr r \<Rightarrow>
          if run_Status r \<noteq> RunStatusQueued then Some (Inr r, s)
          else case ee_workflows_Get E (job_TenantID job) (job_WorkflowID job) s of
            Inl e \<Rightarrow> Some (fail_job E ''complete missing async workflow run'' r e s)
          | Inr w \<Rightarrow>
              (case buildGraph (wf_Definition w) of
                 Inl e \<Rightarrow> Some (fail_job E ''complete invalid async workflow run'' r e s)
               | Inr g \<Rightarrow>
                   (case ee_now E s of (startedAt, s1) \<Rightarrow>
                      let r1 = started_run job r startedAt
                      in case ee_UpdateRun E r1 s1 of
                           (Some e, s2) \<Rightarrow> Some (Inl (wrap ''update async run'' e), s2)
                         | (None, s2) \<Rightarrow>
                             executeRun E r1 g (run_Input r1) (newExecutionState (graph_roots g)) s2)))"

text \<open>\<open>Duration.Milliseconds\<close> truncates towards zero.\<close>

definition duration_ms :: "duration \<Rightarrow> int" where
  "duration_ms delay = (if 0 \<le> delay then delay div 1000000 else - ((- delay) div 1000000))"

text \<open>
  \<open>int(d.Seconds())\<close>, which truncates too: the rounding of \<open>Seconds\<close> to a floating point number cannot
  reach the next second below \<open>2 ^ 23\<close> seconds.
\<close>

definition duration_seconds :: "duration \<Rightarrow> int" where
  "duration_seconds d = (if 0 \<le> d then d div 1000000000 else - ((- d) div 1000000000))"

definition MarkAsyncRetry :: "'s exec_env \<Rightarrow> run \<Rightarrow> duration \<Rightarrow> 's \<Rightarrow> run result \<times> 's" where
  "MarkAsyncRetry E r0 delay s =
     (let r = r0\<lparr>run_Status := RunStatusQueued, run_CompletedAt := zero_time,
                 run_Output := VMap [(''retry_scheduled'', VBool True),
                                     (''retry_in_ms'', VInt64 (duration_ms delay)),
                                     (''attempt'', VInt (run_Attempt r0)),
                                     (''max_attempts'', VInt (run_MaxAttempts r0))]\<rparr>
      in case ee_UpdateRun E r s of
           (Some e, s1) \<Rightarrow> (Inl (wrap ''mark async retry'' e), s1)
         | (None, s1) \<Rightarrow>
             (Inr r, recordAudit E (run_TenantID r)
                (newRunAudit r ''retry_scheduled'' ''async retry scheduled''
                  [(''retry_in_ms'', VInt64 (duration_ms delay))]) s1))"

definition MarkDeadLetter :: "'s exec_env \<Rightarrow> run \<Rightarrow> 's \<Rightarrow> run result \<times> 's" where
  "MarkDeadLetter E r0 s =
     (let r = r0\<lparr>run_Status := RunStatusDeadLetter,
                 run_Output := VMap [(''dead_lettered'', VBool True),
                                     (''attempt'', VInt (run_Attempt r0)),
                                     (''max_attempts'', VInt (run_MaxAttempts r0))]\<rparr>
      in case ee_UpdateRun E r s of
           (Some e, s1) \<Rightarrow> (Inl (wrap ''mark dead letter'' e), s1)
         | (None, s1) \<Rightarrow>
             (Inr r, recordAudit E (run_TenantID r)
                (newRunAudit r ''run_dead_lettered'' ''async run moved to dead letter'' []) s1))"

section \<open>The operations return\<close>

lemma executeRun_total:
  "buildGraph d = Inr g \<Longrightarrow> executeRun E r g input st s \<noteq> None"
  using continueExecution_total [of d g E "run_ID r" "run_TenantID r" input st
      "recordAudit E (run_TenantID r) (newRunAudit r ''run_started'' ''workflow run started'' []) s"]
  by (auto simp: executeRun_def Let_def)

lemma ExecuteSync_total: "ExecuteSync E t k input s \<noteq> None"
  by (rule notI) (auto simp: ExecuteSync_def Let_def dest: executeRun_total
      split: sum.split_asm prod.split_asm option.split_asm if_split_asm)

lemma ProcessAsyncJob_total: "ProcessAsyncJob E job s \<noteq> None"
proof
  assume none: "ProcessAsyncJob E job s = None"
  have run: "buildGraph d = Inr g \<Longrightarrow> executeRun E r g input st s \<noteq> None" for d g r input st s
    by (rule executeRun_total)
  show False
    using none unfolding ProcessAsyncJob_def Let_def
    by (auto dest: run simp del: not_None_eq
        split: sum.split_asm prod.split_asm option.split_asm if_split_asm)
qed

lemma ResumeApproval_total: "ResumeApproval E t k approved comment input s \<noteq> None"
  by (rule notI) (auto simp: ResumeApproval_def Let_def dest: executeRun_total
      split: sum.split_asm prod.split_asm option.split_asm if_split_asm)

section \<open>Properties\<close>

text \<open>C14: every operation that executes workflow nodes returns, for every workflow, input and state of
  the world: no cycle in a definition, no answer of a node, and no approval can make it run forever.\<close>
theorem execution_always_returns:
  "ExecuteSync E t w input s \<noteq> None \<and> ProcessAsyncJob E job s \<noteq> None \<and>
   ResumeApproval E t k approved comment input s \<noteq> None"
  by (intro conjI ExecuteSync_total ProcessAsyncJob_total ResumeApproval_total)

lemma executeRun_guarded [guarded_simps]: "executeRun (guarded bad E) = executeRun E"
  unfolding executeRun_def settle_run_def complete_run_def recordAudit_def guarded_fields guarded_simps ..

text \<open>C10: no run sends a request to a URL that the egress policy rejects: whatever the HTTP client
  would do with such requests, synchronous runs, resumed runs and asynchronous jobs behave the same
  and leave the same state behind.\<close>
theorem egress_confined:
  "ExecuteSync (guarded bad E) t w input s = ExecuteSync E t w input s \<and>
   ResumeApproval (guarded bad E) t k approved comment input s =
     ResumeApproval E t k approved comment input s \<and>
   ProcessAsyncJob (guarded bad E) job s = ProcessAsyncJob E job s"
  unfolding ExecuteSync_def ResumeApproval_def ProcessAsyncJob_def fail_job_def complete_run_def
    recordAudit_def guarded_fields guarded_simps by (intro conjI refl)

section \<open>The repository behind the executor\<close>

text \<open>What a tenant can read of one run.\<close>

definition run_view ::
    "'s exec_env \<Rightarrow> string \<Rightarrow> string \<Rightarrow> 's \<Rightarrow>
     run result \<times> step list result \<times> (run \<times> step list \<times> pending_state) result" where
  "run_view E t k s = (ee_GetRun E t k s, ee_ListSteps E t k s, ee_LoadPending E t k s)"

definition owned :: "string \<Rightarrow> run \<Rightarrow> 'a result \<Rightarrow> 'a result" where
  "owned t r x = (if run_TenantID r = t then x else Inl exec_ErrNotFound)"

definition settled :: "'s exec_env \<Rightarrow> string \<Rightarrow> string \<Rightarrow> run \<Rightarrow> 's \<Rightarrow> bool" where
  "settled E t k r s \<longleftrightarrow>
     run_ID r = k \<and> run_TenantID r = t \<and> ee_GetRun E t k s = Inr r \<and>
     run_Status r \<in> {RunStatusCompleted, RunStatusFailed, RunStatusWaitingApproval} \<and>
     (if run_Status r = RunStatusWaitingApproval
      then \<exists>steps p. ee_LoadPending E t k s = Inr (r, steps, p)
      else ee_LoadPending E t k s = Inl ErrRunNotAwaitingReview)"

text \<open>
  An observation of the world that neither the audit events of steps (which carry no workflow id), the
  clock, the id source, the language model nor the HTTP client change: executing nodes does not change
  it either.
\<close>

locale node_effects =
  fixes E :: "'s exec_env" and obs :: "'s \<Rightarrow> 'o"
  assumes step_audit_obs: "ee_audit_Record E = Some rec \<Longrightarrow> rp_WorkflowID params = [] \<Longrightarrow>
      obs (snd (rec t params s)) = obs s"
    and now_obs: "obs (snd (ee_now E s)) = obs s"
    and newID_obs: "obs (snd (ee_newID E s)) = obs s"
    and Generate_obs: "obs (snd (ee_Generate E prompt s)) = obs s"
    and Do_obs: "obs (snd (ee_Do E rq s)) = obs s"
begin

lemma step_recordAudit_obs [simp]: "obs (recordAudit E t (auditParamsForStep et msg st md) s) = obs s"
  by (auto simp: recordAudit_def auditParamsForStep_def step_audit_obs split: option.split)

lemma now_obs': "ee_now E s = (at_time, s') \<Longrightarrow> obs s' = obs s"
  by (metis now_obs snd_conv)

lemma newID_obs': "ee_newID E s = (x, s') \<Longrightarrow> obs s' = obs s"
  by (metis newID_obs snd_conv)

lemma executeNode_obs:
  assumes "executeNode E t n input outs s = (x, s')"
  shows "obs s' = obs s"
proof -
  have "executeLLM E c i outs s = (x, s') \<Longrightarrow> obs s' = obs s" for c i
    using Generate_obs [of _ s]
    by (auto simp: executeLLM_def Let_def split: prod.splits sum.splits) (metis snd_conv)+
  moreover have "executeHTTPTool E c i outs s = (x, s') \<Longrightarrow> obs s' = obs s" for c i
    using Do_obs [of _ s]
    by (auto simp: executeHTTPTool_def Let_def split: option.splits prod.splits sum.splits)
       (metis snd_conv)+
  ultimately show ?thesis
    using assms by (auto simp: executeNode_def split: if_splits)
qed

lemma executeStep_obs:
  assumes "executeStep E runID t n input outs s = (x, s')"
  shows "obs s' = obs s"
proof -
  obtain i s1 where newID: "ee_newID E s = (i, s1)" by fastforce
  show ?thesis
  proof (cases i)
    case (Inl e)
    then show ?thesis using assms newID newID_obs' [OF newID] by (simp add: executeStep_def)
  next
    case (Inr stepID)
    obtain b s2 where n1: "ee_now E s1 = (b, s2)" by fastforce
    obtain a s3 where node: "executeNode E t n input outs s2 = (a, s3)" by fastforce
    obtain c s4 where n2: "ee_now E s3 = (c, s4)" by fastforce
    have "s' = s4"
      using assms newID Inr n1 node n2 by (auto simp: executeStep_def Let_def split: sum.splits)
    then show ?thesis
      using newID_obs' [OF newID] now_obs' [OF n1] executeNode_obs [OF node] now_obs' [OF n2] by simp
  qed
qed

lemma run_node_obs:
  assumes "run_node E runID t g input n st queued s = (x, s')"
  shows "obs s' = obs s"
proof (cases "node_Type n = ''approval''")
  case True
  obtain i s1 where newID: "ee_newID E s = (i, s1)" by fastforce
  obtain b s2 where n1: "ee_now E s1 = (b, s2)" by fastforce
  show ?thesis
    using assms True newID n1 newID_obs' [OF newID] now_obs' [OF n1]
    by (auto simp: run_node_def pause_at_def awaitApproval_def Let_def split: sum.splits)
next
  case False
  obtain y a s1 where step: "executeStep E runID t n input (es_stepOutputs st) s = ((y, a), s1)"
    by (cases "executeStep E runID t n input (es_stepOutputs st) s") auto
  show ?thesis
    using assms False step executeStep_obs [OF step]
    by (auto simp: run_node_def Let_def split: sum.splits prod.splits)
qed

lemma continueExecution_obs:
  assumes "continueExecution E runID t g input st s = Some (r, s')"
  shows "obs s' = obs s"
proof -
  let ?P = "\<lambda>c. obs (snd (snd c)) = obs s"
  have "\<exists>c. ?P c \<and> loop_end E runID t g input c (r, s')"
    using assms unfolding continueExecution_def
    by (rule exec_loop_invariant) (auto elim!: loop_step.cases dest: run_node_obs)
  then show ?thesis by (auto elim!: loop_end.cases dest: run_node_obs)
qed

end

text \<open>An observation that no audit event changes.\<close>

locale effect_frame = node_effects +
  assumes audit_obs: "ee_audit_Record E = Some rec \<Longrightarrow> obs (snd (rec t params s)) = obs s"
begin

lemma recordAudit_obs [simp]: "obs (recordAudit E t params s) = obs s"
  by (auto simp: recordAudit_def audit_obs split: option.split)

end

text \<open>
  What the executor relies on beside that: a write of a run that reports no error is what the run's
  tenant reads afterwards, and other runs are as before.
\<close>

locale run_repository =
  effect_frame E "\<lambda>s t k. run_view E t k s" for E :: "'s exec_env" +
  assumes get_owner: "ee_GetRun E t k s = Inr r \<Longrightarrow> run_TenantID r = t"
    and load_run: "ee_LoadPending E t k s = Inr (r, steps, p) \<Longrightarrow> ee_GetRun E t k s = Inr r"
    and create_view: "ee_CreateRun E r s = (None, s') \<Longrightarrow>
      ee_GetRun E t (run_ID r) s' = owned t r (Inr r) \<and>
      (k \<noteq> run_ID r \<longrightarrow> run_view E t k s' = run_view E t k s)"
    and update_view: "ee_UpdateRun E r s = (None, s') \<Longrightarrow>
      ee_GetRun E t (run_ID r) s' = owned t r (Inr r) \<and>
      (k \<noteq> run_ID r \<longrightarrow> run_view E t k s' = run_view E t k s)"
    and complete_view: "ee_CompleteRun E r steps s = (None, s') \<Longrightarrow>
      run_view E t (run_ID r) s' =
        (owned t r (Inr r), owned t r (Inr steps), owned t r (Inl ErrRunNotAwaitingReview)) \<and>
      (k \<noteq> run_ID r \<longrightarrow> run_view E t k s' = run_view E t k s)"
    and save_view: "ee_SavePending E r steps p s = (None, s') \<Longrightarrow>
      run_view E t (run_ID r) s' =
        (owned t r (Inr r), owned t r (Inr steps), owned t r (Inr (r, steps, p))) \<and>
      (k \<noteq> run_ID r \<longrightarrow> run_view E t k s' = run_view E t k s)"
    and enqueue_view: "ee_Enqueue E = Some enqueue \<Longrightarrow>
      run_view E t k (snd (enqueue job s)) = run_view E t k s"
begin

lemma recordAudit_view [simp]: "run_view E t k (recordAudit E t' params s) = run_view E t k s"
  using recordAudit_obs [of t' params s] by metis

lemma now_view': "ee_now E s = (at_time, s') \<Longrightarrow> run_view E t k s' = run_view E t k s"
  using now_obs' by metis

lemma continueExecution_view:
  "continueExecution E runID t' g input st s = Some (r, s') \<Longrightarrow> run_view E t k s' = run_view E t k s"
  using continueExecution_obs by metis

text \<open>Completing a run or parking it leaves the returned run settled and the other runs alone.\<close>

lemma complete_run_settled:
  assumes "complete_run E c r steps et msg md s = (Inr r', s')"
    and "run_Status r \<in> {RunStatusCompleted, RunStatusFailed}"
  shows "settled E (run_TenantID r) (run_ID r) r' s' \<and> r' = r \<and>
    (k \<noteq> run_ID r \<longrightarrow> run_view E t k s' = run_view E t k s)"
proof -
  obtain s1 where complete: "ee_CompleteRun E r steps s = (None, s1)"
    and r': "r' = r" "s' = recordAudit E (run_TenantID r) (newRunAudit r et msg md) s1"
    using assms(1) by (auto simp: complete_run_def split: prod.splits option.splits)
  have "run_view E (run_TenantID r) (run_ID r) s' = (Inr r, Inr steps, Inl ErrRunNotAwaitingReview)"
    using complete_view [OF complete, of "run_TenantID r"] by (simp add: r' owned_def)
  moreover have "k \<noteq> run_ID r \<longrightarrow> run_view E t k s' = run_view E t k s"
    using complete_view [OF complete, of t k] by (simp add: r')
  ultimately show ?thesis
    using assms(2) r'(1) by (auto simp: settled_def run_view_def)
qed

lemma settle_run_settled:
  assumes "settle_run E r st out s = (Inr r', s')"
  shows "settled E (run_TenantID r) (run_ID r) r' s' \<and>
    (k \<noteq> run_ID r \<longrightarrow> run_view E t k s' = run_view E t k s)"
proof (cases out)
  case Finished
  obtain now s1 where now: "ee_now E s = (now, s1)" by fastforce
  show ?thesis
    using assms complete_run_settled [where k = k and t = t] now_view' [OF now, of t k]
    unfolding Finished by (fastforce simp: settle_run_def now Let_def)
next
  case (Failed failure)
  obtain now s1 where now: "ee_now E s = (now, s1)" by fastforce
  show ?thesis
    using assms complete_run_settled [where k = k and t = t] now_view' [OF now, of t k]
    unfolding Failed by (fastforce simp: settle_run_def now Let_def)
next
  case (Aborted e)
  then show ?thesis using assms by (simp add: settle_run_def)
next
  case (Paused pp)
  let ?r1 = "r\<lparr>run_Status := RunStatusWaitingApproval, run_Output := pp_output pp\<rparr>"
  obtain s1 where save: "ee_SavePending E ?r1 (es_steps st) (pp_pending pp) s = (None, s1)"
    and r': "r' = ?r1" "run_view E t k s' = run_view E t k s1" for t k
    using assms unfolding Paused by (auto simp: settle_run_def Let_def split: prod.splits option.splits)
  have "run_view E (run_TenantID r) (run_ID r) s' =
      (Inr ?r1, Inr (es_steps st), Inr (?r1, es_steps st, pp_pending pp))"
    using save_view [OF save, of "run_TenantID r"] by (simp add: r' owned_def)
  moreover have "k \<noteq> run_ID r \<longrightarrow> run_view E t k s' = run_view E t k s"
    using save_view [OF save, of t k] by (simp add: r')
  ultimately show ?thesis
    by (auto simp: settled_def run_view_def r'(1))
qed

lemma executeRun_settled:
  assumes "executeRun E r g input st s = Some (Inr r', s')"
  shows "settled E (run_TenantID r) (run_ID r) r' s'"
    and "k \<noteq> run_ID r \<Longrightarrow> run_view E t k s' = run_view E t k s"
proof -
  let ?s1 = "recordAudit E (run_TenantID r) (newRunAudit r ''run_started'' ''workflow run started'' []) s"
  obtain st' out s2 where run:
      "continueExecution E (run_ID r) (run_TenantID r) g input st ?s1 = Some ((st', out), s2)"
    and settle: "settle_run E r st' out s2 = (Inr r', s')"
    using assms by (auto simp: executeRun_def Let_def split: option.splits)
  show "settled E (run_TenantID r) (run_ID r) r' s'"
    using settle_run_settled [OF settle] by blast
  show "k \<noteq> run_ID r \<Longrightarrow> run_view E t k s' = run_view E t k s"
    using settle_run_settled [OF settle, of k t] continueExecution_view [OF run, of t k] by simp
qed

lemma ExecuteSync_settled:
  assumes "ExecuteSync E t w input s = Some (Inr r, s')"
  shows "settled E t (run_ID r) r s'"
proof -
  obtain runID at_time g s3 where
    "executeRun E (sync_run runID t w input at_time) g input (newExecutionState (graph_roots g)) s3 =
       Some (Inr r, s')"
    using assms by (auto simp: ExecuteSync_def Let_def split: if_splits sum.splits prod.splits option.splits)
  from executeRun_settled(1) [OF this] show ?thesis
    by (simp add: sync_run_def settled_def)
qed

text \<open>Processing a job settles its run; processing it again then changes nothing.\<close>

lemma fail_job_settled:
  assumes "fail_job E c r e s = (Inr r', s')"
  shows "settled E (run_TenantID r) (run_ID r) r' s' \<and> run_Status r' = RunStatusFailed \<and>
    run_Attempt r' = run_Attempt r \<and> run_MaxAttempts r' = run_MaxAttempts r"
proof -
  obtain now s1 where now: "ee_now E s = (now, s1)" by fastforce
  let ?r1 = "r\<lparr>run_Status := RunStatusFailed, run_Error := error_text e, run_CompletedAt := now\<rparr>"
  have complete: "ee_CompleteRun E ?r1 [] s1 = (None, s')" and r': "r' = ?r1"
    using assms by (auto simp: fail_job_def now Let_def split: prod.splits option.splits)
  have "run_view E (run_TenantID r) (run_ID r) s' = (Inr ?r1, Inr [], Inl ErrRunNotAwaitingReview)"
    using complete_view [OF complete, of "run_TenantID r"] by (simp add: owned_def)
  then show ?thesis by (simp add: settled_def run_view_def r')
qed

lemma ProcessAsyncJob_settled:
  assumes "ProcessAsyncJob E job s = Some (Inr r, s')"
    and key: "\<And>r0. ee_GetRun E (job_TenantID job) (job_RunID job) s = Inr r0 \<Longrightarrow> run_ID r0 = job_RunID job"
  shows "(\<exists>r0. ee_GetRun E (job_TenantID job) (job_RunID job) s = Inr r0 \<and>
            (if run_Status r0 = RunStatusQueued
             then settled E (job_TenantID job) (job_RunID job) r s'
             else r = r0 \<and> s' = s)) \<and>
         trim_space (job_TenantID job) \<noteq> []"
proof -
  obtain r0 where trim: "trim_space (job_TenantID job) \<noteq> []"
    and r0: "ee_GetRun E (job_TenantID job) (job_RunID job) s = Inr r0"
    using assms(1) by (auto simp: ProcessAsyncJob_def split: if_splits sum.splits)
  note own = get_owner [OF r0] key [OF r0]
  have "settled E (job_TenantID job) (job_RunID job) r s'" if queued: "run_Status r0 = RunStatusQueued"
  proof -
    consider (failed) c e where "fail_job E c r0 e s = (Inr r, s')"
      | (ran) at_time g s2 where "executeRun E (started_run job r0 at_time) g
          (run_Input (started_run job r0 at_time)) (newExecutionState (graph_roots g)) s2 = Some (Inr r, s')"
      using assms(1) trim r0 queued
      by (auto simp: ProcessAsyncJob_def Let_def split: sum.splits prod.splits option.splits)
    then show ?thesis
    proof cases
      case failed
      then show ?thesis using fail_job_settled own by metis
    next
      case ran
      from executeRun_settled(1) [OF this] show ?thesis using own by (simp add: started_run_def)
    qed
  qed
  then show ?thesis
    using assms(1) trim r0 by (auto simp: ProcessAsyncJob_def)
qed

lemma ProcessAsyncJob_again:
  assumes "ProcessAsyncJob E job s = Some (Inr r, s')"
    and key: "\<And>r0. ee_GetRun E (job_TenantID job) (job_RunID job) s = Inr r0 \<Longrightarrow> run_ID r0 = job_RunID job"
  shows "ProcessAsyncJob E job s' = Some (Inr r, s')"
proof -
  obtain r0 where r0: "ee_GetRun E (job_TenantID job) (job_RunID job) s = Inr r0"
    and after: "if run_Status r0 = RunStatusQueued then settled E (job_TenantID job) (job_RunID job) r s'
                else r = r0 \<and> s' = s"
    and trim: "trim_space (job_TenantID job) \<noteq> []"
    using ProcessAsyncJob_settled [OF assms(1) key] by blast
  have "ee_GetRun E (job_TenantID job) (job_RunID job) s' = Inr r" "run_Status r \<noteq> RunStatusQueued"
    using r0 after by (auto simp: settled_def split: if_splits)
  with trim show ?thesis by (simp add: ProcessAsyncJob_def)
qed

text \<open>Resuming settles the run: rejected runs fail, and the pending state is used up.\<close>

lemma ResumeApproval_settled:
  assumes "ResumeApproval E t k approved comment input s = Some (Inr r, s')"
    and key: "\<And>r0. ee_GetRun E t k s = Inr r0 \<Longrightarrow> run_ID r0 = k"
  shows "settled E t k r s' \<and> trim_space t \<noteq> [] \<and>
    (approved \<or> run_Status r = RunStatusFailed \<and> run_Error r = ''approval rejected'') \<and>
    (\<exists>r0 steps p. ee_LoadPending E t k s = Inr (r0, steps, p))"
proof -
  obtain r0 steps p where trim: "trim_space t \<noteq> []" and load: "ee_LoadPending E t k s = Inr (r0, steps, p)"
    using assms(1) by (auto simp: ResumeApproval_def split: if_splits sum.splits)
  note own = get_owner [OF load_run [OF load]] key [OF load_run [OF load]]
  show ?thesis
  proof (cases approved)
    case True
    obtain at_time g st s2 where
      "executeRun E (r0\<lparr>run_Input := mergeInput (run_Input r0) input, run_Status := RunStatusRunning,
           run_Error := [], run_Output := VNil, run_CompletedAt := zero_time\<rparr>) g
         (mergeInput (run_Input r0) input) st s2 = Some (Inr r, s')"
      using assms(1) trim load True
      by (auto simp: ResumeApproval_def Let_def split: if_splits sum.splits prod.splits)
    from executeRun_settled(1) [OF this] show ?thesis using own trim load True by simp
  next
    case False
    obtain c r1 steps' et msg md s3 where complete: "complete_run E c r1 steps' et msg md s3 = (Inr r, s')"
      and r1: "run_ID r1 = run_ID r0" "run_TenantID r1 = run_TenantID r0" "run_Status r1 = RunStatusFailed"
        "run_Error r1 = ''approval rejected''"
      using assms(1) trim load False
      by (auto simp: ResumeApproval_def Let_def split: if_splits sum.splits prod.splits)
    from complete_run_settled [OF complete] r1 show ?thesis using own trim load by auto
  qed
qed

lemma ResumeApproval_again:
  assumes "ResumeApproval E t k approved comment input s = Some (Inr r, s')"
    and key: "\<And>r0. ee_GetRun E t k s = Inr r0 \<Longrightarrow> run_ID r0 = k"
    and "run_Status r \<noteq> RunStatusWaitingApproval"
  shows "ResumeApproval E t k approved' comment' input' s' = Some (Inl ErrRunNotAwaitingReview, s')"
  using ResumeApproval_settled [OF assms(1) key] assms(3) by (simp add: settled_def ResumeApproval_def)

text \<open>An accepted asynchronous run is queued in the repository.\<close>

lemma ExecuteAsync_queued:
  assumes "ExecuteAsync E t w input s = (Inr r, s')"
  shows "ee_GetRun E t (run_ID r) s' = Inr r \<and> run_Status r = RunStatusQueued \<and> run_Attempt r = 0 \<and>
    run_TenantID r = t"
proof -
  obtain runID at_time s2 s3 enqueue job where create: "ee_CreateRun E r s2 = (None, s3)"
    and enq: "ee_Enqueue E = Some enqueue"
    and s': "enqueue job (recordAudit E t (newRunAudit r ''run_queued'' ''async run queued'' []) s3) = (None, s')"
    and r: "r = queued_run runID t w input at_time"
    using assms
    by (auto simp: ExecuteAsync_def Let_def split: if_splits sum.splits prod.splits option.splits)
  have "run_view E t (run_ID r) s' = run_view E t (run_ID r) s3"
    using enqueue_view [OF enq, of t "run_ID r" job] s' by (metis recordAudit_view snd_conv)
  then show ?thesis
    using create_view [OF create, of t "run_ID r"] by (simp add: run_view_def r queued_run_def owned_def)
qed

end

end
