(* ===== verification/Worker.thy ===== *)
theory Worker
  imports Executor "HOL-Library.Word"
begin

text \<open>
  \<open>internal/worker/service.go\<close>: the worker that takes jobs from the queue, retries failed runs with
  an exponential delay and moves them to the dead letters when their attempts are used up; and
  \<open>internal/worker/memory_queue.go\<close>, the in-memory queue.
\<close>

unbundle bit_operations_syntax

section \<open>The in-memory queue\<close>

text \<open>
  The buffered channel with its size, and the jobs whose timer has not fired yet. A send into a full
  channel waits until the context ends and then reports the context's error; it is sent whenever
  there is room. A receive takes the first job, or reports that none came before the timer.
\<close>

record memory_queue =
  mq_size :: nat
  mq_jobs :: "async_job list"
  mq_delayed :: "(async_job \<times> duration) list"

definition NewMemoryQueue :: "int \<Rightarrow> memory_queue" where
  "NewMemoryQueue slots =
     \<lparr>mq_size = (if slots \<le> 0 then 128 else nat slots), mq_jobs = [], mq_delayed = []\<rparr>"

definition cloneInput :: "vmap \<Rightarrow> vmap" where
  "cloneInput input = (if length input = 0 then [] else cloneMap input)"

definition cloneJob :: "async_job \<Rightarrow> async_job" where
  "cloneJob job =
     \<lparr>job_RunID = job_RunID job, job_TenantID = job_TenantID job, job_WorkflowID = job_WorkflowID job,
      job_Attempt = job_Attempt job, job_MaxAttempts = job_MaxAttempts job,
      job_Input = cloneInput (job_Input job)\<rparr>"

lemma cloneJob [simp]: "cloneJob job = job"
  by (simp add: cloneJob_def cloneInput_def cloneMap_def)

definition mq_Enqueue :: "goerr \<Rightarrow> async_job \<Rightarrow> memory_queue \<Rightarrow> goerr option \<times> memory_queue" where
  "mq_Enqueue ctx_err job q =
     (if length (mq_jobs q) < mq_size q then (None, q\<lparr>mq_jobs := mq_jobs q @ [cloneJob job]\<rparr>)
      else (Some ctx_err, q))"

definition mq_EnqueueAfter ::
    "goerr option \<Rightarrow> async_job \<Rightarrow> duration \<Rightarrow> memory_queue \<Rightarrow> goerr option \<times> memory_queue" where
  "mq_EnqueueAfter ctx_err job delay q =
     (case ctx_err of
        Some e \<Rightarrow> (Some e, q)
      | None \<Rightarrow> (None, q\<lparr>mq_delayed := mq_delayed q @ [(cloneJob job, delay)]\<rparr>))"

text \<open>The goroutine of the \<open>i\<close>-th delayed job: its timer has fired and the channel has room.\<close>

definition mq_fire :: "nat \<Rightarrow> memory_queue \<Rightarrow> memory_queue" where
  "mq_fire i q =
     (if i < length (mq_delayed q) \<and> length (mq_jobs q) < mq_size q
      then q\<lparr>mq_jobs := mq_jobs q @ [cloneJob (fst (mq_delayed q ! i))],
             mq_delayed := take i (mq_delayed q) @ drop (Suc i) (mq_delayed q)\<rparr>
      else q)"

definition mq_Dequeue :: "memory_queue \<Rightarrow> async_job option result \<times> memory_queue" where
  "mq_Dequeue q =
     (case mq_jobs q of
        [] \<Rightarrow> (Inr None, q)
      | job # rest \<Rightarrow> (Inr (Some (cloneJob job)), q\<lparr>mq_jobs := rest\<rparr>))"

text \<open>Sending a list of jobs, with those that were accepted; and taking out up to \<open>n\<close> jobs.\<close>

fun enq_all ::
    "('a \<Rightarrow> 'q \<Rightarrow> goerr option \<times> 'q) \<Rightarrow> 'a list \<Rightarrow> 'q \<Rightarrow> 'a list \<times> 'q" where
  "enq_all enq [] q = ([], q)"
| "enq_all enq (x # xs) q =
     (case enq x q of (err, q1) \<Rightarrow> case enq_all enq xs q1 of (accepted, q2) \<Rightarrow>
        (if err = None then x # accepted else accepted, q2))"

fun deq_all :: "('q \<Rightarrow> 'a option result \<times> 'q) \<Rightarrow> nat \<Rightarrow> 'q \<Rightarrow> 'a list \<times> 'q" where
  "deq_all deq 0 q = ([], q)"
| "deq_all deq (Suc n) q =
     (case deq q of
        (Inr (Some x), q1) \<Rightarrow> (case deq_all deq n q1 of (xs, q2) \<Rightarrow> (x # xs, q2))
      | (_, q1) \<Rightarrow> ([], q1))"

text \<open>The contract of a job queue: what was accepted comes out once, in order.\<close>

locale fifo_queue =
  fixes enq :: "'a \<Rightarrow> 'q \<Rightarrow> goerr option \<times> 'q"
    and deq :: "'q \<Rightarrow> 'a option result \<times> 'q"
    and content :: "'q \<Rightarrow> 'a list"
  assumes enq_content: "content (snd (enq x q)) = (if fst (enq x q) = None then content q @ [x] else content q)"
    and deq_content: "(case content q of [] \<Rightarrow> deq q = (Inr None, q)
                       | x # xs \<Rightarrow> fst (deq q) = Inr (Some x) \<and> content (snd (deq q)) = xs)"
begin

lemma enq_all_content: "enq_all enq xs q = (ok, q') \<Longrightarrow> content q' = content q @ ok"
proof (induction xs arbitrary: q ok q')
  case (Cons x xs)
  obtain err q1 where e: "enq x q = (err, q1)" by fastforce
  obtain ok1 q2 where r: "enq_all enq xs q1 = (ok1, q2)" by fastforce
  show ?case
    using Cons.prems Cons.IH [OF r] enq_content [of x q] by (auto simp: e r)
qed simp

lemma deq_all_content: "content q = xs @ ys \<Longrightarrow> fst (deq_all deq (length xs) q) = xs"
proof (induction xs arbitrary: q)
  case (Cons x xs)
  obtain q1 where d: "deq q = (Inr (Some x), q1)" "content q1 = xs @ ys"
    using deq_content [of q] Cons.prems by (cases "deq q") auto
  then show ?case using Cons.IH [OF d(2)] by (cases "deq_all deq (length xs) q1") simp
qed simp

lemma fifo:
  "content q = [] \<Longrightarrow> enq_all enq xs q = (ok, q') \<Longrightarrow> fst (deq_all deq (length ok) q') = ok"
  using enq_all_content [of xs q ok q'] deq_all_content [of q' ok "[]"] by simp

end

interpretation mem_queue: fifo_queue "mq_Enqueue ctx_err" mq_Dequeue mq_jobs
  by unfold_locales (auto simp: mq_Enqueue_def mq_Dequeue_def split: list.split)

section \<open>The worker\<close>

record 's worker_env =
  wk_exec :: "'s exec_env"
  wk_Dequeue :: "duration \<Rightarrow> 's \<Rightarrow> async_job option result \<times> 's"
  wk_EnqueueAfter :: "async_job \<Rightarrow> duration \<Rightarrow> 's \<Rightarrow> goerr option \<times> 's"
  wk_pollTimeout :: duration
  wk_baseBackoff :: "64 word"

definition default_pollTimeout :: duration where
  "default_pollTimeout = milliseconds 250"

definition default_baseBackoff :: "64 word" where
  "default_baseBackoff = 50000000"

definition WithPollTimeout :: "duration \<Rightarrow> 's worker_env \<Rightarrow> 's worker_env" where
  "WithPollTimeout timeout W = (if 0 < timeout then W\<lparr>wk_pollTimeout := timeout\<rparr> else W)"

text \<open>A product of 64-bit durations, which wraps around.\<close>

definition retryDelay :: "64 word \<Rightarrow> int \<Rightarrow> 64 word" where
  "retryDelay baseBackoff attempt =
     (if attempt \<le> 1 then baseBackoff else baseBackoff * push_bit (nat (attempt - 1)) 1)"

definition retry_job ::
    "'s worker_env \<Rightarrow> async_job \<Rightarrow> run \<Rightarrow> 's \<Rightarrow> (bool \<times> goerr option) \<times> 's" where
  "retry_job W job r s =
     (let job' = job\<lparr>job_Attempt := run_Attempt r, job_MaxAttempts := run_MaxAttempts r\<rparr>;
          delay = sint (retryDelay (wk_baseBackoff W) (run_Attempt r))
      in case MarkAsyncRetry (wk_exec W) r delay s of
           (Inl e, s1) \<Rightarrow> ((True, Some e), s1)
         | (Inr r', s1) \<Rightarrow>
             (case wk_EnqueueAfter W job' delay s1 of
                (Some e, s2) \<Rightarrow> ((True, Some e), s2)
              | (None, s2) \<Rightarrow> ((True, None), s2)))"

definition ProcessNext :: "'s worker_env \<Rightarrow> 's \<Rightarrow> ((bool \<times> goerr option) \<times> 's) option" where
  "ProcessNext W s =
     (case wk_Dequeue W (wk_pollTimeout W) s of
        (Inl e, s1) \<Rightarrow> Some ((False, Some e), s1)
      | (Inr None, s1) \<Rightarrow> Some ((False, None), s1)
      | (Inr (Some job), s1) \<Rightarrow>
          (case ProcessAsyncJob (wk_exec W) job s1 of
             None \<Rightarrow> None
           | Some (Inl e, s2) \<Rightarrow> Some ((True, Some e), s2)
           | Some (Inr r, s2) \<Rightarrow>
               if run_Status r \<noteq> RunStatusFailed then Some ((True, None), s2)
               else if run_Attempt r < run_MaxAttempts r then Some (retry_job W job r s2)
               else
                 (case MarkDeadLetter (wk_exec W) r s2 of
                    (Inl e, s3) \<Rightarrow> Some ((True, Some e), s3)
                  | (Inr r', s3) \<Rightarrow> Some ((True, None), s3))))"

section \<open>Properties\<close>

text \<open>Jobs leave the in-memory queue exactly once and in the order in which they were accepted:
  after any sends to an empty queue, as many receives as sends were accepted give these jobs.\<close>
theorem memory_queue_fifo:
  assumes "mq_jobs q = []" and "enq_all (mq_Enqueue ctx_err) jobs q = (accepted, q')"
  shows "fst (deq_all mq_Dequeue (length accepted) q') = accepted"
  by (rule mem_queue.fifo [OF assms])

theorem memory_queue_fifo_witness:
  "fst (deq_all mq_Dequeue 1 (snd (enq_all (mq_Enqueue (Anonymous ''ended''))
     [new_job (demo_run ''r1'' 1) [], new_job (demo_run ''r2'' 1) []] (NewMemoryQueue 1)))) =
   [new_job (demo_run ''r1'' 1) []]"
proof -
  let ?jobs = "[new_job (demo_run ''r1'' 1) [], new_job (demo_run ''r2'' 1) []]"
  have sent: "enq_all (mq_Enqueue (Anonymous ''ended'')) ?jobs (NewMemoryQueue 1) =
      ([new_job (demo_run ''r1'' 1) []], (NewMemoryQueue 1)\<lparr>mq_jobs := [new_job (demo_run ''r1'' 1) []]\<rparr>)"
    by (simp add: mq_Enqueue_def NewMemoryQueue_def)
  have "mq_jobs (NewMemoryQueue 1) = []" by (simp add: NewMemoryQueue_def)
  from memory_queue_fifo [OF this sent] show ?thesis by (simp only: sent snd_conv) simp
qed

lemma sint_retryDelay:
  assumes "1 \<le> attempt" and "unat b * 2 ^ nat (attempt - 1) < 2 ^ 63"
  shows "sint (retryDelay b attempt) = int (unat b * 2 ^ nat (attempt - 1))"
proof -
  let ?n = "unat b * 2 ^ nat (attempt - 1)"
  have "retryDelay b attempt = word_of_nat ?n"
    using assms(1) by (cases "attempt = 1") (simp_all add: retryDelay_def push_bit_eq_mult)
  moreover have "int ?n < 2 ^ 63"
    using assms(2) by (metis of_nat_less_iff of_nat_numeral of_nat_power)
  ultimately show ?thesis
    using signed_take_bit_int_eq_self [of 63 "int ?n"]
    by (simp add: signed_of_nat del: of_nat_mult of_nat_power)
qed

text \<open>Retries back off exponentially: with the default base the \<open>n\<close>-th retry waits
  50 ms times \<open>2 ^ (n - 1)\<close>, without overflow of the 64-bit duration, up to the 38th attempt; from the
  39th on the product overflows, there to a negative duration.\<close>
theorem retryDelay_exponential:
  "(if 1 \<le> attempt \<and> attempt \<le> 38
    then sint (retryDelay default_baseBackoff attempt) = milliseconds 50 * 2 ^ nat (attempt - 1)
    else True) \<and>
   sint (retryDelay default_baseBackoff 39) < 0"
proof -
  have "sint (retryDelay default_baseBackoff attempt) = milliseconds 50 * 2 ^ nat (attempt - 1)"
    if "1 \<le> attempt" "attempt \<le> 38"
  proof -
    have base: "unat default_baseBackoff = 50000000" by (simp add: default_baseBackoff_def)
    have "(2 :: nat) ^ nat (attempt - 1) \<le> 2 ^ 37" using that by (intro power_increasing) auto
    then have small: "unat default_baseBackoff * 2 ^ nat (attempt - 1) < 2 ^ 63" by (simp add: base)
    show ?thesis
      using sint_retryDelay [OF that(1) small] by (simp add: base)
  qed
  moreover have "sint (retryDelay default_baseBackoff 39) < 0"
    by code_simp
  ultimately show ?thesis by simp
qed

end
