(* ===== verification/ObjectStore.thy ===== *)
theory ObjectStore
  imports Documents
begin

text \<open>
  \<open>internal/documents/local_store.go\<close>: the object store in a local directory. The file system is a
  map from paths to contents; which of the calls fails, and how, is a parameter, and so is the
  hexadecimal SHA-256 of a content.
\<close>

type_synonym files = "string \<rightharpoonup> string"

datatype file_fault =
    NoFault
  | MkdirAllFails goerr
  | CreateFails goerr
  | CopyFails goerr
  | CloseFails goerr

definition object_path :: "string \<Rightarrow> string \<Rightarrow> string" where
  "object_path baseDir objectKey = path_join baseDir (path_clean objectKey)"

definition local_Put ::
    "(string \<Rightarrow> string) \<Rightarrow> string \<Rightarrow> file_fault \<Rightarrow> string \<Rightarrow> string \<Rightarrow> files \<Rightarrow>
     stored_object result \<times> files" where
  "local_Put sha256 baseDir fault objectKey content fs =
     (let fullPath = object_path baseDir objectKey in
      case fault of
        MkdirAllFails e \<Rightarrow> (Inl (wrap ''create object directory'' e), fs)
      | CreateFails e \<Rightarrow> (Inl (wrap ''create object file'' e), fs)
      | CopyFails e \<Rightarrow> (Inl (wrap ''write object file'' e), fs(fullPath := None))
      | CloseFails e \<Rightarrow> (Inl (wrap ''close object file'' e), fs(fullPath := None))
      | NoFault \<Rightarrow>
          (Inr \<lparr>so_SizeBytes = int (length content), so_Checksum = sha256 content\<rparr>,
           fs(fullPath \<mapsto> content)))"

text \<open>An upload leaves either the whole object or nothing new: on success the file holds exactly the
  content, with its size and checksum reported; on any failure no content appears anywhere; and no
  other file is touched.\<close>
theorem local_Put_all_or_nothing:
  "case local_Put sha256 base fault key content fs of
     (Inr stored, fs') \<Rightarrow>
       fs' (object_path base key) = Some content \<and> so_SizeBytes stored = int (length content) \<and>
       so_Checksum stored = sha256 content \<and>
       fs' |` (- {object_path base key}) = fs |` (- {object_path base key})
   | (Inl e, fs') \<Rightarrow> fs' \<subseteq>\<^sub>m fs \<and> fs' |` (- {object_path base key}) = fs |` (- {object_path base key})"
  by (cases fault) (auto simp: local_Put_def Let_def map_le_def restrict_map_def fun_eq_iff)

end
