(* ===== verification/Ids.thy ===== *)
theory Ids
  imports Values "HOL-Library.Word"
begin

text \<open>
  \<open>internal/platform/ids/ids.go\<close>: identifiers are twelve random bytes in hexadecimal. What
  \<open>rand.Read\<close> delivers is a parameter.
\<close>

definition hex_byte :: "8 word \<Rightarrow> string" where
  "hex_byte b = [hex_digit (unat b div 16), hex_digit (unat b mod 16)]"

definition EncodeToString :: "8 word list \<Rightarrow> string" where
  "EncodeToString bytes = concat (map hex_byte bytes)"

definition ids_New :: "8 word list result \<Rightarrow> string result" where
  "ids_New random = (case random of Inl e \<Rightarrow> Inl e | Inr bytes \<Rightarrow> Inr (EncodeToString bytes))"

lemma hex_digit_inj: "m < 16 \<Longrightarrow> n < 16 \<Longrightarrow> hex_digit m = hex_digit n \<Longrightarrow> m = n"
  by (auto simp: hex_digit_def char_of_eq_iff take_bit_eq_mod split: if_splits)

lemma hex_digit_class: "n < 16 \<Longrightarrow> hex_digit n \<in> set ''0123456789abcdef''"
proof -
  assume "n < 16"
  then have "n \<in> set [0 ..< 16]" by simp
  moreover have "list_all (\<lambda>n. hex_digit n \<in> set ''0123456789abcdef'') [0 ..< 16]" by code_simp
  ultimately show ?thesis unfolding list_all_iff by blast
qed

lemma byte_bounds: "unat (b :: 8 word) div 16 < 16" "unat (b :: 8 word) mod 16 < 16"
  using unsigned_less [of b] by (auto intro: less_mult_imp_div_less)

lemma hex_byte_inj: "hex_byte a = hex_byte b \<Longrightarrow> a = b"
proof -
  assume "hex_byte a = hex_byte b"
  then have "unat a div 16 = unat b div 16" "unat a mod 16 = unat b mod 16"
    using hex_digit_inj byte_bounds unfolding hex_byte_def by blast+
  then have "unat a = unat b" by (metis div_mult_mod_eq)
  then show ?thesis by (simp add: word_unat_eq_iff)
qed

lemma EncodeToString_length: "length (EncodeToString bytes) = 2 * length bytes"
  by (induction bytes) (simp_all add: EncodeToString_def hex_byte_def)

lemma EncodeToString_chars: "set (EncodeToString bytes) \<subseteq> set ''0123456789abcdef''"
proof -
  have "set (hex_byte b) \<subseteq> set ''0123456789abcdef''" for b
    using hex_digit_class [OF byte_bounds(1) [of b]] hex_digit_class [OF byte_bounds(2) [of b]]
    unfolding hex_byte_def by simp
  then show ?thesis unfolding EncodeToString_def set_concat set_map by blast
qed

text \<open>Ids are faithful: different random bytes give different ids, and an id of twelve bytes is 24
  lower-case hexadecimal digits, so it holds no slash, dot or white space.\<close>
theorem ids_New_injective:
  "(EncodeToString a = EncodeToString b) = (a = b) \<and>
   length (EncodeToString a) = 2 * length a \<and>
   set (EncodeToString a) \<subseteq> set ''0123456789abcdef''"
proof -
  have "EncodeToString a = EncodeToString b \<Longrightarrow> a = b"
  proof (induction a arbitrary: b)
    case Nil
    then have "length (EncodeToString b) = 0" by (simp add: EncodeToString_def)
    then show ?case by (simp add: EncodeToString_length)
  next
    case (Cons x a)
    then obtain y b' where b: "b = y # b'"
      by (cases b) (auto simp: EncodeToString_def hex_byte_def)
    have "hex_byte x = hex_byte y \<and> EncodeToString a = EncodeToString b'"
      using Cons.prems unfolding b by (simp add: EncodeToString_def hex_byte_def)
    then show ?case using Cons.IH hex_byte_inj b by blast
  qed
  then show ?thesis
    using EncodeToString_length EncodeToString_chars by auto
qed

end
