(* ===== verification/Auth.thy ===== *)
theory Auth
  imports Tenants
begin

text \<open>
  \<open>internal/auth/service.go\<close>: API keys, the in-memory credential repository and authentication. The
  hash of a key (hexadecimal SHA-256 in the source) is a parameter.
\<close>

section \<open>Data and repository\<close>

definition ErrMissingAPIKey :: goerr where
  "ErrMissingAPIKey = Sentinel ''auth'' ''missing api key''"

definition ErrInvalidAPIKey :: goerr where
  "ErrInvalidAPIKey = Sentinel ''auth'' ''invalid api key''"

definition ErrInactiveAPIKey :: goerr where
  "ErrInactiveAPIKey = Sentinel ''auth'' ''inactive api key''"

definition ErrInactiveTenant :: goerr where
  "ErrInactiveTenant = Sentinel ''auth'' ''inactive tenant''"

datatype key_status = KeyActive | KeyInactive

record api_key =
  ak_ID :: string
  ak_TenantID :: string
  ak_Label :: string
  ak_Plaintext :: string
  ak_Status :: key_status

record credential =
  cr_ID :: string
  cr_TenantID :: string
  cr_Label :: string
  cr_KeyHash :: string
  cr_Status :: key_status

record identity =
  id_TenantID :: string
  id_TenantName :: string
  id_TenantStatus :: tenant_status
  id_APIKeyID :: string
  id_APIKeyLabel :: string

definition auth_NewMemoryRepository ::
    "(string \<Rightarrow> string) \<Rightarrow> api_key list \<Rightarrow> (string \<rightharpoonup> credential)" where
  "auth_NewMemoryRepository hash keys =
     fold (\<lambda>k m. m(hash (ak_Plaintext k) \<mapsto>
       \<lparr>cr_ID = ak_ID k, cr_TenantID = ak_TenantID k, cr_Label = ak_Label k,
        cr_KeyHash = hash (ak_Plaintext k), cr_Status = ak_Status k\<rparr>)) keys Map.empty"

definition LookupByHash :: "(string \<rightharpoonup> credential) \<Rightarrow> string \<Rightarrow> credential result" where
  "LookupByHash records keyHash =
     (case records keyHash of None \<Rightarrow> Inl ErrInvalidAPIKey | Some c \<Rightarrow> Inr c)"

section \<open>Authentication\<close>

text \<open>The service's dependencies: the hash, the credential repository and the tenant service.\<close>

record auth_env =
  au_hash :: "string \<Rightarrow> string"
  au_LookupByHash :: "string \<Rightarrow> credential result"
  au_Get :: "string \<Rightarrow> tenant result"

definition Authenticate :: "auth_env \<Rightarrow> string \<Rightarrow> identity result" where
  "Authenticate E rawKey =
     (let trimmedKey = trim_space rawKey in
      if trimmedKey = [] then Inl ErrMissingAPIKey
      else case au_LookupByHash E (au_hash E trimmedKey) of
        Inl e \<Rightarrow> Inl e
      | Inr c \<Rightarrow>
          if cr_Status c \<noteq> KeyActive then Inl ErrInactiveAPIKey
          else case au_Get E (cr_TenantID c) of
            Inl e \<Rightarrow> Inl ErrInvalidAPIKey
          | Inr t \<Rightarrow>
              if tenant_Status t \<noteq> TenantActive then Inl ErrInactiveTenant
              else Inr \<lparr>id_TenantID = tenant_ID t, id_TenantName = tenant_Name t,
                        id_TenantStatus = tenant_Status t, id_APIKeyID = cr_ID c,
                        id_APIKeyLabel = cr_Label c\<rparr>)"

text \<open>Authentication over the in-memory repositories, as the program wires it.\<close>

definition memory_auth :: "(string \<Rightarrow> string) \<Rightarrow> api_key list \<Rightarrow> tenant list \<Rightarrow> auth_env" where
  "memory_auth hash keys tenants =
     \<lparr>au_hash = hash, au_LookupByHash = LookupByHash (auth_NewMemoryRepository hash keys),
      au_Get = tenant_GetByID (tenant_NewMemoryRepository tenants)\<rparr>"

lemma auth_map_Some:
  "auth_NewMemoryRepository hash keys h = Some c \<Longrightarrow>
     \<exists>k \<in> set keys. hash (ak_Plaintext k) = h \<and> cr_ID c = ak_ID k \<and> cr_TenantID c = ak_TenantID k \<and>
       cr_Label c = ak_Label k \<and> cr_Status c = ak_Status k"
  unfolding auth_NewMemoryRepository_def
  by (induction keys rule: rev_induct) (auto split: if_splits)

lemma Authenticate_holder:
  assumes "inj hash" and "Authenticate (memory_auth hash keys tenants) raw = Inr i"
  shows "\<exists>k t. k \<in> set keys \<and> t \<in> set tenants \<and> ak_Plaintext k = trim_space raw \<and>
    trim_space raw \<noteq> [] \<and> ak_Status k = KeyActive \<and> tenant_ID t = ak_TenantID k \<and>
    tenant_Status t = TenantActive \<and> id_TenantID i = ak_TenantID k \<and> id_APIKeyID i = ak_ID k"
proof -
  obtain c t where c: "auth_NewMemoryRepository hash keys (hash (trim_space raw)) = Some c"
    and t: "tenant_GetByID (tenant_NewMemoryRepository tenants) (cr_TenantID c) = Inr t"
    and rest: "trim_space raw \<noteq> []" "cr_Status c = KeyActive" "tenant_Status t = TenantActive"
      "id_TenantID i = tenant_ID t" "id_APIKeyID i = cr_ID c"
    using assms(2)
    by (auto simp: Authenticate_def memory_auth_def LookupByHash_def Let_def split: go_split)
  obtain k where "k \<in> set keys" "hash (ak_Plaintext k) = hash (trim_space raw)"
    "cr_ID c = ak_ID k" "cr_TenantID c = ak_TenantID k" "cr_Status c = ak_Status k"
    using auth_map_Some [OF c] by blast
  moreover from this have "ak_Plaintext k = trim_space raw"
    using assms(1) by (simp add: inj_eq)
  moreover have "tenant_ID t = cr_TenantID c" "t \<in> set tenants"
    using tenant_GetByID_ID [OF t] by auto
  ultimately show ?thesis using rest by (intro exI [of _ k] exI [of _ t]) simp
qed

text \<open>Only the holder of a configured key gets in, and only as that key's tenant. When the hash
  has no collisions, an identity is issued only for a presented key that is, up to white space
  around it, the plaintext of a configured, active key; and the identity is that of the key and of
  its configured, active tenant.\<close>
theorem Authenticate_sound:
  assumes "inj hash" and "Authenticate (memory_auth hash keys tenants) raw = Inr i"
  shows "\<exists>k t. k \<in> set keys \<and> t \<in> set tenants \<and> ak_Plaintext k = trim_space raw \<and>
    trim_space raw \<noteq> [] \<and> ak_Status k = KeyActive \<and> tenant_ID t = ak_TenantID k \<and>
    tenant_Status t = TenantActive \<and> id_TenantID i = ak_TenantID k \<and> id_APIKeyID i = ak_ID k"
  by (rule Authenticate_holder [OF assms])

definition demo_key :: api_key where
  "demo_key = \<lparr>ak_ID = ''k1'', ak_TenantID = ''acme'', ak_Label = ''main'',
     ak_Plaintext = ''secret'', ak_Status = KeyActive\<rparr>"

definition demo_tenant :: tenant where
  "demo_tenant = \<lparr>tenant_ID = ''acme'', tenant_Name = ''Acme'', tenant_Status = TenantActive\<rparr>"

theorem Authenticate_sound_witness:
  "\<exists>i. Authenticate (memory_auth (\<lambda>s. s) [demo_key] [demo_tenant]) '' secret'' = Inr i \<and>
       id_TenantID i = ''acme''"
proof -
  have trim: "trim_space '' secret'' = ''secret''" by code_simp
  obtain i where i: "Authenticate (memory_auth (\<lambda>s. s) [demo_key] [demo_tenant]) '' secret'' = Inr i"
    by (simp add: Authenticate_def memory_auth_def LookupByHash_def auth_NewMemoryRepository_def
        tenant_GetByID_def tenant_NewMemoryRepository_def demo_key_def demo_tenant_def trim)
  have "inj (\<lambda>s :: string. s)" by simp
  from Authenticate_sound [OF this i] i show ?thesis by (auto simp: demo_key_def)
qed

section \<open>Completeness\<close>

lemma tenant_map_last:
  "t \<in> set ts \<Longrightarrow> distinct (map tenant_ID ts) \<Longrightarrow>
     fold (\<lambda>t m. m(tenant_ID t \<mapsto> t)) ts Map.empty (tenant_ID t) = Some t"
  by (induction ts rule: rev_induct) (auto simp: image_iff)

lemma auth_map_lookup:
  assumes "k \<in> set keys" and "distinct (map (\<lambda>k. hash (ak_Plaintext k)) keys)"
  shows "\<exists>c. auth_NewMemoryRepository hash keys (hash (ak_Plaintext k)) = Some c \<and>
    cr_ID c = ak_ID k \<and> cr_TenantID c = ak_TenantID k \<and> cr_Label c = ak_Label k \<and>
    cr_Status c = ak_Status k"
  using assms unfolding auth_NewMemoryRepository_def
  by (induction keys rule: rev_induct) (auto simp: image_iff)

lemma Authenticate_complete:
  assumes "k \<in> set keys" and "distinct (map (\<lambda>k. hash (ak_Plaintext k)) keys)"
    and "t \<in> set tenants" and "distinct (map tenant_ID tenants)" and "tenant_ID t = ak_TenantID k"
    and "trim_space raw = ak_Plaintext k" and "ak_Plaintext k \<noteq> []"
    and "ak_Status k = KeyActive" and "tenant_Status t = TenantActive"
  shows "Authenticate (memory_auth hash keys tenants) raw =
    Inr \<lparr>id_TenantID = tenant_ID t, id_TenantName = tenant_Name t,
         id_TenantStatus = TenantActive, id_APIKeyID = ak_ID k, id_APIKeyLabel = ak_Label k\<rparr>"
proof -
  obtain c where "auth_NewMemoryRepository hash keys (hash (ak_Plaintext k)) = Some c"
    "cr_ID c = ak_ID k" "cr_TenantID c = ak_TenantID k" "cr_Label c = ak_Label k"
    "cr_Status c = ak_Status k"
    using auth_map_lookup [OF assms(1,2)] by blast
  moreover have "tenant_GetByID (tenant_NewMemoryRepository tenants) (tenant_ID t) = Inr t"
    using tenant_map_last [OF assms(3,4)]
    by (simp add: tenant_GetByID_def tenant_NewMemoryRepository_def)
  ultimately show ?thesis
    using assms by (simp add: Authenticate_def memory_auth_def LookupByHash_def Let_def)
qed

end
