(* ===== verification/App.thy ===== *)
theory App
  imports Worker ObjectStore Ids Auth
begin

text \<open>
  The program as \<open>cmd/api/main.go\<close> wires it without external dependencies: the in-memory
  repositories, the local object store, the mock language model and the in-memory queue, over one
  state. What the platform delivers (random bytes, the clock, answers of HTTP servers, file system
  faults) are functions of a counter that every such effect advances.
\<close>

section \<open>The platform and the state\<close>

record platform =
  pf_random :: "nat \<Rightarrow> 8 word list result"
  pf_clock :: "nat \<Rightarrow> time"
  pf_http :: "nat \<Rightarrow> http_request \<Rightarrow> http_response result"
  pf_file_fault :: "nat \<Rightarrow> file_fault"
  pf_sha256 :: "string \<Rightarrow> string"
  pf_objectDir :: string
  pf_net :: net_lib
  pf_fmt :: gofmt
  pf_NewRequest :: "string \<Rightarrow> string \<Rightarrow> goerr option"
  pf_Unmarshal :: "string \<Rightarrow> anyv option"
  pf_ctx_err :: goerr

record world =
  w_tick :: nat
  w_documents :: document_memory
  w_files :: files
  w_workflows :: workflow_memory
  w_runs :: run_memory
  w_audit :: audit_memory
  w_trigger :: trigger_control
  w_queue :: memory_queue

definition start_world :: "int \<Rightarrow> duration \<Rightarrow> world" where
  "start_world limit window =
     \<lparr>w_tick = 0, w_documents = empty_document_memory, w_files = Map.empty, w_workflows = Map.empty,
      w_runs = empty_run_memory, w_audit = (\<lambda>_. []), w_trigger = NewTriggerControl limit window,
      w_queue = NewMemoryQueue 128\<rparr>"

section \<open>Effects\<close>

definition tick :: "world \<Rightarrow> world" where
  "tick w = w\<lparr>w_tick := Suc (w_tick w)\<rparr>"

definition app_now :: "platform \<Rightarrow> world \<Rightarrow> time \<times> world" where
  "app_now P w = (pf_clock P (w_tick w), tick w)"

definition app_newID :: "platform \<Rightarrow> world \<Rightarrow> string result \<times> world" where
  "app_newID P w = (ids_New (pf_random P (w_tick w)), tick w)"

definition on_documents :: "(document_memory \<Rightarrow> 'a \<times> document_memory) \<Rightarrow> world \<Rightarrow> 'a \<times> world" where
  "on_documents f w = (case f (w_documents w) of (x, m) \<Rightarrow> (x, w\<lparr>w_documents := m\<rparr>))"

definition on_workflows :: "(workflow_memory \<Rightarrow> 'a \<times> workflow_memory) \<Rightarrow> world \<Rightarrow> 'a \<times> world" where
  "on_workflows f w = (case f (w_workflows w) of (x, m) \<Rightarrow> (x, w\<lparr>w_workflows := m\<rparr>))"

definition on_runs :: "(run_memory \<Rightarrow> 'a \<times> run_memory) \<Rightarrow> world \<Rightarrow> 'a \<times> world" where
  "on_runs f w = (case f (w_runs w) of (x, m) \<Rightarrow> (x, w\<lparr>w_runs := m\<rparr>))"

definition on_audit :: "(audit_memory \<Rightarrow> 'a \<times> audit_memory) \<Rightarrow> world \<Rightarrow> 'a \<times> world" where
  "on_audit f w = (case f (w_audit w) of (x, m) \<Rightarrow> (x, w\<lparr>w_audit := m\<rparr>))"

definition on_trigger :: "(trigger_control \<Rightarrow> 'a \<times> trigger_control) \<Rightarrow> world \<Rightarrow> 'a \<times> world" where
  "on_trigger f w = (case f (w_trigger w) of (x, m) \<Rightarrow> (x, w\<lparr>w_trigger := m\<rparr>))"

definition on_queue :: "(memory_queue \<Rightarrow> 'a \<times> memory_queue) \<Rightarrow> world \<Rightarrow> 'a \<times> world" where
  "on_queue f w = (case f (w_queue w) of (x, m) \<Rightarrow> (x, w\<lparr>w_queue := m\<rparr>))"

lemmas lifts = on_documents_def on_workflows_def on_runs_def on_audit_def on_trigger_def on_queue_def

definition app_Put :: "platform \<Rightarrow> string \<Rightarrow> string \<Rightarrow> world \<Rightarrow> stored_object result \<times> world" where
  "app_Put P objectKey content w =
     (case local_Put (pf_sha256 P) (pf_objectDir P) (pf_file_fault P (w_tick w)) objectKey content
             (w_files w) of
        (x, fs) \<Rightarrow> (x, tick w\<lparr>w_files := fs\<rparr>))"

section \<open>The services\<close>

definition app_documents :: "platform \<Rightarrow> world doc_env" where
  "app_documents P =
     \<lparr>de_Create = (\<lambda>d cs. on_documents (doc_mem_Create d cs)),
      de_GetByID = (\<lambda>t k w. doc_mem_GetByID t k (w_documents w)),
      de_ListChunks = (\<lambda>t k w. doc_mem_ListChunks t k (w_documents w)),
      de_Put = app_Put P, de_now = app_now P, de_newID = app_newID P\<rparr>"

definition app_workflows :: "platform \<Rightarrow> world wf_env" where
  "app_workflows P =
     \<lparr>we_Create = (\<lambda>x. on_workflows (wf_mem_Create x)),
      we_GetByID = (\<lambda>t k w. wf_mem_GetByID t k (w_workflows w)),
      we_now = app_now P, we_newID = app_newID P, we_net = pf_net P, we_fmt = pf_fmt P\<rparr>"

definition app_audit :: "platform \<Rightarrow> world audit_env" where
  "app_audit P =
     \<lparr>ae_Create = (\<lambda>e. on_audit (audit_mem_Create e)),
      ae_ListByRun = (\<lambda>t k w. Inr (audit_mem_ListByRun t k (w_audit w))),
      ae_now = app_now P, ae_newID = app_newID P\<rparr>"

definition app_trigger :: "platform \<Rightarrow> world trigger_ops" where
  "app_trigger P =
     \<lparr>to_Allow = (\<lambda>t w.
        if tc_limit (w_trigger w) = 0 then on_trigger (\<lambda>c. Allow c 0 t) w
        else case app_now P w of (now, w1) \<Rightarrow> on_trigger (\<lambda>c. Allow c now t) w1),
      to_Lookup = (\<lambda>t key fingerprint w. tc_Lookup (w_trigger w) t key fingerprint),
      to_Store = (\<lambda>t key rec. on_trigger (\<lambda>c. tc_Store c t key rec))\<rparr>"

definition app_executor :: "platform \<Rightarrow> world exec_env" where
  "app_executor P =
     \<lparr>ee_CreateRun = (\<lambda>r. on_runs (run_mem_CreateRun r)),
      ee_UpdateRun = (\<lambda>r. on_runs (run_mem_UpdateRun r)),
      ee_CompleteRun = (\<lambda>r steps. on_runs (run_mem_CompleteRun r steps)),
      ee_SavePending = (\<lambda>r steps p. on_runs (run_mem_SavePending r steps p)),
      ee_LoadPending = (\<lambda>t k w. run_mem_LoadPending t k (w_runs w)),
      ee_GetRun = (\<lambda>t k w. run_mem_GetRun t k (w_runs w)),
      ee_ListRuns = (\<lambda>t st w. run_mem_ListRuns t st (w_runs w)),
      ee_ListSteps = (\<lambda>t k w. run_mem_ListSteps t k (w_runs w)),
      ee_workflows_Get = workflows_Get (app_workflows P),
      ee_documents_ListChunks = documents_ListChunks (app_documents P),
      ee_audit_Record = Some (audit_Record (app_audit P)),
      ee_trigger = Some (app_trigger P),
      ee_Generate = (\<lambda>prompt w. (Inr (Generate_mock prompt), w)),
      ee_Do = (\<lambda>rq w. (pf_http P (w_tick w) rq, tick w)),
      ee_Enqueue = Some (\<lambda>job. on_queue (mq_Enqueue (pf_ctx_err P) job)),
      ee_now = app_now P, ee_newID = app_newID P, ee_net = pf_net P, ee_fmt = pf_fmt P,
      ee_NewRequest = pf_NewRequest P, ee_Unmarshal = pf_Unmarshal P\<rparr>"

definition app_worker :: "platform \<Rightarrow> world worker_env" where
  "app_worker P =
     \<lparr>wk_exec = app_executor P, wk_Dequeue = (\<lambda>wait. on_queue mq_Dequeue),
      wk_EnqueueAfter = (\<lambda>job delay. on_queue (mq_EnqueueAfter None job delay)),
      wk_pollTimeout = default_pollTimeout, wk_baseBackoff = default_baseBackoff\<rparr>"

lemma app_executor_fields:
  "ee_CreateRun (app_executor P) r = on_runs (run_mem_CreateRun r)"
  "ee_UpdateRun (app_executor P) r = on_runs (run_mem_UpdateRun r)"
  "ee_CompleteRun (app_executor P) r steps = on_runs (run_mem_CompleteRun r steps)"
  "ee_SavePending (app_executor P) r steps p = on_runs (run_mem_SavePending r steps p)"
  "ee_LoadPending (app_executor P) t k w = run_mem_LoadPending t k (w_runs w)"
  "ee_GetRun (app_executor P) t k w = run_mem_GetRun t k (w_runs w)"
  "ee_ListRuns (app_executor P) t st w = run_mem_ListRuns t st (w_runs w)"
  "ee_ListSteps (app_executor P) t k w = run_mem_ListSteps t k (w_runs w)"
  "ee_workflows_Get (app_executor P) = workflows_Get (app_workflows P)"
  "ee_documents_ListChunks (app_executor P) = documents_ListChunks (app_documents P)"
  "ee_audit_Record (app_executor P) = Some (audit_Record (app_audit P))"
  "ee_Enqueue (app_executor P) = Some (\<lambda>job. on_queue (mq_Enqueue (pf_ctx_err P) job))"
  "ee_now (app_executor P) = app_now P" "ee_newID (app_executor P) = app_newID P"
  "ee_net (app_executor P) = pf_net P" "ee_fmt (app_executor P) = pf_fmt P"
  by (simp_all add: app_executor_def)

section \<open>The run repository\<close>

lemma tick_fields [simp]:
  "w_runs (tick w) = w_runs w" "w_queue (tick w) = w_queue w" "w_workflows (tick w) = w_workflows w"
  "w_documents (tick w) = w_documents w"
  by (simp_all add: tick_def)

lemma app_effects [simp]:
  "w_runs (snd (app_now P w)) = w_runs w" "w_runs (snd (app_newID P w)) = w_runs w"
  "w_queue (snd (app_now P w)) = w_queue w" "w_queue (snd (app_newID P w)) = w_queue w"
  by (simp_all add: app_now_def app_newID_def)

lemma audit_Record_runs: "w_runs (snd (audit_Record (app_audit P) t p w)) = w_runs w"
  by (auto simp: audit_Record_def app_audit_def lifts app_now_def app_newID_def split: sum.split prod.split)

definition memory_view ::
    "string \<Rightarrow> string \<Rightarrow> run_memory \<Rightarrow>
     run result \<times> step list result \<times> (run \<times> step list \<times> pending_state) result" where
  "memory_view t k m = (run_mem_GetRun t k m, run_mem_ListSteps t k m, run_mem_LoadPending t k m)"

lemma app_view: "run_view (app_executor P) t k w = memory_view t k (w_runs w)"
  by (simp add: run_view_def memory_view_def app_executor_def)

lemma memory_view_writes:
  "k \<noteq> run_ID r \<Longrightarrow> memory_view t k (snd (run_mem_CreateRun r m)) = memory_view t k m"
  "k \<noteq> run_ID r \<Longrightarrow> memory_view t k (snd (run_mem_UpdateRun r m)) = memory_view t k m"
  "k \<noteq> run_ID r \<Longrightarrow> memory_view t k (snd (run_mem_CompleteRun r steps m)) = memory_view t k m"
  "k \<noteq> run_ID r \<Longrightarrow> memory_view t k (snd (run_mem_SavePending r steps p m)) = memory_view t k m"
  "memory_view t (run_ID r) (snd (run_mem_CompleteRun r steps m)) =
     (owned t r (Inr r), owned t r (Inr steps), owned t r (Inl ErrRunNotAwaitingReview))"
  "memory_view t (run_ID r) (snd (run_mem_SavePending r steps p m)) =
     (owned t r (Inr r), owned t r (Inr steps), owned t r (Inr (r, steps, p)))"
  by (simp_all add: memory_view_def run_mem_GetRun_def run_mem_ListSteps_def run_mem_LoadPending_def
      run_mem_CreateRun_def run_mem_UpdateRun_def run_mem_CompleteRun_def run_mem_SavePending_def owned_def cong: option.case_cong if_cong)

lemma on_runs_eq: "on_runs f w = (x, w') \<Longrightarrow> w' = w\<lparr>w_runs := snd (f (w_runs w))\<rparr>"
  by (auto simp: on_runs_def split: prod.splits)

lemma app_runs_frame:
  assumes "ee_audit_Record (app_executor P) = Some rec"
  shows "w_runs (snd (rec t p w)) = w_runs w"
  using assms audit_Record_runs [of P t p w] by (simp add: app_executor_def)

interpretation app_runs: effect_frame "app_executor P" w_runs
  by unfold_locales (simp_all add: app_runs_frame, simp_all add: app_executor_def)

interpretation app: run_repository "app_executor P"
proof unfold_locales
  fix t k w r steps p
  show "ee_GetRun (app_executor P) t k w = Inr r \<Longrightarrow> run_TenantID r = t"
    by (auto simp: app_executor_def run_mem_GetRun_def split: option.splits if_splits)
  show "ee_LoadPending (app_executor P) t k w = Inr (r, steps, p) \<Longrightarrow> ee_GetRun (app_executor P) t k w = Inr r"
    by (auto simp: app_executor_def run_mem_GetRun_def run_mem_LoadPending_def split: option.splits if_splits)
next
  fix r w w' t k
  assume "ee_CreateRun (app_executor P) r w = (None, w')"
  then have "w_runs w' = snd (run_mem_CreateRun r (w_runs w))"
    by (auto simp: app_executor_def dest!: on_runs_eq)
  then show "ee_GetRun (app_executor P) t (run_ID r) w' = owned t r (Inr r) \<and>
      (k \<noteq> run_ID r \<longrightarrow> run_view (app_executor P) t k w' = run_view (app_executor P) t k w)"
    unfolding app_view by (simp add: memory_view_writes) (simp add: app_executor_def store_simps owned_def)
next
  fix r w w' t k
  assume "ee_UpdateRun (app_executor P) r w = (None, w')"
  then have "w_runs w' = snd (run_mem_UpdateRun r (w_runs w))"
    by (auto simp: app_executor_def dest!: on_runs_eq)
  then show "ee_GetRun (app_executor P) t (run_ID r) w' = owned t r (Inr r) \<and>
      (k \<noteq> run_ID r \<longrightarrow> run_view (app_executor P) t k w' = run_view (app_executor P) t k w)"
    unfolding app_view by (simp add: memory_view_writes) (simp add: app_executor_def store_simps owned_def)
next
  fix r steps w w' t k
  assume "ee_CompleteRun (app_executor P) r steps w = (None, w')"
  then have "w_runs w' = snd (run_mem_CompleteRun r steps (w_runs w))"
    by (auto simp: app_executor_def dest!: on_runs_eq)
  then show "run_view (app_executor P) t (run_ID r) w' =
        (owned t r (Inr r), owned t r (Inr steps), owned t r (Inl ErrRunNotAwaitingReview)) \<and>
      (k \<noteq> run_ID r \<longrightarrow> run_view (app_executor P) t k w' = run_view (app_executor P) t k w)"
    unfolding app_view by (simp add: memory_view_writes)
next
  fix r steps p w w' t k
  assume "ee_SavePending (app_executor P) r steps p w = (None, w')"
  then have "w_runs w' = snd (run_mem_SavePending r steps p (w_runs w))"
    by (auto simp: app_executor_def dest!: on_runs_eq)
  then show "run_view (app_executor P) t (run_ID r) w' =
        (owned t r (Inr r), owned t r (Inr steps), owned t r (Inr (r, steps, p))) \<and>
      (k \<noteq> run_ID r \<longrightarrow> run_view (app_executor P) t k w' = run_view (app_executor P) t k w)"
    unfolding app_view by (simp add: memory_view_writes)
next
  fix enqueue t k job w
  assume "ee_Enqueue (app_executor P) = Some enqueue"
  then have "w_runs (snd (enqueue job w)) = w_runs w"
    by (auto simp: app_executor_def on_queue_def split: prod.split)
  then show "run_view (app_executor P) t k (snd (enqueue job w)) = run_view (app_executor P) t k w"
    by (simp add: app_view)
qed (simp_all add: app_view app_runs.audit_obs app_runs.now_obs app_runs.newID_obs
      app_runs.Generate_obs app_runs.Do_obs)

section \<open>The state invariant\<close>

text \<open>
  Every run is stored once under its own id; a run that waits for an approval has its pending state,
  and its last step is the one of the node it waits for; every chunk belongs to its document's tenant.
\<close>

definition pending_ok :: "step list \<Rightarrow> pending_state \<Rightarrow> bool" where
  "pending_ok steps p \<longleftrightarrow> steps \<noteq> [] \<and> step_NodeID (last steps) = pn_WaitingNodeID p"

definition waiting_ok :: "run_memory \<Rightarrow> bool" where
  "waiting_ok m \<longleftrightarrow>
     (\<forall>k r. map_of (rm_runs m) k = Some r \<longrightarrow> run_Status r = RunStatusWaitingApproval \<longrightarrow>
        (\<exists>p. rm_pending m k = Some p \<and> pending_ok (rm_steps m k) p))"

definition documents_ok :: "document_memory \<Rightarrow> bool" where
  "documents_ok m \<longleftrightarrow>
     (\<forall>k d. dm_documents m k = Some d \<longrightarrow> doc_ID d = k \<and>
        (\<forall>cs. dm_chunks m k = Some cs \<longrightarrow> (\<forall>c \<in> set cs. chunk_TenantID c = doc_TenantID d)))"

definition world_ok :: "world \<Rightarrow> bool" where
  "world_ok w \<longleftrightarrow> run_memory_ok (w_runs w) \<and> waiting_ok (w_runs w) \<and> documents_ok (w_documents w)"

lemma start_world_ok: "world_ok (start_world limit window)"
  by (simp add: world_ok_def start_world_def documents_ok_def empty_document_memory_def waiting_ok_def)
     (simp add: empty_run_memory_def)

lemma world_ok_key: "world_ok w \<Longrightarrow> run_mem_GetRun t k (w_runs w) = Inr r \<Longrightarrow> run_ID r = k"
  by (auto simp: world_ok_def run_memory_ok_def run_mem_GetRun_def list_all_iff
      split: option.splits if_splits dest: map_of_SomeD)

text \<open>Executing nodes touches neither the runs nor the documents.\<close>

lemma audit_Record_documents: "w_documents (snd (audit_Record (app_audit P) t p w)) = w_documents w"
  by (auto simp: audit_Record_def app_audit_def lifts app_now_def app_newID_def split: sum.split prod.split)

interpretation app_stores: effect_frame "app_executor P" "\<lambda>w. (w_runs w, w_documents w)"
proof unfold_locales
  fix rec t params w
  assume "ee_audit_Record (app_executor P) = Some rec"
  then show "(w_runs (snd (rec t params w)), w_documents (snd (rec t params w))) = (w_runs w, w_documents w)"
    using audit_Record_runs [of P t params w] audit_Record_documents [of P t params w]
    by (simp add: app_executor_fields)
qed (auto simp: app_executor_def app_now_def app_newID_def audit_Record_runs audit_Record_documents)

lemma world_ok_stores:
  "(w_runs w', w_documents w') = (w_runs w, w_documents w) \<Longrightarrow> world_ok w' = world_ok w"
  by (simp add: world_ok_def)

lemmas world_ok_frames =
  app_stores.recordAudit_obs [THEN world_ok_stores]
  app_stores.now_obs' [THEN world_ok_stores] app_stores.newID_obs' [THEN world_ok_stores]
  app_stores.continueExecution_obs [THEN world_ok_stores]

lemma waiting_ok_writes:
  assumes "waiting_ok m"
  shows "run_Status r \<noteq> RunStatusWaitingApproval \<Longrightarrow> waiting_ok (snd (run_mem_CreateRun r m))"
    and "run_Status r \<noteq> RunStatusWaitingApproval \<Longrightarrow> waiting_ok (snd (run_mem_UpdateRun r m))"
    and "run_Status r \<noteq> RunStatusWaitingApproval \<Longrightarrow> waiting_ok (snd (run_mem_CompleteRun r steps m))"
    and "pending_ok steps p \<Longrightarrow> waiting_ok (snd (run_mem_SavePending r steps p m))"
  using assms
  by (auto simp: waiting_ok_def run_mem_CreateRun_def run_mem_UpdateRun_def run_mem_CompleteRun_def
      run_mem_SavePending_def)

lemma world_ok_runs:
  "world_ok w \<Longrightarrow> run_memory_ok m \<Longrightarrow> waiting_ok m \<Longrightarrow> world_ok (w\<lparr>w_runs := m\<rparr>)"
  by (simp add: world_ok_def)

lemma world_ok_writes:
  assumes "world_ok w"
  shows "run_Status r \<noteq> RunStatusWaitingApproval \<Longrightarrow>
      ee_CreateRun (app_executor P) r w = (e, w') \<Longrightarrow> world_ok w'"
    and "run_Status r \<noteq> RunStatusWaitingApproval \<Longrightarrow>
      ee_UpdateRun (app_executor P) r w = (e, w') \<Longrightarrow> world_ok w'"
    and "run_Status r \<noteq> RunStatusWaitingApproval \<Longrightarrow>
      ee_CompleteRun (app_executor P) r steps w = (e, w') \<Longrightarrow> world_ok w'"
    and "pending_ok steps p \<Longrightarrow>
      ee_SavePending (app_executor P) r steps p w = (e, w') \<Longrightarrow> world_ok w'"
  using assms
  by (auto simp: app_executor_fields world_ok_def waiting_ok_writes dest!: on_runs_eq)

lemma world_ok_enqueue: "world_ok w \<Longrightarrow> on_queue f w = (e, w') \<Longrightarrow> world_ok w'"
  by (auto simp: on_queue_def world_ok_def split: prod.splits)

lemma complete_run_ok:
  "world_ok w \<Longrightarrow> run_Status r \<noteq> RunStatusWaitingApproval \<Longrightarrow>
     complete_run (app_executor P) c r steps et msg md w = (x, w') \<Longrightarrow> world_ok w'"
  by (auto simp: complete_run_def world_ok_frames split: prod.splits option.splits
      dest: world_ok_writes)

lemma settle_run_ok:
  assumes "world_ok w" and "settle_run (app_executor P) r st out w = (x, w')"
    and pause: "\<And>pp. out = Paused pp \<Longrightarrow> pending_ok (es_steps st) (pp_pending pp)"
  shows "world_ok w'"
proof (cases out)
  case (Paused pp)
  then show ?thesis
    using assms by (auto simp: settle_run_def Let_def world_ok_frames split: prod.splits option.splits
        dest: world_ok_writes(4) [OF _ pause [OF Paused]])
next
  case Finished
  obtain now w1 where now: "ee_now (app_executor P) w = (now, w1)" by fastforce
  have "world_ok w1" using assms(1) world_ok_frames(2) [OF now] by simp
  show ?thesis
    using assms(2) by (auto simp: settle_run_def Finished now Let_def dest!: complete_run_ok [OF \<open>world_ok w1\<close>, rotated])
next
  case (Failed failure)
  obtain now w1 where now: "ee_now (app_executor P) w = (now, w1)" by fastforce
  have "world_ok w1" using assms(1) world_ok_frames(2) [OF now] by simp
  show ?thesis
    using assms(2) by (auto simp: settle_run_def Failed now Let_def dest!: complete_run_ok [OF \<open>world_ok w1\<close>, rotated])
next
  case (Aborted e)
  then show ?thesis using assms by (simp add: settle_run_def)
qed

lemma paused_pending_ok:
  assumes "continueExecution E runID t g input st s = Some ((st', Paused pp), s')"
  shows "pending_ok (es_steps st') (pp_pending pp)"
proof -
  obtain c where "loop_end E runID t g input c ((st', Paused pp), s')"
    using assms unfolding continueExecution_def exec_loop_iff by blast
  then show ?thesis
    by cases (auto simp: pending_ok_def elim!: run_node_InrE)
qed

lemma executeRun_ok:
  assumes "world_ok w" and "executeRun (app_executor P) r g input st w = Some (x, w')"
  shows "world_ok w'"
proof -
  let ?w1 = "recordAudit (app_executor P) (run_TenantID r)
    (newRunAudit r ''run_started'' ''workflow run started'' []) w"
  obtain st' out w2 where run: "continueExecution (app_executor P) (run_ID r) (run_TenantID r) g input st ?w1 =
      Some ((st', out), w2)" and settle: "settle_run (app_executor P) r st' out w2 = (x, w')"
    using assms(2) by (auto simp: executeRun_def Let_def split: option.splits)
  have "world_ok w2" using assms(1) world_ok_frames(4) [OF run] by (simp add: world_ok_frames)
  then show ?thesis using settle
  proof (rule settle_run_ok)
    show "out = Paused pp \<Longrightarrow> pending_ok (es_steps st') (pp_pending pp)" for pp
      using run paused_pending_ok by metis
  qed
qed

text \<open>The operations of the executor and the worker.\<close>

lemma ExecuteSync_ok:
  assumes "world_ok w" and "ExecuteSync (app_executor P) t k input w = Some (x, w')"
  shows "world_ok w'"
proof -
  obtain k1 w1 where newID: "ee_newID (app_executor P) w = (k1, w1)" by fastforce
  obtain at_time w2 where now: "ee_now (app_executor P) w1 = (at_time, w2)" by fastforce
  have ok: "world_ok w1" "world_ok w2"
    using assms(1) world_ok_frames(3) [OF newID] world_ok_frames(2) [OF now] by simp_all
  consider "w' = w" | "w' = w1"
    | r e where "ee_CreateRun (app_executor P) r w2 = (e, w')" "run_Status r \<noteq> RunStatusWaitingApproval"
    | r e w3 g st where "executeRun (app_executor P) r g input st w3 = Some (x, w')"
        "ee_CreateRun (app_executor P) r w2 = (e, w3)" "run_Status r \<noteq> RunStatusWaitingApproval"
  proof (cases "w' = w \<or> w' = w1")
    case False
    have status: "run_Status (sync_run runID t k input at_time) \<noteq> RunStatusWaitingApproval" for runID
      by (simp add: sync_run_def)
    from False show ?thesis
      using assms(2) newID now that(3) [OF _ status] that(4) [OF _ _ status] unfolding ExecuteSync_def Let_def
      by (auto split: if_splits sum.splits prod.splits option.splits)
  qed auto
  then show ?thesis
  proof cases
    case 3
    from world_ok_writes(1) [OF ok(2) 3(2,1)] show ?thesis .
  next
    case 4
    from executeRun_ok [OF world_ok_writes(1) [OF ok(2) 4(3,2)] 4(1)] show ?thesis .
  qed (use assms ok in simp_all)
qed

lemma fail_job_ok:
  assumes "world_ok w" and "fail_job (app_executor P) c r e w = (x, w')"
  shows "world_ok w'"
proof -
  obtain now w1 where now: "ee_now (app_executor P) w = (now, w1)" by fastforce
  have "world_ok w1" using assms(1) world_ok_frames(2) [OF now] by simp
  then show ?thesis
    using assms(2) by (auto simp: fail_job_def now Let_def split: prod.splits option.splits
        dest: world_ok_writes(3) [rotated 2])
qed

lemma ProcessAsyncJob_ok:
  assumes "world_ok w" and "ProcessAsyncJob (app_executor P) job w = Some (x, w')"
  shows "world_ok w'"
proof -
  obtain at_time w1 where now: "ee_now (app_executor P) w = (at_time, w1)" by fastforce
  have ok: "world_ok w1" using assms(1) world_ok_frames(2) [OF now] by simp
  consider "w' = w" | c r e where "fail_job (app_executor P) c r e w = (x, w')"
    | r e where "ee_UpdateRun (app_executor P) r w1 = (e, w')" "run_Status r \<noteq> RunStatusWaitingApproval"
    | r e w2 g i st where "executeRun (app_executor P) r g i st w2 = Some (x, w')"
        "ee_UpdateRun (app_executor P) r w1 = (e, w2)" "run_Status r \<noteq> RunStatusWaitingApproval"
  proof (cases "w' = w \<or> (\<exists>c r e. fail_job (app_executor P) c r e w = (x, w'))")
    case False
    have status: "run_Status (started_run job r at_time) \<noteq> RunStatusWaitingApproval" for r
      by (simp add: started_run_def)
    from False show ?thesis
      using assms(2) now that(3) [OF _ status] that(4) [OF _ _ status] unfolding ProcessAsyncJob_def Let_def
      by (auto split: if_split_asm sum.splits prod.splits option.splits)
  qed (use that in blast)
  then show ?thesis
  proof cases
    case 2
    then show ?thesis using assms(1) fail_job_ok by blast
  next
    case 3
    from world_ok_writes(2) [OF ok 3(2,1)] show ?thesis .
  next
    case 4
    from executeRun_ok [OF world_ok_writes(2) [OF ok 4(3,2)] 4(1)] show ?thesis .
  qed (use assms in simp)
qed

lemma ResumeApproval_ok:
  assumes "world_ok w" and "ResumeApproval (app_executor P) t k approved comment input w = Some (x, w')"
  shows "world_ok w'"
proof -
  obtain at_time w1 where now: "ee_now (app_executor P) w = (at_time, w1)" by fastforce
  have ok: "world_ok (recordAudit (app_executor P) t params w1)" for params
    using assms(1) world_ok_frames(2) [OF now] by (simp add: world_ok_frames)
  consider "w' = w"
    | params r c steps et msg md where
        "complete_run (app_executor P) c r steps et msg md
           (snd (ee_now (app_executor P) (recordAudit (app_executor P) t params w1))) = (x, w')"
        "run_Status r \<noteq> RunStatusWaitingApproval"
    | params r g st input' where
        "executeRun (app_executor P) r g input' st (recordAudit (app_executor P) t params w1) = Some (x, w')"
  proof (cases "w' = w")
    case False
    then show ?thesis
      using assms(2) now that(2,3) unfolding ResumeApproval_def Let_def
      by (auto simp: split_beta split: if_splits sum.splits)
  qed
  then show ?thesis
  proof cases
    case (2 params r c steps et msg md)
    have "world_ok (snd (ee_now (app_executor P) (recordAudit (app_executor P) t params w1)))"
      using ok world_ok_frames(2) [OF prod.collapse [symmetric]] by blast
    from complete_run_ok [OF this 2(2,1)] show ?thesis .
  next
    case (3 params)
    from executeRun_ok [OF ok this] show ?thesis .
  qed (use assms in simp)
qed

end
