(* ===== verification/Program.thy ===== *)
theory Program
  imports App
begin

text \<open>
  The program as a state machine: its operations on the state of \<open>App\<close>, the reachable states and
  what holds in all of them. An operation is one step; the interleaving of two operations inside
  each other is not modelled.
\<close>

section \<open>The remaining operations keep the invariant\<close>

lemma app_documents_fields:
  "de_Create (app_documents P) d cs = on_documents (doc_mem_Create d cs)"
  "de_ListChunks (app_documents P) t k w = doc_mem_ListChunks t k (w_documents w)"
  by (simp_all add: app_documents_def)

lemma build_chunk_list_stores:
  "build_chunk_list (app_documents P) d t c i parts w = (x, w') \<Longrightarrow>
     w_runs w' = w_runs w \<and> w_documents w' = w_documents w"
proof (induction parts arbitrary: i w x w')
  case (Cons p parts)
  obtain k w1 where newID: "de_newID (app_documents P) w = (k, w1)" by fastforce
  have w1: "w_runs w1 = w_runs w \<and> w_documents w1 = w_documents w"
    using newID by (auto simp: app_documents_def app_newID_def)
  obtain y w2 where rest: "build_chunk_list (app_documents P) d t c (Suc i) parts w1 = (y, w2)" by fastforce
  from Cons.IH [OF rest] w1 Cons.prems show ?case
    by (auto simp: newID rest split: sum.splits)
qed simp

lemma buildChunks_stores:
  "buildChunks (app_documents P) d t ct content c w = (x, w') \<Longrightarrow>
     w_runs w' = w_runs w \<and> w_documents w' = w_documents w"
  by (auto simp: buildChunks_def build_chunk_list_stores split: if_splits)

lemma app_store_document:
  assumes "store_document (app_documents P) t f ct k content w = (x, w')"
  shows "w_runs w' = w_runs w \<and>
    (w_documents w' = w_documents w \<and> (\<exists>e. x = Inl e) \<or>
     (\<exists>d cs w1 w2. x = Inr d \<and> doc_TenantID d = t \<and> doc_ID d = k \<and> doc_ContentType d = ct \<and>
        buildChunks (app_documents P) k t ct content (doc_CreatedAt d) w1 = (Inr cs, w2) \<and>
        w_documents w' = snd (doc_mem_Create d cs (w_documents w))))"
proof -
  let ?key = "path_join t (k @ file_ext f)"
  obtain y w1 where put: "de_Put (app_documents P) ?key content w = (y, w1)" by fastforce
  have w1: "w_runs w1 = w_runs w" "w_documents w1 = w_documents w"
    using put by (auto simp: app_documents_def app_Put_def split: prod.splits)
  show ?thesis
  proof (cases y)
    case (Inl e)
    then show ?thesis using assms w1 by (auto simp: store_document_def put Let_def)
  next
    case (Inr stored)
    obtain at_time w2 where now: "de_now (app_documents P) w1 = (at_time, w2)" by fastforce
    have w2: "w_runs w2 = w_runs w" "w_documents w2 = w_documents w"
      using now w1 by (auto simp: app_documents_def app_now_def)
    obtain z w3 where chunks: "buildChunks (app_documents P) k t ct content at_time w2 = (z, w3)" by fastforce
    note w3 = buildChunks_stores [OF chunks]
    show ?thesis
    proof (cases z)
      case (Inl e)
      then show ?thesis using assms w3 w2 Inr by (auto simp: store_document_def put Let_def now chunks)
    next
      case (Inr cs)
      let ?d = "new_document k t f ct ?key stored at_time cs"
      have d: "doc_TenantID ?d = t" "doc_ID ?d = k" "doc_ContentType ?d = ct" "doc_CreatedAt ?d = at_time"
        by (simp_all add: new_document_def Let_def)
      have w': "x = Inr ?d" "w' = w3\<lparr>w_documents := snd (doc_mem_Create ?d cs (w_documents w3))\<rparr>"
        using assms Inr \<open>y = Inr stored\<close>
        by (auto simp: store_document_def put Let_def now chunks app_documents_fields on_documents_def
            doc_mem_Create_def)
      have "buildChunks (app_documents P) k t ct content (doc_CreatedAt ?d) w2 = (Inr cs, w3)"
        using chunks Inr d by simp
      then show ?thesis
        using w' w3 w2 d by (intro conjI disjI2) auto
    qed
  qed
qed

text \<open>An upload that fails changes no stored document; one that succeeds adds the document.\<close>

lemma app_documents_Create:
  assumes "documents_Create (app_documents P) t p w = (x, w')"
  shows "w_runs w' = w_runs w \<and>
    (w_documents w' = w_documents w \<and> (\<exists>e. x = Inl e) \<or>
     (\<exists>d cs w1 w2 content. x = Inr d \<and> doc_TenantID d = t \<and> cp_Content p = Some (Inr content) \<and>
        buildChunks (app_documents P) (doc_ID d) t (doc_ContentType d) content (doc_CreatedAt d) w1 = (Inr cs, w2) \<and>
        w_documents w' = snd (doc_mem_Create d cs (w_documents w))))"
proof -
  obtain k w1 where newID: "de_newID (app_documents P) w = (k, w1)" by fastforce
  have w1: "w_runs w1 = w_runs w" "w_documents w1 = w_documents w"
    using newID by (auto simp: app_documents_def app_newID_def)
  consider e where "x = Inl e" "w' = w \<or> w' = w1"
    | documentID content f ct where "cp_Content p = Some (Inr content)"
        "store_document (app_documents P) t f ct documentID content w1 = (x, w')"
    using assms by (auto simp: documents_Create_def Let_def newID split: if_splits option.splits sum.splits)
  then show ?thesis
  proof cases
    case 1
    then show ?thesis using w1 by auto
  next
    case 2
    from app_store_document [OF this(2)] 2(1) w1 show ?thesis by (metis (no_types))
  qed
qed

lemma build_chunk_list_tenant:
  "buildChunks E k t ct content c s = (Inr cs, s') \<Longrightarrow> \<forall>x \<in> set cs. chunk_TenantID x = t"
  by (auto simp: buildChunks_def split: if_splits dest!: build_chunk_list_result)

lemma documents_Create_ok:
  assumes "world_ok w" and "documents_Create (app_documents P) t p w = (x, w')"
  shows "world_ok w'"
proof -
  have runs: "w_runs w' = w_runs w" using app_documents_Create [OF assms(2)] by blast
  from app_documents_Create [OF assms(2)] consider "w_documents w' = w_documents w"
    | d cs where "\<forall>c \<in> set cs. chunk_TenantID c = t" "doc_TenantID d = t"
        "w_documents w' = snd (doc_mem_Create d cs (w_documents w))"
    by (metis build_chunk_list_tenant)
  then show ?thesis
  proof cases
    case 1
    then show ?thesis using runs assms(1) by (simp add: world_ok_def)
  next
    case 2
    then show ?thesis
      using runs assms(1) by (auto simp: world_ok_def documents_ok_def doc_mem_Create_def)
  qed
qed

lemma workflows_Create_ok:
  assumes "world_ok w" and "workflows_Create (app_workflows P) t d w = (x, w')"
  shows "world_ok w'"
  using assms
  by (auto simp: workflows_Create_def app_workflows_def Let_def app_newID_def app_now_def
      on_workflows_def world_ok_def split: if_splits sum.splits prod.splits option.splits)

lemma ReserveExecution_ok:
  "world_ok w \<Longrightarrow> ReserveExecution (app_executor P) t w = (x, w') \<Longrightarrow> world_ok w'"
  by (auto simp: ReserveExecution_def app_executor_def app_trigger_def on_trigger_def app_now_def
      world_ok_def split: if_splits prod.splits)

lemma StoreIdempotentRun_ok:
  "world_ok w \<Longrightarrow> StoreIdempotentRun (app_executor P) t key fp r w = (x, w') \<Longrightarrow> world_ok w'"
  by (auto simp: StoreIdempotentRun_def app_executor_def app_trigger_def on_trigger_def
      world_ok_def split: prod.splits)

lemma ExecuteAsync_ok:
  assumes "world_ok w" and "ExecuteAsync (app_executor P) t k input w = (x, w')"
  shows "world_ok w'"
proof -
  obtain k1 w1 where newID: "ee_newID (app_executor P) w = (k1, w1)" by fastforce
  obtain at_time w2 where now: "ee_now (app_executor P) w1 = (at_time, w2)" by fastforce
  have ok: "world_ok w1" "world_ok w2"
    using assms(1) world_ok_frames(3) [OF newID] world_ok_frames(2) [OF now] by simp_all
  have create: "world_ok w3" if "ee_CreateRun (app_executor P) (queued_run runID t k input at_time) w2 = (e, w3)"
    for runID e w3
    by (rule world_ok_writes(1) [OF ok(2) _ that]) (simp add: queued_run_def)
  have enqueue: "world_ok w5"
    if "on_queue (mq_Enqueue (pf_ctx_err P) job) (recordAudit (app_executor P) t params w3) = (e, w5)"
      "world_ok w3" for job params w3 e w5
    using world_ok_enqueue [OF _ that(1)] that(2) by (simp add: world_ok_frames)
  have complete: "world_ok w7"
    if "ee_CompleteRun (app_executor P) (r\<lparr>run_Status := RunStatusFailed, run_Error := er, run_CompletedAt := c\<rparr>)
      [] w6 = (e, w7)" "ee_now (app_executor P) w5 = (c', w6)" "world_ok w5" for r er c c' w5 w6 w7 e
    using world_ok_writes(3) [OF _ _ that(1)] world_ok_frames(2) [OF that(2)] that(3) by simp
  show ?thesis
    using assms(2) assms(1) ok newID now unfolding ExecuteAsync_def Let_def app_executor_fields(12)
    by (auto split: if_splits sum.splits prod.splits option.splits dest: create enqueue complete)
qed

lemma MarkAsyncRetry_ok:
  assumes "world_ok w" and "MarkAsyncRetry (app_executor P) r delay w = (x, w')"
  shows "world_ok w'"
  using assms
  by (auto simp: MarkAsyncRetry_def Let_def world_ok_frames split: prod.splits option.splits
      dest: world_ok_writes(2) [rotated 2])

lemma MarkDeadLetter_ok:
  assumes "world_ok w" and "MarkDeadLetter (app_executor P) r w = (x, w')"
  shows "world_ok w'"
  using assms
  by (auto simp: MarkDeadLetter_def Let_def world_ok_frames split: prod.splits option.splits
      dest: world_ok_writes(2) [rotated 2])

lemma app_worker_fields:
  "wk_exec (app_worker P) = app_executor P" "wk_Dequeue (app_worker P) wait = on_queue mq_Dequeue"
  "wk_EnqueueAfter (app_worker P) job delay = on_queue (mq_EnqueueAfter None job delay)"
  "wk_baseBackoff (app_worker P) = default_baseBackoff"
  by (simp_all add: app_worker_def)

lemma retry_job_ok:
  "world_ok w \<Longrightarrow> retry_job (app_worker P) job r w = (x, w') \<Longrightarrow> world_ok w'"
  by (auto simp: retry_job_def Let_def app_worker_fields split: sum.splits prod.splits option.splits
      dest: MarkAsyncRetry_ok world_ok_enqueue)

lemma ProcessNext_ok:
  assumes "world_ok w" and "ProcessNext (app_worker P) w = Some (x, w')"
  shows "world_ok w'"
proof -
  obtain y w1 where deq: "on_queue mq_Dequeue w = (y, w1)" by fastforce
  have ok: "world_ok w1" by (rule world_ok_enqueue [OF assms(1) deq])
  show ?thesis
    using assms(2) ok unfolding ProcessNext_def app_worker_fields deq
    by (auto split: sum.splits prod.splits option.splits if_splits
        dest: ProcessAsyncJob_ok retry_job_ok MarkDeadLetter_ok)
qed

section \<open>The program as a state machine\<close>

text \<open>
  One operation of a service, one timer of the queue that fires, or one effect outside the services,
  such as a reading of the clock.
\<close>

inductive app_step :: "platform \<Rightarrow> world \<Rightarrow> world \<Rightarrow> bool" for P where
  upload: "documents_Create (app_documents P) t p w = (x, w') \<Longrightarrow> app_step P w w'"
| define_workflow: "workflows_Create (app_workflows P) t d w = (y, w') \<Longrightarrow> app_step P w w'"
| reserve: "ReserveExecution (app_executor P) t w = (q, w') \<Longrightarrow> app_step P w w'"
| store_key: "StoreIdempotentRun (app_executor P) t key fp r w = (e, w') \<Longrightarrow> app_step P w w'"
| run_sync: "ExecuteSync (app_executor P) t k input w = Some (z, w') \<Longrightarrow> app_step P w w'"
| run_async: "ExecuteAsync (app_executor P) t k input w = (z, w') \<Longrightarrow> app_step P w w'"
| resume: "ResumeApproval (app_executor P) t k approved comment input w = Some (z, w') \<Longrightarrow> app_step P w w'"
| work: "ProcessNext (app_worker P) w = Some (b, w') \<Longrightarrow> app_step P w w'"
| fire: "app_step P w (w\<lparr>w_queue := mq_fire i (w_queue w)\<rparr>)"
| observe: "app_step P w (tick w)"

inductive reachable :: "platform \<Rightarrow> world \<Rightarrow> bool" for P where
  start: "reachable P (start_world limit window)"
| step: "reachable P w \<Longrightarrow> app_step P w w' \<Longrightarrow> reachable P w'"

lemma app_step_ok: "app_step P w w' \<Longrightarrow> world_ok w \<Longrightarrow> world_ok w'"
proof (induction rule: app_step.induct)
  case (fire w i)
  then show ?case by (simp add: world_ok_def)
next
  case (observe w)
  then show ?case by (simp add: world_ok_def)
qed (blast intro: documents_Create_ok workflows_Create_ok ReserveExecution_ok StoreIdempotentRun_ok
    ExecuteSync_ok ExecuteAsync_ok ResumeApproval_ok ProcessNext_ok)+

lemma reachable_ok: "reachable P w \<Longrightarrow> world_ok w"
  by (induction rule: reachable.induct) (auto simp: start_world_ok intro: app_step_ok)

lemma reachable_key:
  assumes "reachable P w" and "ee_GetRun (app_executor P) t k w = Inr r"
  shows "run_ID r = k"
  using world_ok_key [OF reachable_ok [OF assms(1)]] assms(2) by (simp add: app_executor_fields)

section \<open>A small world to evaluate in\<close>

definition demo_platform :: platform where
  "demo_platform =
     \<lparr>pf_random = (\<lambda>n. Inr []), pf_clock = (\<lambda>n. int n + 1),
      pf_http = (\<lambda>n rq. Inl (Anonymous ''no network'')), pf_file_fault = (\<lambda>n. NoFault),
      pf_sha256 = (\<lambda>s. s), pf_objectDir = ''data'', pf_net = demo_net, pf_fmt = plain_fmt,
      pf_NewRequest = (\<lambda>m u. None), pf_Unmarshal = (\<lambda>s. None),
      pf_ctx_err = Anonymous ''context canceled''\<rparr>"

lemma demo_effects:
  "app_now demo_platform w = (int (w_tick w) + 1, tick w)"
  "app_newID demo_platform w = (Inr [], tick w)"
  by (simp_all add: app_now_def app_newID_def demo_platform_def ids_New_def EncodeToString_def)

definition ask :: node where
  "ask = (audit_node ''b'')\<lparr>node_Type := ''approval''\<rparr>"

definition ask_flow :: wf_definition where
  "ask_flow = \<lparr>def_Name = ''a'', def_Description = [], def_Version = 1, def_InputSchema = [],
     def_Nodes = [ask], def_Edges = []\<rparr>"

lemma trim_acme: "trim_space ''acme'' = ''acme''" by code_simp

lemma ask_graph: "\<exists>g. buildGraph ask_flow = Inr g \<and> graph_roots g = [''b''] \<and> graph_node g ''b'' = ask"
  by (simp add: buildGraph_def ask_flow_def ask_def audit_node_def count_incoming_def graph_node_def)

lemma ask_valid: "vr_Valid (ValidateDefinition N F ask_flow)"
proof -
  have texts: "trim_space ''a'' = ''a''" "trim_space ''b'' = ''b''" "trim_space ''approval'' = ''approval''"
    by code_simp+
  have "well_formed N F ask_flow"
    by (simp add: well_formed_def ask_flow_def ask_def audit_node_def node_ok_def trimmed_ids_def
        in_degree_def texts supportedNodeType_def)
  then show ?thesis by (simp add: ValidateDefinition_well_formed)
qed

text \<open>The state after the definition of that workflow (whose id, like all others here, is empty).\<close>

definition demo_start :: world where
  "demo_start = (start_world 10 0)
     \<lparr>w_tick := 2, w_workflows := [[] \<mapsto> new_workflow [] ''acme'' ask_flow 2]\<rparr>"

lemma demo_start_reachable: "reachable demo_platform demo_start"
proof -
  have "snd (workflows_Create (app_workflows demo_platform) ''acme'' ask_flow (start_world 10 0)) = demo_start"
    by (simp add: workflows_Create_def trim_acme ask_valid app_workflows_def demo_effects Let_def
        on_workflows_def wf_mem_Create_def tick_def demo_start_def start_world_def)
  then show ?thesis
    using reachable.step [OF reachable.start app_step.define_workflow] prod.collapse by metis
qed

lemma app_workflows_Get:
  "workflows_Get (app_workflows P) t k w =
     (if trim_space t = [] then Inl workflow_ErrInvalidTenant else wf_mem_GetByID t k (w_workflows w))"
  by (simp add: workflows_Get_def app_workflows_def)

lemma recordAudit_workflows [simp]:
  "w_workflows (recordAudit (app_executor P) t p w) = w_workflows w"
  by (auto simp: recordAudit_def app_executor_fields audit_Record_def app_audit_def lifts app_now_def
      app_newID_def split: sum.split prod.split)

lemma recordAudit_trigger [simp]:
  "w_trigger (recordAudit (app_executor P) t p w) = w_trigger w"
  by (auto simp: recordAudit_def app_executor_fields audit_Record_def app_audit_def lifts app_now_def
      app_newID_def tick_def split: sum.split prod.split)

lemma ask_run_at:
  assumes "w_workflows w [] = Some (new_workflow [] ''acme'' ask_flow 2)"
  shows "\<exists>r w'. ExecuteSync (app_executor demo_platform) ''acme'' [] [] w = Some (Inr r, w') \<and>
     run_Status r = RunStatusWaitingApproval \<and> run_ID r = [] \<and> run_WorkflowID r = [] \<and>
     w_workflows w' = w_workflows w \<and> w_trigger w' = w_trigger w"
proof -
  obtain g where g: "buildGraph ask_flow = Inr g" "graph_roots g = [''b'']" "graph_node g ''b'' = ask"
    using ask_graph by blast
  have type: "node_Type ask = ''approval''" by (simp add: ask_def audit_node_def)
  have trigger: "w_trigger (tick w) = w_trigger w" for w by (simp add: tick_def)
  show ?thesis
    by (simp add: ExecuteSync_def trim_acme app_executor_fields workflows_Get_def app_workflows_def
        wf_mem_GetByID_def assms demo_effects on_runs_def run_mem_CreateRun_def g Let_def
        executeRun_def continueExecution_def newExecutionState_def sync_run_def trigger
        exec_loop.simps [of _ _ _ _ _ "\<lparr>es_steps = s, es_stepOutputs = so, es_lastNodeID = l,
          es_queue = q, es_executed = x\<rparr>" for s so l q x]
        run_node_def type pause_at_def awaitApproval_def settle_run_def run_mem_SavePending_def)
qed

lemma ask_run:
  "\<exists>r w. ExecuteSync (app_executor demo_platform) ''acme'' [] [] demo_start = Some (Inr r, w) \<and>
     run_Status r = RunStatusWaitingApproval \<and> run_ID r = [] \<and> run_WorkflowID r = [] \<and>
     w_workflows w = w_workflows demo_start"
  using ask_run_at [of demo_start] by (auto simp: demo_start_def)

lemma ask_runE:
  obtains r w where "reachable demo_platform w"
    "ExecuteSync (app_executor demo_platform) ''acme'' [] [] demo_start = Some (Inr r, w)"
    "run_Status r = RunStatusWaitingApproval" "run_ID r = []" "run_WorkflowID r = []"
    "workflows_Get (app_workflows demo_platform) ''acme'' [] w = Inr (new_workflow [] ''acme'' ask_flow 2)"
proof -
  obtain r w where "ExecuteSync (app_executor demo_platform) ''acme'' [] [] demo_start = Some (Inr r, w)"
    "run_Status r = RunStatusWaitingApproval" "run_ID r = []" "run_WorkflowID r = []"
    and flows: "w_workflows w = w_workflows demo_start"
    using ask_run by blast
  moreover from this(1) have "reachable demo_platform w"
    by (rule reachable.step [OF demo_start_reachable app_step.run_sync])
  moreover have "workflows_Get (app_workflows demo_platform) ''acme'' [] w =
      Inr (new_workflow [] ''acme'' ask_flow 2)"
    by (simp add: app_workflows_Get trim_acme flows demo_start_def wf_mem_GetByID_def)
  ultimately show thesis using that by blast
qed

end
