(* ===== verification/Lifecycle.thy ===== *)
theory Lifecycle
  imports Program
begin

text \<open>
  The lemmas behind the properties of the whole program: the rejection of waiting runs, the attempts
  of asynchronous runs, uploads and retrieval.
\<close>

section \<open>Approvals\<close>

lemma reject_waiting:
  assumes "reachable P w" and "run_mem_GetRun t k (w_runs w) = Inr r"
    and "run_Status r = RunStatusWaitingApproval" and "trim_space t \<noteq> []"
    and "workflows_Get (app_workflows P) t (run_WorkflowID r) w = Inr flow"
    and "buildGraph (wf_Definition flow) = Inr g"
  shows "\<exists>r' w'. ResumeApproval (app_executor P) t k False comment input w = Some (Inr r', w') \<and>
    run_Status r' = RunStatusFailed \<and> run_ID r' = k"
proof -
  have ok: "world_ok w" by (rule reachable_ok [OF assms(1)])
  have run: "map_of (rm_runs (w_runs w)) k = Some r" "run_TenantID r = t"
    using assms(2) by (auto simp: run_mem_GetRun_def split: option.splits if_splits)
  then obtain p where "rm_pending (w_runs w) k = Some p" "pending_ok (rm_steps (w_runs w) k) p"
    using ok assms(3) by (auto simp: world_ok_def waiting_ok_def)
  then have load: "ee_LoadPending (app_executor P) t k w = Inr (r, rm_steps (w_runs w) k, p)"
    and steps: "rm_steps (w_runs w) k \<noteq> []" "step_NodeID (last (rm_steps (w_runs w) k)) = pn_WaitingNodeID p"
    using run by (simp_all add: app_executor_fields run_mem_LoadPending_def pending_ok_def)
  have flow: "ee_workflows_Get (app_executor P) t (run_WorkflowID r) w = Inr flow"
    using assms(5) by (simp add: app_executor_fields)
  have key: "run_ID r = k" by (rule world_ok_key [OF ok assms(2)])
  have completes: "\<exists>w'. complete_run (app_executor P) c r1 st et msg md w1 = (Inr r1, w')" for c r1 st et msg md w1
    by (simp add: complete_run_def app_executor_fields(3) on_runs_def run_mem_CompleteRun_def)
  obtain at_time w1 where now: "ee_now (app_executor P) w = (at_time, w1)" by fastforce
  have "\<exists>c r1 st et msg md w2. ResumeApproval (app_executor P) t k False comment input w =
      Some (complete_run (app_executor P) c r1 st et msg md w2) \<and>
      run_Status r1 = RunStatusFailed \<and> run_ID r1 = k"
    using assms(4,6) load flow steps key by (simp add: ResumeApproval_def Let_def now split_beta) (intro exI conjI, rule refl, simp_all)
  then show ?thesis using completes by metis
qed


section \<open>Attempts of asynchronous runs\<close>

lemma settle_run_attempts:
  "settle_run E r st out s = (Inr r', s') \<Longrightarrow>
     run_Attempt r' = run_Attempt r \<and> run_MaxAttempts r' = run_MaxAttempts r"
  by (cases out) (auto simp: settle_run_def complete_run_def Let_def split: prod.splits option.splits)

lemma executeRun_attempts:
  "executeRun E r g input st s = Some (Inr r', s') \<Longrightarrow>
     run_Attempt r' = run_Attempt r \<and> run_MaxAttempts r' = run_MaxAttempts r"
  by (auto simp: executeRun_def Let_def split: option.splits dest!: settle_run_attempts)

lemma app_UpdateRun:
  "ee_UpdateRun (app_executor P) r w = (None, w\<lparr>w_runs := snd (run_mem_UpdateRun r (w_runs w))\<rparr>)"
  by (simp add: app_executor_fields on_runs_def run_mem_UpdateRun_def)

lemma mark_retry_stored:
  assumes "MarkAsyncRetry (app_executor P) r delay w = (x, w')"
  shows "\<exists>r'. x = Inr r' \<and> run_mem_GetRun (run_TenantID r) (run_ID r) (w_runs w') = Inr r' \<and>
    run_Status r' = RunStatusQueued \<and> run_Attempt r' = run_Attempt r \<and>
    run_MaxAttempts r' = run_MaxAttempts r"
proof -
  let ?r = "r\<lparr>run_Status := RunStatusQueued, run_CompletedAt := zero_time,
    run_Output := VMap [(''retry_scheduled'', VBool True), (''retry_in_ms'', VInt64 (duration_ms delay)),
      (''attempt'', VInt (run_Attempt r)), (''max_attempts'', VInt (run_MaxAttempts r))]\<rparr>"
  have x: "x = Inr ?r" and w': "\<exists>params. w' = recordAudit (app_executor P) (run_TenantID r) params
      (w\<lparr>w_runs := snd (run_mem_UpdateRun ?r (w_runs w))\<rparr>)"
    using assms by (auto simp: MarkAsyncRetry_def Let_def app_UpdateRun)
  then have "w_runs w' = snd (run_mem_UpdateRun ?r (w_runs w))"
    using app_runs.recordAudit_obs by force
  then show ?thesis using x by (simp add: store_simps)
qed

lemma mark_dead_stored:
  assumes "MarkDeadLetter (app_executor P) r w = (x, w')"
  shows "\<exists>r'. x = Inr r' \<and> run_mem_GetRun (run_TenantID r) (run_ID r) (w_runs w') = Inr r' \<and>
    run_Status r' = RunStatusDeadLetter \<and> run_Attempt r' = run_Attempt r \<and>
    run_MaxAttempts r' = run_MaxAttempts r"
proof -
  let ?r = "r\<lparr>run_Status := RunStatusDeadLetter,
    run_Output := VMap [(''dead_lettered'', VBool True), (''attempt'', VInt (run_Attempt r)),
      (''max_attempts'', VInt (run_MaxAttempts r))]\<rparr>"
  have x: "x = Inr ?r" and w': "\<exists>params. w' = recordAudit (app_executor P) (run_TenantID r) params
      (w\<lparr>w_runs := snd (run_mem_UpdateRun ?r (w_runs w))\<rparr>)"
    using assms by (auto simp: MarkDeadLetter_def Let_def app_UpdateRun)
  then have "w_runs w' = snd (run_mem_UpdateRun ?r (w_runs w))"
    using app_runs.recordAudit_obs by force
  then show ?thesis using x by (simp add: store_simps)
qed

text \<open>What the worker leaves behind when the job's run failed: a retry with the same job, or the end.\<close>

definition requeued :: "world \<Rightarrow> async_job \<Rightarrow> run \<Rightarrow> bool" where
  "requeued w job r \<longleftrightarrow>
     mq_delayed (w_queue w) \<noteq> [] \<and>
     fst (last (mq_delayed (w_queue w))) =
       job\<lparr>job_Attempt := run_Attempt r, job_MaxAttempts := run_MaxAttempts r\<rparr>"

lemma retry_job_stored:
  assumes "retry_job (app_worker P) job r w = (x, w')"
  shows "x = (True, None) \<and> (\<exists>r'. run_mem_GetRun (run_TenantID r) (run_ID r) (w_runs w') = Inr r' \<and>
    run_Status r' = RunStatusQueued \<and> run_Attempt r' = run_Attempt r \<and>
    run_MaxAttempts r' = run_MaxAttempts r \<and> requeued w' job r')"
proof -
  let ?delay = "sint (retryDelay default_baseBackoff (run_Attempt r))"
  obtain y w1 where mark: "MarkAsyncRetry (app_executor P) r ?delay w = (y, w1)" by fastforce
  obtain r' where r': "y = Inr r'" "run_mem_GetRun (run_TenantID r) (run_ID r) (w_runs w1) = Inr r'"
    "run_Status r' = RunStatusQueued" "run_Attempt r' = run_Attempt r"
    "run_MaxAttempts r' = run_MaxAttempts r"
    using mark_retry_stored [OF mark] by blast
  have "x = (True, None)" "w' = w1\<lparr>w_queue := (w_queue w1)\<lparr>mq_delayed := mq_delayed (w_queue w1) @
      [(job\<lparr>job_Attempt := run_Attempt r, job_MaxAttempts := run_MaxAttempts r\<rparr>, ?delay)]\<rparr>\<rparr>"
    using assms by (auto simp: retry_job_def Let_def app_worker_fields mark r'(1) on_queue_def mq_EnqueueAfter_def)
  then show ?thesis using r' by (simp add: requeued_def)
qed

lemma ProcessNext_total: "ProcessNext W s \<noteq> None"
  by (rule notI) (auto simp: ProcessNext_def ProcessAsyncJob_total
      split: sum.split_asm prod.split_asm option.split_asm if_split_asm)

text \<open>One turn of the worker on a job whose run is queued and has failed with \<open>r\<close>.\<close>

lemma worker_after_failure:
  assumes "mq_jobs (w_queue w) = job # rest"
    and "ProcessAsyncJob (app_executor P) job (w\<lparr>w_queue := (w_queue w)\<lparr>mq_jobs := rest\<rparr>\<rparr>) = Some (Inr r, w2)"
    and "run_Status r = RunStatusFailed"
    and "ProcessNext (app_worker P) w = Some (x, w')"
  shows "x = (True, None) \<and> (\<exists>r'. run_mem_GetRun (run_TenantID r) (run_ID r) (w_runs w') = Inr r' \<and>
    run_Attempt r' = run_Attempt r \<and> run_MaxAttempts r' = run_MaxAttempts r \<and>
    (if run_Attempt r < run_MaxAttempts r then run_Status r' = RunStatusQueued \<and> requeued w' job r'
     else run_Status r' = RunStatusDeadLetter))"
proof -
  have deq: "wk_Dequeue (app_worker P) (wk_pollTimeout (app_worker P)) w =
      (Inr (Some job), w\<lparr>w_queue := (w_queue w)\<lparr>mq_jobs := rest\<rparr>\<rparr>)"
    using assms(1) by (simp add: app_worker_fields on_queue_def mq_Dequeue_def)
  show ?thesis
  proof (cases "run_Attempt r < run_MaxAttempts r")
    case True
    then have "retry_job (app_worker P) job r w2 = (x, w')"
      using assms(2-4) by (simp add: ProcessNext_def deq app_worker_fields(1))
    from retry_job_stored [OF this] True show ?thesis by auto
  next
    case False
    obtain y w3 where mark: "MarkDeadLetter (app_executor P) r w2 = (y, w3)" by fastforce
    from mark_dead_stored [OF mark] obtain r' where r': "y = Inr r'"
      "run_mem_GetRun (run_TenantID r) (run_ID r) (w_runs w3) = Inr r'"
      "run_Status r' = RunStatusDeadLetter" "run_Attempt r' = run_Attempt r"
      "run_MaxAttempts r' = run_MaxAttempts r" by blast
    then have "x = (True, None)" "w' = w3"
      using False assms(2-4) by (auto simp: ProcessNext_def deq app_worker_fields(1) mark)
    with r' False show ?thesis by simp
  qed
qed

text \<open>One attempt on a queued run whose workflow can be executed.\<close>

abbreviation dequeued :: "async_job list \<Rightarrow> world \<Rightarrow> world" where
  "dequeued rest w \<equiv> w\<lparr>w_queue := (w_queue w)\<lparr>mq_jobs := rest\<rparr>\<rparr>"

lemma attempt_counted:
  assumes "trim_space (job_TenantID job) \<noteq> []"
    and "run_mem_GetRun (job_TenantID job) (job_RunID job) (w_runs w) = Inr r0"
    and "run_Status r0 = RunStatusQueued"
    and "workflows_Get (app_workflows P) (job_TenantID job) (job_WorkflowID job) w = Inr flow"
    and "buildGraph (wf_Definition flow) = Inr g" and "0 < job_MaxAttempts job"
    and "ProcessAsyncJob (app_executor P) job w = Some (Inr r, w')"
  shows "run_Attempt r = job_Attempt job + 1 \<and> run_MaxAttempts r = job_MaxAttempts job"
proof -
  obtain at_time w1 where now: "ee_now (app_executor P) w = (at_time, w1)" by fastforce
  obtain w2 where "executeRun (app_executor P) (started_run job r0 at_time) g
      (run_Input (started_run job r0 at_time)) (newExecutionState (graph_roots g)) w2 = Some (Inr r, w')"
    using assms by (auto simp: ProcessAsyncJob_def Let_def app_executor_fields(6,9) now app_UpdateRun)
  from executeRun_attempts [OF this] show ?thesis
    using assms(6) by (simp add: started_run_def)
qed

lemma worker_turn:
  assumes "reachable P w" and "mq_jobs (w_queue w) = job # rest"
    and "trim_space (job_TenantID job) \<noteq> []"
    and "run_mem_GetRun (job_TenantID job) (job_RunID job) (w_runs w) = Inr r0"
    and "run_Status r0 = RunStatusQueued"
    and "workflows_Get (app_workflows P) (job_TenantID job) (job_WorkflowID job) w = Inr flow"
    and "buildGraph (wf_Definition flow) = Inr g" and "0 < job_MaxAttempts job"
    and "ProcessNext (app_worker P) w = Some ((True, None), w')"
  shows "\<exists>r. run_mem_GetRun (job_TenantID job) (job_RunID job) (w_runs w') = Inr r \<and>
    run_Attempt r = job_Attempt job + 1 \<and> run_MaxAttempts r = job_MaxAttempts job \<and>
    (if run_Status r = RunStatusQueued then run_Attempt r < run_MaxAttempts r \<and> requeued w' job r
     else if run_Status r = RunStatusDeadLetter then run_MaxAttempts r \<le> run_Attempt r
     else run_Status r \<in> {RunStatusCompleted, RunStatusWaitingApproval})"
proof -
  let ?w1 = "dequeued rest w"
  have deq: "wk_Dequeue (app_worker P) (wk_pollTimeout (app_worker P)) w = (Inr (Some job), ?w1)"
    using assms(2) by (simp add: app_worker_fields on_queue_def mq_Dequeue_def)
  obtain y w2 where job: "ProcessAsyncJob (app_executor P) job ?w1 = Some (y, w2)"
    using ProcessAsyncJob_total [of "app_executor P" job ?w1] by fastforce
  then obtain r where r: "ProcessAsyncJob (app_executor P) job ?w1 = Some (Inr r, w2)"
    using assms(9) by (cases y) (auto simp: ProcessNext_def deq app_worker_fields(1))
  have get: "run_mem_GetRun (job_TenantID job) (job_RunID job) (w_runs ?w1) = Inr r0"
    "workflows_Get (app_workflows P) (job_TenantID job) (job_WorkflowID job) ?w1 = Inr flow"
    using assms(3,4,6) by (simp_all add: app_workflows_Get)
  have key: "ee_GetRun (app_executor P) (job_TenantID job) (job_RunID job) ?w1 = Inr r1 \<Longrightarrow>
      run_ID r1 = job_RunID job" for r1
    using reachable_key [OF assms(1)] by (simp add: app_executor_fields)
  have "settled (app_executor P) (job_TenantID job) (job_RunID job) r w2"
    using app.ProcessAsyncJob_settled [OF r key] get(1) assms(5)
    by (auto simp: app_executor_fields split: if_splits)
  then have settled: "run_mem_GetRun (job_TenantID job) (job_RunID job) (w_runs w2) = Inr r"
    "run_TenantID r = job_TenantID job" "run_ID r = job_RunID job"
    "run_Status r \<in> {RunStatusCompleted, RunStatusFailed, RunStatusWaitingApproval}"
    by (auto simp: settled_def app_executor_fields)
  have count: "run_Attempt r = job_Attempt job + 1 \<and> run_MaxAttempts r = job_MaxAttempts job"
    by (rule attempt_counted [OF assms(3) get(1) assms(5) get(2) assms(7,8) r])
  show ?thesis
  proof (cases "run_Status r = RunStatusFailed")
    case True
    from worker_after_failure [OF assms(2) r True assms(9)] settled count show ?thesis
      by (auto split: if_splits)
  next
    case False
    then have "w' = w2"
      using assms(9) r by (simp add: ProcessNext_def deq app_worker_fields(1))
    with settled count False show ?thesis by auto
  qed
qed

text \<open>A job whose workflow is gone: the attempt is not counted.\<close>

lemma worker_turn_no_workflow:
  assumes "run_ID r0 = job_RunID job" and "mq_jobs (w_queue w) = job # rest"
    and "trim_space (job_TenantID job) \<noteq> []"
    and "run_mem_GetRun (job_TenantID job) (job_RunID job) (w_runs w) = Inr r0"
    and "run_Status r0 = RunStatusQueued"
    and "workflows_Get (app_workflows P) (job_TenantID job) (job_WorkflowID job) w = Inl e"
    and "run_Attempt r0 < run_MaxAttempts r0"
    and "ProcessNext (app_worker P) w = Some (x, w')"
  shows "\<exists>r. run_mem_GetRun (job_TenantID job) (job_RunID job) (w_runs w') = Inr r \<and>
    run_Status r = RunStatusQueued \<and> run_Attempt r = run_Attempt r0 \<and>
    run_MaxAttempts r = run_MaxAttempts r0 \<and> requeued w' job r"
proof -
  let ?w1 = "dequeued rest w"
  have get: "run_mem_GetRun (job_TenantID job) (job_RunID job) (w_runs ?w1) = Inr r0"
    "workflows_Get (app_workflows P) (job_TenantID job) (job_WorkflowID job) ?w1 = Inl e"
    using assms(3,4,6) by (simp_all add: app_workflows_Get)
  then have "ProcessAsyncJob (app_executor P) job ?w1 =
      Some (fail_job (app_executor P) ''complete missing async workflow run'' r0 e ?w1)"
    using assms(3,5) by (simp add: ProcessAsyncJob_def app_executor_fields(6,9))
  moreover obtain r w2 where fail: "fail_job (app_executor P) ''complete missing async workflow run'' r0 e ?w1 =
      (Inr r, w2)"
    by (cases "ee_now (app_executor P) ?w1")
       (auto simp: fail_job_def Let_def app_executor_fields(3) on_runs_def run_mem_CompleteRun_def)
  ultimately have job: "ProcessAsyncJob (app_executor P) job ?w1 = Some (Inr r, w2)" by simp
  have r: "run_Status r = RunStatusFailed" "run_Attempt r = run_Attempt r0"
    "run_MaxAttempts r = run_MaxAttempts r0" "run_TenantID r = run_TenantID r0" "run_ID r = run_ID r0"
    using app.fail_job_settled [OF fail] by (auto simp: settled_def)
  have own: "run_TenantID r0 = job_TenantID job" "run_ID r0 = job_RunID job"
    using assms(1,4) by (auto simp: run_mem_GetRun_def split: option.splits if_splits)
  from worker_after_failure [OF assms(2) job r(1) assms(8)] r own assms(7) show ?thesis by auto
qed

section \<open>Uploads and retrieval\<close>

lemma app_upload:
  assumes "documents_Create (app_documents P) t p w = (Inr d, w')" and "cp_Content p = Some (Inr content)"
    and "trim_space t \<noteq> []"
  shows "documents_Get (app_documents P) t (doc_ID d) w' = Inr d \<and>
    (\<exists>cs. documents_ListChunks (app_documents P) t (doc_ID d) w' = Inr cs \<and>
       map chunk_Content cs =
         (if has_prefix (doc_ContentType d) ''text/'' then chunkText content defaultChunkSize else []))"
proof -
  obtain cs w1 w2 where own: "doc_TenantID d = t"
    and chunks: "buildChunks (app_documents P) (doc_ID d) t (doc_ContentType d) content (doc_CreatedAt d) w1 =
      (Inr cs, w2)"
    and w': "w_documents w' = snd (doc_mem_Create d cs (w_documents w))"
    using app_documents_Create [OF assms(1)] assms(2) by auto
  have "map chunk_Content cs =
      (if has_prefix (doc_ContentType d) ''text/'' then chunkText content defaultChunkSize else [])"
    using chunks by (auto simp: buildChunks_def split: if_splits dest: build_chunk_list_result)
  then show ?thesis
    using own w' assms(3)
    by (simp add: documents_Get_def documents_ListChunks_def app_documents_def doc_mem_GetByID_def
        doc_mem_ListChunks_def doc_mem_Create_def)
qed

lemma listed_chunks_own:
  assumes "documents_ok m" and "doc_mem_ListChunks t k m = Inr cs"
  shows "list_all (\<lambda>c. chunk_TenantID c = t) cs"
  using assms
  by (auto simp: documents_ok_def doc_mem_ListChunks_def list_all_iff split: option.splits if_splits)

lemma collected_chunks_own:
  assumes "world_ok w" and "collect_chunks (app_executor P) t query ds w = Inr results"
  shows "\<forall>x \<in> set results. chunk_TenantID (fst x) = t"
  using assms(2)
proof (induction ds arbitrary: results)
  case (Cons d ds)
  obtain cs rest where cs: "documents_ListChunks (app_documents P) t d w = Inr cs"
    and rest: "collect_chunks (app_executor P) t query ds w = Inr rest"
    and results: "results = score_chunks query cs @ rest"
    using Cons.prems by (auto simp: app_executor_fields split: sum.splits)
  have "list_all (\<lambda>c. chunk_TenantID c = t) cs"
    using cs assms(1) by (auto simp: documents_ListChunks_def app_documents_fields world_ok_def
        intro: listed_chunks_own split: if_splits)
  then show ?case
    using Cons.IH [OF rest] by (auto simp: results score_chunks_set list_all_iff)
qed simp

lemma retrieval_own:
  assumes "world_ok w" and "executeRetrieval (app_executor P) t config input w = Inr v"
  shows "\<exists>query cs. v = VMap [(''query'', VStr query), (''documents'', VChunks cs)] \<and>
    list_all (\<lambda>c. chunk_TenantID c = t) cs"
proof -
  let ?ds = "stringSliceConfig (ee_fmt (app_executor P)) config ''document_ids''"
    and ?query = "retrieval_query (ee_fmt (app_executor P)) config input"
  obtain results where "collect_chunks (app_executor P) t ?query ?ds w = Inr results"
    and v: "\<exists>n. v = VMap [(''query'', VStr ?query),
        (''documents'', VChunks (map fst (take n (sort_func scored_compare results))))]"
    using assms(2) by (auto simp: executeRetrieval_def Let_def split: if_splits sum.splits)
       (metis take_all_iff order_refl)+
  then have "\<forall>x \<in> set (sort_func scored_compare results). chunk_TenantID (fst x) = t"
    using collected_chunks_own [OF assms(1)] by simp
  then have "list_all (\<lambda>c. chunk_TenantID c = t) (map fst (take n (sort_func scored_compare results)))" for n
    using set_take_subset [of n "sort_func scored_compare results"] by (auto simp: list_all_iff)
  with v show ?thesis by blast
qed

section \<open>An asynchronous run in the small world\<close>

lemma ask_executes:
  assumes "buildGraph ask_flow = Inr g"
  shows "\<exists>r' w'. executeRun (app_executor demo_platform) r g input (newExecutionState (graph_roots g)) w =
    Some (Inr r', w') \<and> run_Status r' = RunStatusWaitingApproval"
proof -
  have g: "graph_roots g = [''b'']" "graph_node g ''b'' = ask" using ask_graph assms by auto
  have type: "node_Type ask = ''approval''" by (simp add: ask_def audit_node_def)
  show ?thesis
    by (simp add: app_executor_fields demo_effects on_runs_def g Let_def
        executeRun_def continueExecution_def newExecutionState_def
        exec_loop.simps [of _ _ _ _ _ "\<lparr>es_steps = s, es_stepOutputs = so, es_lastNodeID = l,
          es_queue = q, es_executed = x\<rparr>" for s so l q x]
        run_node_def type pause_at_def awaitApproval_def settle_run_def run_mem_SavePending_def)
qed

lemma async_run:
  "\<exists>r w. ExecuteAsync (app_executor demo_platform) ''acme'' [] [] demo_start = (Inr r, w) \<and>
     mq_jobs (w_queue w) = [new_job r []] \<and> run_mem_GetRun ''acme'' [] (w_runs w) = Inr r \<and>
     run_Status r = RunStatusQueued \<and> run_ID r = [] \<and> run_TenantID r = ''acme'' \<and>
     run_WorkflowID r = [] \<and> run_Attempt r = 0 \<and> run_MaxAttempts r = 3 \<and>
     workflows_Get (app_workflows demo_platform) ''acme'' [] w = Inr (new_workflow [] ''acme'' ask_flow 2)"
proof -
  define r where "r = queued_run [] ''acme'' [] [] 4"
  define w1 where "w1 = demo_start\<lparr>w_tick := 4, w_runs := snd (run_mem_CreateRun r (w_runs demo_start))\<rparr>"
  define w2 where "w2 = recordAudit (app_executor demo_platform) ''acme''
    (newRunAudit r ''run_queued'' ''async run queued'' []) w1"
  have r: "run_ID r = []" "run_TenantID r = ''acme''" "run_WorkflowID r = []" "run_Attempt r = 0"
    "run_Status r = RunStatusQueued" "run_MaxAttempts r = 3"
    by (simp_all add: r_def queued_run_def defaultAsyncMaxAttempts_def)
  have get: "workflows_Get (app_workflows demo_platform) ''acme'' [] demo_start =
      Inr (new_workflow [] ''acme'' ask_flow 2)"
    by (simp add: app_workflows_Get trim_acme demo_start_def wf_mem_GetByID_def)
  have frame: "w_queue w2 = w_queue demo_start" "w_workflows w2 = w_workflows demo_start"
    "w_runs w2 = snd (run_mem_CreateRun r (w_runs demo_start))"
    by (simp_all add: w2_def w1_def recordAudit_def app_executor_fields audit_Record_def app_audit_def
        trim_acme demo_effects on_audit_def audit_mem_Create_def)
  have empty: "mq_jobs (w_queue demo_start) = []" "mq_size (w_queue demo_start) = 128"
    by (simp_all add: demo_start_def start_world_def NewMemoryQueue_def)
  have tick: "tick (tick demo_start) = demo_start\<lparr>w_tick := 4\<rparr>" "w_tick (tick demo_start) = 3"
    by (simp_all add: tick_def demo_start_def)
  have create: "ee_CreateRun (app_executor demo_platform) r (demo_start\<lparr>w_tick := 4\<rparr>) = (None, w1)"
    by (simp add: app_executor_fields on_runs_def run_mem_CreateRun_def w1_def)
  have enqueue: "on_queue (mq_Enqueue c (new_job r [])) w2 =
      (None, w2\<lparr>w_queue := (w_queue w2)\<lparr>mq_jobs := [new_job r []]\<rparr>\<rparr>)" for c
    using empty frame(1) by (simp add: on_queue_def mq_Enqueue_def)
  have "ExecuteAsync (app_executor demo_platform) ''acme'' [] [] demo_start =
      (Inr r, w2\<lparr>w_queue := (w_queue w2)\<lparr>mq_jobs := [new_job r []]\<rparr>\<rparr>)"
    using create enqueue
    by (simp add: ExecuteAsync_def trim_acme app_executor_fields(9,12-14) get demo_effects tick Let_def
        r_def [symmetric] w2_def [symmetric])
  then show ?thesis
    using frame get r by (simp add: app_workflows_Get store_simps trim_acme)
qed

lemma async_runE:
  obtains r w where "reachable demo_platform w" "mq_jobs (w_queue w) = [new_job r []]"
    "run_mem_GetRun ''acme'' [] (w_runs w) = Inr r" "run_Status r = RunStatusQueued" "run_ID r = []"
    "run_TenantID r = ''acme''" "run_WorkflowID r = []" "run_Attempt r = 0" "run_MaxAttempts r = 3"
    "workflows_Get (app_workflows demo_platform) ''acme'' [] w = Inr (new_workflow [] ''acme'' ask_flow 2)"
  using async_run reachable.step [OF demo_start_reachable app_step.run_async] by blast

text \<open>Its job pauses the run at the approval node.\<close>

lemma async_job_waits:
  assumes "run_mem_GetRun ''acme'' [] (w_runs w) = Inr r" and "run_Status r = RunStatusQueued"
    and "workflows_Get (app_workflows demo_platform) ''acme'' [] w = Inr (new_workflow [] ''acme'' ask_flow 2)"
    and "job_TenantID job = ''acme''" and "job_RunID job = []" and "job_WorkflowID job = []"
  shows "\<exists>r' w'. ProcessAsyncJob (app_executor demo_platform) job w = Some (Inr r', w') \<and>
    run_Status r' = RunStatusWaitingApproval"
proof -
  obtain g where g: "buildGraph ask_flow = Inr g" using ask_graph by blast
  show ?thesis
    using assms ask_executes [OF g]
    by (simp add: ProcessAsyncJob_def trim_acme app_executor_fields(6,9,13) g demo_effects Let_def
        app_UpdateRun)
qed

end
