(* ===== verification/Health.thy ===== *)
theory Health
  imports Executor
begin

text \<open>
  \<open>platform/health/service.go\<close>: the liveness report and the readiness report, which asks every
  dependency in turn. Dialling a dependency is a parameter.
\<close>

section \<open>Reports\<close>

definition StatusLive :: string where "StatusLive = ''ok''"
definition StatusReady :: string where "StatusReady = ''ready''"
definition StatusNotReady :: string where "StatusNotReady = ''not_ready''"

record check_result =
  ck_Name :: string
  ck_Status :: string
  ck_DurationMS :: int
  ck_Error :: string

record health_report =
  rep_Service :: string
  rep_Status :: string
  rep_Timestamp :: time
  rep_Checks :: "check_result list"

text \<open>A checker sees the deadline of its context.\<close>

record 's checker =
  hc_Name :: string
  hc_Check :: "time option \<Rightarrow> 's \<Rightarrow> goerr option \<times> 's"

record 's health_env =
  he_serviceName :: string
  he_timeout :: duration
  he_checkers :: "'s checker list"
  he_now :: "'s \<Rightarrow> time \<times> 's"

text \<open>
  \<open>TCPChecker\<close>: a failed dial, or else what closing the connection says. \<open>dial\<close> is the network.
\<close>

definition NewTCPChecker ::
    "(string \<Rightarrow> time option \<Rightarrow> 's \<Rightarrow> goerr option result \<times> 's) \<Rightarrow> string \<Rightarrow> string \<Rightarrow> 's checker" where
  "NewTCPChecker dial name address =
     \<lparr>hc_Name = name,
      hc_Check = (\<lambda>deadline s. case dial address deadline s of
          (Inl e, s1) \<Rightarrow> (Some e, s1)
        | (Inr closing, s1) \<Rightarrow> (closing, s1))\<rparr>"

definition LiveReport :: "'s health_env \<Rightarrow> 's \<Rightarrow> health_report \<times> 's" where
  "LiveReport H s =
     (case he_now H s of (now, s1) \<Rightarrow>
        (\<lparr>rep_Service = he_serviceName H, rep_Status = StatusLive, rep_Timestamp = now, rep_Checks = []\<rparr>, s1))"

text \<open>One turn of the loop: the check between two readings of the clock.\<close>

definition run_check ::
    "'s health_env \<Rightarrow> time option \<Rightarrow> 's checker \<Rightarrow> 's \<Rightarrow> (check_result \<times> goerr option) \<times> 's" where
  "run_check H deadline c s =
     (case he_now H s of (started, s1) \<Rightarrow>
      case hc_Check c deadline s1 of (err, s2) \<Rightarrow>
      case he_now H s2 of (now, s3) \<Rightarrow>
        let outcome = \<lparr>ck_Name = hc_Name c, ck_Status = StatusReady,
                       ck_DurationMS = duration_ms (time_sub now started), ck_Error = []\<rparr>
        in case err of
             None \<Rightarrow> ((outcome, None), s3)
           | Some e \<Rightarrow>
               ((outcome\<lparr>ck_Status := StatusNotReady, ck_Error := error_text e\<rparr>, Some e), s3))"

fun check_all ::
    "'s health_env \<Rightarrow> time option \<Rightarrow> 's checker list \<Rightarrow> health_report \<Rightarrow> bool \<Rightarrow> 's \<Rightarrow>
     (health_report \<times> bool) \<times> 's" where
  "check_all H deadline [] report ready s = ((report, ready), s)"
| "check_all H deadline (c # cs) report ready s =
     (case run_check H deadline c s of
        ((outcome, err), s1) \<Rightarrow>
          let report1 = (if err = None then report else report\<lparr>rep_Status := StatusNotReady\<rparr>)
          in check_all H deadline cs (report1\<lparr>rep_Checks := rep_Checks report1 @ [outcome]\<rparr>)
               (ready \<and> err = None) s1)"

definition ReadyReport :: "'s health_env \<Rightarrow> 's \<Rightarrow> (health_report \<times> bool) \<times> 's" where
  "ReadyReport H s =
     (case (if 0 < he_timeout H
            then (case he_now H s of (now, s1) \<Rightarrow> (Some (now + he_timeout H), s1))
            else (None, s)) of
        (deadline, s1) \<Rightarrow>
          (case he_now H s1 of (now, s2) \<Rightarrow>
             check_all H deadline (he_checkers H)
               \<lparr>rep_Service = he_serviceName H, rep_Status = StatusReady, rep_Timestamp = now,
                rep_Checks = []\<rparr> True s2))"

section \<open>What the readiness report says\<close>

definition check_consistent :: "check_result \<Rightarrow> bool" where
  "check_consistent c \<longleftrightarrow>
     ck_Status c = StatusReady \<and> ck_Error c = [] \<or> ck_Status c = StatusNotReady"

lemma statuses_differ [simp]: "StatusReady \<noteq> StatusNotReady" "StatusNotReady \<noteq> StatusReady"
  by (simp_all add: StatusReady_def StatusNotReady_def)

lemma run_check_outcome:
  assumes "run_check H deadline c s = ((outcome, err), s')"
  shows "ck_Name outcome = hc_Name c \<and> check_consistent outcome \<and>
    (err = None) = (ck_Status outcome = StatusReady)"
  using assms by (auto simp: run_check_def Let_def check_consistent_def split: prod.splits option.splits)

lemma check_all_report:
  assumes "check_all H deadline cs report ready s = ((report', ready'), s')"
    and "list_all check_consistent (rep_Checks report)"
    and "ready = list_all (\<lambda>c. ck_Status c = StatusReady) (rep_Checks report)"
    and "rep_Status report = (if ready then StatusReady else StatusNotReady)"
  shows "map ck_Name (rep_Checks report') = map ck_Name (rep_Checks report) @ map hc_Name cs \<and>
    list_all check_consistent (rep_Checks report') \<and>
    ready' = list_all (\<lambda>c. ck_Status c = StatusReady) (rep_Checks report') \<and>
    rep_Status report' = (if ready' then StatusReady else StatusNotReady)"
  using assms
proof (induction cs arbitrary: report ready s)
  case (Cons c cs)
  obtain outcome err s1 where check: "run_check H deadline c s = ((outcome, err), s1)"
    by (metis surj_pair)
  note facts = run_check_outcome [OF check]
  show ?case
    using Cons.IH [OF Cons.prems(1) [unfolded check_all.simps check prod.case Let_def]] Cons.prems facts
    by (cases err) auto
qed simp

lemma ReadyReport_report:
  assumes "ReadyReport H s = ((report, ready), s')"
  shows "map ck_Name (rep_Checks report) = map hc_Name (he_checkers H) \<and>
    list_all check_consistent (rep_Checks report) \<and>
    ready = list_all (\<lambda>c. ck_Status c = StatusReady) (rep_Checks report) \<and>
    rep_Status report = (if ready then StatusReady else StatusNotReady)"
proof -
  obtain deadline now s1 where "check_all H deadline (he_checkers H)
      \<lparr>rep_Service = he_serviceName H, rep_Status = StatusReady, rep_Timestamp = now, rep_Checks = []\<rparr> True s1 =
      ((report, ready), s')"
    using assms by (auto simp: ReadyReport_def split: prod.splits)
  from check_all_report [OF this] show ?thesis by simp
qed

end
