(* ===== verification/Api.thy ===== *)
theory Api
  imports Health Auth
begin

text \<open>
  The HTTP API (\<open>api/server.go\<close>): authentication, the handlers over the services, and the statuses and
  messages that errors are answered with. A request is given with its decoded path and with what
  the standard library makes of its body; an answer is its status, headers and the value that is
  encoded as JSON. Logging and tracing, which only observe, are left out.
\<close>

section \<open>Requests and answers\<close>

text \<open>
  A file of a multipart form: its name, what the first \<open>Read\<close> of 512 bytes delivers, and what reading
  on to the end delivers.
\<close>

record upload_file =
  uf_Filename :: string
  uf_First :: "string \<times> goerr option"
  uf_Rest :: "string result"

record api_request =
  ar_Method :: string
  ar_Path :: "string list"
  ar_Header :: "string \<Rightarrow> string"
  ar_Status :: string
  ar_Body :: string
  ar_File :: "upload_file result"

datatype payload =
    BText string
  | BError string
  | BTenant identity
  | BReport health_report
  | BDocument document
  | BChunks "chunk list"
  | BWorkflow workflow
  | BValidation validation_result
  | BRun run
  | BRuns "run list"
  | BSteps "step list"
  | BEvents "event list"

record api_response =
  ap_Status :: int
  ap_Header :: "(string \<times> string) list"
  ap_Body :: payload

text \<open>The bodies of the execute and resume requests as the JSON decoder fills them.\<close>

record execute_request =
  er_Mode :: string
  er_Input :: vmap
  er_TimeoutMS :: int

record resume_request =
  rr_Approved :: "bool option"
  rr_Comment :: string
  rr_Input :: vmap

text \<open>
  The services, which may be nil, and the standard library: the JSON decoder with its error beside
  the value, \<open>http.DetectContentType\<close>, and the router's own answer to a request no pattern matches.
\<close>

record 's api_env =
  av_auth :: "auth_env option"
  av_health :: "'s health_env"
  av_documents :: "'s doc_env option"
  av_workflows :: "'s wf_env option"
  av_exec :: "'s exec_env option"
  av_audit :: "'s audit_env option"
  av_now :: "'s \<Rightarrow> time \<times> 's"
  av_fmt :: gofmt
  av_DecodeDefinition :: "string \<Rightarrow> wf_definition result"
  av_DecodeExecute :: "string \<Rightarrow> execute_request \<times> goerr option"
  av_DecodeResume :: "string \<Rightarrow> resume_request \<times> goerr option"
  av_DetectContentType :: "string \<Rightarrow> string"
  av_NotRouted :: "api_request \<Rightarrow> api_response"

text \<open>\<open>err != nil && !errors.Is(err, io.EOF)\<close>.\<close>

definition real_error :: "goerr option \<Rightarrow> bool" where
  "real_error err = (case err of None \<Rightarrow> False | Some e \<Rightarrow> \<not> errors_is e io_EOF)"

section \<open>Writing answers\<close>

definition writeJSON :: "(string \<times> string) list \<Rightarrow> int \<Rightarrow> payload \<Rightarrow> api_response" where
  "writeJSON header status body =
     \<lparr>ap_Status = status, ap_Header = header_set ''Content-Type'' ''application/json'' header,
      ap_Body = body\<rparr>"

definition writeError :: "(string \<times> string) list \<Rightarrow> int \<Rightarrow> string \<Rightarrow> api_response" where
  "writeError header status message = writeJSON header status (BError message)"

record error_rule =
  el_status :: int
  el_message :: string
  el_useErr :: bool
  el_sentinels :: "goerr list"

definition matchesAny :: "goerr \<Rightarrow> goerr list \<Rightarrow> bool" where
  "matchesAny e sentinels = list_ex (errors_is e) sentinels"

text \<open>The first rule that matches decides; a rule without a text keeps the fallback.\<close>

fun mapped_error :: "goerr \<Rightarrow> string \<Rightarrow> error_rule list \<Rightarrow> int \<times> string" where
  "mapped_error e fallback [] = (500, fallback)"
| "mapped_error e fallback (rule # rules) =
     (if \<not> matchesAny e (el_sentinels rule) then mapped_error e fallback rules
      else (el_status rule,
            if el_useErr rule then error_text e
            else if el_message rule \<noteq> [] then el_message rule else fallback))"

definition writeMappedError ::
    "(string \<times> string) list \<Rightarrow> goerr \<Rightarrow> string \<Rightarrow> error_rule list \<Rightarrow> api_response" where
  "writeMappedError header e fallback rules =
     (case mapped_error e fallback rules of (status, message) \<Rightarrow> writeError header status message)"

definition document_rules :: "error_rule list" where
  "document_rules =
     [\<lparr>el_status = 400, el_message = [], el_useErr = True,
       el_sentinels = [documents_ErrInvalidFilename, documents_ErrMissingContent,
                       documents_ErrUnsupportedContentType]\<rparr>,
      \<lparr>el_status = 404, el_message = ''document not found'', el_useErr = False,
       el_sentinels = [documents_ErrNotFound]\<rparr>]"

definition workflow_rules :: "error_rule list" where
  "workflow_rules =
     [\<lparr>el_status = 404, el_message = ''workflow not found'', el_useErr = False,
       el_sentinels = [workflow_ErrNotFound]\<rparr>,
      \<lparr>el_status = 400, el_message = [], el_useErr = True,
       el_sentinels = [workflow_ErrInvalidTenant, workflow_ErrInvalidDefinition]\<rparr>]"

definition execution_rules :: "error_rule list" where
  "execution_rules =
     [\<lparr>el_status = 404, el_message = ''workflow not found'', el_useErr = False,
       el_sentinels = [workflow_ErrNotFound]\<rparr>,
      \<lparr>el_status = 404, el_message = ''workflow run not found'', el_useErr = False,
       el_sentinels = [exec_ErrNotFound]\<rparr>,
      \<lparr>el_status = 409, el_message = [], el_useErr = True,
       el_sentinels = [ErrRunNotAwaitingReview, ErrIdempotencyConflict]\<rparr>,
      \<lparr>el_status = 429, el_message = [], el_useErr = True, el_sentinels = [ErrRateLimited]\<rparr>,
      \<lparr>el_status = 400, el_message = [], el_useErr = True,
       el_sentinels = [exec_ErrInvalidTenant, ErrAsyncDisabled]\<rparr>]"

definition writeDocumentError :: "goerr \<Rightarrow> string \<Rightarrow> api_response" where
  "writeDocumentError e fallback = writeMappedError [] e fallback document_rules"

definition writeWorkflowError :: "goerr \<Rightarrow> string \<Rightarrow> api_response" where
  "writeWorkflowError e fallback = writeMappedError [] e fallback workflow_rules"

definition writeExecutionError :: "(string \<times> string) list \<Rightarrow> goerr \<Rightarrow> string \<Rightarrow> api_response" where
  "writeExecutionError header e fallback = writeMappedError header e fallback execution_rules"

definition statusCodeForRun :: "run \<Rightarrow> int" where
  "statusCodeForRun r = (if run_TriggerMode r = ''async'' then 202 else 200)"

text \<open>
  \<open>Unix\<close> counts seconds from 1970.
\<close>

definition unix_seconds :: "time \<Rightarrow> int" where
  "unix_seconds t = t div 1000000000 - 62135596800"

definition writeQuotaHeaders ::
    "'s api_env \<Rightarrow> trigger_quota \<Rightarrow> (string \<times> string) list \<Rightarrow> 's \<Rightarrow> (string \<times> string) list \<times> 's" where
  "writeQuotaHeaders A quota header s =
     (if tq_Limit quota \<le> 0 then (header, s)
      else
        let header1 = header_set ''X-RateLimit-Remaining'' (int_str (tq_Remaining quota))
                        (header_set ''X-RateLimit-Limit'' (int_str (tq_Limit quota)) header)
        in if tq_ResetAt quota = zero_time then (header1, s)
           else (case av_now A s of (now, s1) \<Rightarrow>
             let retryAfter = max 0 (duration_seconds (time_sub (tq_ResetAt quota) now))
             in (header_set ''Retry-After'' (int_str retryAfter)
                   (header_set ''X-RateLimit-Reset'' (int_str (unix_seconds (tq_ResetAt quota))) header1),
                 s1)))"

section \<open>The identity and the services of a request\<close>

definition currentIdentity :: "identity option \<Rightarrow> api_response + identity" where
  "currentIdentity ident =
     (case ident of
        None \<Rightarrow> Inl (writeError [] 500 ''request identity missing from context'')
      | Some i \<Rightarrow> Inr i)"

definition serviceContext :: "'a option \<Rightarrow> string \<Rightarrow> identity option \<Rightarrow> api_response + (identity \<times> 'a)" where
  "serviceContext service name ident =
     (case service of
        None \<Rightarrow> Inl (writeError [] 503 (name @ '' service is not configured''))
      | Some x \<Rightarrow> (case currentIdentity ident of Inl resp \<Rightarrow> Inl resp | Inr i \<Rightarrow> Inr (i, x)))"

section \<open>The handlers\<close>

definition handleTenantSelf :: "identity option \<Rightarrow> 's \<Rightarrow> api_response \<times> 's" where
  "handleTenantSelf ident s =
     (case currentIdentity ident of
        Inl resp \<Rightarrow> (resp, s)
      | Inr i \<Rightarrow> (writeJSON [] 200 (BTenant i), s))"

definition handleLive :: "'s api_env \<Rightarrow> 's \<Rightarrow> api_response \<times> 's" where
  "handleLive A s =
     (case LiveReport (av_health A) s of (report, s1) \<Rightarrow> (writeJSON [] 200 (BReport report), s1))"

definition handleReady :: "'s api_env \<Rightarrow> 's \<Rightarrow> api_response \<times> 's" where
  "handleReady A s =
     (case ReadyReport (av_health A) s of
        ((report, ready), s1) \<Rightarrow> (writeJSON [] (if ready then 200 else 503) (BReport report), s1))"

text \<open>The sniffed content type, and the reader that delivers the head again before the rest.\<close>

definition sniffedContent :: "(string \<Rightarrow> string) \<Rightarrow> upload_file \<Rightarrow> (string result \<times> string) result" where
  "sniffedContent detect file =
     (case uf_First file of
        (head, err) \<Rightarrow>
          if real_error err then Inl (the err)
          else Inr (case uf_Rest file of Inl e \<Rightarrow> Inl e | Inr rest \<Rightarrow> Inr (head @ rest), detect head))"

definition handleUploadDocument ::
    "'s api_env \<Rightarrow> identity option \<Rightarrow> api_request \<Rightarrow> 's \<Rightarrow> api_response \<times> 's" where
  "handleUploadDocument A ident req s =
     (case serviceContext (av_documents A) ''document'' ident of
        Inl resp \<Rightarrow> (resp, s)
      | Inr (i, documents) \<Rightarrow>
          (case ar_File req of
             Inl e \<Rightarrow> (writeError [] 400 ''missing multipart file field'', s)
           | Inr file \<Rightarrow>
               (case sniffedContent (av_DetectContentType A) file of
                  Inl e \<Rightarrow> (writeError [] 400 ''failed to read uploaded file'', s)
                | Inr (reader, contentType) \<Rightarrow>
                    (case documents_Create documents (id_TenantID i)
                            \<lparr>cp_Filename = uf_Filename file, cp_ContentType = contentType,
                             cp_Content = Some reader\<rparr> s of
                       (Inl e, s1) \<Rightarrow> (writeDocumentError e ''failed to upload document'', s1)
                     | (Inr d, s1) \<Rightarrow> (writeJSON [] 201 (BDocument d), s1)))))"

definition handleGetDocument ::
    "'s api_env \<Rightarrow> identity option \<Rightarrow> string \<Rightarrow> 's \<Rightarrow> api_response \<times> 's" where
  "handleGetDocument A ident documentID s =
     (case serviceContext (av_documents A) ''document'' ident of
        Inl resp \<Rightarrow> (resp, s)
      | Inr (i, documents) \<Rightarrow>
          (case documents_Get documents (id_TenantID i) documentID s of
             Inl e \<Rightarrow> (writeDocumentError e ''failed to fetch document'', s)
           | Inr d \<Rightarrow> (writeJSON [] 200 (BDocument d), s)))"

definition handleGetDocumentChunks ::
    "'s api_env \<Rightarrow> identity option \<Rightarrow> string \<Rightarrow> 's \<Rightarrow> api_response \<times> 's" where
  "handleGetDocumentChunks A ident documentID s =
     (case serviceContext (av_documents A) ''document'' ident of
        Inl resp \<Rightarrow> (resp, s)
      | Inr (i, documents) \<Rightarrow>
          (case documents_ListChunks documents (id_TenantID i) documentID s of
             Inl e \<Rightarrow> (writeDocumentError e ''failed to fetch document chunks'', s)
           | Inr cs \<Rightarrow> (writeJSON [] 200 (BChunks cs), s)))"

definition handleCreateWorkflow ::
    "'s api_env \<Rightarrow> identity option \<Rightarrow> api_request \<Rightarrow> 's \<Rightarrow> api_response \<times> 's" where
  "handleCreateWorkflow A ident req s =
     (case serviceContext (av_workflows A) ''workflow'' ident of
        Inl resp \<Rightarrow> (resp, s)
      | Inr (i, workflows) \<Rightarrow>
          (case av_DecodeDefinition A (ar_Body req) of
             Inl e \<Rightarrow> (writeError [] 400 ''invalid workflow definition payload'', s)
           | Inr d \<Rightarrow>
               (case workflows_Create workflows (id_TenantID i) d s of
                  (Inl (e, validation), s1) \<Rightarrow>
                    (if errors_is e workflow_ErrInvalidDefinition
                     then (writeJSON [] 400 (BValidation validation), s1)
                     else (writeWorkflowError e ''failed to create workflow'', s1))
                | (Inr (created, validation), s1) \<Rightarrow> (writeJSON [] 201 (BWorkflow created), s1))))"

definition handleGetWorkflow ::
    "'s api_env \<Rightarrow> identity option \<Rightarrow> string \<Rightarrow> 's \<Rightarrow> api_response \<times> 's" where
  "handleGetWorkflow A ident workflowID s =
     (case serviceContext (av_workflows A) ''workflow'' ident of
        Inl resp \<Rightarrow> (resp, s)
      | Inr (i, workflows) \<Rightarrow>
          (case workflows_Get workflows (id_TenantID i) workflowID s of
             Inl e \<Rightarrow> (writeWorkflowError e ''failed to fetch workflow'', s)
           | Inr x \<Rightarrow> (writeJSON [] 200 (BWorkflow x), s)))"

definition handleValidateWorkflow ::
    "'s api_env \<Rightarrow> identity option \<Rightarrow> string \<Rightarrow> 's \<Rightarrow> api_response \<times> 's" where
  "handleValidateWorkflow A ident workflowID s =
     (case serviceContext (av_workflows A) ''workflow'' ident of
        Inl resp \<Rightarrow> (resp, s)
      | Inr (i, workflows) \<Rightarrow>
          (case workflows_Validate workflows (id_TenantID i) workflowID s of
             Inl e \<Rightarrow> (writeWorkflowError e ''failed to validate workflow'', s)
           | Inr validation \<Rightarrow> (writeJSON [] 200 (BValidation validation), s)))"

text \<open>
  The text that identifies a request for the idempotency of its key. (\<open>json.Marshal\<close> fails on no
  decoded input, so there is always one.)
\<close>

definition executionFingerprint :: "gofmt \<Rightarrow> string \<Rightarrow> string \<Rightarrow> vmap \<Rightarrow> string" where
  "executionFingerprint F mode workflowID input =
     json_struct
       ([(''mode'', json_string mode), (''workflow_id'', json_string workflowID)] @
        (if input = [] then [] else [(''input'', json_marshal F (VMap input))]))"

text \<open>
  The execution after the quota was reserved. The timeout of a synchronous run is a deadline of the
  context that only the HTTP client observes, whose answers are arbitrary anyway.
\<close>

definition execute_reserved ::
    "'s exec_env \<Rightarrow> string \<Rightarrow> string \<Rightarrow> string \<Rightarrow> vmap \<Rightarrow> string \<Rightarrow> string \<Rightarrow> (string \<times> string) list \<Rightarrow> 's \<Rightarrow>
     (api_response \<times> 's) option" where
  "execute_reserved E tenantID mode workflowID input key fingerprint header s =
     (if mode \<noteq> ''sync'' \<and> mode \<noteq> ''async''
      then Some (writeError header 400 ''execution mode must be sync or async'', s)
      else
        case (if mode = ''sync'' then ExecuteSync E tenantID workflowID input s
              else Some (ExecuteAsync E tenantID workflowID input s)) of
          None \<Rightarrow> None
        | Some (Inl e, s1) \<Rightarrow> Some (writeExecutionError header e ''failed to execute workflow'', s1)
        | Some (Inr r, s1) \<Rightarrow>
            (case StoreIdempotentRun E tenantID key fingerprint r s1 of
               (Some e, s2) \<Rightarrow>
                 Some (writeExecutionError header e ''failed to store idempotent workflow run'', s2)
             | (None, s2) \<Rightarrow>
                 Some (writeJSON header (if mode = ''sync'' then 200 else 202) (BRun r), s2)))"

definition execution_mode :: "execute_request \<Rightarrow> string" where
  "execution_mode request =
     (let mode = trim_space (er_Mode request) in if mode = [] then ''sync'' else mode)"

definition handleExecuteWorkflow ::
    "'s api_env \<Rightarrow> identity option \<Rightarrow> api_request \<Rightarrow> string \<Rightarrow> 's \<Rightarrow> (api_response \<times> 's) option" where
  "handleExecuteWorkflow A ident req workflowID s =
     (case serviceContext (av_exec A) ''executor'' ident of
        Inl resp \<Rightarrow> Some (resp, s)
      | Inr (i, E) \<Rightarrow>
          (case av_DecodeExecute A (ar_Body req) of
             (request, err) \<Rightarrow>
               if real_error err
               then Some (writeError [] 400 ''invalid workflow execution payload'', s)
               else
                 let mode = execution_mode request;
                     fingerprint = executionFingerprint (av_fmt A) mode workflowID (er_Input request);
                     key = trim_space (ar_Header req ''Idempotency-Key'')
                 in case LookupIdempotentRun E (id_TenantID i) key fingerprint s of
                      Inl e \<Rightarrow> Some (writeExecutionError [] e ''failed to resolve idempotent workflow run'', s)
                    | Inr (Some r) \<Rightarrow>
                        Some (writeJSON (header_set ''X-Idempotent-Replay'' ''true'' [])
                                (statusCodeForRun r) (BRun r), s)
                    | Inr None \<Rightarrow>
                        (case ReserveExecution E (id_TenantID i) s of
                           ((quota, err), s1) \<Rightarrow>
                             (case writeQuotaHeaders A quota [] s1 of
                                (header, s2) \<Rightarrow>
                                  (case err of
                                     Some e \<Rightarrow>
                                       Some (writeExecutionError header e
                                         ''failed to reserve tenant execution capacity'', s2)
                                   | None \<Rightarrow>
                                       execute_reserved E (id_TenantID i) mode workflowID
                                         (er_Input request) key fingerprint header s2)))))"

definition handleGetRun ::
    "'s api_env \<Rightarrow> identity option \<Rightarrow> string \<Rightarrow> 's \<Rightarrow> api_response \<times> 's" where
  "handleGetRun A ident runID s =
     (case serviceContext (av_exec A) ''executor'' ident of
        Inl resp \<Rightarrow> (resp, s)
      | Inr (i, E) \<Rightarrow>
          (case exec_GetRun E (id_TenantID i) runID s of
             Inl e \<Rightarrow> (writeExecutionError [] e ''failed to fetch workflow run'', s)
           | Inr r \<Rightarrow> (writeJSON [] 200 (BRun r), s)))"

definition handleListRuns ::
    "'s api_env \<Rightarrow> identity option \<Rightarrow> api_request \<Rightarrow> 's \<Rightarrow> api_response \<times> 's" where
  "handleListRuns A ident req s =
     (case serviceContext (av_exec A) ''executor'' ident of
        Inl resp \<Rightarrow> (resp, s)
      | Inr (i, E) \<Rightarrow>
          (case exec_ListRuns E (id_TenantID i) (trim_space (ar_Status req)) s of
             Inl e \<Rightarrow> (writeExecutionError [] e ''failed to list workflow runs'', s)
           | Inr rs \<Rightarrow> (writeJSON [] 200 (BRuns rs), s)))"

definition handleGetRunSteps ::
    "'s api_env \<Rightarrow> identity option \<Rightarrow> string \<Rightarrow> 's \<Rightarrow> api_response \<times> 's" where
  "handleGetRunSteps A ident runID s =
     (case serviceContext (av_exec A) ''executor'' ident of
        Inl resp \<Rightarrow> (resp, s)
      | Inr (i, E) \<Rightarrow>
          (case exec_ListSteps E (id_TenantID i) runID s of
             Inl e \<Rightarrow> (writeExecutionError [] e ''failed to fetch workflow steps'', s)
           | Inr steps \<Rightarrow> (writeJSON [] 200 (BSteps steps), s)))"

text \<open>
  \<open>None\<close> is a handler that panics: the run is asked for without a check that there is an executor,
  whose repository a nil executor does not have.
\<close>

definition handleGetRunEvents ::
    "'s api_env \<Rightarrow> identity option \<Rightarrow> string \<Rightarrow> 's \<Rightarrow> (api_response \<times> 's) option" where
  "handleGetRunEvents A ident runID s =
     (case serviceContext (av_audit A) ''audit'' ident of
        Inl resp \<Rightarrow> Some (resp, s)
      | Inr (i, audits) \<Rightarrow>
          (case (case av_exec A of
                   Some E \<Rightarrow> Some (exec_GetRun E (id_TenantID i) runID s)
                 | None \<Rightarrow> if trim_space (id_TenantID i) = [] then Some (Inl exec_ErrInvalidTenant) else None) of
             None \<Rightarrow> None
           | Some (Inl e) \<Rightarrow> Some (writeExecutionError [] e ''failed to fetch workflow run events'', s)
           | Some (Inr r) \<Rightarrow>
               (case audit_ListRunEvents audits (id_TenantID i) runID s of
                  Inl e \<Rightarrow> Some (writeExecutionError [] e ''failed to fetch workflow run events'', s)
                | Inr events \<Rightarrow> Some (writeJSON [] 200 (BEvents events), s))))"

definition handleResumeRun ::
    "'s api_env \<Rightarrow> identity option \<Rightarrow> api_request \<Rightarrow> string \<Rightarrow> 's \<Rightarrow> (api_response \<times> 's) option" where
  "handleResumeRun A ident req runID s =
     (case serviceContext (av_exec A) ''executor'' ident of
        Inl resp \<Rightarrow> Some (resp, s)
      | Inr (i, E) \<Rightarrow>
          (case av_DecodeResume A (ar_Body req) of
             (request, Some e) \<Rightarrow> Some (writeError [] 400 ''invalid workflow resume payload'', s)
           | (request, None) \<Rightarrow>
               (case rr_Approved request of
                  None \<Rightarrow> Some (writeError [] 400 ''approved decision is required'', s)
                | Some approved \<Rightarrow>
                    (case ResumeApproval E (id_TenantID i) runID approved (rr_Comment request)
                            (rr_Input request) s of
                       None \<Rightarrow> None
                     | Some (Inl e, s1) \<Rightarrow>
                         Some (writeExecutionError [] e ''failed to resume workflow run'', s1)
                     | Some (Inr r, s1) \<Rightarrow> Some (writeJSON [] 200 (BRun r), s1)))))"

section \<open>Routing and authentication\<close>

text \<open>
  The patterns of \<open>NewHandler\<close>. A GET pattern also matches HEAD; a wildcard matches one segment that is
  not empty.
\<close>

datatype route =
    LiveRoute
  | ReadyRoute
  | TenantSelfRoute
  | UploadDocumentRoute
  | GetDocumentRoute string
  | GetDocumentChunksRoute string
  | CreateWorkflowRoute
  | GetWorkflowRoute string
  | ValidateWorkflowRoute string
  | ExecuteWorkflowRoute string
  | ListRunsRoute
  | GetRunRoute string
  | GetRunStepsRoute string
  | GetRunEventsRoute string
  | ResumeRunRoute string

definition get_route :: "string list \<Rightarrow> route option" where
  "get_route path =
     (if path = [''health'', ''live''] then Some LiveRoute
      else if path = [''health'', ''ready''] then Some ReadyRoute
      else if path = [''v1'', ''tenants'', ''me''] then Some TenantSelfRoute
      else if path = [''v1'', ''workflow-runs''] then Some ListRunsRoute
      else case path of
        [v, collection, k] \<Rightarrow>
          if v \<noteq> ''v1'' \<or> k = [] then None
          else if collection = ''documents'' then Some (GetDocumentRoute k)
          else if collection = ''workflows'' then Some (GetWorkflowRoute k)
          else if collection = ''workflow-runs'' then Some (GetRunRoute k)
          else None
      | [v, collection, k, part] \<Rightarrow>
          if v \<noteq> ''v1'' \<or> k = [] then None
          else if collection = ''documents'' \<and> part = ''chunks'' then Some (GetDocumentChunksRoute k)
          else if collection = ''workflow-runs'' \<and> part = ''steps'' then Some (GetRunStepsRoute k)
          else if collection = ''workflow-runs'' \<and> part = ''events'' then Some (GetRunEventsRoute k)
          else None
      | _ \<Rightarrow> None)"

definition post_route :: "string list \<Rightarrow> route option" where
  "post_route path =
     (if path = [''v1'', ''documents''] then Some UploadDocumentRoute
      else if path = [''v1'', ''workflows''] then Some CreateWorkflowRoute
      else case path of
        [v, collection, k, action] \<Rightarrow>
          if v \<noteq> ''v1'' \<or> k = [] then None
          else if collection = ''workflows'' \<and> action = ''validate'' then Some (ValidateWorkflowRoute k)
          else if collection = ''workflows'' \<and> action = ''execute'' then Some (ExecuteWorkflowRoute k)
          else if collection = ''workflow-runs'' \<and> action = ''resume'' then Some (ResumeRunRoute k)
          else None
      | _ \<Rightarrow> None)"

definition match_route :: "api_request \<Rightarrow> route option" where
  "match_route req =
     (if ar_Method req = ''GET'' \<or> ar_Method req = ''HEAD'' then get_route (ar_Path req)
      else if ar_Method req = ''POST'' then post_route (ar_Path req)
      else None)"

fun serve_route ::
    "'s api_env \<Rightarrow> identity option \<Rightarrow> api_request \<Rightarrow> route \<Rightarrow> 's \<Rightarrow> (api_response \<times> 's) option" where
  "serve_route A i req LiveRoute s = Some (handleLive A s)"
| "serve_route A i req ReadyRoute s = Some (handleReady A s)"
| "serve_route A i req TenantSelfRoute s = Some (handleTenantSelf i s)"
| "serve_route A i req UploadDocumentRoute s = Some (handleUploadDocument A i req s)"
| "serve_route A i req (GetDocumentRoute k) s = Some (handleGetDocument A i k s)"
| "serve_route A i req (GetDocumentChunksRoute k) s = Some (handleGetDocumentChunks A i k s)"
| "serve_route A i req CreateWorkflowRoute s = Some (handleCreateWorkflow A i req s)"
| "serve_route A i req (GetWorkflowRoute k) s = Some (handleGetWorkflow A i k s)"
| "serve_route A i req (ValidateWorkflowRoute k) s = Some (handleValidateWorkflow A i k s)"
| "serve_route A i req (ExecuteWorkflowRoute k) s = handleExecuteWorkflow A i req k s"
| "serve_route A i req ListRunsRoute s = Some (handleListRuns A i req s)"
| "serve_route A i req (GetRunRoute k) s = Some (handleGetRun A i k s)"
| "serve_route A i req (GetRunStepsRoute k) s = Some (handleGetRunSteps A i k s)"
| "serve_route A i req (GetRunEventsRoute k) s = handleGetRunEvents A i k s"
| "serve_route A i req (ResumeRunRoute k) s = handleResumeRun A i req k s"

definition refusal_message :: "goerr \<Rightarrow> string" where
  "refusal_message e =
     (if errors_is e ErrMissingAPIKey then ''missing api key''
      else if errors_is e ErrInactiveAPIKey \<or> errors_is e ErrInactiveTenant then ''inactive credential''
      else ''invalid api key'')"

definition requireAPIKey ::
    "'s api_env \<Rightarrow> (identity option \<Rightarrow> 's \<Rightarrow> (api_response \<times> 's) option) \<Rightarrow> api_request \<Rightarrow> 's \<Rightarrow>
     (api_response \<times> 's) option" where
  "requireAPIKey A next_handler req s =
     (case av_auth A of
        None \<Rightarrow> Some (writeError [] 503 ''authentication is not configured'', s)
      | Some U \<Rightarrow>
          (case Authenticate U (trim_space (ar_Header req ''X-API-Key'')) of
             Inl e \<Rightarrow> Some (writeError [] 401 (refusal_message e), s)
           | Inr i \<Rightarrow> next_handler (Some i) s))"

definition handle_request :: "'s api_env \<Rightarrow> api_request \<Rightarrow> 's \<Rightarrow> (api_response \<times> 's) option" where
  "handle_request A req s =
     (case match_route req of
        None \<Rightarrow> Some (av_NotRouted A req, s)
      | Some r \<Rightarrow>
          if r = LiveRoute \<or> r = ReadyRoute then serve_route A None req r s
          else requireAPIKey A (\<lambda>i. serve_route A i req r) req s)"

section \<open>Who is served\<close>

lemma handle_request_protected:
  assumes "match_route req = Some r" and "r \<noteq> LiveRoute" and "r \<noteq> ReadyRoute" and "av_auth A = Some U"
  shows "handle_request A req s =
    (case Authenticate U (ar_Header req ''X-API-Key'') of
       Inl e \<Rightarrow> Some (writeError [] 401 (refusal_message e), s)
     | Inr i \<Rightarrow> serve_route A (Some i) req r s)"
  using assms by (simp add: handle_request_def requireAPIKey_def Authenticate_def)

text \<open>C21: nothing is served without a key: when a request for a protected route is answered with anything
  but 401, or changes the state, then it was sent with the plaintext of a configured and active key
  of an active tenant, and it was served as that tenant. (The hash is assumed to have no collisions.)\<close>
theorem api_requires_key:
  assumes "inj hash" and "av_auth A = Some (memory_auth hash keys tenants)"
    and "match_route req = Some r" and "r \<noteq> LiveRoute" and "r \<noteq> ReadyRoute"
    and "handle_request A req s = Some (resp, s')" and "ap_Status resp \<noteq> 401 \<or> s' \<noteq> s"
  shows "\<exists>k t i. k \<in> set keys \<and> t \<in> set tenants \<and>
    ak_Plaintext k = trim_space (ar_Header req ''X-API-Key'') \<and> ak_Plaintext k \<noteq> [] \<and>
    ak_Status k = KeyActive \<and> tenant_Status t = TenantActive \<and> tenant_ID t = ak_TenantID k \<and>
    id_TenantID i = tenant_ID t \<and> serve_route A (Some i) req r s = Some (resp, s')"
proof -
  obtain i where i: "Authenticate (memory_auth hash keys tenants) (ar_Header req ''X-API-Key'') = Inr i"
    and served: "serve_route A (Some i) req r s = Some (resp, s')"
    using assms(6,7) unfolding handle_request_protected [OF assms(3-5,2)]
    by (auto simp: writeError_def writeJSON_def split: sum.splits)
  from Authenticate_holder [OF assms(1) i] show ?thesis
    using served by metis
qed

definition key_request :: "string \<Rightarrow> string list \<Rightarrow> api_request" where
  "key_request key path =
     \<lparr>ar_Method = ''GET'', ar_Path = path, ar_Header = (\<lambda>h. if h = ''X-API-Key'' then key else []),
      ar_Status = [], ar_Body = [], ar_File = Inl (Anonymous ''no file'')\<rparr>"

definition no_health :: "unit health_env" where
  "no_health = \<lparr>he_serviceName = ''api'', he_timeout = 0, he_checkers = [], he_now = (\<lambda>s. (1, s))\<rparr>"

definition key_api :: "unit api_env" where
  "key_api =
     \<lparr>av_auth = Some (memory_auth (\<lambda>x. x) [demo_key] [demo_tenant]), av_health = no_health,
      av_documents = None, av_workflows = None, av_exec = None, av_audit = None, av_now = (\<lambda>s. (1, s)),
      av_fmt = plain_fmt, av_DecodeDefinition = (\<lambda>b. Inl io_EOF),
      av_DecodeExecute = (\<lambda>b. (\<lparr>er_Mode = [], er_Input = [], er_TimeoutMS = 0\<rparr>, Some io_EOF)),
      av_DecodeResume = (\<lambda>b. (\<lparr>rr_Approved = None, rr_Comment = [], rr_Input = []\<rparr>, Some io_EOF)),
      av_DetectContentType = (\<lambda>b. ''text/plain''),
      av_NotRouted = (\<lambda>r. writeError [] 404 ''404 page not found'')\<rparr>"

theorem api_requires_key_witness:
  "\<exists>i resp. id_TenantID i = ''acme'' \<and>
     serve_route key_api (Some i) (key_request '' secret'' [''v1'', ''tenants'', ''me'']) TenantSelfRoute () =
       Some (resp, ()) \<and> ap_Status resp = 200"
proof -
  let ?req = "key_request '' secret'' [''v1'', ''tenants'', ''me'']"
  have trim: "trim_space '' secret'' = ''secret''" "trim_space ''secret'' = ''secret''" by code_simp+
  have route: "match_route ?req = Some TenantSelfRoute"
    by (simp add: match_route_def key_request_def get_route_def)
  have auth: "av_auth key_api = Some (memory_auth (\<lambda>x. x) [demo_key] [demo_tenant])"
    by (simp add: key_api_def)
  obtain i where "Authenticate (memory_auth (\<lambda>x. x) [demo_key] [demo_tenant]) '' secret'' = Inr i"
    using Authenticate_complete [of demo_key "[demo_key]" "\<lambda>x. x" demo_tenant "[demo_tenant]" "'' secret''"]
    by (auto simp: demo_key_def demo_tenant_def trim)
  then have "handle_request key_api ?req () = Some (writeJSON [] 200 (BTenant i), ())"
    using handle_request_protected [OF route _ _ auth, of "()"]
    by (simp add: key_request_def handleTenantSelf_def currentIdentity_def)
  from api_requires_key [OF _ auth route _ _ this] obtain j where "id_TenantID j = ''acme''"
    "serve_route key_api (Some j) ?req TenantSelfRoute () = Some (writeJSON [] 200 (BTenant i), ())"
    by (auto simp: writeJSON_def demo_key_def)
  then show ?thesis by (intro exI [of _ j] exI) (auto simp: writeJSON_def)
qed

section \<open>Readiness\<close>

text \<open>The readiness answer tells the truth: it lists every dependency once and in order, is ready with
  status 200 exactly when each of them is, and not ready with status 503 as soon as one has failed;
  a dependency that is ready is listed without an error.\<close>
theorem readiness_answer:
  assumes "handleReady A s = (resp, s')"
  shows "\<exists>report. ap_Body resp = BReport report \<and>
    map ck_Name (rep_Checks report) = map hc_Name (he_checkers (av_health A)) \<and>
    list_all check_consistent (rep_Checks report) \<and>
    (if list_all (\<lambda>c. ck_Status c = StatusReady) (rep_Checks report)
     then ap_Status resp = 200 \<and> rep_Status report = StatusReady
     else ap_Status resp = 503 \<and> rep_Status report = StatusNotReady)"
  using assms ReadyReport_report [of "av_health A" s]
  by (auto simp: handleReady_def writeJSON_def split: prod.splits)

definition refused_api :: "unit api_env" where
  "refused_api = key_api\<lparr>av_health := no_health\<lparr>he_checkers :=
     [NewTCPChecker (\<lambda>a d s. (Inl (Anonymous ''connection refused''), s)) ''redis'' ''localhost:6379'']\<rparr>\<rparr>"

theorem readiness_answer_witness:
  "\<exists>resp. handleReady refused_api () = (resp, ()) \<and> ap_Status resp = 503"
proof -
  obtain resp where answer: "handleReady refused_api () = (resp, ())"
    by (metis (full_types) old.unit.exhaust surj_pair)
  have "ReadyReport (av_health refused_api) () =
      ((\<lparr>rep_Service = ''api'', rep_Status = StatusNotReady, rep_Timestamp = 1,
         rep_Checks = [\<lparr>ck_Name = ''redis'', ck_Status = StatusNotReady, ck_DurationMS = 0,
           ck_Error = ''connection refused''\<rparr>]\<rparr>, False), ())"
    by (simp add: refused_api_def key_api_def no_health_def ReadyReport_def run_check_def NewTCPChecker_def
        Let_def time_sub_def duration_ms_def)
  then show ?thesis
    using readiness_answer [OF answer] answer by (auto simp: handleReady_def writeJSON_def)
qed

end
