(* ===== verification/Api_Program.thy ===== *)
theory Api_Program
  imports Api Lifecycle
begin

text \<open>
  The API over the program's state, as \<open>cmd/api/main.go\<close> starts it without external dependencies: every
  answered request is a sequence of steps of the program, and what it shows belongs to the tenant
  whose key came with it.
\<close>

section \<open>The handler of the program\<close>

text \<open>What the standard library makes of the bodies and of requests without a pattern.\<close>

record api_lib =
  al_DecodeDefinition :: "string \<Rightarrow> wf_definition result"
  al_DecodeExecute :: "string \<Rightarrow> execute_request \<times> goerr option"
  al_DecodeResume :: "string \<Rightarrow> resume_request \<times> goerr option"
  al_DetectContentType :: "string \<Rightarrow> string"
  al_NotRouted :: "api_request \<Rightarrow> api_response"

definition app_health :: "platform \<Rightarrow> world health_env" where
  "app_health P =
     \<lparr>he_serviceName = ''workflow-api'', he_timeout = milliseconds 750, he_checkers = [],
      he_now = app_now P\<rparr>"

definition app_api :: "platform \<Rightarrow> api_lib \<Rightarrow> api_key list \<Rightarrow> tenant list \<Rightarrow> world api_env" where
  "app_api P L keys tenants =
     \<lparr>av_auth = Some (memory_auth (pf_sha256 P) keys tenants), av_health = app_health P,
      av_documents = Some (app_documents P), av_workflows = Some (app_workflows P),
      av_exec = Some (app_executor P), av_audit = Some (app_audit P), av_now = app_now P,
      av_fmt = pf_fmt P, av_DecodeDefinition = al_DecodeDefinition L,
      av_DecodeExecute = al_DecodeExecute L, av_DecodeResume = al_DecodeResume L,
      av_DetectContentType = al_DetectContentType L, av_NotRouted = al_NotRouted L\<rparr>"

lemma app_api_fields [simp]:
  "av_auth (app_api P L keys tenants) = Some (memory_auth (pf_sha256 P) keys tenants)"
  "av_health (app_api P L keys tenants) = app_health P"
  "av_documents (app_api P L keys tenants) = Some (app_documents P)"
  "av_workflows (app_api P L keys tenants) = Some (app_workflows P)"
  "av_exec (app_api P L keys tenants) = Some (app_executor P)"
  "av_audit (app_api P L keys tenants) = Some (app_audit P)"
  "av_now (app_api P L keys tenants) = app_now P"
  "av_fmt (app_api P L keys tenants) = pf_fmt P"
  "av_NotRouted (app_api P L keys tenants) = al_NotRouted L"
  by (simp_all add: app_api_def)

lemma serviceContext_Some [simp]: "serviceContext (Some x) name (Some i) = Inr (i, x)"
  by (simp add: serviceContext_def currentIdentity_def)

section \<open>Requests as steps of the program\<close>

abbreviation app_steps :: "platform \<Rightarrow> world \<Rightarrow> world \<Rightarrow> bool" where
  "app_steps P \<equiv> (app_step P)\<^sup>*\<^sup>*"

lemma reachable_steps: "app_steps P w w' \<Longrightarrow> reachable P w \<Longrightarrow> reachable P w'"
  by (induction rule: rtranclp_induct) (auto intro: reachable.step)

lemma writeQuotaHeaders_steps:
  "writeQuotaHeaders (app_api P L keys tenants) quota h w = (h', w') \<Longrightarrow> app_steps P w w'"
  by (auto simp: writeQuotaHeaders_def Let_def app_now_def split: if_splits prod.splits
      intro: r_into_rtranclp app_step.observe)

lemma execute_reserved_steps:
  assumes "execute_reserved (app_executor P) t mode k input key fp h w = Some (resp, w')"
  shows "app_steps P w w'"
proof (cases "mode \<noteq> ''sync'' \<and> mode \<noteq> ''async''")
  case False
  let ?run = "if mode = ''sync'' then ExecuteSync (app_executor P) t k input w
    else Some (ExecuteAsync (app_executor P) t k input w)"
  obtain x w1 where run: "?run = Some (x, w1)"
    using assms False by (cases ?run) (auto simp: execute_reserved_def)
  have first: "app_step P w w1"
    using run by (auto split: if_splits intro: app_step.run_sync app_step.run_async)
  have "w' = w1 \<or> (\<exists>e r. StoreIdempotentRun (app_executor P) t key fp r w1 = (e, w'))"
    using assms False run by (auto simp: execute_reserved_def split: sum.splits prod.splits option.splits)
  then show ?thesis
    using first by (meson app_step.store_key converse_rtranclp_into_rtranclp rtranclp.rtrancl_refl)
qed (use assms in \<open>auto simp: execute_reserved_def\<close>)

lemma handleExecute_steps:
  assumes "handleExecuteWorkflow (app_api P L keys tenants) (Some i) req k w = Some (resp, w')"
  shows "app_steps P w w'"
proof -
  let ?A = "app_api P L keys tenants" and ?E = "app_executor P" and ?t = "id_TenantID i"
  obtain quota err w1 where reserve: "ReserveExecution ?E ?t w = ((quota, err), w1)"
    by (metis surj_pair)
  obtain h w2 where quota: "writeQuotaHeaders ?A quota [] w1 = (h, w2)" by fastforce
  have two: "app_steps P w w2"
    using converse_rtranclp_into_rtranclp [OF app_step.reserve [OF reserve] writeQuotaHeaders_steps [OF quota]] .
  have "w' = w \<or> w' = w2 \<or>
      (\<exists>mode input key fp. execute_reserved ?E ?t mode k input key fp h w2 = Some (resp, w'))"
    using assms reserve quota
    by (auto simp: handleExecuteWorkflow_def Let_def split: if_splits sum.splits prod.splits option.splits)
  then show ?thesis
    using two execute_reserved_steps by (metis rtranclp.rtrancl_refl rtranclp_trans)
qed

lemma serve_route_steps:
  assumes "serve_route (app_api P L keys tenants) (Some i) req r w = Some (resp, w')"
  shows "app_steps P w w'"
proof (cases r)
  case (ExecuteWorkflowRoute k)
  then show ?thesis using assms handleExecute_steps by simp
next
  case UploadDocumentRoute
  then show ?thesis
    using assms by (auto simp: handleUploadDocument_def split: sum.splits prod.splits
        intro: r_into_rtranclp app_step.upload)
next
  case CreateWorkflowRoute
  then show ?thesis
    using assms by (auto simp: handleCreateWorkflow_def split: sum.splits prod.splits if_splits
        intro: r_into_rtranclp app_step.define_workflow)
next
  case (ResumeRunRoute k)
  then show ?thesis
    using assms by (auto simp: handleResumeRun_def split: sum.splits prod.splits option.splits
        intro: r_into_rtranclp app_step.resume)
qed (use assms in \<open>auto simp: handleLive_def handleReady_def handleTenantSelf_def currentIdentity_def
      handleGetDocument_def handleGetDocumentChunks_def handleGetWorkflow_def handleValidateWorkflow_def
      handleListRuns_def handleGetRun_def handleGetRunSteps_def handleGetRunEvents_def
      LiveReport_def ReadyReport_def app_health_def app_now_def
      split: sum.splits prod.splits option.splits
      intro: r_into_rtranclp app_step.observe converse_rtranclp_into_rtranclp\<close>)

lemma health_steps:
  "handleLive (app_api P L keys tenants) w = (resp, w') \<Longrightarrow> app_steps P w w'"
  "handleReady (app_api P L keys tenants) w = (resp, w') \<Longrightarrow> app_steps P w w'"
  by (auto simp: handleLive_def handleReady_def LiveReport_def ReadyReport_def app_health_def app_now_def
      split: prod.splits intro: r_into_rtranclp app_step.observe converse_rtranclp_into_rtranclp)

lemma handle_request_steps:
  assumes "handle_request (app_api P L keys tenants) req w = Some (resp, w')"
  shows "app_steps P w w'"
proof (cases "match_route req")
  case (Some r)
  then show ?thesis
    using assms health_steps
    by (auto simp: handle_request_def requireAPIKey_def split: if_splits sum.splits dest: serve_route_steps)
qed (use assms in \<open>simp add: handle_request_def\<close>)

section \<open>What an answer shows\<close>

text \<open>
  Whose data a body shows. Steps carry no tenant: they have to be those of a run the tenant can read.
  Reports, validation results and texts show no stored data of anybody else.
\<close>

fun own_payload :: "world \<Rightarrow> string \<Rightarrow> payload \<Rightarrow> bool" where
  "own_payload w t (BTenant i) \<longleftrightarrow> id_TenantID i = t"
| "own_payload w t (BDocument d) \<longleftrightarrow> doc_TenantID d = t"
| "own_payload w t (BChunks cs) \<longleftrightarrow> list_all (\<lambda>c. chunk_TenantID c = t) cs"
| "own_payload w t (BWorkflow x) \<longleftrightarrow> wf_TenantID x = t"
| "own_payload w t (BRun r) \<longleftrightarrow> run_TenantID r = t"
| "own_payload w t (BRuns rs) \<longleftrightarrow> list_all (\<lambda>r. run_TenantID r = t) rs"
| "own_payload w t (BSteps steps) \<longleftrightarrow>
     (\<exists>k r. run_mem_GetRun t k (w_runs w) = Inr r \<and> run_mem_ListSteps t k (w_runs w) = Inr steps)"
| "own_payload w t (BEvents es) \<longleftrightarrow> list_all (\<lambda>e. event_TenantID e = t) es"
| "own_payload w t (BText text) \<longleftrightarrow> True"
| "own_payload w t (BError text) \<longleftrightarrow> True"
| "own_payload w t (BReport report) \<longleftrightarrow> True"
| "own_payload w t (BValidation v) \<longleftrightarrow> True"

lemma own_errors [simp]:
  "own_payload w t (ap_Body (writeError h st m))"
  "own_payload w t (ap_Body (writeDocumentError e fb))"
  "own_payload w t (ap_Body (writeWorkflowError e fb))"
  "own_payload w t (ap_Body (writeExecutionError h e fb))"
  "ap_Body (writeJSON h st body) = body"
  by (simp_all add: writeDocumentError_def writeWorkflowError_def writeExecutionError_def
      writeMappedError_def writeError_def writeJSON_def split: prod.split)

text \<open>What the services return to a tenant is the tenant's.\<close>

lemma get_own:
  "documents_Get (app_documents P) t k w = Inr d \<Longrightarrow> doc_TenantID d = t"
  "workflows_Get (app_workflows P) t k w = Inr x \<Longrightarrow> wf_TenantID x = t"
  "exec_GetRun (app_executor P) t k w = Inr r \<Longrightarrow> run_TenantID r = t"
  by (auto simp: documents_Get_def app_documents_def doc_mem_GetByID_def app_workflows_Get wf_mem_GetByID_def
      exec_GetRun_def app_executor_fields run_mem_GetRun_def split: if_splits option.splits)

lemma chunks_own:
  "world_ok w \<Longrightarrow> documents_ListChunks (app_documents P) t k w = Inr cs \<Longrightarrow>
     list_all (\<lambda>c. chunk_TenantID c = t) cs"
  by (auto simp: documents_ListChunks_def app_documents_def world_ok_def intro: listed_chunks_own
      split: if_splits)

lemma runs_own:
  "exec_ListRuns (app_executor P) t st w = Inr rs \<Longrightarrow> list_all (\<lambda>r. run_TenantID r = t) rs"
  by (auto simp: exec_ListRuns_def app_executor_fields run_mem_ListRuns_def list_all_iff split: if_splits)

lemma steps_own:
  "exec_ListSteps (app_executor P) t k w = Inr steps \<Longrightarrow> own_payload w t (BSteps steps)"
  by (auto simp: exec_ListSteps_def app_executor_fields run_mem_ListSteps_def run_mem_GetRun_def
      split: if_splits option.splits intro!: exI [of _ k])

lemma events_own:
  "audit_ListRunEvents (app_audit P) t k w = Inr es \<Longrightarrow> list_all (\<lambda>e. event_TenantID e = t) es"
  by (auto simp: audit_ListRunEvents_def app_audit_def audit_mem_ListByRun_def list_all_iff split: if_splits)

lemma created_own:
  "documents_Create (app_documents P) t p w = (Inr d, w') \<Longrightarrow> doc_TenantID d = t"
  "workflows_Create (app_workflows P) t d' w = (Inr (x, v), w') \<Longrightarrow> wf_TenantID x = t"
  by (auto dest: app_documents_Create)
     (auto simp: workflows_Create_def Let_def split: if_splits sum.splits prod.splits option.splits)

lemma executed_own:
  "execute_reserved (app_executor P) t mode k input key fp h w = Some (resp, w') \<Longrightarrow>
     own_payload w' t (ap_Body resp)"
  by (auto simp: execute_reserved_def settled_def split: if_splits option.splits sum.splits prod.splits
      dest!: app.ExecuteSync_settled app.ExecuteAsync_queued)

lemma replay_own:
  "LookupIdempotentRun (app_executor P) t key fp w = Inr (Some r) \<Longrightarrow> run_TenantID r = t"
  by (auto simp: LookupIdempotentRun_def app_executor_fields run_mem_GetRun_def
      split: option.splits sum.splits if_splits)

lemma serve_route_own:
  assumes "world_ok w" and "serve_route (app_api P L keys tenants) (Some i) req r w = Some (resp, w')"
  shows "own_payload w' (id_TenantID i) (ap_Body resp)"
proof (cases r)
  case (ExecuteWorkflowRoute k)
  then show ?thesis
    using assms(2)
    by (auto simp: handleExecuteWorkflow_def Let_def split: if_splits sum.splits prod.splits option.splits
        dest: executed_own replay_own)
next
  case (ResumeRunRoute k)
  have key: "ee_GetRun (app_executor P) t k w = Inr r0 \<Longrightarrow> run_ID r0 = k" for t k r0
    using world_ok_key [OF assms(1)] by (simp add: app_executor_fields)
  show ?thesis
    using assms(2) ResumeRunRoute app.ResumeApproval_settled [OF _ key]
    by (auto simp: handleResumeRun_def settled_def split: sum.splits prod.splits option.splits)
next
  case (GetRunStepsRoute k)
  then show ?thesis
    using assms(2) steps_own by (auto simp: handleGetRunSteps_def split: sum.splits)
qed (use assms in \<open>auto simp: handleLive_def handleReady_def handleTenantSelf_def currentIdentity_def
      handleGetDocument_def handleGetDocumentChunks_def handleGetWorkflow_def handleValidateWorkflow_def
      handleListRuns_def handleGetRun_def handleGetRunEvents_def handleUploadDocument_def
      handleCreateWorkflow_def split: sum.splits prod.splits option.splits if_splits
      dest: get_own chunks_own runs_own events_own created_own\<close>)

lemma serve_route_total: "serve_route (app_api P L keys tenants) (Some i) req r w \<noteq> None"
proof (cases r)
  case (ExecuteWorkflowRoute k)
  have "execute_reserved (app_executor P) t mode k input key fp h w1 \<noteq> None" for t mode input key fp h w1
    by (auto simp: execute_reserved_def ExecuteSync_total split: option.split sum.split prod.split)
  then show ?thesis
    unfolding ExecuteWorkflowRoute serve_route.simps handleExecuteWorkflow_def
    by (auto simp: Let_def split: sum.split prod.split option.split)
next
  case (ResumeRunRoute k)
  then show ?thesis
    by (auto simp: handleResumeRun_def ResumeApproval_total split: sum.split prod.split option.split)
next
  case (GetRunEventsRoute k)
  then show ?thesis by (auto simp: handleGetRunEvents_def split: sum.split)
qed simp_all

section \<open>Idempotent execution\<close>

lemma not_BRun [simp]:
  "ap_Body (writeExecutionError h e fb) \<noteq> BRun r" "ap_Body (writeError h st m) \<noteq> BRun r"
  by (simp_all add: writeExecutionError_def writeMappedError_def writeError_def writeJSON_def split: prod.split)

lemma StoreIdempotentRun_stores:
  assumes "StoreIdempotentRun (app_executor P) t key fp r w = (None, w')"
  shows "w_runs w' = w_runs w" and "trim_space key \<noteq> [] \<Longrightarrow>
    tc_Lookup (w_trigger w') t key fp =
      Inr (Some \<lparr>ir_Fingerprint = fp, ir_RunID = run_ID r, ir_TriggerMode = run_TriggerMode r\<rparr>)"
  using assms tc_Lookup_stored [of "w_trigger w" t key
      "\<lparr>ir_Fingerprint = fp, ir_RunID = run_ID r, ir_TriggerMode = run_TriggerMode r\<rparr>"]
  by (auto simp: StoreIdempotentRun_def app_executor_def app_trigger_def on_trigger_def split: prod.splits)

lemma executed_replays:
  assumes "execute_reserved (app_executor P) t mode k input key fp h w = Some (resp, w')"
    and "ap_Body resp = BRun r" and "trim_space key \<noteq> []"
  shows "LookupIdempotentRun (app_executor P) t key fp w' = Inr (Some r)"
proof -
  have "\<exists>w1. (ExecuteSync (app_executor P) t k input w = Some (Inr r, w1) \<or>
        ExecuteAsync (app_executor P) t k input w = (Inr r, w1)) \<and>
      StoreIdempotentRun (app_executor P) t key fp r w1 = (None, w')"
    using assms(1,2)
    by (auto simp: execute_reserved_def split: if_splits option.splits sum.splits prod.splits)
  then obtain w1 where run: "ExecuteSync (app_executor P) t k input w = Some (Inr r, w1) \<or>
        ExecuteAsync (app_executor P) t k input w = (Inr r, w1)"
    and store: "StoreIdempotentRun (app_executor P) t key fp r w1 = (None, w')"
    by blast
  from run have "run_mem_GetRun t (run_ID r) (w_runs w1) = Inr r"
    by (auto simp: settled_def app_executor_fields
        dest!: app.ExecuteSync_settled app.ExecuteAsync_queued)
  then show ?thesis
    using StoreIdempotentRun_stores [OF store] assms(3)
    by (simp add: LookupIdempotentRun_def app_executor_def app_trigger_def)
qed

lemma execute_replays:
  assumes "handleExecuteWorkflow (app_api P L keys tenants) (Some i) req k w = Some (resp, w')"
    and "ap_Body resp = BRun r" and "trim_space (ar_Header req ''Idempotency-Key'') \<noteq> []"
  shows "handleExecuteWorkflow (app_api P L keys tenants) (Some i) req k w' =
    Some (writeJSON (header_set ''X-Idempotent-Replay'' ''true'' []) (statusCodeForRun r) (BRun r), w')"
proof -
  let ?key = "trim_space (ar_Header req ''Idempotency-Key'')" and ?t = "id_TenantID i"
  obtain request err where decode: "av_DecodeExecute (app_api P L keys tenants) (ar_Body req) = (request, err)"
    by fastforce
  let ?mode = "execution_mode request"
  let ?fp = "executionFingerprint (pf_fmt P) ?mode k (er_Input request)"
  have ok: "\<not> real_error err"
    using assms(1,2) decode by (auto simp: handleExecuteWorkflow_def)
  have "LookupIdempotentRun (app_executor P) ?t ?key ?fp w' = Inr (Some r)"
  proof (cases "LookupIdempotentRun (app_executor P) ?t ?key ?fp w")
    case (Inl e)
    then show ?thesis using assms(1,2) decode ok by (auto simp: handleExecuteWorkflow_def Let_def)
  next
    case (Inr found)
    show ?thesis
    proof (cases found)
      case None
      obtain h w2 where "execute_reserved (app_executor P) ?t ?mode k (er_Input request) ?key ?fp h w2 =
          Some (resp, w')"
        using assms(1,2) decode ok Inr None
        by (auto simp: handleExecuteWorkflow_def Let_def split: prod.splits option.splits)
      from executed_replays [OF this assms(2)] show ?thesis using assms(3) by simp
    next
      case (Some r')
      then show ?thesis using assms(1,2) decode ok Inr by (auto simp: handleExecuteWorkflow_def Let_def)
    qed
  qed
  then show ?thesis using decode ok by (simp add: handleExecuteWorkflow_def Let_def)
qed

lemma handle_request_total: "handle_request (app_api P L keys tenants) req w \<noteq> None"
  using serve_route_total
  by (auto simp: handle_request_def requireAPIKey_def simp del: not_None_eq split: option.split sum.split)

section \<open>Properties\<close>

text \<open>Every HTTP request is answered, and what it does to the state is a sequence of steps of the
  program: the API refines the state machine that the invariants are proved for, and reads the clock
  at most beside it.\<close>
theorem api_refines_program:
  "\<exists>resp w'. handle_request (app_api P L keys tenants) req w = Some (resp, w') \<and> app_steps P w w'"
proof -
  show ?thesis using handle_request_total [of P L keys tenants req w] handle_request_steps by fast
qed

text \<open>C6: an answer shows only the caller's data: in every reachable state, whatever a request asks for,
  the tenant, documents, chunks, workflows, runs, steps and events in its answer are those of the
  tenant that its key authenticates.\<close>
theorem api_shows_own_data:
  assumes "reachable P w" and "match_route req = Some r"
    and "Authenticate (memory_auth (pf_sha256 P) keys tenants) (ar_Header req ''X-API-Key'') = Inr i"
    and "handle_request (app_api P L keys tenants) req w = Some (resp, w')"
  shows "own_payload w' (id_TenantID i) (ap_Body resp)"
proof (cases "r = LiveRoute \<or> r = ReadyRoute")
  case True
  then have "serve_route (app_api P L keys tenants) (Some i) req r w = Some (resp, w')"
    using assms(2,4) by (auto simp: handle_request_def)
  from serve_route_own [OF reachable_ok [OF assms(1)] this] show ?thesis .
next
  case False
  then have "serve_route (app_api P L keys tenants) (Some i) req r w = Some (resp, w')"
    using assms(3,4) handle_request_protected [OF assms(2) _ _ app_api_fields(1)] by simp
  from serve_route_own [OF reachable_ok [OF assms(1)] this] show ?thesis .
qed

text \<open>C31: the runs of other tenants do not exist: asking for such a run, its steps or its events, or
  deciding its approval, is answered exactly like asking for a run that was never created, with 404
  and one and the same text, and changes nothing.\<close>
theorem api_hides_foreign_runs:
  assumes "run_mem_GetRun owner k (w_runs w) = Inr r0" and "owner \<noteq> id_TenantID i"
    and "trim_space (id_TenantID i) \<noteq> []"
    and "al_DecodeResume L (ar_Body req) = (decision, None)" and "rr_Approved decision = Some approved"
    and "r \<in> {GetRunRoute k, GetRunStepsRoute k, GetRunEventsRoute k, ResumeRunRoute k,
           GetRunRoute k', GetRunStepsRoute k', GetRunEventsRoute k', ResumeRunRoute k'}"
    and "map_of (rm_runs (w_runs w)) k' = None"
  shows "serve_route (app_api P L keys tenants) (Some i) req r w =
    Some (writeError [] 404 ''workflow run not found'', w)"
proof -
  have run: "map_of (rm_runs (w_runs w)) k = Some r0" "run_TenantID r0 \<noteq> id_TenantID i"
    using assms(1,2) by (auto simp: run_mem_GetRun_def split: option.splits if_splits)
  have answer: "writeExecutionError [] exec_ErrNotFound fb = writeError [] 404 ''workflow run not found''" for fb
    by (simp add: writeExecutionError_def writeMappedError_def execution_rules_def matchesAny_def
        exec_ErrNotFound_def workflow_ErrNotFound_def)
  show ?thesis
    using assms(3-7) run answer
    by (auto simp: handleGetRun_def handleGetRunSteps_def handleGetRunEvents_def handleResumeRun_def
        exec_GetRun_def exec_ListSteps_def ResumeApproval_def app_executor_fields app_api_def
        run_mem_GetRun_def run_mem_ListSteps_def run_mem_LoadPending_def)
qed

text \<open>C8: an execution with an idempotency key happens once: after a request was answered with a run,
  sending it again gives that same run, marked as a replay, and changes nothing: no node is executed,
  no job is queued and no quota is used.\<close>
theorem idempotent_replay:
  assumes "handleExecuteWorkflow (app_api P L keys tenants) (Some i) req k w = Some (resp, w')"
    and "ap_Body resp = BRun r" and "trim_space (ar_Header req ''Idempotency-Key'') \<noteq> []"
  shows "handleExecuteWorkflow (app_api P L keys tenants) (Some i) req k w' =
    Some (writeJSON (header_set ''X-Idempotent-Replay'' ''true'' []) (statusCodeForRun r) (BRun r), w')"
  by (rule execute_replays [OF assms])

text \<open>A request with an unknown mode is refused only after it has used up quota: the answer is 400,
  no run is created, and yet the tenant has one execution less in its window.\<close>
theorem invalid_mode_uses_quota:
  assumes "al_DecodeExecute L (ar_Body req) = (request, None)"
    and "execution_mode request \<notin> {''sync'', ''async''}"
    and "trim_space (ar_Header req ''Idempotency-Key'') = []" and "trim_space (id_TenantID i) \<noteq> []"
    and "0 < tc_limit (w_trigger w)"
    and "bucket = current_bucket (w_trigger w) (pf_clock P (w_tick w)) (id_TenantID i)"
    and "qb_count bucket < tc_limit (w_trigger w)"
  shows "\<exists>resp w'. handleExecuteWorkflow (app_api P L keys tenants) (Some i) req k w = Some (resp, w') \<and>
    ap_Status resp = 400 \<and> ap_Body resp = BError ''execution mode must be sync or async'' \<and>
    w_runs w' = w_runs w \<and> w_queue w' = w_queue w \<and>
    tc_quotas (w_trigger w') (id_TenantID i) = Some (bucket\<lparr>qb_count := qb_count bucket + 1\<rparr>)"
proof -
  let ?A = "app_api P L keys tenants" and ?t = "id_TenantID i"
  let ?w1 = "(tick w)\<lparr>w_trigger := snd (Allow (w_trigger w) (pf_clock P (w_tick w)) ?t)\<rparr>"
  have allowed: "tc_limit (w_trigger w) \<noteq> 0" "\<not> tc_limit (w_trigger w) \<le> qb_count bucket"
    using assms(5,7) by simp_all
  obtain quota where reserve: "ReserveExecution (app_executor P) ?t w = ((quota, None), ?w1)"
    using assms(4) allowed assms(6)
    by (auto simp: ReserveExecution_def app_executor_def app_trigger_def app_now_def on_trigger_def
        Allow_def Let_def tick_def)
  obtain h w2 where headers: "writeQuotaHeaders ?A quota [] ?w1 = (h, w2)" by fastforce
  have w2: "w2 = ?w1 \<or> w2 = tick ?w1"
    using headers by (auto simp: writeQuotaHeaders_def Let_def app_now_def split: if_splits)
  have "LookupIdempotentRun (app_executor P) ?t [] fp w = Inr None" for fp
    by (simp add: LookupIdempotentRun_def app_executor_def app_trigger_def tc_Lookup_def)
  then have "handleExecuteWorkflow ?A (Some i) req k w =
      Some (writeError h 400 ''execution mode must be sync or async'', w2)"
    using assms(1-3) reserve headers
    by (simp add: handleExecuteWorkflow_def app_api_def real_error_def Let_def execute_reserved_def)
  moreover have "tc_quotas (w_trigger w2) ?t = Some (bucket\<lparr>qb_count := qb_count bucket + 1\<rparr>)"
    "w_runs w2 = w_runs w" "w_queue w2 = w_queue w"
    using w2 allowed assms(6) by (auto simp: Allow_def Let_def tick_def)
  ultimately show ?thesis by (auto simp: writeError_def writeJSON_def)
qed

section \<open>Requests in the small world\<close>

definition demo_lib :: "execute_request \<Rightarrow> api_lib" where
  "demo_lib request =
     \<lparr>al_DecodeDefinition = (\<lambda>b. Inl io_EOF), al_DecodeExecute = (\<lambda>b. (request, None)),
      al_DecodeResume = (\<lambda>b. (\<lparr>rr_Approved = Some True, rr_Comment = [], rr_Input = []\<rparr>, None)),
      al_DetectContentType = (\<lambda>b. ''text/plain''),
      al_NotRouted = (\<lambda>r. writeError [] 404 ''404 page not found'')\<rparr>"

definition demo_execute :: "string \<Rightarrow> execute_request" where
  "demo_execute mode = \<lparr>er_Mode = mode, er_Input = [], er_TimeoutMS = 0\<rparr>"

definition demo_identity :: "string \<Rightarrow> identity" where
  "demo_identity t = \<lparr>id_TenantID = t, id_TenantName = t, id_TenantStatus = TenantActive,
     id_APIKeyID = ''k1'', id_APIKeyLabel = ''main''\<rparr>"

abbreviation demo_api :: "string \<Rightarrow> world api_env" where
  "demo_api mode \<equiv> app_api demo_platform (demo_lib (demo_execute mode)) [demo_key] [demo_tenant]"

lemma demo_auth:
  "\<exists>i. Authenticate (memory_auth hash [demo_key] [demo_tenant]) ''secret'' = Inr i \<and> id_TenantID i = ''acme''"
proof -
  have "trim_space ''secret'' = ''secret''" by code_simp
  then show ?thesis
    using Authenticate_complete [of demo_key "[demo_key]" hash demo_tenant "[demo_tenant]" "''secret''"]
    by (simp add: demo_key_def demo_tenant_def)
qed

theorem api_shows_own_data_witness:
  "\<exists>resp w'. handle_request (demo_api ''sync'') (key_request ''secret'' [''v1'', ''workflow-runs'']) demo_start =
     Some (resp, w') \<and> own_payload w' ''acme'' (ap_Body resp)"
proof -
  let ?req = "key_request ''secret'' [''v1'', ''workflow-runs'']"
  have route: "match_route ?req = Some ListRunsRoute"
    by (simp add: match_route_def key_request_def get_route_def)
  obtain i where i: "id_TenantID i = ''acme''" and auth: "Authenticate
      (memory_auth (pf_sha256 demo_platform) [demo_key] [demo_tenant]) (ar_Header ?req ''X-API-Key'') = Inr i"
    using demo_auth by (auto simp: key_request_def)
  obtain resp w' where answer: "handle_request (demo_api ''sync'') ?req demo_start = Some (resp, w')"
    using handle_request_total [of demo_platform "demo_lib (demo_execute ''sync'')" "[demo_key]" "[demo_tenant]" ?req
        demo_start] by auto
  from api_shows_own_data [OF demo_start_reachable route auth answer] show ?thesis
    using answer i by auto
qed

theorem api_hides_foreign_runs_witness:
  "\<exists>w. serve_route (demo_api ''sync'') (Some (demo_identity ''globex'')) (key_request ''secret'' [])
     (GetRunRoute []) w = Some (writeError [] 404 ''workflow run not found'', w)"
proof -
  obtain r w where run: "ExecuteSync (app_executor demo_platform) ''acme'' [] [] demo_start = Some (Inr r, w)"
    and k: "run_ID r = []"
    by (rule ask_runE)
  have stored: "run_mem_GetRun ''acme'' [] (w_runs w) = Inr r"
    using app.ExecuteSync_settled [OF run] k by (simp add: settled_def app_executor_fields)
  have globex: "trim_space ''globex'' \<noteq> []" by code_simp
  obtain k' where fresh: "map_of (rm_runs (w_runs w)) k' = None"
    using ex_new_if_finite [OF infinite_UNIV_listI finite_dom_map_of]
    by (metis domIff)
  have lib: "al_DecodeResume (demo_lib x) (ar_Body req) =
      (\<lparr>rr_Approved = Some True, rr_Comment = [], rr_Input = []\<rparr>, None)" for x req
    by (simp add: demo_lib_def)
  have other: "''acme'' \<noteq> id_TenantID (demo_identity ''globex'')"
    "trim_space (id_TenantID (demo_identity ''globex'')) \<noteq> []"
    using globex by (simp_all add: demo_identity_def)
  show ?thesis
    by (rule exI, rule api_hides_foreign_runs [OF stored other lib _ _ fresh, where approved = True]) simp_all
qed

theorem invalid_mode_uses_quota_witness:
  "\<exists>resp w'. handleExecuteWorkflow (demo_api ''later'') (Some (demo_identity ''acme'')) (key_request [] []) []
      demo_start = Some (resp, w') \<and>
    ap_Status resp = 400 \<and> tc_quotas (w_trigger w') ''acme'' = Some \<lparr>qb_windowStart = 3, qb_count = 1\<rparr>"
proof -
  have mode: "trim_space ''later'' = ''later''" by code_simp
  have bucket: "current_bucket (w_trigger demo_start) (pf_clock demo_platform (w_tick demo_start)) ''acme'' =
      \<lparr>qb_windowStart = 3, qb_count = 0\<rparr>"
    by (simp add: current_bucket_def demo_start_def start_world_def NewTriggerControl_def zero_bucket_def
        demo_platform_def)
  have full: "0 < tc_limit (w_trigger demo_start)"
    by (simp add: demo_start_def start_world_def NewTriggerControl_def)
  have later: "execution_mode (demo_execute ''later'') \<notin> {''sync'', ''async''}"
    by (simp add: execution_mode_def demo_execute_def mode)
  have lib: "al_DecodeExecute (demo_lib (demo_execute ''later'')) (ar_Body (key_request [] [])) =
      (demo_execute ''later'', None)"
    by (simp add: demo_lib_def)
  have key: "trim_space (ar_Header (key_request [] []) ''Idempotency-Key'') = []"
    by (simp add: key_request_def)
  have acme: "trim_space (id_TenantID (demo_identity ''acme'')) \<noteq> []" "id_TenantID (demo_identity ''acme'') = ''acme''"
    by (simp_all add: demo_identity_def trim_acme)
  from invalid_mode_uses_quota [OF lib later key acme(1) full refl, where P = demo_platform and k = "[]", unfolded acme(2) bucket]
  show ?thesis using full by fastforce
qed

definition key_execute :: "string \<Rightarrow> api_request" where
  "key_execute key = (key_request [] [])\<lparr>ar_Header := (\<lambda>h. if h = ''Idempotency-Key'' then key else [])\<rparr>"

theorem idempotent_replay_witness:
  "\<exists>r w'. handleExecuteWorkflow (demo_api ''sync'') (Some (demo_identity ''acme'')) (key_execute ''k'') [] w' =
    Some (writeJSON (header_set ''X-Idempotent-Replay'' ''true'' []) (statusCodeForRun r) (BRun r), w')"
proof -
  let ?A = "demo_api ''sync''" and ?E = "app_executor demo_platform"
  have trim: "trim_space ''k'' = ''k''" "trim_space ''sync'' = ''sync''" by code_simp+
  obtain quota w1 where reserve: "ReserveExecution ?E ''acme'' demo_start = ((quota, None), w1)"
    and w1: "w_workflows w1 = w_workflows demo_start" "tc_records (w_trigger w1) = Map.empty"
    by (auto simp: ReserveExecution_def trim_acme app_executor_def app_trigger_def demo_effects on_trigger_def
        demo_start_def start_world_def NewTriggerControl_def Allow_def Let_def current_bucket_def zero_bucket_def tick_def)
  obtain h w2 where headers: "writeQuotaHeaders ?A quota [] w1 = (h, w2)" by fastforce
  have w2: "w_workflows w2 = w_workflows w1" "w_trigger w2 = w_trigger w1"
    using headers by (auto simp: writeQuotaHeaders_def Let_def app_now_def tick_def split: if_splits)
  have "w_workflows w2 [] = Some (new_workflow [] ''acme'' ask_flow 2)"
    by (simp add: w1 w2 demo_start_def)
  from ask_run_at [OF this] obtain r w3 where run: "ExecuteSync ?E ''acme'' [] [] w2 = Some (Inr r, w3)"
    and w3: "w_trigger w3 = w_trigger w2" by blast
  have store: "fst (StoreIdempotentRun ?E ''acme'' ''k'' fp r w3) = None" for fp
    by (simp add: StoreIdempotentRun_def app_executor_def app_trigger_def on_trigger_def tc_Store_def trim w3 w2 w1)
  have none: "LookupIdempotentRun ?E ''acme'' ''k'' fp demo_start = Inr None" for fp
    by (simp add: LookupIdempotentRun_def app_executor_def app_trigger_def tc_Lookup_def trim demo_start_def
        start_world_def NewTriggerControl_def)
  have decode: "av_DecodeExecute ?A (ar_Body req) = (demo_execute ''sync'', None)" for req
    by (simp add: app_api_def demo_lib_def)
  obtain w4 where stored: "StoreIdempotentRun ?E ''acme'' ''k''
      (executionFingerprint (pf_fmt demo_platform) ''sync'' [] []) r w3 = (None, w4)"
    using store prod.collapse by metis
  have request: "execution_mode (demo_execute ''sync'') = ''sync''" "er_Input (demo_execute ''sync'') = []"
    "ar_Header (key_execute ''k'') ''Idempotency-Key'' = ''k''" "id_TenantID (demo_identity ''acme'') = ''acme''"
    by (simp_all add: execution_mode_def demo_execute_def trim key_execute_def demo_identity_def)
  have "execute_reserved ?E ''acme'' ''sync'' [] [] ''k''
      (executionFingerprint (pf_fmt demo_platform) ''sync'' [] []) h w2 = Some (writeJSON h 200 (BRun r), w4)"
    by (simp add: execute_reserved_def run stored)
  then have "handleExecuteWorkflow ?A (Some (demo_identity ''acme'')) (key_execute ''k'') [] demo_start =
      Some (writeJSON h 200 (BRun r), w4)"
    by (simp add: handleExecuteWorkflow_def decode real_error_def request trim none reserve headers)
  from idempotent_replay [OF this] show ?thesis by (auto simp: request trim)
qed
end
