(* ===== verification/Run_Frames.thy ===== *)
theory Run_Frames
  imports Api_Program
begin

text \<open>
  What an operation of the program leaves alone: it writes at most one run, of the tenant that it works
  for, whether it succeeds or fails, and only a reservation touches the quotas. Two consequences: deliveries
  of jobs to the worker do not touch runs that are neither queued nor failed, and a tenant gets no more runs through the
  API than its quota allows.
\<close>

section \<open>One run is written\<close>

definition run_owner :: "run_memory \<Rightarrow> string \<Rightarrow> string option" where
  "run_owner m k = map_option run_TenantID (map_of (rm_runs m) k)"

text \<open>Only the run with the id \<open>k\<close> may differ, and it belongs to whom it belonged to or to \<open>t\<close>.\<close>

definition run_change :: "string \<Rightarrow> string \<Rightarrow> run_memory \<Rightarrow> run_memory \<Rightarrow> bool" where
  "run_change t k m m' \<longleftrightarrow>
     (\<forall>c. c \<noteq> k \<longrightarrow> map_of (rm_runs m') c = map_of (rm_runs m) c \<and> rm_steps m' c = rm_steps m c \<and>
        rm_pending m' c = rm_pending m c) \<and>
     (run_owner m' k = run_owner m k \<or> run_owner m' k = Some t)"

definition run_frame :: "string \<Rightarrow> string \<Rightarrow> world \<Rightarrow> world \<Rightarrow> bool" where
  "run_frame t k w w' \<longleftrightarrow> run_change t k (w_runs w) (w_runs w') \<and> w_trigger w' = w_trigger w"

lemma run_change_refl [simp]: "run_change t k m m"
  by (simp add: run_change_def)

lemma run_frame_refl [simp]: "run_frame t k w w"
  by (simp add: run_frame_def)

lemma run_frame_trans: "run_frame t k w w1 \<Longrightarrow> run_frame t k w1 w' \<Longrightarrow> run_frame t k w w'"
  by (auto simp: run_frame_def run_change_def)

lemma run_frame_same:
  "w_runs w1 = w_runs w \<Longrightarrow> w_trigger w1 = w_trigger w \<Longrightarrow> run_frame t k w1 w' \<longleftrightarrow> run_frame t k w w'"
  "w_runs w1 = w_runs w' \<Longrightarrow> w_trigger w1 = w_trigger w' \<Longrightarrow> run_frame t k w w1 \<longleftrightarrow> run_frame t k w w'"
  by (simp_all add: run_frame_def)

lemma run_change_writes:
  assumes "run_TenantID r = t" and "run_ID r = k"
  shows "run_change t k m (snd (run_mem_CreateRun r m))"
    and "run_change t k m (snd (run_mem_UpdateRun r m))"
    and "run_change t k m (snd (run_mem_CompleteRun r steps m))"
    and "run_change t k m (snd (run_mem_SavePending r steps p m))"
  using assms
  by (simp_all add: run_change_def run_owner_def run_mem_CreateRun_def run_mem_UpdateRun_def
      run_mem_CompleteRun_def run_mem_SavePending_def)

text \<open>Writes of the repository never fail.\<close>

lemma app_writes:
  "ee_CreateRun (app_executor P) r w = (None, w\<lparr>w_runs := snd (run_mem_CreateRun r (w_runs w))\<rparr>)"
  "ee_UpdateRun (app_executor P) r w = (None, w\<lparr>w_runs := snd (run_mem_UpdateRun r (w_runs w))\<rparr>)"
  "ee_CompleteRun (app_executor P) r steps w = (None, w\<lparr>w_runs := snd (run_mem_CompleteRun r steps (w_runs w))\<rparr>)"
  "ee_SavePending (app_executor P) r steps p w = (None, w\<lparr>w_runs := snd (run_mem_SavePending r steps p (w_runs w))\<rparr>)"
  by (simp_all add: app_executor_fields on_runs_def run_mem_CreateRun_def run_mem_UpdateRun_def
      run_mem_CompleteRun_def run_mem_SavePending_def)

lemma run_frame_write:
  "run_frame t k w (w1\<lparr>w_runs := m\<rparr>) \<longleftrightarrow> run_change t k (w_runs w) m \<and> w_trigger w1 = w_trigger w"
  by (simp add: run_frame_def)

lemma audit_Record_trigger: "w_trigger (snd (audit_Record (app_audit P) t p w)) = w_trigger w"
  by (auto simp: audit_Record_def app_audit_def lifts app_now_def app_newID_def tick_def split: sum.split prod.split)

interpretation app_frame: effect_frame "app_executor P" "\<lambda>w. (w_runs w, w_trigger w)"
  by unfold_locales
     (auto simp: app_executor_def app_now_def app_newID_def tick_def audit_Record_runs audit_Record_trigger)

lemma frame_effects:
  "app_now P w = (x, w1) \<Longrightarrow> run_frame t k w1 w' \<longleftrightarrow> run_frame t k w w'"
  "app_newID P w = (y, w1) \<Longrightarrow> run_frame t k w1 w' \<longleftrightarrow> run_frame t k w w'"
  "app_now P w = (x, w1) \<Longrightarrow> run_frame t k w0 w1 \<longleftrightarrow> run_frame t k w0 w"
  "app_newID P w = (y, w1) \<Longrightarrow> run_frame t k w0 w1 \<longleftrightarrow> run_frame t k w0 w"
  "run_frame t k (recordAudit (app_executor P) u params w) w' \<longleftrightarrow> run_frame t k w w'"
  "run_frame t k w0 (recordAudit (app_executor P) u params w) \<longleftrightarrow> run_frame t k w0 w"
  by (auto simp: run_frame_def app_now_def app_newID_def tick_def)

lemma complete_run_frame:
  "complete_run (app_executor P) c r steps et msg md w = (x, w') \<Longrightarrow> run_frame (run_TenantID r) (run_ID r) w w'"
  by (auto simp: complete_run_def app_writes frame_effects run_frame_write run_change_writes)

lemma now_frame: "app_now P w = (x, w1) \<Longrightarrow> w_runs w1 = w_runs w \<and> w_trigger w1 = w_trigger w"
  by (auto simp: app_now_def tick_def)

lemma settle_run_frame:
  assumes "settle_run (app_executor P) r st out w = (x, w')"
  shows "run_frame (run_TenantID r) (run_ID r) w w'"
  using assms
  by (auto simp: settle_run_def Let_def complete_run_def app_writes frame_effects run_frame_write run_change_writes
      app_executor_fields(13) split: outcome.splits prod.splits dest!: now_frame)

lemma executeRun_frame:
  assumes "executeRun (app_executor P) r g input st w = Some (x, w')"
  shows "run_frame (run_TenantID r) (run_ID r) w w'"
proof -
  obtain st' out w2 where run:
      "continueExecution (app_executor P) (run_ID r) (run_TenantID r) g input st (recordAudit (app_executor P) (run_TenantID r)
         (newRunAudit r ''run_started'' ''workflow run started'' []) w) = Some ((st', out), w2)"
    and settle: "settle_run (app_executor P) r st' out w2 = (x, w')"
    using assms by (auto simp: executeRun_def Let_def split: option.splits)
  have "w_runs w2 = w_runs w" "w_trigger w2 = w_trigger w"
    using app_frame.continueExecution_obs [OF run] app_frame.recordAudit_obs by force+
  with settle_run_frame [OF settle] show ?thesis by (simp add: run_frame_def)
qed

lemma fail_job_frame:
  "fail_job (app_executor P) c r e w = (x, w') \<Longrightarrow> run_frame (run_TenantID r) (run_ID r) w w'"
  by (auto simp: fail_job_def Let_def app_writes run_frame_write run_change_writes
      app_executor_fields(13) split: prod.splits dest!: now_frame)

lemma mark_frame:
  "MarkAsyncRetry (app_executor P) r delay w = (x, w') \<Longrightarrow> run_frame (run_TenantID r) (run_ID r) w w'"
  "MarkDeadLetter (app_executor P) r w = (x, w') \<Longrightarrow> run_frame (run_TenantID r) (run_ID r) w w'"
  by (auto simp: MarkAsyncRetry_def MarkDeadLetter_def Let_def app_writes frame_effects run_frame_write run_change_writes)

section \<open>Executions\<close>

lemma ExecuteSync_frame:
  assumes "ExecuteSync (app_executor P) t k input w = Some (x, w')"
  shows "\<exists>c. run_frame t c w w'"
proof -
  obtain i w1 where newID: "app_newID P w = (i, w1)" by fastforce
  obtain n w2 where now: "app_now P w1 = (n, w2)" by fastforce
  let ?r = "\<lambda>c. sync_run c t k input n"
  let ?w3 = "\<lambda>c. w2\<lparr>w_runs := snd (run_mem_CreateRun (?r c) (w_runs w2))\<rparr>"
  have created: "run_frame t c w (?w3 c)" for c
    using newID now by (simp add: run_frame_write run_change_writes sync_run_def app_newID_def app_now_def) (auto simp: tick_def run_change_writes)
  consider "w' \<in> {w, w1}" | c where "w' = ?w3 c"
    | c g st where "executeRun (app_executor P) (?r c) g input st (?w3 c) = Some (x, w')"
    using assms newID now
    by (auto simp: ExecuteSync_def Let_def app_writes app_executor_fields(13,14) split: if_splits sum.splits)
  then show ?thesis
  proof cases
    case 1
    then show ?thesis using newID by (auto simp: frame_effects)
  next
    case 3
    from executeRun_frame [OF this] have "run_frame t c (?w3 c) w'" by (simp add: sync_run_def)
    then show ?thesis using created run_frame_trans by blast
  qed (use created in blast)
qed

lemma enqueue_frame: "on_queue f w = (x, w') \<Longrightarrow> w_runs w' = w_runs w \<and> w_trigger w' = w_trigger w"
  by (auto simp: on_queue_def split: prod.splits)

lemma ExecuteAsync_frame:
  assumes "ExecuteAsync (app_executor P) t k input w = (x, w')"
  shows "\<exists>c. run_frame t c w w'"
proof -
  obtain i w1 where newID: "app_newID P w = (i, w1)" by fastforce
  obtain n w2 where now: "app_now P w1 = (n, w2)" by fastforce
  let ?r = "\<lambda>c. queued_run c t k input n"
  let ?w3 = "\<lambda>c. w2\<lparr>w_runs := snd (run_mem_CreateRun (?r c) (w_runs w2))\<rparr>"
  have created: "run_frame t c w (?w3 c)" for c
    using newID now by (simp add: run_frame_write queued_run_def app_newID_def app_now_def) (auto simp: tick_def run_change_writes)
  let ?send = "\<lambda>c. on_queue (mq_Enqueue (pf_ctx_err P) (new_job (?r c) input)) (recordAudit (app_executor P) t
      (newRunAudit (?r c) ''run_queued'' ''async run queued'' []) (?w3 c))"
  have sent: "run_frame t c w w5" if "?send c = (e, w5)" for c e w5
    using created [of c] enqueue_frame [OF that] by (simp add: run_frame_def)
  consider "w' \<in> {w, w1}" | c e where "?send c = (e, w')"
    | c e w5 m w6 er where "?send c = (e, w5)" "app_now P w5 = (m, w6)"
        "w' = w6\<lparr>w_runs := snd (run_mem_CompleteRun ((?r c)\<lparr>run_Status := RunStatusFailed, run_Error := er, run_CompletedAt := m\<rparr>) [] (w_runs w6))\<rparr>"
    using assms newID now
    by (auto simp: ExecuteAsync_def Let_def app_writes app_executor_fields(12-14) split: if_splits sum.splits prod.splits option.splits)
  then show ?thesis
  proof cases
    case 1
    then show ?thesis using newID by (auto simp: frame_effects)
  next
    case 3
    have "run_frame t c w5 w'"
      using now_frame [OF 3(2)] by (simp add: 3(3) run_frame_write queued_run_def run_change_writes)
    then show ?thesis using sent [OF 3(1)] run_frame_trans by blast
  qed (use sent in blast)
qed

lemma ResumeApproval_frame:
  assumes "world_ok w" and "ResumeApproval (app_executor P) t k approved comment input w = Some (x, w')"
  shows "run_frame t k w w'"
proof -
  have load: "run_TenantID r = t \<and> run_ID r = k" if "run_mem_LoadPending t k (w_runs w) = Inr (r, steps, p)" for r steps p
    using that world_ok_key [OF assms(1), of t k r]
    by (auto simp: run_mem_LoadPending_def run_mem_GetRun_def split: option.splits if_splits)
  show ?thesis
    using assms(2)
    by (auto simp: ResumeApproval_def Let_def app_executor_fields(5,13) run_frame_def split: if_splits sum.splits prod.splits
        dest!: load now_frame complete_run_frame executeRun_frame)
qed

section \<open>The worker\<close>

lemma ProcessAsyncJob_frame:
  assumes "world_ok w" and "ProcessAsyncJob (app_executor P) job w = Some (x, w')"
  shows "run_frame (job_TenantID job) (job_RunID job) w w'"
proof -
  have get: "run_TenantID r = job_TenantID job \<and> run_ID r = job_RunID job"
    if "run_mem_GetRun (job_TenantID job) (job_RunID job) (w_runs w) = Inr r" for r
    using that world_ok_key [OF assms(1) that] by (auto simp: run_mem_GetRun_def split: option.splits if_splits)
  show ?thesis
  proof (cases "run_mem_GetRun (job_TenantID job) (job_RunID job) (w_runs w)")
    case (Inr r)
    consider "w' = w" | c e where "fail_job (app_executor P) c r e w = (x, w')"
      | n g w1 w2 r1 i st where "app_now P w = (n, w1)" "r1 = started_run job r n"
          "w2 = w1\<lparr>w_runs := snd (run_mem_UpdateRun r1 (w_runs w1))\<rparr>" "executeRun (app_executor P) r1 g i st w2 = Some (x, w')"
      using assms(2) Inr
      by (auto simp: ProcessAsyncJob_def Let_def app_writes app_executor_fields(6,13) split: if_splits sum.splits prod.splits)
    then show ?thesis
    proof cases
      case 2
      then show ?thesis using fail_job_frame get [OF Inr] by metis
    next
      case 3
      have ids: "run_TenantID r1 = job_TenantID job" "run_ID r1 = job_RunID job"
        using get [OF Inr] by (simp_all add: 3(2) started_run_def)
      have "run_frame (job_TenantID job) (job_RunID job) w w2"
        using now_frame [OF 3(1)] ids by (simp add: 3(3) run_frame_write run_change_writes)
      then show ?thesis using executeRun_frame [OF 3(4)] ids run_frame_trans by metis
    qed simp
  qed (use assms(2) in \<open>auto simp: ProcessAsyncJob_def app_executor_fields(6) split: if_splits\<close>)
qed

lemma ProcessAsyncJob_ids:
  assumes "world_ok w" and "ProcessAsyncJob (app_executor P) job w = Some (Inr r, w')"
  shows "run_TenantID r = job_TenantID job \<and> run_ID r = job_RunID job"
proof -
  have key: "ee_GetRun (app_executor P) (job_TenantID job) (job_RunID job) w = Inr r0 \<Longrightarrow>
      run_ID r0 = job_RunID job \<and> run_TenantID r0 = job_TenantID job" for r0
    using world_ok_key [OF assms(1), of "job_TenantID job" "job_RunID job"]
    by (auto simp: app_executor_fields run_mem_GetRun_def split: option.splits if_splits)
  from app.ProcessAsyncJob_settled [OF assms(2)] key show ?thesis by (auto simp: settled_def split: if_splits)
qed

lemma retry_job_frame:
  "retry_job (app_worker P) job r w = (x, w') \<Longrightarrow> run_frame (run_TenantID r) (run_ID r) w w'"
  by (auto simp: retry_job_def Let_def app_worker_fields run_frame_def split: sum.splits prod.splits option.splits
      dest!: mark_frame enqueue_frame)

text \<open>A turn of the worker writes no run but that of the job it takes, which belongs to the job's tenant.\<close>

lemma ProcessNext_frame:
  assumes "world_ok w" and "ProcessNext (app_worker P) w = Some (x, w')"
  shows "w' = w \<or> (\<exists>job rest. mq_jobs (w_queue w) = job # rest \<and> run_frame (job_TenantID job) (job_RunID job) w w')"
proof (cases "mq_jobs (w_queue w)")
  case Nil
  then show ?thesis using assms(2) by (simp add: ProcessNext_def app_worker_fields on_queue_def mq_Dequeue_def)
next
  case (Cons job rest)
  let ?w1 = "w\<lparr>w_queue := (w_queue w)\<lparr>mq_jobs := rest\<rparr>\<rparr>"
  have deq: "on_queue mq_Dequeue w = (Inr (Some job), ?w1)" using Cons by (simp add: on_queue_def mq_Dequeue_def)
  have ok: "world_ok ?w1" using assms(1) by (simp add: world_ok_def)
  obtain y w2 where run: "ProcessAsyncJob (app_executor P) job ?w1 = Some (y, w2)"
    using ProcessAsyncJob_total [of "app_executor P" job ?w1] by force
  have first: "run_frame (job_TenantID job) (job_RunID job) w w2"
    using ProcessAsyncJob_frame [OF ok run] by (simp add: run_frame_def)
  have "run_frame (job_TenantID job) (job_RunID job) w2 w'"
  proof (cases y)
    case (Inr r)
    have ids: "run_TenantID r = job_TenantID job" "run_ID r = job_RunID job"
      using ProcessAsyncJob_ids [OF ok] run Inr by blast+
    show ?thesis
      using assms(2) run Inr unfolding ids [symmetric]
      by (auto simp: ProcessNext_def app_worker_fields deq split: if_splits sum.splits prod.splits dest: retry_job_frame mark_frame)
  qed (use assms(2) run in \<open>simp add: ProcessNext_def app_worker_fields deq\<close>)
  then show ?thesis using first Cons run_frame_trans by blast
qed

text \<open>
  Deliveries: turns of the worker, in between which the queue may hold whatever it likes, also jobs that were
  taken before.
\<close>

inductive delivery :: "platform \<Rightarrow> world \<Rightarrow> world \<Rightarrow> bool" for P where
  take_job: "ProcessNext (app_worker P) w = Some (x, w') \<Longrightarrow> delivery P w w'"
| deliver: "delivery P w (w\<lparr>w_queue := q\<rparr>)"

lemma job_of_settled_run:
  assumes "run_mem_GetRun (job_TenantID job) (job_RunID job) (w_runs w) = Inr r"
    and "run_Status r \<notin> {RunStatusQueued, RunStatusFailed}" and "mq_jobs (w_queue w) = job # rest"
    and "trim_space (job_TenantID job) \<noteq> []"
  shows "ProcessNext (app_worker P) w = Some ((True, None), w\<lparr>w_queue := (w_queue w)\<lparr>mq_jobs := rest\<rparr>\<rparr>)"
  using assms
  by (simp add: ProcessNext_def app_worker_fields on_queue_def mq_Dequeue_def ProcessAsyncJob_def app_executor_fields)

lemma delivery_keeps:
  assumes "world_ok w" and "run_mem_GetRun t k (w_runs w) = Inr r"
    and "run_Status r \<notin> {RunStatusQueued, RunStatusFailed}" and "delivery P w w'"
  shows "world_ok w' \<and> memory_view t k (w_runs w') = memory_view t k (w_runs w)"
  using assms(4)
proof cases
  case (take_job x)
  have ok: "world_ok w'" by (rule ProcessNext_ok [OF assms(1) take_job])
  from ProcessNext_frame [OF assms(1) take_job] consider "w' = w"
    | job rest where "mq_jobs (w_queue w) = job # rest" "run_frame (job_TenantID job) (job_RunID job) w w'" by blast
  then show ?thesis
  proof cases
    case 2
    show ?thesis
    proof (cases "job_RunID job = k")
      case False
      then have "map_of (rm_runs (w_runs w')) k = map_of (rm_runs (w_runs w)) k \<and>
          rm_steps (w_runs w') k = rm_steps (w_runs w) k \<and> rm_pending (w_runs w') k = rm_pending (w_runs w) k"
        using 2(2) by (simp add: run_frame_def run_change_def)
      then show ?thesis
        using ok by (simp add: memory_view_def run_mem_GetRun_def run_mem_ListSteps_def run_mem_LoadPending_def
            cong: option.case_cong if_cong)
    next
      case True
      let ?w1 = "w\<lparr>w_queue := (w_queue w)\<lparr>mq_jobs := rest\<rparr>\<rparr>"
      have get: "run_mem_GetRun (job_TenantID job) (job_RunID job) (w_runs w) \<in> {Inr r, Inl exec_ErrNotFound}"
        using True assms(2) by (auto simp: run_mem_GetRun_def split: if_splits option.splits)
      have "\<exists>z. ProcessAsyncJob (app_executor P) job ?w1 = Some (z, ?w1) \<and> (z = Inr r \<or> (\<exists>e. z = Inl e))"
        using get assms(3) by (auto simp: ProcessAsyncJob_def app_executor_fields(6))
      then obtain z where run: "ProcessAsyncJob (app_executor P) job ?w1 = Some (z, ?w1)" and z: "z = Inr r \<or> (\<exists>e. z = Inl e)"
        by blast
      have "w' = ?w1"
        using take_job 2(1) run z assms(3) by (auto simp: ProcessNext_def app_worker_fields on_queue_def mq_Dequeue_def)
      then have "w_runs w' = w_runs w" by simp
      then show ?thesis using ok by simp
    qed
  qed (use ok in simp)
qed (use assms(1) in \<open>simp add: world_ok_def\<close>)

lemma deliveries_keep:
  assumes "(delivery P)\<^sup>*\<^sup>* w w'" and "world_ok w" and "run_mem_GetRun t k (w_runs w) = Inr r"
    and "run_Status r \<notin> {RunStatusQueued, RunStatusFailed}"
  shows "world_ok w' \<and> memory_view t k (w_runs w') = memory_view t k (w_runs w)"
  using assms(1)
proof (induction rule: rtranclp_induct)
  case (step w1 w2)
  then have "run_mem_GetRun t k (w_runs w1) = Inr r" using assms(3) by (simp add: memory_view_def)
  from delivery_keeps [OF _ this assms(4) step.hyps(2)] step.IH show ?case by simp
qed (simp add: assms(2))

text \<open>C3: a job that is delivered again does no harm to a run that is neither queued nor failed: however many turns
  the worker takes, whatever jobs the queue holds in between and however often, such a run (it is
  running, waits for an approval, has completed or is dead-lettered), its steps and its pending state stay as
  they are; and when the worker takes a job of that run, the turn succeeds and does nothing but take the job from the
  queue, so no node is executed, no event recorded and no retry scheduled. (Runs that failed are left out: the worker retries them.)\<close>
theorem worker_leaves_settled_runs:
  assumes "reachable P w" and "run_mem_GetRun t k (w_runs w) = Inr r"
    and "run_Status r \<notin> {RunStatusQueued, RunStatusFailed}"
    and "(delivery P)\<^sup>*\<^sup>* w w'" and "mq_jobs (w_queue w') = job # rest"
    and "job_TenantID job = t" and "job_RunID job = k" and "trim_space t \<noteq> []"
  shows "run_mem_GetRun t k (w_runs w') = Inr r \<and>
    run_mem_ListSteps t k (w_runs w') = run_mem_ListSteps t k (w_runs w) \<and>
    run_mem_LoadPending t k (w_runs w') = run_mem_LoadPending t k (w_runs w) \<and>
    ProcessNext (app_worker P) w' = Some ((True, None), w'\<lparr>w_queue := (w_queue w')\<lparr>mq_jobs := rest\<rparr>\<rparr>)"
  using deliveries_keep [OF assms(4) reachable_ok [OF assms(1)] assms(2,3)] assms(2)
    job_of_settled_run [OF _ assms(3,5), of P] assms(6-8)
  by (simp add: memory_view_def)

theorem worker_leaves_settled_runs_witness:
  "\<exists>w w' r. run_Status r = RunStatusWaitingApproval \<and> run_mem_GetRun ''acme'' [] (w_runs w) = Inr r \<and>
     mq_jobs (w_queue w) = [new_job r [], new_job r []] \<and> mq_jobs (w_queue w') = [new_job r []] \<and>
     ProcessNext (app_worker demo_platform) w = Some ((True, None), w') \<and> run_mem_GetRun ''acme'' [] (w_runs w') = Inr r"
proof -
  obtain r0 w where w: "reachable demo_platform w" and jobs: "mq_jobs (w_queue w) = [new_job r0 []]"
    and run: "run_mem_GetRun ''acme'' [] (w_runs w) = Inr r0" "run_Status r0 = RunStatusQueued"
    and r0: "run_ID r0 = []" "run_TenantID r0 = ''acme''" "run_WorkflowID r0 = []"
    and flow: "workflows_Get (app_workflows demo_platform) ''acme'' [] w = Inr (new_workflow [] ''acme'' ask_flow 2)"
    by (rule async_runE)
  let ?job = "new_job r0 []" and ?w1 = "w\<lparr>w_queue := (w_queue w)\<lparr>mq_jobs := []\<rparr>\<rparr>"
  have job: "job_TenantID ?job = ''acme''" "job_RunID ?job = []" "job_WorkflowID ?job = []"
    using r0 by (simp_all add: new_job_def)
  have run1: "run_mem_GetRun ''acme'' [] (w_runs ?w1) = Inr r0"
    "workflows_Get (app_workflows demo_platform) ''acme'' [] ?w1 = Inr (new_workflow [] ''acme'' ask_flow 2)"
    using run flow by (simp_all add: app_workflows_Get trim_acme)
  obtain r w2 where process: "ProcessAsyncJob (app_executor demo_platform) ?job ?w1 = Some (Inr r, w2)"
    and waits: "run_Status r = RunStatusWaitingApproval"
    using async_job_waits [OF run1(1) run(2) run1(2) job] by blast
  have "ProcessNext (app_worker demo_platform) w = Some ((True, None), w2)"
    using jobs process waits by (simp add: ProcessNext_def app_worker_fields on_queue_def mq_Dequeue_def)
  then have w2: "reachable demo_platform w2" by (blast intro: reachable.step [OF w app_step.work])
  have key: "ee_GetRun (app_executor demo_platform) (job_TenantID ?job) (job_RunID ?job) ?w1 = Inr r1 \<Longrightarrow> run_ID r1 = job_RunID ?job" for r1
    using run1(1) job r0(1) by (simp add: app_executor_fields)
  have stored: "run_mem_GetRun ''acme'' [] (w_runs w2) = Inr r" "run_ID r = []" "run_TenantID r = ''acme''"
    using app.ProcessAsyncJob_settled [OF process key] run1(1) run(2) job by (auto simp: settled_def app_executor_fields)
  let ?w3 = "w2\<lparr>w_queue := (w_queue w2)\<lparr>mq_jobs := [new_job r [], new_job r []]\<rparr>\<rparr>"
  let ?w4 = "?w3\<lparr>w_queue := (w_queue ?w3)\<lparr>mq_jobs := [new_job r []]\<rparr>\<rparr>"
  have other: "run_Status r \<notin> {RunStatusQueued, RunStatusFailed}" using waits by simp
  have head: "mq_jobs (w_queue ?w3) = new_job r [] # [new_job r []]" by simp
  have of_run: "job_TenantID (new_job r []) = ''acme''" "job_RunID (new_job r []) = []" "trim_space ''acme'' \<noteq> []"
    using stored by (simp_all add: new_job_def trim_acme)
  have delivered: "(delivery demo_platform)\<^sup>*\<^sup>* w2 ?w3" by (rule r_into_rtranclp, rule delivery.deliver)
  from worker_leaves_settled_runs [OF w2 stored(1) other delivered head of_run]
  have turn: "run_mem_GetRun ''acme'' [] (w_runs ?w3) = Inr r" "ProcessNext (app_worker demo_platform) ?w3 = Some ((True, None), ?w4)"
    by blast+
  then show ?thesis
    using waits by (intro exI [of _ ?w3] exI [of _ ?w4] exI [of _ r]) simp
qed

end
