(* ===== verification/Api_Quota.thy ===== *)
theory Api_Quota
  imports Run_Frames
begin

text \<open>
  The quota of executions behind the whole API: requests of all tenants, turns of the worker and timers,
  in any order. A tenant gets at most as many new runs as its quota has left, because the only
  route that creates runs reserves one execution for each.
\<close>

section \<open>The runs of a tenant\<close>

definition tenant_runs :: "string \<Rightarrow> world \<Rightarrow> string set" where
  "tenant_runs t w = {k \<in> set (map fst (rm_runs (w_runs w))). run_owner (w_runs w) k = Some t}"

lemma tenant_runs_iff [simp]: "k \<in> tenant_runs t w \<longleftrightarrow> run_owner (w_runs w) k = Some t"
  by (auto simp: tenant_runs_def run_owner_def dest: map_of_SomeD) (metis fst_conv image_iff map_of_SomeD)

lemma tenant_runs_finite [simp]: "finite (tenant_runs t w)"
  by (simp add: tenant_runs_def)

lemma run_frame_owners:
  assumes "run_frame u c w w'"
  shows "x \<noteq> c \<Longrightarrow> run_owner (w_runs w') x = run_owner (w_runs w) x"
    and "run_owner (w_runs w') c = run_owner (w_runs w) c \<or> run_owner (w_runs w') c = Some u"
  using assms by (auto simp: run_frame_def run_change_def run_owner_def)

lemma tenant_runs_frame:
  assumes "run_frame u c w w'"
  shows "tenant_runs t w' \<subseteq> (if u = t then insert c (tenant_runs t w) else tenant_runs t w)"
proof
  fix k
  assume "k \<in> tenant_runs t w'"
  then show "k \<in> (if u = t then insert c (tenant_runs t w) else tenant_runs t w)"
    using run_frame_owners(1) [OF assms, of k] run_frame_owners(2) [OF assms] by (cases "k = c") auto
qed

text \<open>Operations on a run that exists create none.\<close>

lemma run_frame_owner:
  assumes "run_frame u c w w'" and "run_owner (w_runs w) c = Some u"
  shows "run_owner (w_runs w') = run_owner (w_runs w)"
proof
  fix k
  show "run_owner (w_runs w') k = run_owner (w_runs w) k"
    using run_frame_owners(1) [OF assms(1), of k] run_frame_owners(2) [OF assms(1)] assms(2) by (cases "k = c") auto
qed

lemma run_frame_trigger: "run_frame u c w w' \<Longrightarrow> w_trigger w' = w_trigger w"
  by (simp add: run_frame_def)

lemma ResumeApproval_owner:
  assumes "world_ok w" and "ResumeApproval (app_executor P) t k approved comment input w = Some (x, w')"
  shows "run_owner (w_runs w') = run_owner (w_runs w) \<and> w_trigger w' = w_trigger w"
proof (cases "run_mem_LoadPending t k (w_runs w)")
  case (Inl e)
  then show ?thesis using assms(2) by (auto simp: ResumeApproval_def app_executor_fields(5) split: if_splits)
next
  case (Inr found)
  then have "run_owner (w_runs w) k = Some t"
    by (auto simp: run_mem_LoadPending_def run_owner_def split: option.splits if_splits)
  with ResumeApproval_frame [OF assms] show ?thesis using run_frame_owner run_frame_trigger by blast
qed

lemma ProcessNext_owner:
  assumes "world_ok w" and "ProcessNext (app_worker P) w = Some (x, w')"
  shows "run_owner (w_runs w') = run_owner (w_runs w) \<and> w_trigger w' = w_trigger w"
proof -
  from ProcessNext_frame [OF assms] consider "w' = w"
    | job rest where "mq_jobs (w_queue w) = job # rest" "run_frame (job_TenantID job) (job_RunID job) w w'" by blast
  then show ?thesis
  proof cases
    case 2
    show ?thesis
    proof (cases "run_mem_GetRun (job_TenantID job) (job_RunID job) (w_runs w)")
      case (Inl e)
      then show ?thesis
        using assms(2) 2(1)
        by (auto simp: ProcessNext_def app_worker_fields on_queue_def mq_Dequeue_def ProcessAsyncJob_def app_executor_fields(6)
            split: if_splits)
    next
      case (Inr r)
      then have "run_owner (w_runs w) (job_RunID job) = Some (job_TenantID job)"
        by (auto simp: run_mem_GetRun_def run_owner_def split: option.splits if_splits)
      then show ?thesis using 2(2) run_frame_owner run_frame_trigger by blast
    qed
  qed simp
qed

section \<open>Uploads and definitions\<close>

lemma build_chunk_list_trigger:
  "build_chunk_list (app_documents P) d t c i parts w = (x, w') \<Longrightarrow> w_trigger w' = w_trigger w"
proof (induction parts arbitrary: i w x w')
  case (Cons p parts)
  obtain k w1 where newID: "de_newID (app_documents P) w = (k, w1)" by fastforce
  have w1: "w_trigger w1 = w_trigger w" using newID by (auto simp: app_documents_def app_newID_def tick_def)
  obtain y w2 where rest: "build_chunk_list (app_documents P) d t c (Suc i) parts w1 = (y, w2)" by fastforce
  from Cons.IH [OF rest] w1 Cons.prems show ?case by (auto simp: newID rest split: sum.splits)
qed simp

lemma documents_Create_trigger:
  assumes "documents_Create (app_documents P) t p w = (x, w')"
  shows "w_trigger w' = w_trigger w"
proof -
  have effects: "de_newID (app_documents P) v = (y, v') \<Longrightarrow> w_trigger v' = w_trigger v"
    "de_now (app_documents P) v = (z, v') \<Longrightarrow> w_trigger v' = w_trigger v"
    "de_Put (app_documents P) f content v = (a, v') \<Longrightarrow> w_trigger v' = w_trigger v"
    "de_Create (app_documents P) d cs v = (b, v') \<Longrightarrow> w_trigger v' = w_trigger v" for v v' y z a b f content d cs
    by (auto simp: app_documents_def app_newID_def app_now_def app_Put_def on_documents_def tick_def split: prod.splits)
  show ?thesis
    using assms
    by (auto simp: documents_Create_def store_document_def buildChunks_def Let_def
        split: if_splits option.splits sum.splits prod.splits dest!: effects build_chunk_list_trigger)
qed

lemma workflows_Create_frame:
  "workflows_Create (app_workflows P) t d w = (x, w') \<Longrightarrow> w_runs w' = w_runs w \<and> w_trigger w' = w_trigger w"
  by (auto simp: workflows_Create_def app_workflows_def Let_def app_newID_def app_now_def on_workflows_def tick_def
      split: if_splits sum.splits prod.splits option.splits)

section \<open>What a request spends\<close>

text \<open>The tenant's bucket has counted at least as many executions as the tenant has new runs.\<close>

definition spent :: "string \<Rightarrow> quota_bucket \<Rightarrow> world \<Rightarrow> world \<Rightarrow> bool" where
  "spent t b w w' \<longleftrightarrow> tc_limit (w_trigger w') = tc_limit (w_trigger w) \<and> tc_window (w_trigger w') = tc_window (w_trigger w) \<and>
     (\<exists>n. tc_quotas (w_trigger w') t = Some (b\<lparr>qb_count := n\<rparr>) \<and> qb_count b \<le> n \<and> n \<le> tc_limit (w_trigger w) \<and>
        int (card (tenant_runs t w' - tenant_runs t w)) \<le> n - qb_count b)"

lemma spent_nothing:
  assumes "tc_quotas (w_trigger w) t = Some b" and "qb_count b \<le> tc_limit (w_trigger w)"
    and "w_trigger w' = w_trigger w" and "run_owner (w_runs w') = run_owner (w_runs w)"
  shows "spent t b w w'"
proof -
  have "tenant_runs t w' - tenant_runs t w = {}" using assms(4) by auto
  then show ?thesis using assms(1-3) by (auto simp: spent_def intro!: exI [of _ "qb_count b"])
qed

lemma spent_trans:
  assumes "spent t b w w1" and "\<And>b1. b1 = b\<lparr>qb_count := qb_count b1\<rparr> \<Longrightarrow> tc_quotas (w_trigger w1) t = Some b1 \<Longrightarrow>
      qb_count b1 \<le> tc_limit (w_trigger w1) \<Longrightarrow> spent t b1 w1 w'"
  shows "spent t b w w'"
proof -
  obtain n where n: "tc_quotas (w_trigger w1) t = Some (b\<lparr>qb_count := n\<rparr>)" "qb_count b \<le> n" "n \<le> tc_limit (w_trigger w)"
      "int (card (tenant_runs t w1 - tenant_runs t w)) \<le> n - qb_count b"
    and same: "tc_limit (w_trigger w1) = tc_limit (w_trigger w)" "tc_window (w_trigger w1) = tc_window (w_trigger w)"
    using assms(1) by (auto simp: spent_def)
  have "spent t (b\<lparr>qb_count := n\<rparr>) w1 w'" by (rule assms(2)) (use n same in simp_all)
  then obtain m where m: "tc_quotas (w_trigger w') t = Some (b\<lparr>qb_count := m\<rparr>)" "n \<le> m" "m \<le> tc_limit (w_trigger w1)"
      "int (card (tenant_runs t w' - tenant_runs t w1)) \<le> m - n"
    and same': "tc_limit (w_trigger w') = tc_limit (w_trigger w1)" "tc_window (w_trigger w') = tc_window (w_trigger w1)"
    by (auto simp: spent_def)
  have "tenant_runs t w' - tenant_runs t w \<subseteq> (tenant_runs t w1 - tenant_runs t w) \<union> (tenant_runs t w' - tenant_runs t w1)"
    by auto
  then have "card (tenant_runs t w' - tenant_runs t w) \<le>
      card (tenant_runs t w1 - tenant_runs t w) + card (tenant_runs t w' - tenant_runs t w1)"
    by (meson card_Un_le card_mono finite_Diff finite_UnI le_trans tenant_runs_finite)
  then have "int (card (tenant_runs t w' - tenant_runs t w)) \<le> m - qb_count b" using n(4) m(4) by linarith
  then show ?thesis using n m same same' by (auto simp: spent_def intro!: exI [of _ m])
qed

text \<open>A reservation, with the tenant's bucket \<open>b\<close> and its window open.\<close>

definition bucket_open :: "platform \<Rightarrow> string \<Rightarrow> quota_bucket \<Rightarrow> world \<Rightarrow> bool" where
  "bucket_open P t b w \<longleftrightarrow> tc_quotas (w_trigger w) t = Some b \<and> qb_windowStart b \<noteq> zero_time \<and>
     qb_count b \<le> tc_limit (w_trigger w) \<and> 0 < tc_limit (w_trigger w) \<and>
     time_sub (pf_clock P (w_tick w)) (qb_windowStart b) < tc_window (w_trigger w)"

lemma ReserveExecution_spends:
  assumes "bucket_open P t b w" and "ReserveExecution (app_executor P) u w = ((quota, err), w1)"
  shows "w_runs w1 = w_runs w \<and> tc_limit (w_trigger w1) = tc_limit (w_trigger w) \<and>
    tc_window (w_trigger w1) = tc_window (w_trigger w) \<and>
    (if u = t \<and> err = None
     then tc_quotas (w_trigger w1) t = Some (b\<lparr>qb_count := qb_count b + 1\<rparr>) \<and> qb_count b < tc_limit (w_trigger w)
     else tc_quotas (w_trigger w1) t = Some b)"
proof -
  let ?now = "pf_clock P (w_tick w)"
  have limit: "tc_limit (w_trigger w) \<noteq> 0" using assms(1) by (auto simp: bucket_open_def)
  have bucket: "current_bucket (w_trigger w) ?now t = b" using assms(1) by (auto simp: bucket_open_def current_bucket_def)
  have quota: "tc_quotas (w_trigger w) t = Some b" using assms(1) by (simp add: bucket_open_def)
  obtain x c where allow: "Allow (w_trigger w) ?now u = (x, c)" by fastforce
  have "trim_space u \<noteq> [] \<Longrightarrow> ReserveExecution (app_executor P) u w = (x, (tick w)\<lparr>w_trigger := c\<rparr>)"
    using limit allow by (simp add: ReserveExecution_def app_executor_def app_trigger_def app_now_def on_trigger_def tick_def)
  moreover have "trim_space u = [] \<Longrightarrow> err \<noteq> None \<and> w1 = w" using assms(2) by (auto simp: ReserveExecution_def)
  ultimately consider "err \<noteq> None" "w1 = w"
    | c where "Allow (w_trigger w) ?now u = ((quota, err), c)" "w1 = (tick w)\<lparr>w_trigger := c\<rparr>"
    using assms(2) allow by fastforce
  then show ?thesis
  proof cases
    case 2
    have c: "tc_limit c = tc_limit (w_trigger w)" "tc_window c = tc_window (w_trigger w)"
      "u \<noteq> t \<Longrightarrow> tc_quotas c t = Some b"
      using 2(1) quota by (auto simp: Allow_def Let_def split: if_splits)
    have "if err = None then tc_quotas c t = Some (b\<lparr>qb_count := qb_count b + 1\<rparr>) \<and> qb_count b < tc_limit (w_trigger w)
        else tc_quotas c t = Some b" if "u = t"
      using 2(1) quota limit bucket that by (auto simp: Allow_def Let_def split: if_splits)
    then show ?thesis using c by (cases "u = t") (auto simp: 2(2))
  qed (use quota in auto)
qed

lemma writeQuotaHeaders_frame:
  "writeQuotaHeaders (app_api P L keys tenants) quota h w = (h', w') \<Longrightarrow> w_runs w' = w_runs w \<and> w_trigger w' = w_trigger w"
  by (auto simp: writeQuotaHeaders_def Let_def app_now_def tick_def split: if_splits)

lemma StoreIdempotentRun_frame:
  assumes "StoreIdempotentRun (app_executor P) t key fp r w = (e, w')"
  shows "w_runs w' = w_runs w \<and> tc_limit (w_trigger w') = tc_limit (w_trigger w) \<and>
    tc_window (w_trigger w') = tc_window (w_trigger w) \<and> tc_quotas (w_trigger w') = tc_quotas (w_trigger w)"
  using assms
  by (auto simp: StoreIdempotentRun_def app_executor_def app_trigger_def on_trigger_def tc_Store_def Let_def
      split: prod.splits if_splits)

lemma execute_reserved_frame:
  assumes "execute_reserved (app_executor P) u mode k input key fp h w = Some (resp, w')"
  shows "\<exists>c. tenant_runs t w' \<subseteq> (if u = t then insert c (tenant_runs t w) else tenant_runs t w)"
    and "tc_limit (w_trigger w') = tc_limit (w_trigger w) \<and> tc_window (w_trigger w') = tc_window (w_trigger w) \<and>
      tc_quotas (w_trigger w') = tc_quotas (w_trigger w)"
proof -
  have "w' = w \<or> (\<exists>c w1. run_frame u c w w1 \<and> (w' = w1 \<or> (\<exists>e r. StoreIdempotentRun (app_executor P) u key fp r w1 = (e, w'))))"
  proof (cases "mode = ''sync'' \<or> mode = ''async''")
    case True
    obtain x w1 where run: "(if mode = ''sync'' then ExecuteSync (app_executor P) u k input w
        else Some (ExecuteAsync (app_executor P) u k input w)) = Some (x, w1)"
      using assms True by (auto simp: execute_reserved_def split: option.splits prod.splits if_splits)
    then obtain c where "run_frame u c w w1"
      using ExecuteSync_frame ExecuteAsync_frame by (metis option.inject)
    moreover have "w' = w1 \<or> (\<exists>e r. StoreIdempotentRun (app_executor P) u key fp r w1 = (e, w'))"
      using assms True run by (auto simp: execute_reserved_def split: sum.splits prod.splits option.splits)
    ultimately show ?thesis by blast
  qed (use assms in \<open>auto simp: execute_reserved_def\<close>)
  then consider "w' = w" | c w1 where "run_frame u c w w1" "w_runs w' = w_runs w1"
      "tc_limit (w_trigger w') = tc_limit (w_trigger w1) \<and> tc_window (w_trigger w') = tc_window (w_trigger w1) \<and>
       tc_quotas (w_trigger w') = tc_quotas (w_trigger w1)"
    using StoreIdempotentRun_frame by blast
  note cases = this
  show "\<exists>c. tenant_runs t w' \<subseteq> (if u = t then insert c (tenant_runs t w) else tenant_runs t w)"
    using cases
  proof cases
    case 2
    have "tenant_runs t w' = tenant_runs t w1" by (auto simp: 2(2))
    then show ?thesis using tenant_runs_frame [OF 2(1), of t] by blast
  qed auto
  show "tc_limit (w_trigger w') = tc_limit (w_trigger w) \<and> tc_window (w_trigger w') = tc_window (w_trigger w) \<and>
      tc_quotas (w_trigger w') = tc_quotas (w_trigger w)"
    using cases run_frame_trigger by cases auto
qed

lemma spent_one:
  assumes "tenant_runs t w' \<subseteq> insert c (tenant_runs t w)" and "qb_count b < tc_limit (w_trigger w)"
    and "tc_quotas (w_trigger w') t = Some (b\<lparr>qb_count := qb_count b + 1\<rparr>)"
    and "tc_limit (w_trigger w') = tc_limit (w_trigger w)" and "tc_window (w_trigger w') = tc_window (w_trigger w)"
  shows "spent t b w w'"
proof -
  have "tenant_runs t w' - tenant_runs t w \<subseteq> {c}" using assms(1) by auto
  then have "card (tenant_runs t w' - tenant_runs t w) \<le> 1" using card_mono [of "{c}"] by fastforce
  then show ?thesis using assms by (auto simp: spent_def intro!: exI [of _ "qb_count b + 1"])
qed

lemma spent_idle:
  assumes "tenant_runs t w' \<subseteq> tenant_runs t w" and "qb_count b \<le> tc_limit (w_trigger w)"
    and "tc_quotas (w_trigger w') t = Some b"
    and "tc_limit (w_trigger w') = tc_limit (w_trigger w)" and "tc_window (w_trigger w') = tc_window (w_trigger w)"
  shows "spent t b w w'"
proof -
  have "tenant_runs t w' - tenant_runs t w = {}" using assms(1) by auto
  then show ?thesis using assms(2-5) by (auto simp: spent_def intro!: exI [of _ "qb_count b"])
qed

lemma handleExecute_spends:
  assumes "bucket_open P t b w" and "handleExecuteWorkflow (app_api P L keys tenants) (Some i) req k w = Some (resp, w')"
  shows "spent t b w w'"
proof -
  let ?A = "app_api P L keys tenants" and ?E = "app_executor P" and ?u = "id_TenantID i"
  have b: "tc_quotas (w_trigger w) t = Some b" "qb_count b \<le> tc_limit (w_trigger w)"
    using assms(1) by (simp_all add: bucket_open_def)
  obtain quota err w1 where reserve: "ReserveExecution ?E ?u w = ((quota, err), w1)" by (metis surj_pair)
  obtain h w2 where headers: "writeQuotaHeaders ?A quota [] w1 = (h, w2)" by fastforce
  note first = ReserveExecution_spends [OF assms(1) reserve]
  note same = writeQuotaHeaders_frame [OF headers]
  have runs: "tenant_runs t w2 = tenant_runs t w" using first same by auto
  consider "w' = w" | "err \<noteq> None" "w' = w2"
    | mode input key fp where "err = None" "execute_reserved ?E ?u mode k input key fp h w2 = Some (resp, w')"
    using assms(2) reserve headers
    by (auto simp: handleExecuteWorkflow_def Let_def split: if_splits sum.splits prod.splits option.splits)
  then show ?thesis
  proof cases
    case 1
    then show ?thesis using b spent_nothing by simp
  next
    case 2
    show ?thesis by (rule spent_idle) (use 2 first same runs b in auto)
  next
    case 3
    note frame = execute_reserved_frame(2) [OF 3(2)]
    obtain c where c: "tenant_runs t w' \<subseteq> (if ?u = t then insert c (tenant_runs t w) else tenant_runs t w)"
      using execute_reserved_frame(1) [OF 3(2), of t] unfolding runs by blast
    show ?thesis
    proof (cases "?u = t")
      case True
      then show ?thesis using c first same frame 3(1) by (intro spent_one [of t w' c]) auto
    next
      case False
      then show ?thesis using c first same frame b by (intro spent_idle) auto
    qed
  qed
qed

lemma health_frame:
  "handleLive (app_api P L keys tenants) w = (resp, w') \<Longrightarrow> w_runs w' = w_runs w \<and> w_trigger w' = w_trigger w"
  "handleReady (app_api P L keys tenants) w = (resp, w') \<Longrightarrow> w_runs w' = w_runs w \<and> w_trigger w' = w_trigger w"
  by (auto simp: handleLive_def handleReady_def LiveReport_def ReadyReport_def app_health_def app_now_def tick_def
      split: prod.splits)

text \<open>All but four routes only read.\<close>

fun writing_route :: "route \<Rightarrow> bool" where
  "writing_route UploadDocumentRoute \<longleftrightarrow> True"
| "writing_route CreateWorkflowRoute \<longleftrightarrow> True"
| "writing_route (ExecuteWorkflowRoute k) \<longleftrightarrow> True"
| "writing_route (ResumeRunRoute k) \<longleftrightarrow> True"
| "writing_route _ \<longleftrightarrow> False"

lemma reading_frame:
  assumes "serve_route (app_api P L keys tenants) (Some i) req r w = Some (resp, w')" and "\<not> writing_route r"
  shows "w_runs w' = w_runs w \<and> w_trigger w' = w_trigger w"
  using assms health_frame
  by (cases r) (auto simp: handleTenantSelf_def currentIdentity_def handleGetDocument_def handleGetDocumentChunks_def
      handleGetWorkflow_def handleValidateWorkflow_def handleListRuns_def handleGetRun_def handleGetRunSteps_def
      handleGetRunEvents_def split: sum.splits prod.splits option.splits)

lemma serve_route_spends:
  assumes "world_ok w" and "bucket_open P t b w"
    and "serve_route (app_api P L keys tenants) (Some i) req r w = Some (resp, w')"
  shows "spent t b w w'"
proof -
  have b: "tc_quotas (w_trigger w) t = Some b" "qb_count b \<le> tc_limit (w_trigger w)"
    using assms(2) by (simp_all add: bucket_open_def)
  note idle = spent_nothing [OF b]
  have reading: "spent t b w w'" if "\<not> writing_route r"
    using idle reading_frame [OF assms(3) that] by simp
  show ?thesis
  proof (cases r)
    case (ExecuteWorkflowRoute k)
    then show ?thesis using assms(3) handleExecute_spends [OF assms(2)] by simp
  next
    case (ResumeRunRoute k)
    then have "w' = w \<or> (\<exists>approved c input x. ResumeApproval (app_executor P) (id_TenantID i) k approved c input w = Some (x, w'))"
      using assms(3) by (auto simp: handleResumeRun_def split: sum.splits prod.splits option.splits)
    then show ?thesis using idle ResumeApproval_owner [OF assms(1)] by auto
  next
    case UploadDocumentRoute
    then have "w' = w \<or> (\<exists>p x. documents_Create (app_documents P) (id_TenantID i) p w = (x, w'))"
      using assms(3) by (auto simp: handleUploadDocument_def split: sum.splits prod.splits)
    then show ?thesis using idle documents_Create_trigger app_documents_Create by (metis (no_types, lifting))
  next
    case CreateWorkflowRoute
    then have "w' = w \<or> (\<exists>d x. workflows_Create (app_workflows P) (id_TenantID i) d w = (x, w'))"
      using assms(3) by (auto simp: handleCreateWorkflow_def split: sum.splits prod.splits if_splits)
    then show ?thesis using idle workflows_Create_frame by metis
  qed (simp_all add: reading)
qed

lemma handle_request_spends:
  assumes "world_ok w" and "bucket_open P t b w" and "handle_request (app_api P L keys tenants) req w = Some (resp, w')"
  shows "spent t b w w'"
proof -
  have b: "tc_quotas (w_trigger w) t = Some b" "qb_count b \<le> tc_limit (w_trigger w)"
    using assms(2) by (simp_all add: bucket_open_def)
  have "(w_runs w' = w_runs w \<and> w_trigger w' = w_trigger w) \<or>
      (\<exists>i r. serve_route (app_api P L keys tenants) (Some i) req r w = Some (resp, w'))"
    using assms(3) health_frame
    by (auto simp: handle_request_def requireAPIKey_def split: option.splits if_splits sum.splits)
  then show ?thesis using spent_nothing [OF b] serve_route_spends [OF assms(1,2)] by metis
qed

section \<open>A window of a tenant\<close>

text \<open>
  What may happen while the window that began at \<open>start\<close> lasts: requests of any tenant that arrive before its end,
  turns of the worker, timers of the queue, and readings of the clock by others.
\<close>

inductive window_move :: "platform \<Rightarrow> world api_env \<Rightarrow> time \<Rightarrow> world \<Rightarrow> world \<Rightarrow> bool" for P A start where
  request: "handle_request A req w = Some (resp, w') \<Longrightarrow>
     time_sub (pf_clock P (w_tick w)) start < tc_window (w_trigger w) \<Longrightarrow> window_move P A start w w'"
| work: "ProcessNext (app_worker P) w = Some (x, w') \<Longrightarrow> window_move P A start w w'"
| fire: "window_move P A start w (w\<lparr>w_queue := mq_fire i (w_queue w)\<rparr>)"
| observe: "window_move P A start w (tick w)"

lemma window_move_ok:
  assumes "window_move P (app_api P L keys tenants) start w w'" and "world_ok w"
  shows "world_ok w'"
  using assms(1)
proof cases
  case (request req resp)
  have "world_ok v'" if "app_steps P v v'" "world_ok v" for v v'
    using that by (induction rule: rtranclp_induct) (auto intro: app_step_ok)
  then show ?thesis using handle_request_steps [OF request(1)] assms(2) by blast
next
  case (work x)
  show ?thesis by (rule ProcessNext_ok [OF assms(2) work])
qed (use assms(2) in \<open>simp_all add: world_ok_def\<close>)

lemma window_move_spends:
  assumes "window_move P (app_api P L keys tenants) (qb_windowStart b) w w'" and "world_ok w"
    and "tc_quotas (w_trigger w) t = Some b" and "qb_windowStart b \<noteq> zero_time"
    and "qb_count b \<le> tc_limit (w_trigger w)" and "0 < tc_limit (w_trigger w)"
  shows "spent t b w w'"
  using assms(1)
proof cases
  case (request req resp)
  have "bucket_open P t b w" using assms(3-6) request(2) by (simp add: bucket_open_def)
  from handle_request_spends [OF assms(2) this request(1)] show ?thesis .
next
  case (work x)
  from ProcessNext_owner [OF assms(2) work] show ?thesis using spent_nothing [OF assms(3,5)] by blast
qed (use spent_nothing [OF assms(3,5)] in \<open>simp_all add: tick_def\<close>)

text \<open>C7: a tenant gets no more runs than its quota allows: while the window of a tenant's bucket lasts, however many
  requests of whatever kind arrive, by this tenant and others, and whatever the worker does in between, the number
  of runs of the tenant that were not there before is at most what the bucket had left. So no request creates
  a run without a reservation, none creates two for one, and neither a resumed run nor a retried job makes
  another run.\<close>
theorem api_executions_within_quota:
  assumes "reachable P w" and "tc_quotas (w_trigger w) t = Some b" and "qb_windowStart b \<noteq> zero_time"
    and "qb_count b \<le> tc_limit (w_trigger w)" and "0 < tc_limit (w_trigger w)"
    and "(window_move P (app_api P L keys tenants) (qb_windowStart b))\<^sup>*\<^sup>* w w'"
  shows "int (card (tenant_runs t w' - tenant_runs t w)) \<le> tc_limit (w_trigger w) - qb_count b"
proof -
  have "world_ok w' \<and> spent t b w w'"
    using assms(6)
  proof (induction rule: rtranclp_induct)
    case base
    then show ?case using reachable_ok [OF assms(1)] spent_nothing [OF assms(2,4)] by simp
  next
    case (step w1 w2)
    have limit: "tc_limit (w_trigger w1) = tc_limit (w_trigger w)" using step.IH by (simp add: spent_def)
    have "spent t b1 w1 w2" if b1: "b1 = b\<lparr>qb_count := qb_count b1\<rparr>" "tc_quotas (w_trigger w1) t = Some b1"
        "qb_count b1 \<le> tc_limit (w_trigger w1)" for b1
    proof (rule window_move_spends)
      have "qb_windowStart b1 = qb_windowStart b" using arg_cong [OF b1(1), of qb_windowStart] by simp
      then show "window_move P (app_api P L keys tenants) (qb_windowStart b1) w1 w2" "qb_windowStart b1 \<noteq> zero_time"
        using step.hyps(2) assms(3) by simp_all
    qed (use step.IH b1 assms(5) limit in simp_all)
    then show ?case using spent_trans step.IH window_move_ok [OF step.hyps(2)] by blast
  qed
  then show ?thesis by (auto simp: spent_def)
qed

theorem api_executions_within_quota_witness:
  "\<exists>w resp w'. handle_request (demo_api ''sync'')
       ((key_request ''secret'' [''v1'', ''workflows'', ''w1'', ''execute''])\<lparr>ar_Method := ''POST''\<rparr>) w = Some (resp, w') \<and>
     tc_quotas (w_trigger w) ''acme'' = Some \<lparr>qb_windowStart = 3, qb_count = 1\<rparr> \<and>
     int (card (tenant_runs ''acme'' w' - tenant_runs ''acme'' w)) \<le> 9"
proof -
  let ?req = "(key_request ''secret'' [''v1'', ''workflows'', ''w1'', ''execute''])\<lparr>ar_Method := ''POST''\<rparr>"
  let ?b = "\<lparr>qb_windowStart = 3, qb_count = 1\<rparr>"
  obtain x w where reserve: "ReserveExecution (app_executor demo_platform) ''acme'' demo_start = (x, w)" by fastforce
  then have w: "tc_quotas (w_trigger w) ''acme'' = Some ?b" "tc_limit (w_trigger w) = 10" "w_tick w = 3"
      "tc_window (w_trigger w) = seconds 60"
    by (auto simp: ReserveExecution_def trim_acme app_executor_def app_trigger_def demo_effects on_trigger_def
        demo_start_def start_world_def NewTriggerControl_def Allow_def Let_def current_bucket_def zero_bucket_def tick_def)
  have reach: "reachable demo_platform w" by (rule reachable.step [OF demo_start_reachable app_step.reserve [OF reserve]])
  obtain resp w' where answer: "handle_request (demo_api ''sync'') ?req w = Some (resp, w')"
    using handle_request_total [of demo_platform "demo_lib (demo_execute ''sync'')" "[demo_key]" "[demo_tenant]" ?req w]
    by auto
  have "time_sub (pf_clock demo_platform (w_tick w)) 3 < tc_window (w_trigger w)"
    by (simp add: w demo_platform_def time_sub_def)
  then have moved: "(window_move demo_platform (demo_api ''sync'') (qb_windowStart ?b))\<^sup>*\<^sup>* w w'"
    using window_move.request [OF answer] by (intro r_into_rtranclp) simp
  have "qb_windowStart ?b \<noteq> zero_time" "qb_count ?b \<le> tc_limit (w_trigger w)" "0 < tc_limit (w_trigger w)"
    by (simp_all add: w)
  from api_executions_within_quota [OF reach w(1) this moved] show ?thesis
    using answer w by (intro exI [of _ w] exI [of _ resp] exI [of _ w']) simp
qed

end
