(* ===== verification/Resp.thy ===== *)
theory Resp
  imports Worker
begin

text \<open>
  The Redis wire protocol of \<open>worker/redis_queue.go\<close>: writing a command and reading the integers,
  arrays and bulk strings of the answers, byte by byte, through a buffered reader.
\<close>

section \<open>Decimal numbers\<close>

text \<open>\<open>strconv.Atoi\<close>: an optional sign and decimal digits, within 64 bits.\<close>

definition is_digit :: "char \<Rightarrow> bool" where
  "is_digit c \<longleftrightarrow> 48 \<le> (of_char c :: nat) \<and> (of_char c :: nat) \<le> 57"

definition digits_value :: "string \<Rightarrow> nat" where
  "digits_value s = foldl (\<lambda>n c. 10 * n + (of_char c - 48)) 0 s"

definition atoi_error :: "string \<Rightarrow> string \<Rightarrow> goerr" where
  "atoi_error s reason =
     Wrapped (''strconv.Atoi: parsing '' @ quote s @ '': '') (Sentinel ''strconv'' reason) []"

definition Atoi :: "string \<Rightarrow> int result" where
  "Atoi s =
     (let negative = (case s of c # cs \<Rightarrow> c = CHR ''-'' | [] \<Rightarrow> False);
          digits = (case s of c # cs \<Rightarrow> if c = CHR ''-'' \<or> c = CHR ''+'' then cs else s | [] \<Rightarrow> []);
          n = (if negative then - int (digits_value digits) else int (digits_value digits))
      in if digits = [] \<or> \<not> list_all is_digit digits then Inl (atoi_error s ''invalid syntax'')
         else if n < - (2 ^ 63) \<or> 2 ^ 63 \<le> n then Inl (atoi_error s ''value out of range'')
         else Inr n)"

lemma digits_value_append [simp]:
  "digits_value (s @ [c]) = 10 * digits_value s + (of_char c - 48)"
  by (simp add: digits_value_def)

lemma digit_char_of: "d < 10 \<Longrightarrow> (of_char (digit_char d) :: nat) = 48 + d"
  by (simp add: digit_char_def)

lemma is_digit_char [simp]: "d < 10 \<Longrightarrow> is_digit (digit_char d)"
  by (simp add: is_digit_def digit_char_of)

lemma nat_str_digits:
  "nat_str n \<noteq> [] \<and> list_all is_digit (nat_str n) \<and> digits_value (nat_str n) = n"
proof (induction n rule: nat_str.induct)
  case (1 n)
  then show ?case
    by (subst (1 2 3) nat_str.simps)
       (auto simp: digit_char_of digits_value_def [of "[_]"])
qed

lemma nat_str_head: "c \<in> set (nat_str n) \<Longrightarrow> is_digit c"
  using nat_str_digits [of n] by (auto simp: list_all_iff)

lemma Atoi_nat_str:
  assumes "n < 2 ^ 63"
  shows "Atoi (nat_str n) = Inr (int n)"
proof -
  obtain c cs where s: "nat_str n = c # cs" using nat_str_digits [of n] by (cases "nat_str n") auto
  have "is_digit c" using nat_str_head [of c n] s by simp
  then have "c \<noteq> CHR ''-''" "c \<noteq> CHR ''+''" by (auto simp: is_digit_def)
  then show ?thesis
    using nat_str_digits [of n] assms by (simp add: Atoi_def s Let_def) 
qed

section \<open>The connection\<close>

text \<open>
  The reader's buffer and the pieces in which the bytes arrive that are not read yet: what one read
  of the connection delivers, at most the 4096 bytes of the buffer. Behind the last piece the
  connection is at its end.
\<close>

record redis_conn =
  rc_buf :: string
  rc_segs :: "string list"

datatype 'a reading =
    Value 'a
  | Failure goerr
  | Panic

definition crlf :: string where
  "crlf = [CHR 0x0D, CHR 0x0A]"

text \<open>\<open>ReadByte\<close>, \<open>Read\<close> with room for \<open>n\<close> bytes, and \<open>ReadString\<close> of a line feed.\<close>

fun fill :: "string \<Rightarrow> string list \<Rightarrow> redis_conn" where
  "fill buf segs =
     (if buf = [] then (case segs of
          [] \<Rightarrow> \<lparr>rc_buf = [], rc_segs = []\<rparr>
        | seg # rest \<Rightarrow> if seg = [] then fill [] rest else \<lparr>rc_buf = seg, rc_segs = rest\<rparr>)
      else \<lparr>rc_buf = buf, rc_segs = segs\<rparr>)"

declare fill.simps [simp del]

definition read_byte :: "redis_conn \<Rightarrow> char result \<times> redis_conn" where
  "read_byte c =
     (let c1 = fill (rc_buf c) (rc_segs c) in
      case rc_buf c1 of [] \<Rightarrow> (Inl io_EOF, c1) | b # bs \<Rightarrow> (Inr b, c1\<lparr>rc_buf := bs\<rparr>))"

definition read_some :: "nat \<Rightarrow> redis_conn \<Rightarrow> string result \<times> redis_conn" where
  "read_some n c =
     (if n = 0 then (Inr [], c)
      else let c1 = fill (rc_buf c) (rc_segs c) in
      if rc_buf c1 = [] then (Inl io_EOF, c1)
      else (Inr (take n (rc_buf c1)), c1\<lparr>rc_buf := drop n (rc_buf c1)\<rparr>))"

fun read_string :: "string \<Rightarrow> string list \<Rightarrow> string result \<times> redis_conn" where
  "read_string buf segs =
     (if CHR 0x0A \<in> set buf
      then (Inr (takeWhile (\<lambda>b. b \<noteq> CHR 0x0A) buf @ [CHR 0x0A]),
            \<lparr>rc_buf = tl (dropWhile (\<lambda>b. b \<noteq> CHR 0x0A) buf), rc_segs = segs\<rparr>)
      else case segs of
        [] \<Rightarrow> (Inl io_EOF, \<lparr>rc_buf = [], rc_segs = []\<rparr>)
      | seg # rest \<Rightarrow> read_string (buf @ seg) rest)"

declare read_string.simps [simp del]

section \<open>Writing commands\<close>

definition resp_bulk :: "string \<Rightarrow> string" where
  "resp_bulk value = ''$'' @ nat_str (length value) @ crlf @ value @ crlf"

definition resp_array :: "string list \<Rightarrow> string" where
  "resp_array values = ''*'' @ nat_str (length values) @ crlf @ concat (map resp_bulk values)"

section \<open>Reading answers\<close>

text \<open>The two calls of \<open>strings.TrimSuffix\<close>.\<close>

definition trim_suffix :: "string \<Rightarrow> string \<Rightarrow> string" where
  "trim_suffix s suffix = (if has_suffix s suffix then take (length s - length suffix) s else s)"

definition readRESPLine :: "redis_conn \<Rightarrow> string reading \<times> redis_conn" where
  "readRESPLine c =
     (case read_string (rc_buf c) (rc_segs c) of
        (Inl e, c1) \<Rightarrow> (Failure (wrap ''read redis line'' e), c1)
      | (Inr line, c1) \<Rightarrow> (Value (trim_suffix (trim_suffix line [CHR 0x0A]) [CHR 0x0D]), c1))"

text \<open>The text of \<open>%q\<close> for a byte.\<close>

definition quote_byte :: "char \<Rightarrow> string" where
  "quote_byte b = [CHR 0x27] @ (if b = CHR 0x27 \<or> b = CHR 0x5C then [CHR 0x5C, b] else [b]) @ [CHR 0x27]"

definition readRESPInteger :: "redis_conn \<Rightarrow> int reading \<times> redis_conn" where
  "readRESPInteger c =
     (case read_byte c of
        (Inl e, c1) \<Rightarrow> (Failure (wrap ''read redis integer prefix'' e), c1)
      | (Inr b, c1) \<Rightarrow>
          if b \<noteq> CHR '':'' then (Failure (Anonymous (''unexpected redis integer prefix '' @ quote_byte b)), c1)
          else (case readRESPLine c1 of
              (Failure e, c2) \<Rightarrow> (Failure e, c2)
            | (Panic, c2) \<Rightarrow> (Panic, c2)
            | (Value line, c2) \<Rightarrow>
                (case Atoi line of
                   Inl e \<Rightarrow> (Failure (wrap ''parse redis integer'' e), c2)
                 | Inr n \<Rightarrow> (Value n, c2))))"

text \<open>
  A bulk string is read with one \<open>Read\<close> into a buffer for it and its line end. What that read does not
  deliver stays zero in the buffer. A negative length panics, as the length of the buffer or as the
  bound of the slice.
\<close>

definition readRESPBulkString :: "redis_conn \<Rightarrow> string option reading \<times> redis_conn" where
  "readRESPBulkString c =
     (case read_byte c of
        (Inl e, c1) \<Rightarrow> (Failure (wrap ''read redis bulk string prefix'' e), c1)
      | (Inr b, c1) \<Rightarrow>
          if b \<noteq> CHR ''$''
          then (Failure (Anonymous (''unexpected redis bulk string prefix '' @ quote_byte b)), c1)
          else (case readRESPLine c1 of
              (Failure e, c2) \<Rightarrow> (Failure e, c2)
            | (Panic, c2) \<Rightarrow> (Panic, c2)
            | (Value line, c2) \<Rightarrow>
                if line = ''-1'' then (Value None, c2)
                else (case Atoi line of
                    Inl e \<Rightarrow> (Failure (wrap ''parse redis bulk string length'' e), c2)
                  | Inr n \<Rightarrow>
                      if n + 2 < 0 then (Panic, c2)
                      else (case read_some (nat (n + 2)) c2 of
                          (Inl e, c3) \<Rightarrow> (Failure (wrap ''read redis bulk string payload'' e), c3)
                        | (Inr got, c3) \<Rightarrow>
                            if n < 0 then (Panic, c3)
                            else
                              let buffer = got @ replicate (nat (n + 2) - length got) (CHR 0x00)
                              in (Value (Some (take (nat n) buffer)), c3)))))"

fun read_bulks :: "nat \<Rightarrow> string list \<Rightarrow> redis_conn \<Rightarrow> string list option reading \<times> redis_conn" where
  "read_bulks 0 values c = (Value (Some values), c)"
| "read_bulks (Suc n) values c =
     (case readRESPBulkString c of
        (Failure e, c1) \<Rightarrow> (Failure e, c1)
      | (Panic, c1) \<Rightarrow> (Panic, c1)
      | (Value None, c1) \<Rightarrow> (Value None, c1)
      | (Value (Some v), c1) \<Rightarrow> read_bulks n (values @ [v]) c1)"

definition readRESPArray :: "redis_conn \<Rightarrow> string list option reading \<times> redis_conn" where
  "readRESPArray c =
     (case read_byte c of
        (Inl e, c1) \<Rightarrow> (Failure (wrap ''read redis array prefix'' e), c1)
      | (Inr b, c1) \<Rightarrow>
          if b \<noteq> CHR ''*'' then (Failure (Anonymous (''unexpected redis array prefix '' @ quote_byte b)), c1)
          else (case readRESPLine c1 of
              (Failure e, c2) \<Rightarrow> (Failure e, c2)
            | (Panic, c2) \<Rightarrow> (Panic, c2)
            | (Value line, c2) \<Rightarrow>
                if line = ''-1'' then (Value None, c2)
                else (case Atoi line of
                    Inl e \<Rightarrow> (Failure (wrap ''parse redis array length'' e), c2)
                  | Inr n \<Rightarrow> if n < 0 then (Panic, c2) else read_bulks (nat n) [] c2)))"

section \<open>Reading back what was written\<close>

lemma fill_Nil [simp]: "seg \<noteq> [] \<Longrightarrow> fill [] (seg # segs) = \<lparr>rc_buf = seg, rc_segs = segs\<rparr>"
  by (simp add: fill.simps)

lemma fill_buf [simp]: "buf \<noteq> [] \<Longrightarrow> fill buf segs = \<lparr>rc_buf = buf, rc_segs = segs\<rparr>"
  by (simp add: fill.simps)

lemma read_byte_buf [simp]:
  "read_byte \<lparr>rc_buf = b # bs, rc_segs = segs\<rparr> = (Inr b, \<lparr>rc_buf = bs, rc_segs = segs\<rparr>)"
  by (simp add: read_byte_def)

lemma trim_suffix_append [simp]: "trim_suffix (s @ suffix) suffix = s"
  by (auto simp: trim_suffix_def has_suffix_def)

lemma readRESPLine_buf:
  assumes "CHR 0x0A \<notin> set line"
  shows "readRESPLine \<lparr>rc_buf = line @ crlf @ rest, rc_segs = segs\<rparr> =
    (Value line, \<lparr>rc_buf = rest, rc_segs = segs\<rparr>)"
proof -
  have take: "takeWhile (\<lambda>b. b \<noteq> CHR 0x0A) (line @ crlf @ rest) = line @ [CHR 0x0D]"
    and drop: "dropWhile (\<lambda>b. b \<noteq> CHR 0x0A) (line @ crlf @ rest) = CHR 0x0A # rest"
    using assms by (auto simp: crlf_def takeWhile_append dropWhile_append)
  have "trim_suffix (trim_suffix (line @ [CHR 0x0D, CHR 0x0A]) [CHR 0x0A]) [CHR 0x0D] = line"
    using trim_suffix_append [of "line @ [CHR 0x0D]" "[CHR 0x0A]"] trim_suffix_append [of line] by simp
  then show ?thesis
    unfolding readRESPLine_def redis_conn.simps
    by (subst read_string.simps) (simp add: take drop, simp add: crlf_def)
qed

lemma nat_str_line:
  "CHR 0x0A \<notin> set (nat_str n)" "nat_str n \<noteq> ''-1''"
proof -
  have "\<not> is_digit (CHR 0x0A)" "\<not> is_digit CHR ''-''" by (simp_all add: is_digit_def)
  then show "CHR 0x0A \<notin> set (nat_str n)" "nat_str n \<noteq> ''-1''"
    using nat_str_head [of _ n] by (blast, metis list.set_intros(1))
qed

lemma readRESPInteger_buf:
  "n < 2 ^ 63 \<Longrightarrow> readRESPInteger \<lparr>rc_buf = '':'' @ nat_str n @ crlf @ rest, rc_segs = segs\<rparr> =
     (Value (int n), \<lparr>rc_buf = rest, rc_segs = segs\<rparr>)"
  by (simp add: readRESPInteger_def readRESPLine_buf nat_str_line Atoi_nat_str)

lemma read_some_buf:
  "0 < n \<Longrightarrow> buf \<noteq> [] \<Longrightarrow> read_some n \<lparr>rc_buf = buf, rc_segs = segs\<rparr> =
     (Inr (take n buf), \<lparr>rc_buf = drop n buf, rc_segs = segs\<rparr>)"
  by (simp add: read_some_def)

text \<open>One read delivers what is in the buffer: all of the payload, or as much as has arrived.\<close>

lemma readRESPBulkString_buf:
  assumes "length v < 2 ^ 63" and "payload \<noteq> []"
  shows "readRESPBulkString \<lparr>rc_buf = ''$'' @ nat_str (length v) @ crlf @ payload, rc_segs = segs\<rparr> =
    (Value (Some (take (length v) (take (length v + 2) payload @
       replicate (length v + 2 - length payload) (CHR 0x00)))),
     \<lparr>rc_buf = drop (length v + 2) payload, rc_segs = segs\<rparr>)"
proof -
  have "nat (int (length v) + 2) = length v + 2" by simp
  then show ?thesis
    using assms
    by (simp add: readRESPBulkString_def readRESPLine_buf nat_str_line Atoi_nat_str read_some_buf Let_def
        min_def)
qed

lemma readRESPBulkString_whole:
  assumes "length v < 2 ^ 63"
  shows "readRESPBulkString \<lparr>rc_buf = resp_bulk v @ rest, rc_segs = segs\<rparr> =
    (Value (Some v), \<lparr>rc_buf = rest, rc_segs = segs\<rparr>)"
  using readRESPBulkString_buf [OF assms, of "v @ crlf @ rest" segs]
  by (simp add: resp_bulk_def crlf_def)

lemma read_bulks_whole:
  "list_all (\<lambda>v. length v < 2 ^ 63) vs \<Longrightarrow>
     read_bulks (length vs) acc \<lparr>rc_buf = concat (map resp_bulk vs) @ rest, rc_segs = segs\<rparr> =
       (Value (Some (acc @ vs)), \<lparr>rc_buf = rest, rc_segs = segs\<rparr>)"
  by (induction vs arbitrary: acc) (simp_all add: readRESPBulkString_whole)

lemma readRESPArray_whole:
  assumes "length vs < 2 ^ 63" and "list_all (\<lambda>v. length v < 2 ^ 63) vs"
  shows "readRESPArray \<lparr>rc_buf = resp_array vs @ rest, rc_segs = segs\<rparr> =
    (Value (Some vs), \<lparr>rc_buf = rest, rc_segs = segs\<rparr>)"
  using read_bulks_whole [OF assms(2), of "[]" rest segs] assms(1)
  by (simp add: readRESPArray_def resp_array_def readRESPLine_buf nat_str_line Atoi_nat_str)

lemma first_segment:
  assumes "seg \<noteq> []"
  shows "readRESPArray \<lparr>rc_buf = [], rc_segs = seg # segs\<rparr> = readRESPArray \<lparr>rc_buf = seg, rc_segs = segs\<rparr>"
    and "readRESPInteger \<lparr>rc_buf = [], rc_segs = seg # segs\<rparr> = readRESPInteger \<lparr>rc_buf = seg, rc_segs = segs\<rparr>"
  using assms by (simp_all add: readRESPArray_def readRESPInteger_def read_byte_def)

section \<open>Properties\<close>

text \<open>What is written in the protocol is what is read: an array of any strings, line ends and all
  bytes included, that arrives in one piece is read back unchanged, with nothing of what follows it
  consumed.\<close>
theorem resp_array_roundtrip:
  assumes "length values < 2 ^ 63" and "list_all (\<lambda>v. length v < 2 ^ 63) values"
  shows "readRESPArray \<lparr>rc_buf = [], rc_segs = (resp_array values @ rest) # segs\<rparr> =
    (Value (Some values), \<lparr>rc_buf = rest, rc_segs = segs\<rparr>)"
proof -
  have "resp_array values @ rest \<noteq> []" by (simp add: resp_array_def)
  from first_segment(1) [OF this] show ?thesis using readRESPArray_whole [OF assms] by simp
qed

theorem resp_array_roundtrip_witness:
  "readRESPArray \<lparr>rc_buf = [], rc_segs = [resp_array [''LPUSH'', [CHR 0x0D, CHR 0x0A]] @ ''*'']\<rparr> =
    (Value (Some [''LPUSH'', [CHR 0x0D, CHR 0x0A]]), \<lparr>rc_buf = ''*'', rc_segs = []\<rparr>)"
  by (rule resp_array_roundtrip) simp_all

text \<open>An answer that arrives in two pieces is corrupted: when a bulk string breaks off inside its
  payload, the rest of it is replaced by zero bytes without an error, and the bytes that arrive later
  are taken for the next answer.\<close>
theorem split_bulk_corrupted:
  assumes "length (first_part @ second_part) < 2 ^ 63" and "first_part \<noteq> []"
  shows "readRESPBulkString
      \<lparr>rc_buf = ''$'' @ nat_str (length (first_part @ second_part)) @ crlf @ first_part,
       rc_segs = (second_part @ crlf) # segs\<rparr> =
    (Value (Some (first_part @ replicate (length second_part) (CHR 0x00))),
     \<lparr>rc_buf = [], rc_segs = (second_part @ crlf) # segs\<rparr>)"
proof -
  have "take n (c # c # replicate n c) = replicate n c" for n and c :: char
    using take_replicate [of n "Suc (Suc n)" c] by (simp add: min_def)
  then show ?thesis
    using readRESPBulkString_buf [OF assms, of "(second_part @ crlf) # segs"] by simp
qed

theorem split_bulk_corrupted_witness:
  "readRESPBulkString \<lparr>rc_buf = ''$'' @ nat_str 4 @ crlf @ ''jo'', rc_segs = [''bs'' @ crlf]\<rparr> =
    (Value (Some [CHR ''j'', CHR ''o'', CHR 0x00, CHR 0x00]), \<lparr>rc_buf = [], rc_segs = [''bs'' @ crlf]\<rparr>)"
proof -
  have length: "length (''jo'' @ ''bs'') = 4" "replicate (length ''bs'') (CHR 0x00) = [CHR 0x00, CHR 0x00]"
    by simp_all
  show ?thesis using split_bulk_corrupted [of "''jo''" "''bs''" "[]", unfolded length] by simp
qed

end
