(* ===== verification/Redis.thy ===== *)
theory Redis
  imports Resp
begin

text \<open>
  The Redis job queue (\<open>worker/redis_queue.go\<close>): a list of waiting jobs and a sorted set of delayed
  ones, kept by a server that is a parameter. What the code relies on of it is stated as \<open>serves\<close>.
\<close>

section \<open>The queue\<close>

record redis_queue =
  rk_addr :: string
  rk_key :: string
  rk_delayedKey :: string
  rk_dialTimeout :: duration

definition NewRedisQueue :: "string \<Rightarrow> string \<Rightarrow> redis_queue" where
  "NewRedisQueue addr key0 =
     (let key = (if trim_space key0 = [] then ''workflow:jobs:async'' else key0) in
      \<lparr>rk_addr = trim_space addr, rk_key = key, rk_delayedKey = key @ '':delayed'',
       rk_dialTimeout = seconds 2\<rparr>)"

text \<open>
  The queue's surroundings: dialling; sending bytes through the buffered writer, which gives the call
  that failed with its error, or the pieces in which the answer arrives; the clock; and the decoder.
\<close>

record 's redis_env =
  rd_queue :: redis_queue
  rd_fmt :: gofmt
  rd_dial :: "redis_queue \<Rightarrow> 's \<Rightarrow> goerr option \<times> 's"
  rd_send :: "string \<Rightarrow> 's \<Rightarrow> ((string \<times> goerr) option \<times> string list) \<times> 's"
  rd_now :: "'s \<Rightarrow> time \<times> 's"
  rd_Unmarshal :: "string \<Rightarrow> async_job result"

definition json_job :: "gofmt \<Rightarrow> async_job \<Rightarrow> string" where
  "json_job F job = json_struct
     ([(''run_id'', json_string (job_RunID job)), (''tenant_id'', json_string (job_TenantID job)),
       (''workflow_id'', json_string (job_WorkflowID job)), (''attempt'', int_str (job_Attempt job)),
       (''max_attempts'', int_str (job_MaxAttempts job))] @
      (if job_Input job = [] then [] else [(''input'', json_marshal F (VMap (job_Input job)))]))"

definition unix_millis :: "time \<Rightarrow> int" where
  "unix_millis t = t div 1000000 - 62135596800000"

definition new_conn :: redis_conn where
  "new_conn = \<lparr>rc_buf = [], rc_segs = []\<rparr>"

definition redis_connect :: "'s redis_env \<Rightarrow> 's \<Rightarrow> redis_conn result \<times> 's" where
  "redis_connect E s =
     (case rd_dial E (rd_queue E) s of
        (Some e, s1) \<Rightarrow> (Inl (wrap ''connect redis queue'' e), s1)
      | (None, s1) \<Rightarrow> (Inr new_conn, s1))"

text \<open>Writing a command: the error, or the connection on which the answer arrives.\<close>

definition writeRESPArray ::
    "'s redis_env \<Rightarrow> string list \<Rightarrow> redis_conn \<Rightarrow> 's \<Rightarrow> (goerr option \<times> redis_conn) \<times> 's" where
  "writeRESPArray E args c s =
     (case rd_send E (resp_array args) s of
        ((Some (stage, e), segs), s1) \<Rightarrow> ((Some (wrap stage e), c), s1)
      | ((None, segs), s1) \<Rightarrow> ((None, c\<lparr>rc_segs := rc_segs c @ segs\<rparr>), s1))"

text \<open>A command that is answered by an integer, and one that is answered by an array.\<close>

definition ask_integer ::
    "'s redis_env \<Rightarrow> string list \<Rightarrow> redis_conn \<Rightarrow> 's \<Rightarrow> (int reading \<times> redis_conn) \<times> 's" where
  "ask_integer E args c s =
     (case writeRESPArray E args c s of
        ((Some e, c1), s1) \<Rightarrow> ((Failure e, c1), s1)
      | ((None, c1), s1) \<Rightarrow> (readRESPInteger c1, s1))"

definition ask_array ::
    "'s redis_env \<Rightarrow> string list \<Rightarrow> redis_conn \<Rightarrow> 's \<Rightarrow> (string list option reading \<times> redis_conn) \<times> 's" where
  "ask_array E args c s =
     (case writeRESPArray E args c s of
        ((Some e, c1), s1) \<Rightarrow> ((Failure e, c1), s1)
      | ((None, c1), s1) \<Rightarrow> (readRESPArray c1, s1))"

definition store_command :: "'s redis_env \<Rightarrow> string list \<Rightarrow> 's \<Rightarrow> unit reading \<times> 's" where
  "store_command E args s =
     (case redis_connect E s of
        (Inl e, s1) \<Rightarrow> (Failure e, s1)
      | (Inr c, s1) \<Rightarrow>
          (case ask_integer E args c s1 of
             ((Failure e, c1), s2) \<Rightarrow> (Failure e, s2)
           | ((Panic, c1), s2) \<Rightarrow> (Panic, s2)
           | ((Value n, c1), s2) \<Rightarrow> (Value (), s2)))"

definition redis_Enqueue :: "'s redis_env \<Rightarrow> async_job \<Rightarrow> 's \<Rightarrow> unit reading \<times> 's" where
  "redis_Enqueue E job s =
     store_command E [''LPUSH'', rk_key (rd_queue E), json_job (rd_fmt E) job] s"

text \<open>The score is computed after the connection was opened.\<close>

definition redis_EnqueueAfter :: "'s redis_env \<Rightarrow> async_job \<Rightarrow> duration \<Rightarrow> 's \<Rightarrow> unit reading \<times> 's" where
  "redis_EnqueueAfter E job delay s =
     (case redis_connect E s of
        (Inl e, s1) \<Rightarrow> (Failure e, s1)
      | (Inr c, s1) \<Rightarrow>
          (case rd_now E s1 of (now, s2) \<Rightarrow>
             case ask_integer E [''ZADD'', rk_delayedKey (rd_queue E), int_str (unix_millis (now + delay)),
                    json_job (rd_fmt E) job] c s2 of
               ((Failure e, c1), s3) \<Rightarrow> (Failure e, s3)
             | ((Panic, c1), s3) \<Rightarrow> (Panic, s3)
             | ((Value n, c1), s3) \<Rightarrow> (Value (), s3)))"

section \<open>Taking a job\<close>

text \<open>The loop over one batch of due payloads: a payload that another worker removed first is left out.\<close>

fun promote_batch :: "'s redis_env \<Rightarrow> string list \<Rightarrow> redis_conn \<Rightarrow> 's \<Rightarrow> (unit reading \<times> redis_conn) \<times> 's" where
  "promote_batch E [] c s = ((Value (), c), s)"
| "promote_batch E (payload # payloads) c s =
     (case ask_integer E [''ZREM'', rk_delayedKey (rd_queue E), payload] c s of
        ((Failure e, c1), s1) \<Rightarrow> ((Failure e, c1), s1)
      | ((Panic, c1), s1) \<Rightarrow> ((Panic, c1), s1)
      | ((Value removed, c1), s1) \<Rightarrow>
          if removed = 0 then promote_batch E payloads c1 s1
          else (case ask_integer E [''LPUSH'', rk_key (rd_queue E), payload] c1 s1 of
                  ((Failure e, c2), s2) \<Rightarrow> ((Failure e, c2), s2)
                | ((Panic, c2), s2) \<Rightarrow> ((Panic, c2), s2)
                | ((Value n, c2), s2) \<Rightarrow> promote_batch E payloads c2 s2))"

partial_function (option) promote_loop ::
    "'s redis_env \<Rightarrow> int \<Rightarrow> redis_conn \<Rightarrow> 's \<Rightarrow> ((unit reading \<times> redis_conn) \<times> 's) option" where
  "promote_loop E now c s =
     (case ask_array E [''ZRANGEBYSCORE'', rk_delayedKey (rd_queue E), ''-inf'', int_str now,
             ''LIMIT'', ''0'', ''32''] c s of
        ((Failure e, c1), s1) \<Rightarrow> Some ((Failure e, c1), s1)
      | ((Panic, c1), s1) \<Rightarrow> Some ((Panic, c1), s1)
      | ((Value None, c1), s1) \<Rightarrow> Some ((Value (), c1), s1)
      | ((Value (Some values), c1), s1) \<Rightarrow>
          if values = [] then Some ((Value (), c1), s1)
          else (case promote_batch E values c1 s1 of
                  ((Failure e, c2), s2) \<Rightarrow> Some ((Failure e, c2), s2)
                | ((Panic, c2), s2) \<Rightarrow> Some ((Panic, c2), s2)
                | ((Value u, c2), s2) \<Rightarrow> promote_loop E now c2 s2))"

declare promote_loop.simps [code]

definition promoteDueJobs ::
    "'s redis_env \<Rightarrow> redis_conn \<Rightarrow> 's \<Rightarrow> ((unit reading \<times> redis_conn) \<times> 's) option" where
  "promoteDueJobs E c s =
     (case rd_now E s of (now, s1) \<Rightarrow> promote_loop E (unix_millis now) c s1)"

definition pop_seconds :: "duration \<Rightarrow> int" where
  "pop_seconds wait = max 1 (duration_seconds wait)"

text \<open>The answer to BRPOP: none in time, or the key and the payload.\<close>

definition popped_job :: "'s redis_env \<Rightarrow> string list option reading \<Rightarrow> async_job option reading" where
  "popped_job E answer =
     (case answer of
        Failure e \<Rightarrow> Failure e
      | Panic \<Rightarrow> Panic
      | Value None \<Rightarrow> Value None
      | Value (Some values) \<Rightarrow>
          if length values \<noteq> 2
          then Failure (Anonymous (''unexpected BRPOP response length '' @ nat_str (length values)))
          else (case rd_Unmarshal E (values ! 1) of
                  Inl e \<Rightarrow> Failure (wrap ''decode async job'' e)
                | Inr job \<Rightarrow> Value (Some job)))"

definition redis_Dequeue :: "'s redis_env \<Rightarrow> duration \<Rightarrow> 's \<Rightarrow> (async_job option reading \<times> 's) option" where
  "redis_Dequeue E wait s =
     (case redis_connect E s of
        (Inl e, s1) \<Rightarrow> Some (Failure e, s1)
      | (Inr c, s1) \<Rightarrow>
          (case promoteDueJobs E c s1 of
             None \<Rightarrow> None
           | Some ((Failure e, c1), s2) \<Rightarrow> Some (Failure e, s2)
           | Some ((Panic, c1), s2) \<Rightarrow> Some (Panic, s2)
           | Some ((Value u, c1), s2) \<Rightarrow>
               (case ask_array E [''BRPOP'', rk_key (rd_queue E), int_str (pop_seconds wait)] c1 s2 of
                  ((answer, c2), s3) \<Rightarrow> Some (popped_job E answer, s3))))"

section \<open>What the server does\<close>

text \<open>
  The keys of the queue in the server: the list, its left end first, and the sorted set as its members
  with their scores in the order of the set.
\<close>

record redis_db =
  db_jobs :: "string list"
  db_delayed :: "(int \<times> string) list"

definition int_reply :: "nat \<Rightarrow> string" where
  "int_reply n = '':'' @ nat_str n @ crlf"

definition due_payloads :: "int \<Rightarrow> redis_db \<Rightarrow> string list" where
  "due_payloads now db = map snd (filter (\<lambda>(score, m). score \<le> now) (db_delayed db))"

definition remove_member :: "string \<Rightarrow> redis_db \<Rightarrow> redis_db" where
  "remove_member m db = db\<lparr>db_delayed := filter (\<lambda>(score, m'). m' \<noteq> m) (db_delayed db)\<rparr>"

definition push_left :: "string \<Rightarrow> redis_db \<Rightarrow> redis_db" where
  "push_left payload db = db\<lparr>db_jobs := payload # db_jobs db\<rparr>"

definition pop_right :: "redis_db \<Rightarrow> redis_db" where
  "pop_right db = db\<lparr>db_jobs := butlast (db_jobs db)\<rparr>"

fun place :: "int \<Rightarrow> string \<Rightarrow> (int \<times> string) list \<Rightarrow> (int \<times> string) list" where
  "place score m [] = [(score, m)]"
| "place score m ((score', m') # rest) =
     (if score < score' \<or> score = score' \<and> m \<le> m' then (score, m) # (score', m') # rest
      else (score', m') # place score m rest)"

definition add_member :: "int \<Rightarrow> string \<Rightarrow> redis_db \<Rightarrow> redis_db" where
  "add_member score m db = (remove_member m db)\<lparr>db_delayed := place score m (db_delayed (remove_member m db))\<rparr>"

text \<open>
  The documented behaviour of the five commands. A blocking pop of an empty list is answered with the
  null array. Numbers and texts are within 62 bits. The bytes of an answer arrive in any number of
  pieces, none of them empty, cut wherever the network cuts them.
\<close>

definition answers ::
    "'s redis_env \<Rightarrow> ('s \<Rightarrow> redis_db) \<Rightarrow> string list \<Rightarrow> (redis_db \<Rightarrow> string) \<Rightarrow> (redis_db \<Rightarrow> redis_db) \<Rightarrow> bool" where
  "answers E view args reply effect \<longleftrightarrow>
     (\<forall>s. \<exists>segs s'. rd_send E (resp_array args) s = ((None, segs), s') \<and> concat segs = reply (view s) \<and>
        [] \<notin> set segs \<and> view s' = effect (view s))"

definition short :: "string \<Rightarrow> bool" where
  "short txt \<longleftrightarrow> length txt < 2 ^ 62"

definition fits :: "string list \<Rightarrow> bool" where
  "fits values \<longleftrightarrow> length (resp_array values) \<le> 4096"

definition pop_reply :: "string \<Rightarrow> redis_db \<Rightarrow> string list option" where
  "pop_reply key db = (if db_jobs db = [] then None else Some [key, last (db_jobs db)])"

definition serves :: "'s redis_env \<Rightarrow> ('s \<Rightarrow> redis_db) \<Rightarrow> bool" where
  "serves E view \<longleftrightarrow>
     (let key = rk_key (rd_queue E); delayed = rk_delayedKey (rd_queue E) in
      (\<forall>s. fst (rd_dial E (rd_queue E) s) = None \<and> view (snd (rd_dial E (rd_queue E) s)) = view s) \<and>
      (\<forall>s. view (snd (rd_now E s)) = view s) \<and>
      (\<forall>payload. short payload \<longrightarrow>
         answers E view [''LPUSH'', key, payload]
           (\<lambda>db. int_reply (length (db_jobs db) + 1)) (push_left payload)) \<and>
      (\<forall>score payload. \<bar>score\<bar> < 2 ^ 62 \<longrightarrow> short payload \<longrightarrow>
         answers E view [''ZADD'', delayed, int_str score, payload]
           (\<lambda>db. int_reply (if payload \<in> snd ` set (db_delayed db) then 0 else 1)) (add_member score payload)) \<and>
      (\<forall>now. \<bar>now\<bar> < 2 ^ 62 \<longrightarrow>
         answers E view [''ZRANGEBYSCORE'', delayed, ''-inf'', int_str now, ''LIMIT'', ''0'', ''32'']
           (\<lambda>db. resp_array (take 32 (due_payloads now db))) (\<lambda>db. db)) \<and>
      (\<forall>payload. short payload \<longrightarrow>
         answers E view [''ZREM'', delayed, payload]
           (\<lambda>db. int_reply (if payload \<in> snd ` set (db_delayed db) then 1 else 0)) (remove_member payload)) \<and>
      (\<forall>timeout. \<bar>timeout\<bar> < 2 ^ 62 \<longrightarrow>
         answers E view [''BRPOP'', key, int_str timeout]
           (\<lambda>db. if db_jobs db = [] then ''*-1'' @ crlf else resp_array [key, last (db_jobs db)]) pop_right))"

text \<open>
  A network that delivers every answer of at most 4096 bytes, which the reader's buffer holds, in one
  piece. Neither Redis nor TCP promises it: it says of which exchanges a property speaks. An array that
  is longer, or that is cut inside a text, that reader cannot read (\<open>split_bulk_corrupted\<close>).
\<close>

definition uncut :: "'s redis_env \<Rightarrow> bool" where
  "uncut E \<longleftrightarrow> (\<forall>bytes s segs s'. rd_send E bytes s = ((None, segs), s') \<longrightarrow>
     length (concat segs) \<le> 4096 \<longrightarrow> length segs \<le> 1)"

section \<open>Answers in pieces\<close>

text \<open>A line is read whole from whatever pieces it comes in, and a number and an empty array with it.\<close>

lemma read_string_pieces:
  "buf @ concat segs = line @ [CHR 0x0A] \<Longrightarrow> CHR 0x0A \<notin> set line \<Longrightarrow> [] \<notin> set segs \<Longrightarrow>
     read_string buf segs = (Inr (line @ [CHR 0x0A]), \<lparr>rc_buf = [], rc_segs = []\<rparr>)"
proof (induction segs arbitrary: buf)
  case Nil
  then have buf: "buf = line @ [CHR 0x0A]" by simp
  have "takeWhile (\<lambda>b. b \<noteq> CHR 0x0A) buf = line" "dropWhile (\<lambda>b. b \<noteq> CHR 0x0A) buf = [CHR 0x0A]"
    using Nil.prems(2) unfolding buf by (auto simp: takeWhile_append dropWhile_append)
  then show ?case by (subst read_string.simps) (simp add: buf)
next
  case (Cons seg segs)
  show ?case
  proof (cases "CHR 0x0A \<in> set buf")
    case True
    then obtain xs ys where buf: "buf = xs @ CHR 0x0A # ys" "CHR 0x0A \<notin> set xs" by (metis split_list_first)
    have "line @ CHR 0x0A # [] = xs @ CHR 0x0A # (ys @ concat (seg # segs))" using Cons.prems(1) buf(1) by simp
    then have "ys @ concat (seg # segs) = []"
      using append_Cons_eq_iff [of "CHR 0x0A" line "[]" xs "ys @ concat (seg # segs)"] Cons.prems(2) by simp
    then show ?thesis using Cons.prems(3) by simp
  next
    case False
    then show ?thesis
      using Cons.IH [of "buf @ seg"] Cons.prems by (subst read_string.simps) simp
  qed
qed

lemma readRESPLine_pieces:
  assumes "buf @ concat segs = line @ crlf" and "CHR 0x0A \<notin> set line" and "[] \<notin> set segs"
  shows "readRESPLine \<lparr>rc_buf = buf, rc_segs = segs\<rparr> = (Value line, new_conn)"
proof -
  have "read_string buf segs = (Inr ((line @ [CHR 0x0D]) @ [CHR 0x0A]), new_conn)"
    unfolding new_conn_def by (rule read_string_pieces) (use assms in \<open>auto simp: crlf_def\<close>)
  then show ?thesis
    using trim_suffix_append [of "line @ [CHR 0x0D]" "[CHR 0x0A]"] trim_suffix_append [of line]
    by (simp add: readRESPLine_def)
qed

lemma read_byte_pieces:
  assumes "concat segs = b # rest" and "[] \<notin> set segs"
  obtains buf segs' where "read_byte \<lparr>rc_buf = [], rc_segs = segs\<rparr> = (Inr b, \<lparr>rc_buf = buf, rc_segs = segs'\<rparr>)"
    and "buf @ concat segs' = rest" and "[] \<notin> set segs'"
proof -
  obtain seg segs' where segs: "segs = seg # segs'" "seg \<noteq> []" using assms by (cases segs) auto
  then obtain buf where "seg = b # buf" "buf @ concat segs' = rest" using assms(1) by (cases seg) auto
  then show thesis using that [of buf segs'] segs assms(2) by (simp add: read_byte_def)
qed

lemma readRESPInteger_pieces:
  assumes "concat segs = int_reply n" and "n < 2 ^ 63" and "[] \<notin> set segs"
  shows "readRESPInteger \<lparr>rc_buf = [], rc_segs = segs\<rparr> = (Value (int n), new_conn)"
proof -
  have "concat segs = CHR '':'' # nat_str n @ crlf" using assms(1) by (simp add: int_reply_def)
  then obtain buf segs' where "read_byte \<lparr>rc_buf = [], rc_segs = segs\<rparr> = (Inr CHR '':'', \<lparr>rc_buf = buf, rc_segs = segs'\<rparr>)"
    and rest: "buf @ concat segs' = nat_str n @ crlf" "[] \<notin> set segs'"
    by (rule read_byte_pieces [OF _ assms(3)])
  then show ?thesis
    using readRESPLine_pieces [OF rest(1) nat_str_line(1) rest(2)] Atoi_nat_str [OF assms(2)]
    by (simp add: readRESPInteger_def)
qed

lemma readRESPArray_header:
  assumes "concat segs = ''*'' @ line @ crlf" and "CHR 0x0A \<notin> set line" and "[] \<notin> set segs"
  shows "readRESPArray \<lparr>rc_buf = [], rc_segs = segs\<rparr> =
    (if line = ''-1'' then (Value None, new_conn)
     else case Atoi line of Inl e \<Rightarrow> (Failure (wrap ''parse redis array length'' e), new_conn)
       | Inr n \<Rightarrow> if n < 0 then (Panic, new_conn) else read_bulks (nat n) [] new_conn)"
proof -
  have "concat segs = CHR ''*'' # line @ crlf" using assms(1) by simp
  then obtain buf segs' where "read_byte \<lparr>rc_buf = [], rc_segs = segs\<rparr> = (Inr CHR ''*'', \<lparr>rc_buf = buf, rc_segs = segs'\<rparr>)"
    and rest: "buf @ concat segs' = line @ crlf" "[] \<notin> set segs'"
    by (rule read_byte_pieces [OF _ assms(3)])
  then show ?thesis
    using readRESPLine_pieces [OF rest(1) assms(2) rest(2)] by (simp add: readRESPArray_def split: sum.split)
qed

section \<open>Commands to such a server\<close>

lemma answersD:
  assumes "answers E view args reply effect"
  obtains segs s' where "writeRESPArray E args new_conn s = ((None, \<lparr>rc_buf = [], rc_segs = segs\<rparr>), s')"
    "rd_send E (resp_array args) s = ((None, segs), s')"
    "concat segs = reply (view s)" "[] \<notin> set segs" "view s' = effect (view s)"
proof -
  obtain segs s' where "rd_send E (resp_array args) s = ((None, segs), s')" "concat segs = reply (view s)"
    "[] \<notin> set segs" "view s' = effect (view s)"
    using assms unfolding answers_def by blast
  then show thesis using that by (simp add: writeRESPArray_def new_conn_def)
qed

lemma ask_integer_reply:
  assumes "answers E view args (\<lambda>db. int_reply (f db)) effect" and "f (view s) < 2 ^ 63"
  obtains s' where "ask_integer E args new_conn s = ((Value (int (f (view s))), new_conn), s')"
    "view s' = effect (view s)"
proof -
  obtain segs s' where sent: "writeRESPArray E args new_conn s = ((None, \<lparr>rc_buf = [], rc_segs = segs\<rparr>), s')"
    and reply: "concat segs = int_reply (f (view s))" "[] \<notin> set segs" and s': "view s' = effect (view s)"
    by (rule answersD [OF assms(1), of s])
  then have "ask_integer E args new_conn s = ((Value (int (f (view s))), new_conn), s')"
    using readRESPInteger_pieces [OF reply(1) assms(2) reply(2)] by (simp add: ask_integer_def)
  then show thesis using s' that by blast
qed

lemma fits_lengths:
  assumes "fits values"
  shows "length values < 2 ^ 63" and "list_all (\<lambda>v. length v < 2 ^ 63) values" and "list_all short values"
proof -
  have bulk: "length v < length (resp_bulk v)" for v by (simp add: resp_bulk_def)
  have number: "length vs \<le> length (concat (map resp_bulk vs))" for vs
    by (induction vs) (auto simp: resp_bulk_def)
  have each: "v \<in> set vs \<Longrightarrow> length v \<le> length (concat (map resp_bulk vs))" for v vs
    using bulk [of v] by (induction vs) auto
  have total: "length (concat (map resp_bulk values)) \<le> 4096"
    using assms by (simp add: fits_def resp_array_def)
  show "length values < 2 ^ 63" using le_trans [OF number total] by simp
  show "list_all (\<lambda>v. length v < 2 ^ 63) values" "list_all short values"
    unfolding list_all_iff short_def using each [of _ "values"] total by (fastforce dest: le_trans)+
qed

lemma read_reply:
  assumes "fits values"
  shows "readRESPArray \<lparr>rc_buf = [], rc_segs = [resp_array values]\<rparr> = (Value (Some values), new_conn)"
  using readRESPArray_whole [OF fits_lengths(1,2) [OF assms], of "[]" "[]"]
  by (subst first_segment) (simp_all add: resp_array_def new_conn_def)

lemma one_piece:
  assumes "uncut E" and "rd_send E bytes s = ((None, segs), s')" and "concat segs = reply" and "reply \<noteq> []"
    and "length reply \<le> 4096"
  shows "segs = [reply]"
proof -
  have "length segs \<le> 1" using assms unfolding uncut_def by blast
  then show ?thesis using assms(3,4) by (cases segs) auto
qed

lemma ask_array_reply:
  assumes "uncut E" and "answers E view args (\<lambda>db. resp_array (f db)) effect" and "fits (f (view s))"
  obtains s' where "ask_array E args new_conn s = ((Value (Some (f (view s))), new_conn), s')"
    "view s' = effect (view s)"
proof -
  obtain segs s' where sent: "writeRESPArray E args new_conn s = ((None, \<lparr>rc_buf = [], rc_segs = segs\<rparr>), s')"
      "rd_send E (resp_array args) s = ((None, segs), s')"
    and reply: "concat segs = resp_array (f (view s))" and s': "view s' = effect (view s)"
    by (rule answersD [OF assms(2), of s])
  have "segs = [resp_array (f (view s))]"
    by (rule one_piece [OF assms(1) sent(2) reply]) (use assms(3) in \<open>simp_all add: fits_def resp_array_def\<close>)
  then have "ask_array E args new_conn s = ((Value (Some (f (view s))), new_conn), s')"
    using sent(1) by (simp add: ask_array_def read_reply [OF assms(3)])
  then show thesis using s' that by blast
qed

text \<open>Answers without a text in them are read however they are cut.\<close>

lemma ask_array_short:
  assumes "answers E view args reply effect" and "reply (view s) = ''*'' @ line @ crlf" and "line \<in> {''-1'', ''0''}"
  obtains s' where "ask_array E args new_conn s = ((Value (if line = ''0'' then Some [] else None), new_conn), s')"
    "view s' = effect (view s)"
proof -
  obtain segs s' where sent: "writeRESPArray E args new_conn s = ((None, \<lparr>rc_buf = [], rc_segs = segs\<rparr>), s')"
    and reply: "concat segs = reply (view s)" "[] \<notin> set segs" and s': "view s' = effect (view s)"
    by (rule answersD [OF assms(1), of s])
  have "Atoi ''0'' = Inr 0" by code_simp
  moreover have "CHR 0x0A \<notin> set line" using assms(3) by auto
  ultimately have "readRESPArray \<lparr>rc_buf = [], rc_segs = segs\<rparr> = (Value (if line = ''0'' then Some [] else None), new_conn)"
    using readRESPArray_header [OF reply(1) [unfolded assms(2)] _ reply(2)] assms(3) by auto
  then show thesis using that sent s' by (simp add: ask_array_def)
qed

section \<open>The laws used\<close>

lemma serves_dial:
  assumes "serves E view"
  obtains s1 where "redis_connect E s = (Inr new_conn, s1)" "snd (rd_dial E (rd_queue E) s) = s1" "view s1 = view s"
proof -
  have "fst (rd_dial E (rd_queue E) s) = None" and same: "view (snd (rd_dial E (rd_queue E) s)) = view s"
    using assms by (simp_all add: serves_def Let_def)
  then have "redis_connect E s = (Inr new_conn, snd (rd_dial E (rd_queue E) s))"
    by (cases "rd_dial E (rd_queue E) s") (simp add: redis_connect_def)
  then show thesis using same that by blast
qed

lemma serves_now: "serves E view \<Longrightarrow> view (snd (rd_now E s)) = view s"
  by (simp add: serves_def Let_def)

lemma serves_push:
  assumes "serves E view" and "short payload" and "length (db_jobs (view s)) < 2 ^ 62"
  obtains s' where "ask_integer E [''LPUSH'', rk_key (rd_queue E), payload] new_conn s =
      ((Value (int (length (db_jobs (view s)) + 1)), new_conn), s')"
    "view s' = push_left payload (view s)"
proof (rule ask_integer_reply [where s = s])
  show "answers E view [''LPUSH'', rk_key (rd_queue E), payload]
      (\<lambda>db. int_reply (length (db_jobs db) + 1)) (push_left payload)"
    using assms(1,2) by (simp add: serves_def Let_def)
qed (use assms(3) in simp)

lemma serves_remove:
  assumes "serves E view" and "short payload"
  obtains s' where "ask_integer E [''ZREM'', rk_delayedKey (rd_queue E), payload] new_conn s =
      ((Value (if payload \<in> snd ` set (db_delayed (view s)) then 1 else 0), new_conn), s')"
    "view s' = remove_member payload (view s)"
proof (rule ask_integer_reply [where s = s])
  show "answers E view [''ZREM'', rk_delayedKey (rd_queue E), payload]
      (\<lambda>db. int_reply (if payload \<in> snd ` set (db_delayed db) then 1 else 0)) (remove_member payload)"
    using assms by (simp add: serves_def Let_def)
qed auto

lemma serves_add:
  assumes "serves E view" and "short payload" and "\<bar>score\<bar> < 2 ^ 62"
  obtains s' where "ask_integer E [''ZADD'', rk_delayedKey (rd_queue E), int_str score, payload] new_conn s =
      ((Value (if payload \<in> snd ` set (db_delayed (view s)) then 0 else 1), new_conn), s')"
    "view s' = add_member score payload (view s)"
proof (rule ask_integer_reply [where s = s])
  show "answers E view [''ZADD'', rk_delayedKey (rd_queue E), int_str score, payload]
      (\<lambda>db. int_reply (if payload \<in> snd ` set (db_delayed db) then 0 else 1)) (add_member score payload)"
    using assms by (simp add: serves_def Let_def)
qed auto

text \<open>The answer with the due jobs, when it comes in one piece or there are none.\<close>

lemma serves_due:
  assumes "serves E view" and "\<bar>now\<bar> < 2 ^ 62"
    and "due_payloads now (view s) = [] \<or> uncut E \<and> fits (take 32 (due_payloads now (view s)))"
  obtains s' where "ask_array E [''ZRANGEBYSCORE'', rk_delayedKey (rd_queue E), ''-inf'', int_str now,
      ''LIMIT'', ''0'', ''32''] new_conn s = ((Value (Some (take 32 (due_payloads now (view s)))), new_conn), s')"
    "view s' = view s"
proof -
  have law: "answers E view [''ZRANGEBYSCORE'', rk_delayedKey (rd_queue E), ''-inf'', int_str now, ''LIMIT'', ''0'', ''32'']
      (\<lambda>db. resp_array (take 32 (due_payloads now db))) (\<lambda>db. db)"
    using assms(1,2) by (simp add: serves_def Let_def)
  show thesis
  proof (cases "due_payloads now (view s) = []")
    case True
    have "nat_str 0 = ''0''" by code_simp
    then have "resp_array (take 32 (due_payloads now (view s))) = ''*'' @ ''0'' @ crlf"
      by (simp add: resp_array_def True)
    from ask_array_short [OF law this] show thesis using that True by auto
  next
    case False
    then have "uncut E" "fits (take 32 (due_payloads now (view s)))" using assms(3) by simp_all
    from ask_array_reply [OF this(1) law this(2)] show thesis using that by blast
  qed
qed

lemma serves_pop:
  assumes "serves E view" and "\<bar>timeout\<bar> < 2 ^ 62"
    and "db_jobs (view s) = [] \<or> uncut E \<and> fits [rk_key (rd_queue E), last (db_jobs (view s))]"
  obtains s' where "ask_array E [''BRPOP'', rk_key (rd_queue E), int_str timeout] new_conn s =
      ((Value (pop_reply (rk_key (rd_queue E)) (view s)), new_conn), s')"
    "view s' = pop_right (view s)"
proof -
  have law: "answers E view [''BRPOP'', rk_key (rd_queue E), int_str timeout]
      (\<lambda>db. if db_jobs db = [] then ''*-1'' @ crlf else resp_array [rk_key (rd_queue E), last (db_jobs db)]) pop_right"
    using assms(1,2) by (simp add: serves_def Let_def)
  show thesis
  proof (cases "db_jobs (view s) = []")
    case True
    then have "(if db_jobs (view s) = [] then ''*-1'' @ crlf else resp_array [rk_key (rd_queue E), last (db_jobs (view s))]) =
        ''*'' @ ''-1'' @ crlf" by simp
    from ask_array_short [OF law this] show thesis using that True by (auto simp: pop_reply_def)
  next
    case False
    then have fit: "uncut E" "fits [rk_key (rd_queue E), last (db_jobs (view s))]" using assms(3) by simp_all
    let ?reply = "resp_array [rk_key (rd_queue E), last (db_jobs (view s))]"
    obtain segs s' where sent: "writeRESPArray E [''BRPOP'', rk_key (rd_queue E), int_str timeout] new_conn s =
          ((None, \<lparr>rc_buf = [], rc_segs = segs\<rparr>), s')"
        "rd_send E (resp_array [''BRPOP'', rk_key (rd_queue E), int_str timeout]) s = ((None, segs), s')"
      and reply: "concat segs = ?reply" and s': "view s' = pop_right (view s)"
      by (rule answersD [OF law, of s]) (use False in simp)
    have "segs = [?reply]"
      by (rule one_piece [OF fit(1) sent(2) reply]) (use fit(2) in \<open>simp_all add: fits_def resp_array_def\<close>)
    then show thesis
      using that s' sent(1) read_reply [OF fit(2)] False by (simp add: ask_array_def pop_reply_def)
  qed
qed

section \<open>Due jobs move to the list\<close>

definition drop_members :: "string set \<Rightarrow> (int \<times> string) list \<Rightarrow> (int \<times> string) list" where
  "drop_members M = filter (\<lambda>(score, m). m \<notin> M)"

lemma drop_members_step: "drop_members (set ms) (filter (\<lambda>(score, m'). m' \<noteq> m) d) = drop_members (set (m # ms)) d"
  by (auto simp: drop_members_def intro!: filter_cong)

lemma promote_batch_moves:
  assumes "serves E view" and "distinct payloads" and "list_all short payloads"
    and "set payloads \<subseteq> snd ` set (db_delayed (view s))"
    and "length (db_jobs (view s)) + length payloads < 2 ^ 62"
  shows "\<exists>s'. promote_batch E payloads new_conn s = ((Value (), new_conn), s') \<and>
    view s' = \<lparr>db_jobs = rev payloads @ db_jobs (view s), db_delayed = drop_members (set payloads) (db_delayed (view s))\<rparr>"
  using assms(2-)
proof (induction payloads arbitrary: s)
  case Nil
  have "drop_members {} d = d" for d by (simp add: drop_members_def)
  then show ?case by simp
next
  case (Cons p ps)
  have p: "short p" "p \<in> snd ` set (db_delayed (view s))" using Cons.prems by simp_all
  obtain s1 where s1: "ask_integer E [''ZREM'', rk_delayedKey (rd_queue E), p] new_conn s = ((Value 1, new_conn), s1)"
      "view s1 = remove_member p (view s)"
    using serves_remove [OF assms(1) p(1), of s] p(2) by auto
  have "length (db_jobs (view s1)) < 2 ^ 62" using Cons.prems(4) by (simp add: s1(2) remove_member_def)
  then obtain n s2 where s2: "ask_integer E [''LPUSH'', rk_key (rd_queue E), p] new_conn s1 = ((Value n, new_conn), s2)"
      "view s2 = push_left p (view s1)"
    using serves_push [OF assms(1) p(1), of s1] by metis
  have view2: "db_jobs (view s2) = p # db_jobs (view s)"
      "db_delayed (view s2) = filter (\<lambda>(score, m'). m' \<noteq> p) (db_delayed (view s))"
    by (simp_all add: s2(2) s1(2) push_left_def remove_member_def)
  have "set ps \<subseteq> snd ` set (db_delayed (view s2))"
    using Cons.prems(1,3) by (force simp: view2 image_iff)
  then obtain s3 where "promote_batch E ps new_conn s2 = ((Value (), new_conn), s3)"
      "view s3 = \<lparr>db_jobs = rev ps @ db_jobs (view s2), db_delayed = drop_members (set ps) (db_delayed (view s2))\<rparr>"
    using Cons.IH [of s2] Cons.prems by (auto simp: view2)
  then show ?case by (simp add: s1(1) s2(1) view2 drop_members_step del: set_simps)
qed

text \<open>Every batch of due payloads that can be asked for fits the buffer.\<close>

definition batches_fit :: "int \<Rightarrow> redis_db \<Rightarrow> bool" where
  "batches_fit now db \<longleftrightarrow>
     (\<forall>k\<in>{..length (due_payloads now db)}. fits (take 32 (drop k (due_payloads now db))))"

definition db_ok :: "redis_db \<Rightarrow> bool" where
  "db_ok db \<longleftrightarrow> distinct (map snd (db_delayed db)) \<and> length (db_jobs db) + length (db_delayed db) < 2 ^ 62"

definition promoted :: "int \<Rightarrow> redis_db \<Rightarrow> redis_db" where
  "promoted now db = \<lparr>db_jobs = rev (due_payloads now db) @ db_jobs db,
     db_delayed = filter (\<lambda>(score, m). now < score) (db_delayed db)\<rparr>"

lemma batches_fit_any: "batches_fit now db \<Longrightarrow> fits (take 32 (drop k (due_payloads now db)))"
proof (cases "k \<le> length (due_payloads now db)")
  case False
  have "fits []" by code_simp
  then show ?thesis using False by simp
qed (simp add: batches_fit_def)

lemma filter_not_taken: "distinct xs \<Longrightarrow> filter (\<lambda>x. x \<notin> set (take n xs)) xs = drop n xs"
proof -
  assume d: "distinct xs"
  have "filter (\<lambda>x. x \<notin> set (take n xs)) (take n xs @ drop n xs) = drop n xs"
    using set_take_disj_set_drop_if_distinct [OF d order.refl, of n]
    unfolding filter_append by (simp add: filter_id_conv disjoint_iff) blast
  then show ?thesis by simp
qed

lemma due_distinct: "distinct (map snd (db_delayed db)) \<Longrightarrow> distinct (due_payloads now db)"
  by (simp add: due_payloads_def distinct_map_filter)

lemma due_after_batch:
  assumes "distinct (map snd (db_delayed db))"
  shows "due_payloads now \<lparr>db_jobs = jobs,
      db_delayed = drop_members (set (take n (due_payloads now db))) (db_delayed db)\<rparr> = drop n (due_payloads now db)"
proof -
  have "map snd (filter P (drop_members M d)) = filter (\<lambda>m. m \<notin> M) (map snd (filter P d))" for P M d
    by (induction d) (auto simp: drop_members_def)
  then show ?thesis
    using filter_not_taken [OF due_distinct [OF assms], of n now] by (simp add: due_payloads_def)
qed

lemma later_after_batch:
  assumes "distinct (map snd d)" and "M \<subseteq> snd ` set (filter (\<lambda>(score, m). score \<le> now) d)"
  shows "filter (\<lambda>(score, m). now < score) (drop_members M d) = filter (\<lambda>(score, m). now < score) d"
proof -
  have "m \<notin> M" if "(score, m) \<in> set d" "now < score" for score m
  proof
    assume "m \<in> M"
    then obtain score' where "(score', m) \<in> set d" "score' \<le> now" using assms(2) by force
    then show False using assms(1) that by (fastforce simp: distinct_map inj_on_def)
  qed
  then show ?thesis by (auto simp: drop_members_def intro!: filter_cong)
qed

lemma db_ok_batch:
  fixes now :: int
  assumes "db_ok db"
  defines "after \<equiv> \<lambda>n. \<lparr>db_jobs = rev (take n (due_payloads now db)) @ db_jobs db,
      db_delayed = drop_members (set (take n (due_payloads now db))) (db_delayed db)\<rparr>"
  shows "db_ok (after n)"
proof -
  have d: "distinct (map snd (db_delayed db))" using assms(1) by (simp add: db_ok_def)
  have shrink: "length (drop_members (set ms) e) + length ms = length e"
    if "distinct ms" "set ms \<subseteq> set (map snd e)" "distinct (map snd e)" for ms e
  proof -
    have "length (filter (\<lambda>m. m \<in> set ms) (map snd e)) = card (set ms)"
      using that(2,3) distinct_length_filter [OF that(3)]
      by (simp add: Int_absorb2 del: set_map length_map)
    then have "length (filter (\<lambda>x. snd x \<in> set ms) e) = length ms"
      using that(1) by (simp add: filter_map distinct_card comp_def)
    moreover have "length (filter (\<lambda>x. snd x \<in> set ms) e) + length (filter (\<lambda>x. snd x \<notin> set ms) e) = length e"
      by (rule sum_length_filter_compl)
    ultimately show ?thesis by (simp add: drop_members_def case_prod_unfold)
  qed
  have members: "set (take n (due_payloads now db)) \<subseteq> set (map snd (db_delayed db))"
    by (force simp: due_payloads_def dest: in_set_takeD)
  have "length (db_delayed (after n)) + length (take n (due_payloads now db)) = length (db_delayed db)"
    unfolding after_def redis_db.simps by (rule shrink [OF distinct_take [OF due_distinct [OF d]] members d])
  moreover have "distinct (map snd (db_delayed (after n)))"
    using d by (simp add: after_def drop_members_def distinct_map_filter)
  ultimately show ?thesis using assms(1) by (simp add: db_ok_def after_def)
qed

lemma promote_loop_moves:
  assumes "serves E view" and "\<bar>now\<bar> < 2 ^ 62" and "db_ok (view s)"
    and "due_payloads now (view s) = [] \<or> uncut E \<and> batches_fit now (view s)"
  shows "\<exists>s'. promote_loop E now new_conn s = Some ((Value (), new_conn), s') \<and> view s' = promoted now (view s)"
  using assms(3-)
proof (induction "length (due_payloads now (view s))" arbitrary: s rule: less_induct)
  case less
  let ?due = "due_payloads now (view s)"
  have dist: "distinct (map snd (db_delayed (view s)))" using less.prems(1) by (simp add: db_ok_def)
  have "?due = [] \<or> uncut E \<and> fits (take 32 ?due)" using less.prems(2) by (force simp: batches_fit_def)
  then obtain s1 where s1: "ask_array E [''ZRANGEBYSCORE'', rk_delayedKey (rd_queue E), ''-inf'', int_str now,
      ''LIMIT'', ''0'', ''32''] new_conn s = ((Value (Some (take 32 ?due)), new_conn), s1)" "view s1 = view s"
    by (rule serves_due [OF assms(1,2), of s])
  show ?case
  proof (cases "?due = []")
    case True
    then have "promoted now (view s) = view s"
      by (fastforce simp: promoted_def due_payloads_def filter_empty_conv intro!: redis_db.equality filter_True)
    then show ?thesis using True s1 by (subst promote_loop.simps) simp
  next
    case False
    then have fit: "uncut E" "batches_fit now (view s)" using less.prems(2) by simp_all
    have shorts: "list_all short (take 32 ?due)"
      by (rule fits_lengths(3)) (use batches_fit_any [OF fit(2), of 0] in simp)
    have members: "set (take 32 ?due) \<subseteq> snd ` set (db_delayed (view s1))"
      by (force simp: due_payloads_def s1(2) dest: in_set_takeD)
    have "length ?due \<le> length (db_delayed (view s))" by (simp add: due_payloads_def)
    then have "length (db_jobs (view s1)) + length (take 32 ?due) < 2 ^ 62"
      using less.prems(1) by (auto simp: db_ok_def s1(2) min_def)
    then obtain s2 where s2: "promote_batch E (take 32 ?due) new_conn s1 = ((Value (), new_conn), s2)"
        "view s2 = \<lparr>db_jobs = rev (take 32 ?due) @ db_jobs (view s1),
           db_delayed = drop_members (set (take 32 ?due)) (db_delayed (view s1))\<rparr>"
      using promote_batch_moves [OF assms(1) _ shorts members] due_distinct [OF dist] by fastforce
    have due2: "due_payloads now (view s2) = drop 32 ?due"
      unfolding s2(2) s1(2) by (rule due_after_batch [OF dist])
    have "db_ok (view s2)" unfolding s2(2) s1(2) by (rule db_ok_batch [OF less.prems(1)])
    moreover have "uncut E \<and> batches_fit now (view s2)"
      using batches_fit_any [OF fit(2)] fit(1) by (simp add: batches_fit_def [of _ "view s2"] due2)
    ultimately obtain s3 where s3: "promote_loop E now new_conn s2 = Some ((Value (), new_conn), s3)"
        "view s3 = promoted now (view s2)"
      using less.hyps [of s2] False by (auto simp: due2)
    have "filter (\<lambda>(score, m). now < score) (db_delayed (view s2)) = filter (\<lambda>(score, m). now < score) (db_delayed (view s))"
      unfolding s2(2) s1(2) redis_db.simps
      by (rule later_after_batch [OF dist]) (force simp: due_payloads_def dest: in_set_takeD)
    moreover have "rev (drop 32 ?due) @ rev (take 32 ?due) = rev ?due"
      by (simp flip: rev_append)
    ultimately have "promoted now (view s2) = promoted now (view s)"
      by (simp add: promoted_def due2) (simp add: s2(2) s1(2) flip: append_assoc)
    then show ?thesis using False s1(1) s2(1) s3 by (subst promote_loop.simps) simp
  qed
qed

section \<open>The operations on such a server\<close>

text \<open>The payloads in the order in which they are taken, and what taking the first one answers.\<close>

definition waiting :: "int \<Rightarrow> redis_db \<Rightarrow> string list" where
  "waiting now db = rev (db_jobs db) @ due_payloads now db"

definition taken :: "'s redis_env \<Rightarrow> string list \<Rightarrow> async_job option reading" where
  "taken E payloads =
     (case payloads of
        [] \<Rightarrow> Value None
      | p # _ \<Rightarrow> (case rd_Unmarshal E p of
                   Inl e \<Rightarrow> Failure (wrap ''decode async job'' e)
                 | Inr job \<Rightarrow> Value (Some job)))"

definition left_after :: "int \<Rightarrow> redis_db \<Rightarrow> redis_db" where
  "left_after now db = \<lparr>db_jobs = rev (tl (waiting now db)),
     db_delayed = filter (\<lambda>(score, m). now < score) (db_delayed db)\<rparr>"

text \<open>The clock of a call that has connected, in milliseconds.\<close>

definition call_millis :: "'s redis_env \<Rightarrow> 's \<Rightarrow> int" where
  "call_millis E s = unix_millis (fst (rd_now E (snd (rd_dial E (rd_queue E) s))))"

definition all_fit :: "string \<Rightarrow> int \<Rightarrow> redis_db \<Rightarrow> bool" where
  "all_fit key now db \<longleftrightarrow> batches_fit now db \<and> list_all (\<lambda>p. fits [key, p]) (waiting now db)"

lemma promoteDueJobs_moves:
  assumes "serves E view" and "redis_connect E s = (Inr new_conn, s1)" and "snd (rd_dial E (rd_queue E) s) = s1"
    and "view s1 = view s" and "\<bar>call_millis E s\<bar> < 2 ^ 62" and "db_ok (view s)"
    and "due_payloads (call_millis E s) (view s) = [] \<or> uncut E \<and> batches_fit (call_millis E s) (view s)"
  obtains s2 where "promoteDueJobs E new_conn s1 = Some ((Value (), new_conn), s2)"
    "view s2 = promoted (call_millis E s) (view s)"
proof -
  obtain t s' where t: "rd_now E s1 = (t, s')" by fastforce
  then have "view s' = view s" using serves_now [OF assms(1), of s1] assms(4) by simp
  moreover have "unix_millis t = call_millis E s" using t assms(3) by (simp add: call_millis_def)
  ultimately obtain s2 where "promote_loop E (unix_millis t) new_conn s' = Some ((Value (), new_conn), s2)"
      "view s2 = promoted (call_millis E s) (view s)"
    using promote_loop_moves [OF assms(1), of "call_millis E s" s'] assms(5-) by auto
  then show thesis using that t by (simp add: promoteDueJobs_def)
qed

lemma promoted_jobs: "db_jobs (promoted now db) = rev (waiting now db)"
  by (simp add: promoted_def waiting_def)

lemma popped_taken:
  "popped_job E (Value (pop_reply key (promoted now db))) = taken E (waiting now db)"
  by (cases "waiting now db") (simp_all add: popped_job_def pop_reply_def promoted_jobs taken_def)

lemma pop_promoted: "pop_right (promoted now db) = left_after now db"
  by (cases "waiting now db")
    (auto simp: pop_right_def promoted_jobs left_after_def intro!: redis_db.equality, simp_all add: promoted_def)

lemma Dequeue_serves:
  assumes "serves E view" and "\<bar>call_millis E s\<bar> < 2 ^ 62" and "db_ok (view s)"
    and "waiting (call_millis E s) (view s) = [] \<or>
      uncut E \<and> all_fit (rk_key (rd_queue E)) (call_millis E s) (view s)" and "wait < 2 ^ 62"
  obtains s' where "redis_Dequeue E wait s = Some (taken E (waiting (call_millis E s) (view s)), s')"
    "view s' = left_after (call_millis E s) (view s)"
proof -
  let ?now = "call_millis E s"
  obtain s1 where s1: "redis_connect E s = (Inr new_conn, s1)" "snd (rd_dial E (rd_queue E) s) = s1" "view s1 = view s"
    by (rule serves_dial [OF assms(1), of s])
  obtain s2 where s2: "promoteDueJobs E new_conn s1 = Some ((Value (), new_conn), s2)" "view s2 = promoted ?now (view s)"
    using promoteDueJobs_moves [OF assms(1) s1 assms(2,3)] assms(4) by (auto simp: all_fit_def waiting_def)
  have "db_jobs (view s2) = [] \<or> uncut E \<and> fits [rk_key (rd_queue E), last (db_jobs (view s2))]"
  proof (cases "db_jobs (view s2) = []")
    case False
    have "last (db_jobs (view s2)) \<in> set (waiting ?now (view s))"
      using last_in_set [OF False] by (auto simp: s2(2) promoted_def waiting_def)
    then show ?thesis using assms(4) by (auto simp: all_fit_def list_all_iff)
  qed simp
  moreover have "\<bar>pop_seconds wait\<bar> < 2 ^ 62"
    using assms(5) by (auto simp: pop_seconds_def duration_seconds_def)
  ultimately obtain s3 where s3: "ask_array E [''BRPOP'', rk_key (rd_queue E), int_str (pop_seconds wait)] new_conn s2 =
      ((Value (pop_reply (rk_key (rd_queue E)) (view s2)), new_conn), s3)" "view s3 = pop_right (view s2)"
    using serves_pop [OF assms(1), of "pop_seconds wait" s2] by metis
  have "redis_Dequeue E wait s = Some (taken E (waiting ?now (view s)), s3)"
    by (simp add: redis_Dequeue_def s1(1) s2(1) s3(1)) (simp only: s2(2) popped_taken)
  moreover have "view s3 = left_after ?now (view s)" by (simp add: s3(2) s2(2) pop_promoted)
  ultimately show thesis by (rule that)
qed

lemma Enqueue_serves:
  assumes "serves E view" and "short (json_job (rd_fmt E) job)" and "length (db_jobs (view s)) < 2 ^ 62"
  obtains s' where "redis_Enqueue E job s = (Value (), s')" "view s' = push_left (json_job (rd_fmt E) job) (view s)"
proof -
  obtain s1 where s1: "redis_connect E s = (Inr new_conn, s1)" "view s1 = view s"
    by (rule serves_dial [OF assms(1), of s])
  then obtain n s2 where "ask_integer E [''LPUSH'', rk_key (rd_queue E), json_job (rd_fmt E) job] new_conn s1 =
      ((Value n, new_conn), s2)" "view s2 = push_left (json_job (rd_fmt E) job) (view s)"
    using serves_push [OF assms(1,2), of s1] assms(3) by metis
  then show thesis using that by (simp add: redis_Enqueue_def store_command_def s1(1))
qed

lemma EnqueueAfter_serves:
  assumes "serves E view" and "short (json_job (rd_fmt E) job)"
    and "rd_now E (snd (rd_dial E (rd_queue E) s)) = (now, s0)" and "\<bar>unix_millis (now + delay)\<bar> < 2 ^ 62"
  obtains s' where "redis_EnqueueAfter E job delay s = (Value (), s')"
    "view s' = add_member (unix_millis (now + delay)) (json_job (rd_fmt E) job) (view s)"
proof -
  obtain s1 where s1: "redis_connect E s = (Inr new_conn, s1)" "snd (rd_dial E (rd_queue E) s) = s1" "view s1 = view s"
    by (rule serves_dial [OF assms(1), of s])
  have clock: "rd_now E s1 = (now, s0)" using assms(3) s1(2) by simp
  then have "view s0 = view s" using serves_now [OF assms(1), of s1] s1(3) by simp
  then obtain n s2 where "ask_integer E [''ZADD'', rk_delayedKey (rd_queue E), int_str (unix_millis (now + delay)),
      json_job (rd_fmt E) job] new_conn s0 = ((Value n, new_conn), s2)"
      "view s2 = add_member (unix_millis (now + delay)) (json_job (rd_fmt E) job) (view s)"
    using serves_add [OF assms(1,2,4), of s0] by metis
  then show thesis using that by (simp add: redis_EnqueueAfter_def s1(1) clock)
qed

text \<open>Sending a list of jobs, and taking a number of them: whether all were sent, and what came.\<close>

fun enqueue_jobs :: "'s redis_env \<Rightarrow> async_job list \<Rightarrow> 's \<Rightarrow> bool \<times> 's" where
  "enqueue_jobs E [] s = (True, s)"
| "enqueue_jobs E (job # jobs) s =
     (case redis_Enqueue E job s of (Value u, s1) \<Rightarrow> enqueue_jobs E jobs s1 | (_, s1) \<Rightarrow> (False, s1))"

fun dequeue_answers ::
    "'s redis_env \<Rightarrow> duration \<Rightarrow> nat \<Rightarrow> 's \<Rightarrow> (async_job option reading list \<times> 's) option" where
  "dequeue_answers E wait 0 s = Some ([], s)"
| "dequeue_answers E wait (Suc n) s =
     (case redis_Dequeue E wait s of
        None \<Rightarrow> None
      | Some (answer, s1) \<Rightarrow> map_option (\<lambda>(answers, s2). (answer # answers, s2)) (dequeue_answers E wait n s1))"

text \<open>A job whose encoding fits the reader's buffer when it is popped.\<close>

definition job_fits :: "'s redis_env \<Rightarrow> async_job \<Rightarrow> bool" where
  "job_fits E job \<longleftrightarrow> fits [rk_key (rd_queue E), json_job (rd_fmt E) job]"

lemma job_fits_short: "job_fits E job \<Longrightarrow> short (json_job (rd_fmt E) job)"
  using fits_lengths(3) by (fastforce simp: job_fits_def)

lemma enqueue_jobs_serves:
  assumes "serves E view" and "list_all (\<lambda>job. short (json_job (rd_fmt E) job)) jobs"
    and "length (db_jobs (view s)) + length jobs < 2 ^ 62"
  shows "\<exists>s'. enqueue_jobs E jobs s = (True, s') \<and>
    view s' = (view s)\<lparr>db_jobs := rev (map (json_job (rd_fmt E)) jobs) @ db_jobs (view s)\<rparr>"
  using assms(2-)
proof (induction jobs arbitrary: s)
  case (Cons job jobs)
  have "short (json_job (rd_fmt E) job)" "length (db_jobs (view s)) < 2 ^ 62" using Cons.prems by simp_all
  then obtain s1 where s1: "redis_Enqueue E job s = (Value (), s1)"
      "view s1 = push_left (json_job (rd_fmt E) job) (view s)"
    by (metis Enqueue_serves [OF assms(1)])
  then obtain s2 where "enqueue_jobs E jobs s1 = (True, s2)"
      "view s2 = (view s1)\<lparr>db_jobs := rev (map (json_job (rd_fmt E)) jobs) @ db_jobs (view s1)\<rparr>"
    using Cons.IH [of s1] Cons.prems by (auto simp: push_left_def)
  then show ?case by (simp add: s1 push_left_def)
qed simp

definition clock_ok :: "'s redis_env \<Rightarrow> bool" where
  "clock_ok E \<longleftrightarrow> (\<forall>s. \<bar>unix_millis (fst (rd_now E s))\<bar> < 2 ^ 62)"

lemma fits_Nil: "fits []"
  by code_simp

text \<open>What taking the oldest of the waiting payloads answers.\<close>

definition decoded :: "'s redis_env \<Rightarrow> string \<Rightarrow> async_job option reading" where
  "decoded E p = taken E [p]"

lemma taken_Cons [simp]: "taken E (p # ps) = decoded E p"
  by (simp add: decoded_def taken_def)

lemma dequeue_answers_serves:
  assumes "serves E view" and "uncut E" and "clock_ok E" and "wait < 2 ^ 62"
    and "list_all (\<lambda>p. fits [rk_key (rd_queue E), p]) ps" and "length ps < 2 ^ 62"
    and "view s = \<lparr>db_jobs = rev ps, db_delayed = []\<rparr>"
  shows "\<exists>s'. dequeue_answers E wait (length ps) s = Some (map (decoded E) ps, s') \<and>
    view s' = \<lparr>db_jobs = [], db_delayed = []\<rparr>"
  using assms(5-)
proof (induction ps arbitrary: s)
  case (Cons p ps)
  let ?now = "call_millis E s"
  have waiting: "waiting ?now (view s) = p # ps"
    by (simp add: Cons.prems(3) waiting_def due_payloads_def)
  have "all_fit (rk_key (rd_queue E)) ?now (view s)"
    using Cons.prems(1) unfolding all_fit_def waiting
    by (auto simp: batches_fit_def Cons.prems(3) due_payloads_def fits_Nil list_all_iff)
  moreover have "db_ok (view s)" using Cons.prems(2) by (simp add: db_ok_def Cons.prems(3))
  moreover have "\<bar>?now\<bar> < 2 ^ 62" using assms(3) by (simp add: clock_ok_def call_millis_def)
  ultimately obtain s1 where s1: "redis_Dequeue E wait s = Some (decoded E p, s1)" "view s1 = left_after ?now (view s)"
    using Dequeue_serves [OF assms(1) _ _ _ assms(4), of s] assms(2) by (metis waiting taken_Cons)
  moreover have "view s1 = \<lparr>db_jobs = rev ps, db_delayed = []\<rparr>"
    by (simp only: s1(2) left_after_def waiting) (simp add: Cons.prems(3))
  ultimately show ?case using Cons.IH [of s1] Cons.prems(1,2) by auto
qed simp

section \<open>Properties\<close>

text \<open>C22: taking a job from the Redis queue, in the exchanges that the reader can read: with a server that keeps
  the documented meaning of the commands, when the network does not cut the answers (\<open>uncut\<close>) and each of them,
  a batch of 32 due jobs or one job, has at most 4096 bytes (\<open>all_fit\<close>), a call returns. It first moves every
  delayed job whose time has come behind the waiting ones, in batches, in the order of their times; then it
  takes the job that has waited longest and answers what the decoder reads of it. No other job is lost,
  doubled or reordered, and a job that is not due yet stays where it is.\<close>
theorem redis_Dequeue_order:
  assumes "serves E view" and "uncut E" and "\<bar>call_millis E s\<bar> < 2 ^ 62" and "db_ok (view s)"
    and "all_fit (rk_key (rd_queue E)) (call_millis E s) (view s)" and "wait < 2 ^ 62"
  shows "\<exists>s'. redis_Dequeue E wait s = Some (taken E (waiting (call_millis E s) (view s)), s') \<and>
    rev (db_jobs (view s')) = tl (waiting (call_millis E s) (view s)) \<and>
    db_delayed (view s') = filter (\<lambda>(score, m). call_millis E s < score) (db_delayed (view s))"
proof -
  have "waiting (call_millis E s) (view s) = [] \<or> uncut E \<and> all_fit (rk_key (rd_queue E)) (call_millis E s) (view s)"
    using assms(2,5) by simp
  then show ?thesis by (rule Dequeue_serves [OF assms(1,3,4) _ assms(6)]) (simp add: left_after_def)
qed

text \<open>C23: the Redis queue keeps the contract of the in-memory queue. Jobs sent to an empty queue are all accepted
  and are stored there as their JSON, each once, in the order of sending, into however many pieces the network
  cuts the answers. Taking them again, in exchanges that the reader can read (answers that are not cut, of
  at most 4096 bytes), gives for each job, in the order of sending, what the decoder reads of its JSON, and
  leaves the queue empty; a call in between answers no job twice.\<close>
theorem redis_queue_fifo:
  assumes "serves E view" and "view s = \<lparr>db_jobs = [], db_delayed = []\<rparr>"
    and "list_all (\<lambda>job. length (json_job (rd_fmt E) job) < 2 ^ 62) jobs" and "length jobs < 2 ^ 62"
  shows "\<exists>s1. enqueue_jobs E jobs s = (True, s1) \<and>
    rev (db_jobs (view s1)) = map (json_job (rd_fmt E)) jobs \<and> db_delayed (view s1) = [] \<and>
    (uncut E \<and> list_all (job_fits E) jobs \<and> clock_ok E \<and> wait < 2 ^ 62 \<longrightarrow>
      (\<exists>s2. dequeue_answers E wait (length jobs) s1 = Some (map (\<lambda>job. decoded E (json_job (rd_fmt E) job)) jobs, s2) \<and>
        view s2 = \<lparr>db_jobs = [], db_delayed = []\<rparr>))"
proof -
  let ?ps = "map (json_job (rd_fmt E)) jobs"
  obtain s1 where s1: "enqueue_jobs E jobs s = (True, s1)" "view s1 = \<lparr>db_jobs = rev ?ps, db_delayed = []\<rparr>"
    using enqueue_jobs_serves [OF assms(1), of jobs s] assms(2-) by (auto simp: short_def)
  moreover have "\<exists>s2. dequeue_answers E wait (length jobs) s1 = Some (map (\<lambda>job. decoded E (json_job (rd_fmt E) job)) jobs, s2) \<and>
      view s2 = \<lparr>db_jobs = [], db_delayed = []\<rparr>"
    if "uncut E" "list_all (job_fits E) jobs" "clock_ok E" "wait < 2 ^ 62"
    using dequeue_answers_serves [OF assms(1) that(1,3,4) _ _ s1(2)] that(2) assms(4)
    by (simp add: list_all_iff job_fits_def comp_def)
  ultimately show ?thesis by auto
qed

text \<open>A job that is taken can be lost: when the network cuts the answer to the pop inside the payload, the
  reader fills the rest of it with zero bytes. The decoder refuses that, since JSON has no zero bytes, and the
  call fails; but the job has left the server, and is nowhere any more.\<close>

definition pop_head :: "string \<Rightarrow> nat \<Rightarrow> string" where
  "pop_head key n = ''*'' @ nat_str 2 @ crlf @ resp_bulk key @ ''$'' @ nat_str n @ crlf"

theorem cut_answer_loses_job:
  assumes "serves E view" and "\<bar>call_millis E s\<bar> < 2 ^ 62" and "wait < 2 ^ 62" and "length jobs < 2 ^ 61"
    and "view s = \<lparr>db_jobs = jobs @ [first_part @ second_part], db_delayed = []\<rparr>"
    and "first_part \<noteq> []" and "length (first_part @ second_part) < 2 ^ 63" and "length (rk_key (rd_queue E)) < 2 ^ 63"
    and cut: "\<And>s1 segs s2. view s1 = view s \<Longrightarrow>
      rd_send E (resp_array [''BRPOP'', rk_key (rd_queue E), int_str (pop_seconds wait)]) s1 = ((None, segs), s2) \<Longrightarrow>
      segs = [pop_head (rk_key (rd_queue E)) (length (first_part @ second_part)) @ first_part, second_part @ crlf]"
    and "rd_Unmarshal E (first_part @ replicate (length second_part) (CHR 0x00)) = Inl e"
  shows "\<exists>s'. redis_Dequeue E wait s = Some (Failure (wrap ''decode async job'' e), s') \<and>
    view s' = \<lparr>db_jobs = jobs, db_delayed = []\<rparr>"
proof -
  let ?key = "rk_key (rd_queue E)" and ?p = "first_part @ second_part"
  let ?padded = "first_part @ replicate (length second_part) (CHR 0x00)"
  let ?args = "[''BRPOP'', ?key, int_str (pop_seconds wait)]"
  obtain s1 where s1: "redis_connect E s = (Inr new_conn, s1)" "snd (rd_dial E (rd_queue E) s) = s1" "view s1 = view s"
    by (rule serves_dial [OF assms(1), of s])
  have idle: "due_payloads now (view s) = []" for now by (simp add: assms(5) due_payloads_def)
  have "db_ok (view s)" using assms(4) by (simp add: db_ok_def assms(5))
  then obtain s2 where s2: "promoteDueJobs E new_conn s1 = Some ((Value (), new_conn), s2)" "view s2 = view s"
    using promoteDueJobs_moves [OF assms(1) s1 assms(2)] idle by (auto simp: promoted_def assms(5))
  have "\<bar>pop_seconds wait\<bar> < 2 ^ 62" using assms(3) by (auto simp: pop_seconds_def duration_seconds_def)
  then have law: "answers E view ?args
      (\<lambda>db. if db_jobs db = [] then ''*-1'' @ crlf else resp_array [?key, last (db_jobs db)]) pop_right"
    using assms(1) by (simp add: serves_def Let_def)
  obtain segs s3 where sent: "writeRESPArray E ?args new_conn s2 = ((None, \<lparr>rc_buf = [], rc_segs = segs\<rparr>), s3)"
      "rd_send E (resp_array ?args) s2 = ((None, segs), s3)" and s3: "view s3 = pop_right (view s2)"
    by (rule answersD [OF law, of s2])
  have segs: "segs = [pop_head ?key (length ?p) @ first_part, second_part @ crlf]" by (rule cut [OF s2(2) sent(2)])
  have "\<exists>c. readRESPArray \<lparr>rc_buf = [], rc_segs = segs\<rparr> = (Value (Some [?key, ?padded]), c)"
  proof -
    have "readRESPArray \<lparr>rc_buf = [], rc_segs = segs\<rparr> =
        readRESPArray \<lparr>rc_buf = pop_head ?key (length ?p) @ first_part, rc_segs = [second_part @ crlf]\<rparr>"
      unfolding segs by (rule first_segment(1)) (simp add: pop_head_def)
    also have "\<dots> = read_bulks 2 [] \<lparr>rc_buf = resp_bulk ?key @ ''$'' @ nat_str (length ?p) @ crlf @ first_part,
        rc_segs = [second_part @ crlf]\<rparr>"
      using Atoi_nat_str [of 2]
      by (simp add: readRESPArray_def pop_head_def readRESPLine_buf nat_str_line)
    finally show ?thesis
      using split_bulk_corrupted [OF assms(7,6), of "[]"]
      by (simp add: numeral_2_eq_2 readRESPBulkString_whole [OF assms(8)])
  qed
  then have "ask_array E ?args new_conn s2 = ((Value (Some [?key, ?padded]), snd (readRESPArray \<lparr>rc_buf = [], rc_segs = segs\<rparr>)), s3)"
    using sent(1) by (auto simp: ask_array_def)
  then have "redis_Dequeue E wait s = Some (Failure (wrap ''decode async job'' e), s3)"
    by (simp add: redis_Dequeue_def s1(1) s2(1) popped_job_def assms(10))
  moreover have "view s3 = \<lparr>db_jobs = jobs, db_delayed = []\<rparr>" by (simp add: s3 s2(2) assms(5) pop_right_def)
  ultimately show ?thesis by blast
qed

text \<open>A job that is sent with a delay, to an empty queue, is not taken before its time and is taken
  from then on: a later call finds no job while its clock is before the time of sending plus the delay,
  in milliseconds, and the job that was sent otherwise.\<close>
theorem redis_delay_kept:
  assumes "serves E view" and "uncut E" and "clock_ok E" and "wait < 2 ^ 62"
    and "view s = \<lparr>db_jobs = [], db_delayed = []\<rparr>" and "job_fits E job"
    and "rd_now E (snd (rd_dial E (rd_queue E) s)) = (sent, s0)"
    and "\<bar>unix_millis (sent + delay)\<bar> < 2 ^ 62"
    and "redis_EnqueueAfter E job delay s = (answer, s1)" and "view s2 = view s1"
  shows "answer = Value () \<and>
    map_option fst (redis_Dequeue E wait s2) =
      Some (if call_millis E s2 < unix_millis (sent + delay) then Value None else decoded E (json_job (rd_fmt E) job))"
proof -
  let ?p = "json_job (rd_fmt E) job"
  let ?now = "call_millis E s2"
  have "redis_EnqueueAfter E job delay s = (Value (), s1)"
      and s1: "view s1 = add_member (unix_millis (sent + delay)) ?p (view s)"
    using EnqueueAfter_serves [OF assms(1) job_fits_short [OF assms(6)] assms(7,8)] assms(9) by auto
  have "answer = Value ()" using \<open>redis_EnqueueAfter E job delay s = (Value (), s1)\<close> assms(9) by simp
  have s2: "view s2 = \<lparr>db_jobs = [], db_delayed = [(unix_millis (sent + delay), ?p)]\<rparr>"
    by (simp add: assms(5,10) s1 add_member_def remove_member_def)
  have due: "waiting ?now (view s2) = (if ?now < unix_millis (sent + delay) then [] else [?p])"
    "due_payloads ?now (view s2) = (if ?now < unix_millis (sent + delay) then [] else [?p])"
    by (simp_all add: s2 waiting_def due_payloads_def)
  have "fits [?p]" using assms(6) by (simp add: job_fits_def fits_def resp_array_def nat_str.simps)
  then have "all_fit (rk_key (rd_queue E)) ?now (view s2)"
    using assms(6) by (auto simp: all_fit_def batches_fit_def due fits_Nil job_fits_def take_Cons' drop_Cons')
  moreover have "db_ok (view s2)" by (simp add: db_ok_def s2)
  moreover have "\<bar>?now\<bar> < 2 ^ 62" using assms(3) by (simp add: clock_ok_def call_millis_def)
  ultimately obtain s3 where "redis_Dequeue E wait s2 = Some (taken E (waiting ?now (view s2)), s3)"
    using Dequeue_serves [OF assms(1) _ _ _ assms(4), of s2] assms(2) by metis
  then show ?thesis using \<open>answer = Value ()\<close> by (simp add: due) (simp add: taken_def)
qed

section \<open>A server, for the examples\<close>

lemma length_nat_str: "length (nat_str n) \<le> Suc n"
proof (induction n rule: nat_str.induct)
  case (1 n)
  then show ?case by (subst nat_str.simps) (cases "n < 10", auto)
qed

lemma Atoi_int_str:
  assumes "\<bar>n\<bar> < 2 ^ 62"
  shows "Atoi (int_str n) = Inr n" "length (int_str n) < 2 ^ 63"
proof -
  have "nat n < 2 ^ 62" "nat (- n) < 2 ^ 62" using assms by auto
  then show "length (int_str n) < 2 ^ 63"
    using length_nat_str [of "nat n"] length_nat_str [of "nat (- n)"] by (simp add: int_str_def)
  show "Atoi (int_str n) = Inr n"
  proof (cases "n < 0")
    case True
    then show ?thesis using nat_str_digits [of "nat (- n)"] assms by (simp add: int_str_def Atoi_def Let_def)
  next
    case False
    then show ?thesis using Atoi_nat_str [of "nat n"] assms by (simp add: int_str_def)
  qed
qed

text \<open>It reads a command as the protocol has it and carries it out on the keys; its clock is part of its
  state.\<close>

definition demo_command :: "string list \<Rightarrow> redis_db \<Rightarrow> string \<times> redis_db" where
  "demo_command args db =
     (case args of
        [c, k, a] \<Rightarrow>
          if c = ''LPUSH'' then (int_reply (length (db_jobs db) + 1), push_left a db)
          else if c = ''ZREM''
          then (int_reply (if a \<in> snd ` set (db_delayed db) then 1 else 0), remove_member a db)
          else (if db_jobs db = [] then ''*-1'' @ crlf else resp_array [k, last (db_jobs db)], pop_right db)
      | [c, k, score, a] \<Rightarrow>
          (case Atoi score of
             Inl e \<Rightarrow> (''-ERR'' @ crlf, db)
           | Inr n \<Rightarrow> (int_reply (if a \<in> snd ` set (db_delayed db) then 0 else 1), add_member n a db))
      | [c, k, low, high, l, first, number] \<Rightarrow>
          (case Atoi high of
             Inl e \<Rightarrow> (''-ERR'' @ crlf, db)
           | Inr n \<Rightarrow> (resp_array (take 32 (due_payloads n db)), db))
      | _ \<Rightarrow> (''-ERR'' @ crlf, db))"

definition demo_send ::
    "string \<Rightarrow> redis_db \<times> time \<Rightarrow> ((string \<times> goerr) option \<times> string list) \<times> (redis_db \<times> time)" where
  "demo_send bytes s =
     (case readRESPArray \<lparr>rc_buf = [], rc_segs = [bytes]\<rparr> of
        (Value (Some args), c) \<Rightarrow>
          (case demo_command args (fst s) of (reply, db) \<Rightarrow> ((None, [reply]), (db, snd s)))
      | (_, c) \<Rightarrow> ((None, [''-ERR'' @ crlf]), s))"

definition demo_job :: "string \<Rightarrow> async_job" where
  "demo_job r = \<lparr>job_RunID = r, job_TenantID = ''t'', job_WorkflowID = ''w'', job_Attempt = 1,
     job_MaxAttempts = 3, job_Input = []\<rparr>"

definition demo_redis :: "(redis_db \<times> time) redis_env" where
  "demo_redis =
     \<lparr>rd_queue = NewRedisQueue ''redis:6379'' [], rd_fmt = plain_fmt, rd_dial = (\<lambda>q s. (None, s)),
      rd_send = demo_send, rd_now = (\<lambda>s. (max 0 (min (10 ^ 20) (snd s)), s)),
      rd_Unmarshal = (\<lambda>p. if p = json_job plain_fmt (demo_job ''r1'') then Inr (demo_job ''r1'')
        else if p = json_job plain_fmt (demo_job ''r2'') then Inr (demo_job ''r2'')
        else Inl (Anonymous ''unexpected end of JSON input''))\<rparr>"

lemma demo_send_args:
  assumes "list_all (\<lambda>v. length v < 2 ^ 63) args" and "length args < 2 ^ 63"
  shows "demo_send (resp_array args) s =
    (case demo_command args (fst s) of (reply, db) \<Rightarrow> ((None, [reply]), (db, snd s)))"
proof -
  have "resp_array args \<noteq> []" by (simp add: resp_array_def)
  then have "readRESPArray \<lparr>rc_buf = [], rc_segs = [resp_array args]\<rparr> = (Value (Some args), new_conn)"
    using readRESPArray_whole [OF assms(2,1), of "[]" "[]"] by (simp add: first_segment new_conn_def)
  then show ?thesis by (simp add: demo_send_def)
qed

lemma demo_keys: "rk_key (rd_queue demo_redis) = ''workflow:jobs:async''"
  "rk_delayedKey (rd_queue demo_redis) = ''workflow:jobs:async:delayed''"
  by code_simp+

lemma answers_not_empty: "[] \<noteq> int_reply n" "[] \<noteq> resp_array values"
  by (simp_all add: int_reply_def resp_array_def)

lemma demo_serves: "serves demo_redis fst"
  unfolding serves_def demo_keys Let_def answers_def
  by (simp add: demo_redis_def demo_send_args demo_command_def short_def Atoi_int_str [simplified] answers_not_empty)

lemma demo_uncut: "uncut demo_redis"
  by (auto simp: uncut_def demo_redis_def demo_send_def split: prod.splits reading.splits option.splits)

lemma demo_clock: "clock_ok demo_redis"
  by (auto simp: clock_ok_def demo_redis_def unix_millis_def)

lemma demo_fits: "job_fits demo_redis (demo_job ''r1'')" "job_fits demo_redis (demo_job ''r2'')"
  by code_simp+

lemma demo_decoded:
  "decoded demo_redis (json_job plain_fmt (demo_job ''r1'')) = Value (Some (demo_job ''r1''))"
  "decoded demo_redis (json_job plain_fmt (demo_job ''r2'')) = Value (Some (demo_job ''r2''))"
  by code_simp+

lemma demo_fmt: "rd_fmt demo_redis = plain_fmt"
  by (simp add: demo_redis_def)

definition demo_time :: time where
  "demo_time = 62135596800000 * 1000000 + 5000000"

definition demo_db :: redis_db where
  "demo_db = \<lparr>db_jobs = [json_job plain_fmt (demo_job ''r1'')],
     db_delayed = [(4, json_job plain_fmt (demo_job ''r2'')), (6, ''later'')]\<rparr>"

theorem redis_Dequeue_order_witness:
  "\<exists>s'. redis_Dequeue demo_redis (seconds 1) (demo_db, demo_time) = Some (Value (Some (demo_job ''r1'')), s') \<and>
     rev (db_jobs (fst s')) = [json_job plain_fmt (demo_job ''r2'')] \<and> db_delayed (fst s') = [(6, ''later'')]"
proof -
  have now: "call_millis demo_redis (demo_db, demo_time) = 5" by code_simp
  have "json_job plain_fmt (demo_job ''r2'') \<noteq> ''later''" by code_simp
  then have db: "db_ok demo_db" by (simp add: db_ok_def demo_db_def)
  have waiting: "due_payloads 5 demo_db = [json_job plain_fmt (demo_job ''r2'')]"
      "waiting 5 demo_db = [json_job plain_fmt (demo_job ''r1''), json_job plain_fmt (demo_job ''r2'')]"
    by (simp_all add: waiting_def due_payloads_def demo_db_def)
  have "fits [json_job plain_fmt (demo_job ''r2'')]" by code_simp
  then have fit: "all_fit (rk_key (rd_queue demo_redis)) 5 demo_db"
    using demo_fits by (auto simp: all_fit_def batches_fit_def waiting fits_Nil job_fits_def demo_fmt take_Cons' drop_Cons')
  have "taken demo_redis (waiting 5 demo_db) = Value (Some (demo_job ''r1''))"
    by (simp add: waiting demo_decoded)
  moreover have "filter (\<lambda>(score, m). 5 < score) (db_delayed demo_db) = [(6, ''later'')]"
    by (simp add: demo_db_def)
  ultimately show ?thesis
    using redis_Dequeue_order [OF demo_serves demo_uncut, of "(demo_db, demo_time)" "seconds 1"] db fit
    by (simp add: now waiting)
qed

theorem redis_queue_fifo_witness:
  "\<exists>s1 s2. enqueue_jobs demo_redis [demo_job ''r1'', demo_job ''r2''] (\<lparr>db_jobs = [], db_delayed = []\<rparr>, demo_time) =
      (True, s1) \<and>
     dequeue_answers demo_redis (seconds 1) 2 s1 =
      Some ([Value (Some (demo_job ''r1'')), Value (Some (demo_job ''r2''))], s2) \<and>
     fst s2 = \<lparr>db_jobs = [], db_delayed = []\<rparr>"
proof -
  let ?jobs = "[demo_job ''r1'', demo_job ''r2'']"
  have empty: "fst (\<lparr>db_jobs = [], db_delayed = []\<rparr> :: redis_db, demo_time) = \<lparr>db_jobs = [], db_delayed = []\<rparr>" by simp
  have fit: "list_all (job_fits demo_redis) ?jobs" using demo_fits by simp
  then have "list_all (\<lambda>job. length (json_job (rd_fmt demo_redis) job) < 2 ^ 62) ?jobs"
    using job_fits_short by (auto simp: short_def)
  moreover have "length ?jobs < 2 ^ 62" by simp
  moreover have "length ?jobs = 2" and wait: "seconds 1 < 2 ^ 62"
    and answers: "map (\<lambda>job. decoded demo_redis (json_job (rd_fmt demo_redis) job)) ?jobs =
      [Value (Some (demo_job ''r1'')), Value (Some (demo_job ''r2''))]"
    by (simp_all add: demo_fmt demo_decoded)
  ultimately show ?thesis
    using redis_queue_fifo [OF demo_serves empty, of ?jobs "seconds 1", unfolded answers] fit demo_uncut demo_clock wait
    by metis
qed

theorem redis_delay_kept_witness:
  "map_option fst (redis_Dequeue demo_redis (seconds 1)
      (fst (snd (redis_EnqueueAfter demo_redis (demo_job ''r1'') (milliseconds 50) (\<lparr>db_jobs = [], db_delayed = []\<rparr>, demo_time))),
       demo_time + milliseconds 40)) = Some (Value None) \<and>
   map_option fst (redis_Dequeue demo_redis (seconds 1)
      (fst (snd (redis_EnqueueAfter demo_redis (demo_job ''r1'') (milliseconds 50) (\<lparr>db_jobs = [], db_delayed = []\<rparr>, demo_time))),
       demo_time + milliseconds 50)) = Some (Value (Some (demo_job ''r1'')))"
proof -
  let ?s = "(\<lparr>db_jobs = [], db_delayed = []\<rparr>, demo_time)"
  let ?r = "redis_EnqueueAfter demo_redis (demo_job ''r1'') (milliseconds 50) ?s"
  have clock: "rd_now demo_redis (snd (rd_dial demo_redis (rd_queue demo_redis) ?s)) = (demo_time, ?s)" by code_simp
  have score: "unix_millis (demo_time + milliseconds 50) = 55" by code_simp
  have now: "call_millis demo_redis (db, demo_time + milliseconds 40) = 45"
      "call_millis demo_redis (db, demo_time + milliseconds 50) = 55" for db
    by (simp_all add: call_millis_def demo_redis_def demo_time_def unix_millis_def)
  have "map_option fst (redis_Dequeue demo_redis (seconds 1) (fst (snd ?r), t)) =
      Some (if call_millis demo_redis (fst (snd ?r), t) < 55 then Value None else Value (Some (demo_job ''r1'')))" for t
    using redis_delay_kept [OF demo_serves demo_uncut demo_clock _ _ demo_fits(1) clock, of "seconds 1" "milliseconds 50"
        "fst ?r" "snd ?r" "(fst (snd ?r), t)", unfolded score demo_fmt demo_decoded(1)] by simp
  then show ?thesis by (simp only: now) simp
qed

end
