(* ===== verification/Bootstrap.thy ===== *)
theory Bootstrap
  imports Auth Egress
begin

text \<open>
  \<open>internal/platform/config/bootstrap.go\<close> (the API keys of the environment variable
  \<open>BOOTSTRAP_API_KEYS\<close>) and the tenants and keys that
  \<open>internal/platform/bootstrap/repositories.go\<close> makes of them.
\<close>

record bootstrap_key =
  bk_APIKeyID :: string
  bk_Label :: string
  bk_TenantID :: string
  bk_TenantName :: string
  bk_PlaintextKey :: string

definition entry_error :: "string \<Rightarrow> string \<Rightarrow> goerr" where
  "entry_error item problem =
     Anonymous (''invalid BOOTSTRAP_API_KEYS entry '' @ quote item @ '': '' @ problem)"

fun parse_entries :: "nat \<Rightarrow> string list \<Rightarrow> bootstrap_key list result" where
  "parse_entries index [] = Inr []"
| "parse_entries index (item # items) =
     (case split_on (CHR ''|'') (trim_space item) of
        [p0, p1, p2] \<Rightarrow>
          let tenantID = trim_space p0; tenantName = trim_space p1; plaintext = trim_space p2 in
          if tenantID = [] \<or> tenantName = [] \<or> plaintext = [] then
            Inl (entry_error item ''all fields must be non-empty'')
          else
            (case parse_entries (Suc index) items of
               Inl e \<Rightarrow> Inl e
             | Inr keys \<Rightarrow>
                 Inr (\<lparr>bk_APIKeyID = ''bootstrap-key-'' @ nat_str (index + 1),
                       bk_Label = ''bootstrap'', bk_TenantID = tenantID,
                       bk_TenantName = tenantName, bk_PlaintextKey = plaintext\<rparr> # keys))
      | _ \<Rightarrow> Inl (entry_error item ''expected tenant_id|tenant_name|api_key''))"

definition parseBootstrapAPIKeys :: "string \<Rightarrow> bootstrap_key list result" where
  "parseBootstrapAPIKeys raw0 =
     (let raw = trim_space raw0 in
      if raw = [] then Inr [] else parse_entries 0 (split_on (CHR '','') raw))"

fun bootstrap_tenants :: "string set \<Rightarrow> bootstrap_key list \<Rightarrow> tenant list" where
  "bootstrap_tenants seen [] = []"
| "bootstrap_tenants seen (entry # entries) =
     (if bk_TenantID entry \<in> seen then bootstrap_tenants seen entries
      else \<lparr>tenant_ID = bk_TenantID entry, tenant_Name = bk_TenantName entry,
            tenant_Status = TenantActive\<rparr>
           # bootstrap_tenants (insert (bk_TenantID entry) seen) entries)"

definition buildBootstrapTenants :: "bootstrap_key list \<Rightarrow> tenant list" where
  "buildBootstrapTenants entries = bootstrap_tenants {} entries"

definition buildBootstrapAPIKeys :: "bootstrap_key list \<Rightarrow> api_key list" where
  "buildBootstrapAPIKeys entries =
     map (\<lambda>entry. \<lparr>ak_ID = bk_APIKeyID entry, ak_TenantID = bk_TenantID entry,
                   ak_Label = bk_Label entry, ak_Plaintext = bk_PlaintextKey entry,
                   ak_Status = KeyActive\<rparr>) entries"

section \<open>Properties\<close>

definition entry_ok :: "bootstrap_key \<Rightarrow> bool" where
  "entry_ok k \<longleftrightarrow>
     list_all (\<lambda>f. f \<noteq> [] \<and> trim_space f = f) [bk_TenantID k, bk_TenantName k, bk_PlaintextKey k]"

lemma parse_entries_ok: "parse_entries i items = Inr keys \<Longrightarrow> list_all entry_ok keys"
  by (induction i items arbitrary: keys rule: parse_entries.induct)
     (auto simp: Let_def entry_ok_def split: list.splits if_splits sum.splits)

lemma parse_ok: "parseBootstrapAPIKeys raw = Inr keys \<Longrightarrow> list_all entry_ok keys"
  by (auto simp: parseBootstrapAPIKeys_def Let_def parse_entries_ok split: if_splits)

lemma bootstrap_tenants_ids:
  "distinct (map tenant_ID (bootstrap_tenants seen entries)) \<and>
   tenant_ID ` set (bootstrap_tenants seen entries) = bk_TenantID ` set entries - seen \<and>
   (\<forall>t \<in> set (bootstrap_tenants seen entries). tenant_Status t = TenantActive)"
  by (induction seen entries rule: bootstrap_tenants.induct) auto

text \<open>Configured keys work: when the configuration parses and no two keys have the same hash, each
  configured plaintext authenticates, as its own key and as the tenant it was configured for.\<close>
theorem bootstrap_keys_authenticate:
  assumes "parseBootstrapAPIKeys raw = Inr entries" and "entry \<in> set entries"
    and "distinct (map (\<lambda>k. hash (bk_PlaintextKey k)) entries)"
  shows "\<exists>i. Authenticate
      (memory_auth hash (buildBootstrapAPIKeys entries) (buildBootstrapTenants entries))
      (bk_PlaintextKey entry) = Inr i \<and>
    id_TenantID i = bk_TenantID entry \<and> id_APIKeyID i = bk_APIKeyID entry"
proof -
  let ?key = "\<lparr>ak_ID = bk_APIKeyID entry, ak_TenantID = bk_TenantID entry, ak_Label = bk_Label entry,
    ak_Plaintext = bk_PlaintextKey entry, ak_Status = KeyActive\<rparr>"
  have ok: "entry_ok entry" using parse_ok [OF assms(1)] assms(2) by (simp add: list_all_iff)
  have key: "?key \<in> set (buildBootstrapAPIKeys entries)"
    using assms(2) by (auto simp: buildBootstrapAPIKeys_def)
  have hashes: "distinct (map (\<lambda>k. hash (ak_Plaintext k)) (buildBootstrapAPIKeys entries))"
    using assms(3) by (simp add: buildBootstrapAPIKeys_def comp_def)
  obtain t where t: "t \<in> set (buildBootstrapTenants entries)" "tenant_ID t = bk_TenantID entry"
    "tenant_Status t = TenantActive"
    using bootstrap_tenants_ids [of "{}" entries] assms(2) unfolding buildBootstrapTenants_def
    by (metis Diff_empty image_iff)
  have "distinct (map tenant_ID (buildBootstrapTenants entries))"
    using bootstrap_tenants_ids unfolding buildBootstrapTenants_def by blast
  from Authenticate_complete [OF key hashes t(1) this] t(2,3) ok show ?thesis
    by (auto simp: entry_ok_def)
qed

definition demo_entry :: bootstrap_key where
  "demo_entry = \<lparr>bk_APIKeyID = ''bootstrap-key-1'', bk_Label = ''bootstrap'', bk_TenantID = ''acme'',
     bk_TenantName = ''Acme Inc'', bk_PlaintextKey = ''s3cret''\<rparr>"

lemma demo_bootstrap: "parseBootstrapAPIKeys '' acme | Acme Inc | s3cret '' = Inr [demo_entry]"
proof -
  have trims: "trim_space '' acme | Acme Inc | s3cret '' = ''acme | Acme Inc | s3cret''"
    "trim_space ''acme | Acme Inc | s3cret'' = ''acme | Acme Inc | s3cret''"
    "trim_space ''acme '' = ''acme''" "trim_space '' Acme Inc '' = ''Acme Inc''"
    "trim_space '' s3cret'' = ''s3cret''"
    by code_simp+
  have commas: "split_on (CHR '','') ''acme | Acme Inc | s3cret'' = [''acme | Acme Inc | s3cret'']"
    by (rule split_on_no_sep) simp
  have
    "split_on (CHR ''|'') (''acme '' @ CHR ''|'' # '' Acme Inc '' @ CHR ''|'' # '' s3cret'') =
       [''acme '', '' Acme Inc '', '' s3cret'']"
    by (subst split_on_append, simp)+ (simp add: split_on_no_sep del: split_on.simps)
  then have bars:
    "split_on (CHR ''|'') ''acme | Acme Inc | s3cret'' = [''acme '', '' Acme Inc '', '' s3cret'']"
    by (simp only: append.simps)
  have "nat_str 1 = ''1''"
    by (subst nat_str.simps) (simp add: digit_char_def, code_simp)
  then show ?thesis
    by (simp add: parseBootstrapAPIKeys_def demo_entry_def trims commas bars del: split_on.simps)
qed

theorem bootstrap_keys_authenticate_witness:
  "\<exists>i. Authenticate (memory_auth (\<lambda>k. k) (buildBootstrapAPIKeys [demo_entry])
      (buildBootstrapTenants [demo_entry])) ''s3cret'' = Inr i \<and> id_TenantID i = ''acme''"
proof -
  have "demo_entry \<in> set [demo_entry]"
    and "distinct (map (\<lambda>k. (\<lambda>k. k) (bk_PlaintextKey k)) [demo_entry])" by simp_all
  from bootstrap_keys_authenticate [OF demo_bootstrap this] show ?thesis
    by (auto simp: demo_entry_def)
qed

end
