(* ===== verification/Config.thy ===== *)
theory Config
  imports Bootstrap Health Redis ObjectStore
begin

text \<open>
  \<open>internal/platform/config/config.go\<close>: the configuration that the processes read from their
  environment; and what \<open>cmd/api/main.go\<close> and \<open>cmd/worker/main.go\<close> decide from it: which queue and which
  object store they use, which dependencies are checked, and which of the two processes works off the
  queue.
\<close>

section \<open>The configuration\<close>

record http_config =
  hp_Addr :: string
  hp_ReadTimeout :: duration
  hp_WriteTimeout :: duration
  hp_IdleTimeout :: duration

record dependency_config =
  dp_PostgresAddr :: string
  dp_PostgresDSN :: string
  dp_RedisAddr :: string
  dp_MinIOAddr :: string
  dp_ReadinessTimeout :: duration

record s3_config =
  s3_Endpoint :: string
  s3_AccessKey :: string
  s3_SecretKey :: string
  s3_Bucket :: string
  s3_UseSSL :: bool

record storage_config =
  st_ObjectDir :: string
  st_S3 :: s3_config

record limits_config =
  lc_TenantExecuteLimit :: int
  lc_TenantExecuteWindow :: duration

record observability_config =
  oc_Exporter :: string
  oc_SampleRatio :: rat

record app_config =
  cf_ServiceName :: string
  cf_AppEnv :: string
  cf_HTTP :: http_config
  cf_Auth :: "bootstrap_key list"
  cf_Limits :: limits_config
  cf_Observability :: observability_config
  cf_Storage :: storage_config
  cf_Dependencies :: dependency_config
  cf_ShutdownTimeout :: duration

section \<open>Reading variables\<close>

text \<open>
  The environment gives the empty string for a variable that is not set. \<open>time.ParseDuration\<close>,
  \<open>strconv.ParseFloat\<close> and the directory for temporary files are parameters.
\<close>

record environment =
  ev_Getenv :: "string \<Rightarrow> string"
  ev_ParseDuration :: "string \<Rightarrow> duration result"
  ev_ParseFloat :: "string \<Rightarrow> rat result"
  ev_TempDir :: string

definition stringEnv :: "environment \<Rightarrow> string \<Rightarrow> string \<Rightarrow> string" where
  "stringEnv V key fallback = (let val = ev_Getenv V key in if val \<noteq> [] then val else fallback)"

definition durationEnv :: "environment \<Rightarrow> string \<Rightarrow> duration \<Rightarrow> duration result" where
  "durationEnv V key fallback =
     (let val = ev_Getenv V key in
      if val = [] then Inr fallback
      else case ev_ParseDuration V val of
             Inl e \<Rightarrow> Inl (wrap (''parse '' @ key) e)
           | Inr parsed \<Rightarrow> Inr parsed)"

definition intEnv :: "environment \<Rightarrow> string \<Rightarrow> int \<Rightarrow> int" where
  "intEnv V key fallback =
     (let val = ev_Getenv V key in
      if val = [] then fallback
      else case Atoi val of Inl e \<Rightarrow> fallback | Inr parsed \<Rightarrow> parsed)"

definition floatEnv :: "environment \<Rightarrow> string \<Rightarrow> rat \<Rightarrow> rat" where
  "floatEnv V key fallback =
     (let val = ev_Getenv V key in
      if val = [] then fallback
      else case ev_ParseFloat V val of Inl e \<Rightarrow> fallback | Inr parsed \<Rightarrow> parsed)"

text \<open>\<open>strconv.ParseBool\<close> knows six words for each value.\<close>

definition ParseBool :: "string \<Rightarrow> bool option" where
  "ParseBool s =
     (if s \<in> {''1'', ''t'', ''T'', ''TRUE'', ''true'', ''True''} then Some True
      else if s \<in> {''0'', ''f'', ''F'', ''FALSE'', ''false'', ''False''} then Some False
      else None)"

definition boolEnv :: "environment \<Rightarrow> string \<Rightarrow> bool \<Rightarrow> bool" where
  "boolEnv V key fallback =
     (let val = trim_space (ev_Getenv V key) in
      if val = [] then fallback
      else case ParseBool val of None \<Rightarrow> fallback | Some parsed \<Rightarrow> parsed)"

definition bootstrapAuthConfig :: "environment \<Rightarrow> bootstrap_key list result" where
  "bootstrapAuthConfig V = parseBootstrapAPIKeys (ev_Getenv V ''BOOTSTRAP_API_KEYS'')"

text \<open>The configuration once everything that can fail has been read.\<close>

definition loaded_config ::
    "environment \<Rightarrow> string \<Rightarrow> duration \<Rightarrow> duration \<Rightarrow> duration \<Rightarrow> duration \<Rightarrow> duration \<Rightarrow> duration \<Rightarrow>
     bootstrap_key list \<Rightarrow> app_config" where
  "loaded_config V defaultServiceName readTimeout writeTimeout idleTimeout shutdownTimeout
     readinessTimeout executeWindow authConfig =
     \<lparr>cf_ServiceName = stringEnv V ''SERVICE_NAME'' defaultServiceName,
      cf_AppEnv = stringEnv V ''APP_ENV'' ''development'',
      cf_HTTP = \<lparr>hp_Addr = stringEnv V ''API_ADDR'' '':8080'', hp_ReadTimeout = readTimeout,
                 hp_WriteTimeout = writeTimeout, hp_IdleTimeout = idleTimeout\<rparr>,
      cf_Auth = authConfig,
      cf_Limits = \<lparr>lc_TenantExecuteLimit = intEnv V ''TENANT_EXECUTE_LIMIT'' 20,
                   lc_TenantExecuteWindow = executeWindow\<rparr>,
      cf_Observability = \<lparr>oc_Exporter = stringEnv V ''OTEL_EXPORTER'' ''none'',
                          oc_SampleRatio = floatEnv V ''OTEL_SAMPLE_RATIO'' 1\<rparr>,
      cf_Storage =
        \<lparr>st_ObjectDir = stringEnv V ''OBJECT_STORAGE_DIR'' (path_join (ev_TempDir V) ''workflow-objects''),
         st_S3 = \<lparr>s3_Endpoint = trim_space (ev_Getenv V ''MINIO_ENDPOINT''),
                  s3_AccessKey = trim_space (ev_Getenv V ''MINIO_ACCESS_KEY''),
                  s3_SecretKey = trim_space (ev_Getenv V ''MINIO_SECRET_KEY''),
                  s3_Bucket = trim_space (ev_Getenv V ''MINIO_BUCKET''),
                  s3_UseSSL = boolEnv V ''MINIO_USE_SSL'' False\<rparr>\<rparr>,
      cf_Dependencies =
        \<lparr>dp_PostgresAddr = ev_Getenv V ''POSTGRES_ADDR'',
         dp_PostgresDSN = trim_space (ev_Getenv V ''POSTGRES_DSN''),
         dp_RedisAddr = ev_Getenv V ''REDIS_ADDR'', dp_MinIOAddr = ev_Getenv V ''MINIO_ADDR'',
         dp_ReadinessTimeout = readinessTimeout\<rparr>,
      cf_ShutdownTimeout = shutdownTimeout\<rparr>"

definition Load :: "environment \<Rightarrow> string \<Rightarrow> app_config result" where
  "Load V defaultServiceName =
     (case durationEnv V ''HTTP_READ_TIMEOUT'' (seconds 5) of Inl e \<Rightarrow> Inl e | Inr readTimeout \<Rightarrow>
      case durationEnv V ''HTTP_WRITE_TIMEOUT'' (seconds 10) of Inl e \<Rightarrow> Inl e | Inr writeTimeout \<Rightarrow>
      case durationEnv V ''HTTP_IDLE_TIMEOUT'' (seconds 60) of Inl e \<Rightarrow> Inl e | Inr idleTimeout \<Rightarrow>
      case durationEnv V ''SHUTDOWN_TIMEOUT'' (seconds 10) of Inl e \<Rightarrow> Inl e | Inr shutdownTimeout \<Rightarrow>
      case durationEnv V ''READINESS_TIMEOUT'' (milliseconds 750) of Inl e \<Rightarrow> Inl e | Inr readinessTimeout \<Rightarrow>
      case durationEnv V ''TENANT_EXECUTE_WINDOW'' (seconds 60) of Inl e \<Rightarrow> Inl e | Inr executeWindow \<Rightarrow>
      case bootstrapAuthConfig V of Inl e \<Rightarrow> Inl e | Inr authConfig \<Rightarrow>
        Inr (loaded_config V defaultServiceName readTimeout writeTimeout idleTimeout shutdownTimeout
               readinessTimeout executeWindow authConfig))"

section \<open>What the processes make of it\<close>

datatype job_queue =
    RedisJobs redis_queue
  | MemoryJobs memory_queue

datatype object_store =
    LocalObjects string
  | S3Objects s3_config

definition buildDependencyCheckers ::
    "(string \<Rightarrow> time option \<Rightarrow> 's \<Rightarrow> goerr option result \<times> 's) \<Rightarrow> app_config \<Rightarrow> 's checker list" where
  "buildDependencyCheckers dial cfg =
     (let d = cf_Dependencies cfg in
      (if dp_PostgresAddr d \<noteq> [] then [NewTCPChecker dial ''postgres'' (dp_PostgresAddr d)] else []) @
      (if dp_RedisAddr d \<noteq> [] then [NewTCPChecker dial ''redis'' (dp_RedisAddr d)] else []) @
      (if dp_MinIOAddr d \<noteq> [] then [NewTCPChecker dial ''minio'' (dp_MinIOAddr d)] else []))"

definition buildJobQueue :: "app_config \<Rightarrow> job_queue" where
  "buildJobQueue cfg =
     (if dp_RedisAddr (cf_Dependencies cfg) \<noteq> []
      then RedisJobs (NewRedisQueue (dp_RedisAddr (cf_Dependencies cfg)) [])
      else MemoryJobs (NewMemoryQueue 128))"

definition buildObjectStore :: "app_config \<Rightarrow> object_store" where
  "buildObjectStore cfg =
     (if s3_Endpoint (st_S3 (cf_Storage cfg)) = [] then LocalObjects (st_ObjectDir (cf_Storage cfg))
      else S3Objects (st_S3 (cf_Storage cfg)))"

text \<open>
  Without a data source name the repositories are kept in the memory of the process, with the
  configured tenants and keys.
\<close>

datatype repository_kind =
    MemoryRepositories "tenant list" "api_key list"
  | PostgresRepositories string

definition repositories_of :: "app_config \<Rightarrow> repository_kind" where
  "repositories_of cfg =
     (if dp_PostgresDSN (cf_Dependencies cfg) = []
      then MemoryRepositories (buildBootstrapTenants (cf_Auth cfg)) (buildBootstrapAPIKeys (cf_Auth cfg))
      else PostgresRepositories (dp_PostgresDSN (cf_Dependencies cfg)))"

text \<open>A started process: its queue, its repositories and object store, and whether it works off the queue.\<close>

record started_process =
  sp_queue :: job_queue
  sp_repositories :: repository_kind
  sp_store :: object_store
  sp_works :: bool

definition start_api :: "app_config \<Rightarrow> started_process" where
  "start_api cfg =
     \<lparr>sp_queue = buildJobQueue cfg, sp_repositories = repositories_of cfg, sp_store = buildObjectStore cfg,
      sp_works = (dp_RedisAddr (cf_Dependencies cfg) = [])\<rparr>"

definition start_worker :: "app_config \<Rightarrow> started_process option" where
  "start_worker cfg =
     (if dp_RedisAddr (cf_Dependencies cfg) = [] then None
      else Some \<lparr>sp_queue = RedisJobs (NewRedisQueue (dp_RedisAddr (cf_Dependencies cfg)) []),
                 sp_repositories = repositories_of cfg, sp_store = buildObjectStore cfg, sp_works = True\<rparr>)"

section \<open>Properties\<close>

definition duration_keys :: "string list" where
  "duration_keys = [''HTTP_READ_TIMEOUT'', ''HTTP_WRITE_TIMEOUT'', ''HTTP_IDLE_TIMEOUT'', ''SHUTDOWN_TIMEOUT'',
     ''READINESS_TIMEOUT'', ''TENANT_EXECUTE_WINDOW'']"

lemma durationEnv_fails:
  "(\<exists>e. durationEnv V key d = Inl e) \<longleftrightarrow>
     ev_Getenv V key \<noteq> [] \<and> (\<exists>e. ev_ParseDuration V (ev_Getenv V key) = Inl e)"
  by (auto simp: durationEnv_def Let_def split: sum.splits)

text \<open>What keeps a process from starting: loading the configuration fails exactly when one of the six
  duration variables is set to something that is not a duration, or the bootstrap keys do not parse.
  Every other variable may be missing or malformed and has a default.\<close>
theorem Load_fails_iff:
  "(\<exists>e. Load V name = Inl e) =
     ((\<exists>key \<in> set duration_keys. ev_Getenv V key \<noteq> [] \<and> isl (ev_ParseDuration V (ev_Getenv V key))) \<or>
      isl (parseBootstrapAPIKeys (ev_Getenv V ''BOOTSTRAP_API_KEYS'')))"
proof -
  have fails: "isl (durationEnv V key d) =
      (ev_Getenv V key \<noteq> [] \<and> isl (ev_ParseDuration V (ev_Getenv V key)))" for key d
    using durationEnv_fails [of V key d] by (simp add: isl_def)
  have "(\<exists>e. Load V name = Inl e) \<longleftrightarrow>
      isl (durationEnv V ''HTTP_READ_TIMEOUT'' (seconds 5)) \<or> isl (durationEnv V ''HTTP_WRITE_TIMEOUT'' (seconds 10)) \<or>
      isl (durationEnv V ''HTTP_IDLE_TIMEOUT'' (seconds 60)) \<or> isl (durationEnv V ''SHUTDOWN_TIMEOUT'' (seconds 10)) \<or>
      isl (durationEnv V ''READINESS_TIMEOUT'' (milliseconds 750)) \<or>
      isl (durationEnv V ''TENANT_EXECUTE_WINDOW'' (seconds 60)) \<or> isl (bootstrapAuthConfig V)"
    by (simp add: Load_def split: sum.split)
  then show ?thesis by (simp add: fails duration_keys_def bootstrapAuthConfig_def)
qed

text \<open>No queue is left without a worker: started from the same configuration, either the API process
  has a queue in memory and works it off itself, and the worker process refuses to start; or both use the
  same Redis queue and the same object store, and the worker process alone works it off.\<close>
theorem one_process_works:
  "case start_worker cfg of
     None \<Rightarrow> (\<exists>q. sp_queue (start_api cfg) = MemoryJobs q \<and> mq_size q = 128) \<and> sp_works (start_api cfg)
   | Some worker \<Rightarrow>
       (\<exists>q. sp_queue worker = RedisJobs q \<and> sp_queue (start_api cfg) = RedisJobs q) \<and>
       sp_store worker = sp_store (start_api cfg) \<and> sp_works worker \<and> \<not> sp_works (start_api cfg)"
  by (auto simp: start_worker_def start_api_def buildJobQueue_def NewMemoryQueue_def)

text \<open>
  That both keep their runs in the same place is not checked: without PostgreSQL they share the queue,
  and each has a memory of its own.
\<close>

lemma shared_queue_without_shared_runs:
  assumes "dp_RedisAddr (cf_Dependencies cfg) \<noteq> []" and "dp_PostgresDSN (cf_Dependencies cfg) = []"
  shows "\<exists>worker. start_worker cfg = Some worker \<and> sp_queue worker = sp_queue (start_api cfg) \<and>
    \<not> sp_works (start_api cfg) \<and> (\<exists>tenants keys. sp_repositories worker = MemoryRepositories tenants keys)"
  using assms by (simp add: start_worker_def start_api_def buildJobQueue_def repositories_of_def)

end
