(* ===== verification/Outputs.thy ===== *)
theory Outputs
  imports Engine_Run
begin

text \<open>
  The outputs of nodes are dynamic values. Their types: which members the output of each type of node
  (\<open>executor/nodes.go\<close>) has, and of which kind they are; and that the engine keeps them.
\<close>

section \<open>Types\<close>

datatype kind = AString | ABool | AnInt | Chunks | Anything

fun has_kind :: "kind \<Rightarrow> anyv \<Rightarrow> bool" where
  "has_kind AString (VStr s) = True"
| "has_kind ABool (VBool b) = True"
| "has_kind AnInt (VInt i) = True"
| "has_kind Chunks (VChunks cs) = True"
| "has_kind Anything v = True"
| "has_kind k v = False"

text \<open>The members that are always there, and those that may be.\<close>

definition required_members :: "string \<Rightarrow> (string \<times> kind) list" where
  "required_members nodeType =
     (if nodeType = ''retrieve_documents'' then [(''query'', AString), (''documents'', Chunks)]
      else if nodeType = ''llm'' then [(''prompt'', AString), (''text'', AString)]
      else if nodeType = ''condition'' then
        [(''matched'', ABool), (''operator'', AString), (''value'', AString), (''target'', AString)]
      else if nodeType = ''http_tool'' then [(''method'', AString), (''url'', AString), (''status_code'', AnInt)]
      else if nodeType = ''audit_log'' then [(''message'', AString)]
      else if nodeType = ''approval'' then [(''approved'', ABool), (''comment'', AString)]
      else [])"

definition optional_members :: "string \<Rightarrow> (string \<times> kind) list" where
  "optional_members nodeType =
     (if nodeType = ''http_tool'' then [(''body'', Anything)]
      else if nodeType = ''audit_log'' then [(''from_step'', AString), (''value'', Anything)]
      else [])"

definition has_member :: "vmap \<Rightarrow> string \<times> kind \<Rightarrow> bool" where
  "has_member ms m = (case map_of ms (fst m) of None \<Rightarrow> False | Some v \<Rightarrow> has_kind (snd m) v)"

definition known_member :: "string \<Rightarrow> string \<times> anyv \<Rightarrow> bool" where
  "known_member nodeType f =
     (case map_of (required_members nodeType @ optional_members nodeType) (fst f) of
        None \<Rightarrow> False
      | Some k \<Rightarrow> has_kind k (snd f))"

definition typed_output :: "string \<Rightarrow> anyv \<Rightarrow> bool" where
  "typed_output nodeType v =
     (case v of
        VMap ms \<Rightarrow> list_all (has_member ms) (required_members nodeType) \<and> list_all (known_member nodeType) ms
      | _ \<Rightarrow> False)"

definition typed_step :: "step \<Rightarrow> bool" where
  "typed_step x \<longleftrightarrow> (step_Status x = StepStatusCompleted \<longrightarrow> typed_output (step_NodeType x) (step_Output x))"

text \<open>Completed steps have outputs of their type, and so have the outputs by node that conditions and
  later nodes read.\<close>

definition typed_state :: "graph \<Rightarrow> execution_state \<Rightarrow> bool" where
  "typed_state g st \<longleftrightarrow> list_all typed_step (es_steps st) \<and>
     list_all (\<lambda>kv. typed_output (node_Type (graph_node g (fst kv))) (snd kv)) (es_stepOutputs st)"

lemmas member_defs = typed_output_def required_members_def optional_members_def has_member_def known_member_def

section \<open>Nodes\<close>

lemma executeNode_typed:
  assumes "executeNode E t n input outs s = (Inr v, s')"
  shows "typed_output (node_Type n) v"
proof -
  consider "node_Type n = ''retrieve_documents''" "executeRetrieval E t (node_Config n) input s = Inr v"
    | "node_Type n = ''llm''" "executeLLM E (node_Config n) input outs s = (Inr v, s')"
    | "node_Type n = ''condition''" "executeCondition (ee_fmt E) (node_Config n) input outs = Inr v"
    | "node_Type n = ''http_tool''" "executeHTTPTool E (node_Config n) input outs s = (Inr v, s')"
    | "node_Type n = ''audit_log''" "v = executeAudit (ee_fmt E) (node_Config n) outs"
    using assms by (auto simp: executeNode_def split: if_splits)
  then show ?thesis
  proof cases
    case 1
    then show ?thesis by (auto simp: executeRetrieval_def Let_def member_defs split: sum.splits if_splits)
  next
    case 2
    then show ?thesis by (auto simp: executeLLM_def Let_def member_defs split: sum.splits prod.splits)
  next
    case 3
    then show ?thesis by (auto simp: executeCondition_def Let_def member_defs split: if_splits)
  next
    case 4
    then show ?thesis
      by (auto simp: executeHTTPTool_def readHTTPToolResponse_def Let_def member_defs
          split: sum.splits prod.splits option.splits if_splits)
  next
    case 5
    then show ?thesis by (auto simp: executeAudit_def Let_def member_defs)
  qed
qed

lemma approval_typed: "typed_output ''approval'' (approval_output approved comment)"
  by (simp add: approval_output_def approval_fields_def member_defs)

section \<open>The engine\<close>

lemma list_all_update: "list_all P xs \<Longrightarrow> P (k, v) \<Longrightarrow> list_all P (AList.update k v xs)"
  by (induction xs) auto

lemma run_node_typed:
  assumes "run_node E runID t g input n st queued s = (x, s')" and "typed_state g st"
    and "buildGraph d = Inr g" and "n = graph_node g k"
  shows "case x of Inl (st', q) \<Rightarrow> typed_state g st' | Inr (st', out) \<Rightarrow> typed_state g st' \<and>
    (case out of
       Paused pp \<Rightarrow> pn_StepOutputs (pp_pending pp) = es_stepOutputs st' \<and> pn_WaitingNodeID (pp_pending pp) = node_ID n \<and>
         node_Type n = ''approval'' \<and> es_steps st' \<noteq> [] \<and> step_NodeType (last (es_steps st')) = ''approval''
     | _ \<Rightarrow> True)"
proof (cases "node_Type n = ''approval''")
  case True
  obtain i s1 where newID: "ee_newID E s = (i, s1)" by fastforce
  obtain b s2 where n1: "ee_now E s1 = (b, s2)" by fastforce
  show ?thesis
    using assms(1,2) True newID n1
    by (auto simp: run_node_def pause_at_def awaitApproval_def Let_def typed_state_def typed_step_def step_of_def
        cloneMap_def split: sum.splits)
next
  case False
  obtain y a s1 where step: "executeStep E runID t n input (es_stepOutputs st) s = ((y, a), s1)"
    by (cases "executeStep E runID t n input (es_stepOutputs st) s") auto
  show ?thesis
  proof (cases a)
    case (Inl e)
    from step have "step_Status y \<noteq> StepStatusCompleted"
      unfolding Inl by (rule executeStep_InlE) (simp_all add: zero_step_def)
    then show ?thesis
      using assms(1,2) False step Inl
      by (auto simp: run_node_def Let_def typed_state_def typed_step_def)
  next
    case (Inr v)
    from step have y: "step_NodeType y = node_Type n" "step_Output y = v" "node_Type n \<noteq> []"
      unfolding Inr by (rule executeStep_InrE, simp)+
    have "typed_output (node_Type n) v"
      using step unfolding Inr
      by (auto simp: executeStep_def Let_def dest: executeNode_typed split: sum.splits prod.splits)
    moreover have "node_ID n = k" using graph_node_ID [OF assms(3)] y(3) assms(4) by simp
    ultimately show ?thesis
      using assms(1,2,4) False step Inr y
      by (auto simp: run_node_def Let_def typed_state_def typed_step_def intro!: list_all_update split: prod.splits)
  qed
qed

lemma loop_step_typed:
  assumes "loop_step E runID t g input c c'" and "typed_state g (fst c)" and "buildGraph d = Inr g"
  shows "typed_state g (fst c')"
  using assms(1)
proof (rule loop_step.cases)
  fix st k rest queued s st' queued' s'
  assume c: "c = (st, queued, s)" "c' = (st', queued', s')"
    and run: "run_node E runID t g input (graph_node g k) (st\<lparr>es_queue := rest\<rparr>) (queued - {k}) s = (Inl (st', queued'), s')"
  have "typed_state g (st\<lparr>es_queue := rest\<rparr>)" using assms(2) c(1) by (simp add: typed_state_def)
  from run_node_typed [OF run this assms(3) refl] show ?thesis using c(2) by simp
qed

text \<open>Where the loop ends, and what it then knows of a pause.\<close>

definition typed_pause :: "graph \<Rightarrow> execution_state \<Rightarrow> outcome \<Rightarrow> bool" where
  "typed_pause g st out \<longleftrightarrow>
    (case out of
       Paused pp \<Rightarrow> pn_StepOutputs (pp_pending pp) = es_stepOutputs st \<and>
         node_Type (graph_node g (pn_WaitingNodeID (pp_pending pp))) = ''approval'' \<and> es_steps st \<noteq> [] \<and>
         step_NodeType (last (es_steps st)) = ''approval''
     | _ \<Rightarrow> True)"

lemma continueExecution_typed:
  assumes "buildGraph d = Inr g" and "typed_state g st"
    and "continueExecution E runID t g input st s = Some ((st', out), s')"
  shows "typed_state g st' \<and> typed_pause g st' out"
proof -
  let ?P = "\<lambda>c. typed_state g (fst c)"
  have "\<exists>c. ?P c \<and> loop_end E runID t g input c ((st', out), s')"
  proof (rule exec_loop_invariant)
    show "exec_loop E runID t g input st (set (es_queue st)) s = Some ((st', out), s')"
      using assms(3) by (simp add: continueExecution_def)
    show "?P (st, set (es_queue st), s)" using assms(2) by simp
  qed (rule loop_step_typed [OF _ _ assms(1)])
  then obtain c where c: "?P c" and ends: "loop_end E runID t g input c ((st', out), s')" by blast
  from ends show ?thesis
  proof (rule loop_end.cases)
    fix st0 queued s0
    assume "c = (st0, queued, s0)" "((st', out), s') = ((st0, Finished), s0)"
    then show ?thesis using c by (simp add: typed_pause_def)
  next
    fix st0 k rest queued s0 r s1
    assume e: "c = (st0, queued, s0)" "((st', out), s') = (r, s1)"
      and run: "run_node E runID t g input (graph_node g k) (st0\<lparr>es_queue := rest\<rparr>) (queued - {k}) s0 = (Inr r, s1)"
    have "typed_state g (st0\<lparr>es_queue := rest\<rparr>)" using c e(1) by (simp add: typed_state_def)
    note typed = run_node_typed [OF run this assms(1) refl]
    have "node_Type (graph_node g k) = ''approval'' \<Longrightarrow> node_ID (graph_node g k) = k"
      using graph_node_ID [OF assms(1)] by simp
    then show ?thesis using typed e(2) by (auto simp: typed_pause_def split: outcome.splits)
  qed
qed

lemma resume_typed:
  assumes "typed_state g st" and "typed_pause g st (Paused pp)" and "typed_output ''approval'' v"
  shows "typed_state g (resumed_state (resolve_last v at_time (es_steps st)) (pp_pending pp) v)"
proof -
  obtain xs x where steps: "es_steps st = xs @ [x]" "step_NodeType x = ''approval''"
    using assms(2) by (cases "es_steps st" rule: rev_cases) (auto simp: typed_pause_def)
  have "list_all typed_step (resolve_last v at_time (es_steps st))"
    using assms(1,3) steps by (simp add: typed_state_def resolve_last_append typed_step_def)
  moreover have "list_all (\<lambda>kv. typed_output (node_Type (graph_node g (fst kv))) (snd kv))
      (AList.update (pn_WaitingNodeID (pp_pending pp)) v (pn_StepOutputs (pp_pending pp)))"
    using assms by (intro list_all_update) (simp_all add: typed_state_def typed_pause_def)
  ultimately show ?thesis
    by (simp add: typed_state_def resumed_state_def stateFromPending_def cloneMap_def Let_def)
qed

text \<open>C16: the dynamic outputs of nodes are typed. From a state whose outputs have the members that the types
  of their nodes say, with values of the right kinds, the engine reaches only such states, and a paused
  run resumed with a decision starts from such a state again. So a condition node always gives the boolean
  that the edges behind it are chosen by.\<close>
theorem outputs_well_typed:
  assumes "buildGraph d = Inr g" and "typed_state g st"
    and "continueExecution E runID t g input st s = Some ((st', out), s')"
  shows "typed_state g st' \<and>
    (case out of
       Paused pp \<Rightarrow>
         (let v = approval_output approved comment in
          typed_state g (resumed_state (resolve_last v at_time (es_steps st')) (pp_pending pp) v))
     | _ \<Rightarrow> True)"
  using continueExecution_typed [OF assms] resume_typed [OF _ _ approval_typed]
  by (auto simp: Let_def split: outcome.split)

theorem outputs_well_typed_witness:
  "\<exists>st' pp st2. demo_continue demo_new = Some ((st', Paused pp), ()) \<and>
     demo_continue (demo_resumed st' pp) = Some ((st2, Finished), ()) \<and>
     typed_state demo_graph (demo_resumed st' pp)"
proof -
  obtain st' pp st2 where run: "demo_continue demo_new = Some ((st', Paused pp), ())"
    "demo_continue (demo_resumed st' pp) = Some ((st2, Finished), ())"
    by (rule demo_pausedE)
  have start: "typed_state demo_graph demo_new" by (simp add: demo_new_def newExecutionState_def typed_state_def)
  note built = valid_graph_build [OF demo_graph_valid [of demo_net plain_fmt]]
  from outputs_well_typed [OF built start run(1), of True "'' fine ''" 9] run show ?thesis
    by (auto simp: demo_resumed_def demo_answer_def Let_def)
qed

end
