(* ===== verification/Database.thy ===== *)
theory Database
  imports RunStore Workflows AuditLog Auth
begin

text \<open>
  The PostgreSQL database of the program: its tables with the constraints of the migrations
  (\<open>migrations/*.up.sql\<close>), and statements and transactions on them as \<open>database/sql\<close> offers them
  (\<open>db.ExecContext\<close>, \<open>db.QueryContext\<close>, \<open>db.BeginTx\<close>, \<open>tx.Commit\<close>, \<open>tx.Rollback\<close>).
\<close>

section \<open>Tables\<close>

text \<open>
  One record for each table, one field for each column that the program reads or writes; a column that
  may be NULL is optional, a JSONB column is the text it gives back. Columns with the text of an
  enumeration keep its value. The rows of a table are in the order of their insertion.
\<close>

record document_row =
  dw_id :: string
  dw_tenant_id :: string
  dw_object_key :: string
  dw_filename :: string
  dw_content_type :: string
  dw_size_bytes :: int
  dw_checksum :: string
  dw_status :: doc_status
  dw_created_at :: time
  dw_ingested_at :: "time option"
  dw_chunk_count :: nat

record workflow_row =
  ww_id :: string
  ww_tenant_id :: string
  ww_name :: string
  ww_description :: string
  ww_version :: int
  ww_status :: wf_status
  ww_validation_status :: validation_status
  ww_definition_json :: string
  ww_created_at :: time
  ww_updated_at :: time

record run_row =
  rw_id :: string
  rw_tenant_id :: string
  rw_workflow_id :: string
  rw_status :: run_status
  rw_trigger_mode :: string
  rw_attempt :: int
  rw_max_attempts :: int
  rw_input_json :: string
  rw_output_json :: "string option"
  rw_error_message :: string
  rw_created_at :: time
  rw_started_at :: time
  rw_completed_at :: "time option"

record step_row =
  sw_id :: string
  sw_run_id :: string
  sw_node_id :: string
  sw_node_type :: string
  sw_status :: step_status
  sw_attempt :: int
  sw_input_json :: string
  sw_output_json :: "string option"
  sw_error_message :: string
  sw_started_at :: time
  sw_completed_at :: "time option"

record pending_row =
  pw_run_id :: string
  pw_tenant_id :: string
  pw_waiting_node_id :: string
  pw_queue_json :: string
  pw_step_outputs_json :: string
  pw_executed_json :: string

record event_row =
  ew_id :: string
  ew_tenant_id :: string
  ew_run_id :: string
  ew_workflow_id :: string
  ew_step_id :: "string option"
  ew_node_id :: "string option"
  ew_type :: string
  ew_message :: string
  ew_metadata_json :: string
  ew_created_at :: time

text \<open>The rows of tenants, API keys and chunks have the fields of the Go structs.\<close>

record database =
  db_tenants :: "tenant list"
  db_api_keys :: "credential list"
  db_documents :: "document_row list"
  db_document_chunks :: "chunk list"
  db_workflows :: "workflow_row list"
  db_workflow_runs :: "run_row list"
  db_workflow_steps :: "step_row list"
  db_workflow_run_pending :: "pending_row list"
  db_audit_events :: "event_row list"

definition empty_database :: database where
  "empty_database = \<lparr>db_tenants = [], db_api_keys = [], db_documents = [], db_document_chunks = [],
     db_workflows = [], db_workflow_runs = [], db_workflow_steps = [], db_workflow_run_pending = [],
     db_audit_events = []\<rparr>"

section \<open>The server and its driver\<close>

text \<open>
  What a timestamp column gives back for a time, and a JSONB column for a text (or its refusal); which
  byte strings a text column takes; the order of text columns; the error of a violated constraint; which
  statement fails, and how, by the number of writes before it; and whether a commit that failed had
  been carried out. Beside them the decoders of \<open>encoding/json\<close>.
\<close>

record pg_lib =
  pl_fmt :: gofmt
  pl_time :: "time \<Rightarrow> time"
  pl_jsonb :: "string \<Rightarrow> string result"
  pl_text :: "string \<Rightarrow> bool"
  pl_text_compare :: "string \<Rightarrow> string \<Rightarrow> int"
  pl_violation :: "string \<Rightarrow> goerr"
  pl_fault :: "nat \<Rightarrow> string \<Rightarrow> goerr option"
  pl_committed :: "nat \<Rightarrow> bool"
  pl_object :: "string \<Rightarrow> vmap result"
  pl_any :: "string \<Rightarrow> anyv result"
  pl_strings :: "string \<Rightarrow> string list result"
  pl_flags :: "string \<Rightarrow> string set result"
  pl_definition :: "string \<Rightarrow> wf_definition result"

record pg =
  pg_db :: database
  pg_tick :: nat

definition pg_exec :: "pg_lib \<Rightarrow> string \<Rightarrow> (database \<Rightarrow> database result) \<Rightarrow> pg \<Rightarrow> goerr option \<times> pg" where
  "pg_exec L statement f s =
     (let s1 = s\<lparr>pg_tick := Suc (pg_tick s)\<rparr> in
      case pl_fault L (pg_tick s) statement of
        Some e \<Rightarrow> (Some e, s1)
      | None \<Rightarrow>
          (case f (pg_db s) of
             Inl e \<Rightarrow> (Some e, s1)
           | Inr db \<Rightarrow> (None, s1\<lparr>pg_db := db\<rparr>)))"

text \<open>A query; an error while its rows are read counts as its failure.\<close>

definition pg_query :: "pg_lib \<Rightarrow> string \<Rightarrow> (database \<Rightarrow> 'a) \<Rightarrow> pg \<Rightarrow> 'a result" where
  "pg_query L statement f s =
     (case pl_fault L (pg_tick s) statement of Some e \<Rightarrow> Inl e | None \<Rightarrow> Inr (f (pg_db s)))"

text \<open>Statements one after another, up to the first that fails, whose error is wrapped.\<close>

definition pg_step :: "string \<Rightarrow> goerr option \<times> pg \<Rightarrow> goerr option \<times> pg" where
  "pg_step context r = (case r of (Some e, s) \<Rightarrow> (Some (wrap context e), s) | (None, s) \<Rightarrow> (None, s))"

definition pg_then :: "goerr option \<times> pg \<Rightarrow> (pg \<Rightarrow> goerr option \<times> pg) \<Rightarrow> goerr option \<times> pg" where
  "pg_then r next_step = (case r of (Some e, s) \<Rightarrow> (Some e, s) | (None, s) \<Rightarrow> next_step s)"

fun pg_each :: "('a \<Rightarrow> pg \<Rightarrow> goerr option \<times> pg) \<Rightarrow> 'a list \<Rightarrow> pg \<Rightarrow> goerr option \<times> pg" where
  "pg_each f [] s = (None, s)"
| "pg_each f (x # xs) s = pg_then (f x s) (pg_each f xs)"

text \<open>
  A transaction: when its body fails it is rolled back by the deferred call. A commit that reports an
  error may have been carried out.
\<close>

definition pg_tx ::
    "pg_lib \<Rightarrow> string \<Rightarrow> string \<Rightarrow> (pg \<Rightarrow> goerr option \<times> pg) \<Rightarrow> pg \<Rightarrow> goerr option \<times> pg" where
  "pg_tx L begin_context commit_context body s =
     (case pl_fault L (pg_tick s) ''BEGIN'' of
        Some e \<Rightarrow> (Some (wrap begin_context e), s\<lparr>pg_tick := Suc (pg_tick s)\<rparr>)
      | None \<Rightarrow>
          (case body (s\<lparr>pg_tick := Suc (pg_tick s)\<rparr>) of
             (Some e, s1) \<Rightarrow> (Some e, s1\<lparr>pg_db := pg_db s\<rparr>)
           | (None, s1) \<Rightarrow>
               (case pl_fault L (pg_tick s1) ''COMMIT'' of
                  None \<Rightarrow> (None, s1\<lparr>pg_tick := Suc (pg_tick s1)\<rparr>)
                | Some e \<Rightarrow>
                    (Some (wrap commit_context e),
                     s1\<lparr>pg_tick := Suc (pg_tick s1),
                        pg_db := if pl_committed L (pg_tick s1) then pg_db s1 else pg_db s\<rparr>))))"

section \<open>Columns\<close>

text \<open>
  A map or slice that is nil, which Go writes as null, is the empty one here; both are read as empty. The
  values of the model can always be written.
\<close>

definition mustJSON :: "pg_lib \<Rightarrow> anyv \<Rightarrow> string" where
  "mustJSON L v = (if v = VNil then ''{}'' else json_marshal (pl_fmt L) v)"

definition nullableJSON :: "pg_lib \<Rightarrow> anyv \<Rightarrow> string option" where
  "nullableJSON L v = (if v = VNil then None else Some (json_marshal (pl_fmt L) v))"

definition decodeJSON :: "pg_lib \<Rightarrow> string \<Rightarrow> vmap result" where
  "decodeJSON L raw = (if raw = [] \<or> raw = ''null'' then Inr [] else pl_object L raw)"

definition decodeNullableJSON :: "pg_lib \<Rightarrow> string option \<Rightarrow> anyv result" where
  "decodeNullableJSON L raw =
     (case raw of
        None \<Rightarrow> Inr VNil
      | Some txt \<Rightarrow> if txt = [] \<or> txt = ''null'' then Inr VNil else pl_any L txt)"

definition nullableTime :: "time \<Rightarrow> time option" where
  "nullableTime t = (if t = zero_time then None else Some t)"

text \<open>A NULL time leaves the field of the struct at the zero time.\<close>

definition scan_time :: "time option \<Rightarrow> time" where
  "scan_time t = (case t of None \<Rightarrow> zero_time | Some x \<Rightarrow> x)"

definition jsonb_option :: "pg_lib \<Rightarrow> string option \<Rightarrow> string option result" where
  "jsonb_option L raw =
     (case raw of
        None \<Rightarrow> Inr None
      | Some txt \<Rightarrow> (case pl_jsonb L txt of Inl e \<Rightarrow> Inl e | Inr stored \<Rightarrow> Inr (Some stored)))"

section \<open>Constraints\<close>

text \<open>
  A check of a constraint, or of the texts of a row, that fails gives the error of the server.
\<close>

definition require :: "pg_lib \<Rightarrow> string \<Rightarrow> bool \<Rightarrow> 'a result \<Rightarrow> 'a result" where
  "require L constraint holds r = (if holds then r else Inl (pl_violation L constraint))"

lemma require_Inr [simp]: "require L c b r = Inr x \<longleftrightarrow> b \<and> r = Inr x"
  by (simp add: require_def)

definition has_tenant :: "database \<Rightarrow> string \<Rightarrow> bool" where
  "has_tenant db t \<longleftrightarrow> t \<in> tenant_ID ` set (db_tenants db)"

definition has_workflow :: "database \<Rightarrow> string \<Rightarrow> bool" where
  "has_workflow db k \<longleftrightarrow> k \<in> ww_id ` set (db_workflows db)"

definition has_run :: "database \<Rightarrow> string \<Rightarrow> bool" where
  "has_run db k \<longleftrightarrow> k \<in> rw_id ` set (db_workflow_runs db)"

definition has_document :: "database \<Rightarrow> string \<Rightarrow> bool" where
  "has_document db k \<longleftrightarrow> k \<in> dw_id ` set (db_documents db)"

text \<open>The texts of a row, and the numbers of its INTEGER columns.\<close>

definition texts_ok :: "pg_lib \<Rightarrow> string list \<Rightarrow> bool" where
  "texts_ok L = list_all (pl_text L)"

definition int4 :: "int \<Rightarrow> bool" where
  "int4 i \<longleftrightarrow> - (2 ^ 31) \<le> i \<and> i < 2 ^ 31"

section \<open>Statements and transactions\<close>

text \<open>A statement that fails changes no table.\<close>

lemma pg_exec_failed: "pg_exec L statement f s = (Some e, s') \<Longrightarrow> pg_db s' = pg_db s"
  by (auto simp: pg_exec_def Let_def split: option.splits sum.splits)

lemma pg_exec_done:
  "pg_exec L statement f s = (None, s') \<Longrightarrow>
     f (pg_db s) = Inr (pg_db s') \<and> pl_fault L (pg_tick s) statement = None"
  by (auto simp: pg_exec_def Let_def split: option.splits sum.splits)

text \<open>
  A transaction leaves the database of before, or, when it succeeds or its commit got lost, what its
  body made of it.
\<close>

lemma pg_tx_atomic:
  assumes "pg_tx L bc cc body s = (err, s')"
  shows "pg_db s' = pg_db s \<or>
    (\<exists>s1. body (s\<lparr>pg_tick := Suc (pg_tick s)\<rparr>) = (None, s1) \<and> pg_db s' = pg_db s1)"
    and "err = None \<Longrightarrow> \<exists>s1. body (s\<lparr>pg_tick := Suc (pg_tick s)\<rparr>) = (None, s1) \<and> pg_db s' = pg_db s1"
  using assms by (auto simp: pg_tx_def split: option.splits prod.splits if_splits)

text \<open>Without faults.\<close>

definition no_faults :: "pg_lib \<Rightarrow> bool" where
  "no_faults L \<longleftrightarrow> (\<forall>n statement. pl_fault L n statement = None)"

lemma pg_exec_ok:
  "no_faults L \<Longrightarrow> f (pg_db s) = Inr db \<Longrightarrow>
     pg_exec L statement f s = (None, \<lparr>pg_db = db, pg_tick = Suc (pg_tick s)\<rparr>)"
  by (simp add: pg_exec_def no_faults_def)

lemma pg_query_ok: "no_faults L \<Longrightarrow> pg_query L statement f s = Inr (f (pg_db s))"
  by (simp add: pg_query_def no_faults_def)

lemma pg_tx_ok:
  assumes "no_faults L" and "body (s\<lparr>pg_tick := Suc (pg_tick s)\<rparr>) = (None, \<lparr>pg_db = db, pg_tick = n\<rparr>)"
  shows "pg_tx L bc cc body s = (None, \<lparr>pg_db = db, pg_tick = Suc n\<rparr>)"
  using assms by (simp add: pg_tx_def no_faults_def)

end
