(* ===== verification/PgRuns.thy ===== *)
theory PgRuns
  imports Database
begin

text \<open>
  \<open>internal/executor/postgres_repository.go\<close>: runs, steps and pending states in PostgreSQL; and that they
  refine the in-memory repository of \<open>RunStore\<close>.
\<close>

section \<open>Rows of runs and steps\<close>

definition encode_run :: "pg_lib \<Rightarrow> run \<Rightarrow> run_row result" where
  "encode_run L r =
     (case pl_jsonb L (mustJSON L (VMap (run_Input r))) of Inl e \<Rightarrow> Inl e | Inr input \<Rightarrow>
      case jsonb_option L (nullableJSON L (run_Output r)) of Inl e \<Rightarrow> Inl e | Inr output \<Rightarrow>
        require L ''text'' (texts_ok L [run_ID r, run_TenantID r, run_WorkflowID r, run_TriggerMode r, run_Error r])
        (require L ''integer'' (int4 (run_Attempt r) \<and> int4 (run_MaxAttempts r))
          (Inr \<lparr>rw_id = run_ID r, rw_tenant_id = run_TenantID r, rw_workflow_id = run_WorkflowID r,
                rw_status = run_Status r, rw_trigger_mode = run_TriggerMode r, rw_attempt = run_Attempt r,
                rw_max_attempts = run_MaxAttempts r, rw_input_json = input, rw_output_json = output,
                rw_error_message = run_Error r, rw_created_at = pl_time L (run_CreatedAt r),
                rw_started_at = pl_time L (run_StartedAt r),
                rw_completed_at = map_option (pl_time L) (nullableTime (run_CompletedAt r))\<rparr>)))"

definition scanRun :: "pg_lib \<Rightarrow> run_row \<Rightarrow> run result" where
  "scanRun L row =
     (case decodeJSON L (rw_input_json row) of Inl e \<Rightarrow> Inl e | Inr input \<Rightarrow>
      case decodeNullableJSON L (rw_output_json row) of Inl e \<Rightarrow> Inl e | Inr output \<Rightarrow>
        Inr \<lparr>run_ID = rw_id row, run_TenantID = rw_tenant_id row, run_WorkflowID = rw_workflow_id row,
             run_Status = rw_status row, run_TriggerMode = rw_trigger_mode row, run_Attempt = rw_attempt row,
             run_MaxAttempts = rw_max_attempts row, run_Input = input, run_Output = output,
             run_Error = rw_error_message row, run_CreatedAt = rw_created_at row,
             run_StartedAt = rw_started_at row, run_CompletedAt = scan_time (rw_completed_at row)\<rparr>)"

definition encode_step :: "pg_lib \<Rightarrow> step \<Rightarrow> step_row result" where
  "encode_step L st =
     (case pl_jsonb L (mustJSON L (VMap (step_Input st))) of Inl e \<Rightarrow> Inl e | Inr input \<Rightarrow>
      case jsonb_option L (nullableJSON L (step_Output st)) of Inl e \<Rightarrow> Inl e | Inr output \<Rightarrow>
        require L ''text'' (texts_ok L [step_ID st, step_RunID st, step_NodeID st, step_NodeType st, step_Error st])
        (require L ''integer'' (int4 (step_Attempt st))
          (Inr \<lparr>sw_id = step_ID st, sw_run_id = step_RunID st, sw_node_id = step_NodeID st,
                sw_node_type = step_NodeType st, sw_status = step_Status st, sw_attempt = step_Attempt st,
                sw_input_json = input, sw_output_json = output, sw_error_message = step_Error st,
                sw_started_at = pl_time L (step_StartedAt st),
                sw_completed_at = map_option (pl_time L) (nullableTime (step_CompletedAt st))\<rparr>)))"

definition scanStep :: "pg_lib \<Rightarrow> step_row \<Rightarrow> step result" where
  "scanStep L row =
     (case decodeJSON L (sw_input_json row) of Inl e \<Rightarrow> Inl e | Inr input \<Rightarrow>
      case decodeNullableJSON L (sw_output_json row) of Inl e \<Rightarrow> Inl e | Inr output \<Rightarrow>
        Inr \<lparr>step_ID = sw_id row, step_RunID = sw_run_id row, step_NodeID = sw_node_id row,
             step_NodeType = sw_node_type row, step_Status = sw_status row, step_Attempt = sw_attempt row,
             step_Input = input, step_Output = output, step_Error = sw_error_message row,
             step_StartedAt = sw_started_at row, step_CompletedAt = scan_time (sw_completed_at row)\<rparr>)"

section \<open>Statements\<close>

definition insert_run :: "pg_lib \<Rightarrow> run \<Rightarrow> database \<Rightarrow> database result" where
  "insert_run L r db =
     (case encode_run L r of Inl e \<Rightarrow> Inl e | Inr row \<Rightarrow>
        require L ''workflow_runs_pkey'' (\<not> has_run db (rw_id row))
        (require L ''workflow_runs_tenant_id_fkey'' (has_tenant db (rw_tenant_id row))
        (require L ''workflow_runs_workflow_id_fkey'' (has_workflow db (rw_workflow_id row))
          (Inr (db\<lparr>db_workflow_runs := db_workflow_runs db @ [row]\<rparr>)))))"

definition is_run :: "string \<Rightarrow> string \<Rightarrow> run_row \<Rightarrow> bool" where
  "is_run t k row \<longleftrightarrow> rw_id row = k \<and> rw_tenant_id row = t"

text \<open>
  The UPDATE of \<open>UpdateRun\<close> does not send the workflow and leaves that of the row as it is; the one of
  \<open>updateRunTx\<close> sets it.
\<close>

definition update_run :: "pg_lib \<Rightarrow> run \<Rightarrow> database \<Rightarrow> database result" where
  "update_run L r db =
     (case encode_run L (r\<lparr>run_WorkflowID := run_ID r\<rparr>) of Inl e \<Rightarrow> Inl e | Inr row \<Rightarrow>
        Inr (db\<lparr>db_workflow_runs :=
          map (\<lambda>old. if is_run (run_TenantID r) (run_ID r) old
                     then row\<lparr>rw_workflow_id := rw_workflow_id old\<rparr> else old) (db_workflow_runs db)\<rparr>))"

definition update_run_tx :: "pg_lib \<Rightarrow> run \<Rightarrow> database \<Rightarrow> database result" where
  "update_run_tx L r db =
     (case encode_run L r of Inl e \<Rightarrow> Inl e | Inr row \<Rightarrow>
        require L ''workflow_runs_workflow_id_fkey''
          (list_ex (is_run (run_TenantID r) (run_ID r)) (db_workflow_runs db) \<longrightarrow> has_workflow db (rw_workflow_id row))
          (Inr (db\<lparr>db_workflow_runs :=
            map (\<lambda>old. if is_run (run_TenantID r) (run_ID r) old then row else old) (db_workflow_runs db)\<rparr>)))"

definition delete_steps :: "string \<Rightarrow> database \<Rightarrow> database result" where
  "delete_steps k db =
     Inr (db\<lparr>db_workflow_steps := filter (\<lambda>row. sw_run_id row \<noteq> k) (db_workflow_steps db)\<rparr>)"

definition insert_step :: "pg_lib \<Rightarrow> step \<Rightarrow> database \<Rightarrow> database result" where
  "insert_step L st db =
     (case encode_step L st of Inl e \<Rightarrow> Inl e | Inr row \<Rightarrow>
        require L ''workflow_steps_pkey'' (sw_id row \<notin> sw_id ` set (db_workflow_steps db))
        (require L ''workflow_steps_run_id_fkey'' (has_run db (sw_run_id row))
          (Inr (db\<lparr>db_workflow_steps := db_workflow_steps db @ [row]\<rparr>))))"

definition delete_pending :: "string \<Rightarrow> database \<Rightarrow> database result" where
  "delete_pending k db =
     Inr (db\<lparr>db_workflow_run_pending := filter (\<lambda>row. pw_run_id row \<noteq> k) (db_workflow_run_pending db)\<rparr>)"

definition flags_json :: "pg_lib \<Rightarrow> string set \<Rightarrow> string" where
  "flags_json L executed = mustJSON L (VMap (map (\<lambda>k. (k, VBool True)) (sorted_list_of_set executed)))"

definition encode_pending :: "pg_lib \<Rightarrow> run \<Rightarrow> pending_state \<Rightarrow> pending_row result" where
  "encode_pending L r p =
     (case pl_jsonb L (mustJSON L (VStrs (pn_Queue p))) of Inl e \<Rightarrow> Inl e | Inr queue \<Rightarrow>
      case pl_jsonb L (mustJSON L (VMap (pn_StepOutputs p))) of Inl e \<Rightarrow> Inl e | Inr outputs \<Rightarrow>
      case pl_jsonb L (flags_json L (pn_Executed p)) of Inl e \<Rightarrow> Inl e | Inr executed \<Rightarrow>
        require L ''text'' (texts_ok L [run_ID r, run_TenantID r, pn_WaitingNodeID p])
          (Inr \<lparr>pw_run_id = run_ID r, pw_tenant_id = run_TenantID r, pw_waiting_node_id = pn_WaitingNodeID p,
                pw_queue_json = queue, pw_step_outputs_json = outputs, pw_executed_json = executed\<rparr>))"

definition upsert_pending :: "pg_lib \<Rightarrow> run \<Rightarrow> pending_state \<Rightarrow> database \<Rightarrow> database result" where
  "upsert_pending L r p db =
     (case encode_pending L r p of Inl e \<Rightarrow> Inl e | Inr row \<Rightarrow>
        require L ''workflow_run_pending_run_id_fkey'' (has_run db (pw_run_id row))
        (require L ''workflow_run_pending_tenant_id_fkey'' (has_tenant db (pw_tenant_id row))
          (Inr (db\<lparr>db_workflow_run_pending :=
            (if pw_run_id row \<in> pw_run_id ` set (db_workflow_run_pending db)
             then map (\<lambda>old. if pw_run_id old = pw_run_id row then row else old) (db_workflow_run_pending db)
             else db_workflow_run_pending db @ [row])\<rparr>))))"

section \<open>The repository\<close>

definition pg_CreateRun :: "pg_lib \<Rightarrow> run \<Rightarrow> pg \<Rightarrow> goerr option \<times> pg" where
  "pg_CreateRun L r s = pg_step ''insert workflow run'' (pg_exec L ''INSERT workflow_runs'' (insert_run L r) s)"

definition pg_UpdateRun :: "pg_lib \<Rightarrow> run \<Rightarrow> pg \<Rightarrow> goerr option \<times> pg" where
  "pg_UpdateRun L r s = pg_step ''update workflow run'' (pg_exec L ''UPDATE workflow_runs'' (update_run L r) s)"

definition updateRunTx :: "pg_lib \<Rightarrow> run \<Rightarrow> pg \<Rightarrow> goerr option \<times> pg" where
  "updateRunTx L r s =
     pg_step ''update workflow run in transaction'' (pg_exec L ''UPDATE workflow_runs'' (update_run_tx L r) s)"

definition replaceStepsTx :: "pg_lib \<Rightarrow> string \<Rightarrow> step list \<Rightarrow> pg \<Rightarrow> goerr option \<times> pg" where
  "replaceStepsTx L runID steps s =
     pg_then (pg_step ''delete workflow steps'' (pg_exec L ''DELETE workflow_steps'' (delete_steps runID) s))
       (pg_each (\<lambda>st s. pg_step ''insert workflow step'' (pg_exec L ''INSERT workflow_steps'' (insert_step L st) s)) steps)"

definition pg_CompleteRun :: "pg_lib \<Rightarrow> run \<Rightarrow> step list \<Rightarrow> pg \<Rightarrow> goerr option \<times> pg" where
  "pg_CompleteRun L r steps s =
     pg_tx L ''begin complete workflow run transaction'' ''commit complete workflow run transaction''
       (\<lambda>s. pg_then (pg_then (updateRunTx L r s) (replaceStepsTx L (run_ID r) steps))
          (\<lambda>s. pg_step ''delete workflow pending state''
             (pg_exec L ''DELETE workflow_run_pending'' (delete_pending (run_ID r)) s))) s"

definition pg_SavePending :: "pg_lib \<Rightarrow> run \<Rightarrow> step list \<Rightarrow> pending_state \<Rightarrow> pg \<Rightarrow> goerr option \<times> pg" where
  "pg_SavePending L r steps p s =
     pg_tx L ''begin save pending workflow run transaction'' ''commit save pending workflow run transaction''
       (\<lambda>s. pg_then (pg_then (updateRunTx L r s) (replaceStepsTx L (run_ID r) steps))
          (\<lambda>s. pg_step ''upsert workflow pending state''
             (pg_exec L ''INSERT workflow_run_pending'' (upsert_pending L r p) s))) s"

text \<open>The row of a query for one row, or none (\<open>sql.ErrNoRows\<close>).\<close>

definition pg_GetRun :: "pg_lib \<Rightarrow> string \<Rightarrow> string \<Rightarrow> pg \<Rightarrow> run result" where
  "pg_GetRun L tenantID runID s =
     (case pg_query L ''SELECT workflow_runs BY id'' (\<lambda>db. find (is_run tenantID runID) (db_workflow_runs db)) s of
        Inl e \<Rightarrow> Inl (wrap ''query workflow run by id'' e)
      | Inr None \<Rightarrow> Inl exec_ErrNotFound
      | Inr (Some row) \<Rightarrow>
          (case scanRun L row of
             Inl e \<Rightarrow> Inl (wrap ''query workflow run by id'' e)
           | Inr r \<Rightarrow> Inr r))"

text \<open>The loop over the rows of a query.\<close>

fun scan_all :: "string \<Rightarrow> ('r \<Rightarrow> 'a result) \<Rightarrow> 'r list \<Rightarrow> 'a list result" where
  "scan_all context scan [] = Inr []"
| "scan_all context scan (row # rows) =
     (case scan row of
        Inl e \<Rightarrow> Inl (wrap context e)
      | Inr x \<Rightarrow> (case scan_all context scan rows of Inl e \<Rightarrow> Inl e | Inr xs \<Rightarrow> Inr (x # xs)))"

text \<open>\<open>ORDER BY started_at ASC, id ASC\<close> and \<open>ORDER BY created_at DESC, id DESC\<close>.\<close>

definition step_order :: "pg_lib \<Rightarrow> step_row \<Rightarrow> step_row \<Rightarrow> int" where
  "step_order L a b =
     (if sw_started_at a < sw_started_at b then -1
      else if sw_started_at b < sw_started_at a then 1
      else pl_text_compare L (sw_id a) (sw_id b))"

definition run_order_desc :: "pg_lib \<Rightarrow> run_row \<Rightarrow> run_row \<Rightarrow> int" where
  "run_order_desc L a b =
     (if rw_created_at b < rw_created_at a then -1
      else if rw_created_at a < rw_created_at b then 1
      else pl_text_compare L (rw_id b) (rw_id a))"

definition select_steps :: "pg_lib \<Rightarrow> string \<Rightarrow> database \<Rightarrow> step_row list" where
  "select_steps L runID db = sort_func (step_order L) (filter (\<lambda>row. sw_run_id row = runID) (db_workflow_steps db))"

definition pg_ListSteps :: "pg_lib \<Rightarrow> string \<Rightarrow> string \<Rightarrow> pg \<Rightarrow> step list result" where
  "pg_ListSteps L tenantID runID s =
     (case pg_GetRun L tenantID runID s of
        Inl e \<Rightarrow> Inl e
      | Inr r \<Rightarrow>
          (case pg_query L ''SELECT workflow_steps'' (select_steps L runID) s of
             Inl e \<Rightarrow> Inl (wrap ''query workflow steps'' e)
           | Inr rows \<Rightarrow> scan_all ''scan workflow step'' (scanStep L) rows))"

definition pg_ListRuns :: "pg_lib \<Rightarrow> string \<Rightarrow> string \<Rightarrow> pg \<Rightarrow> run list result" where
  "pg_ListRuns L tenantID status s =
     (case pg_query L ''SELECT workflow_runs''
             (\<lambda>db. sort_func (run_order_desc L)
                (filter (\<lambda>row. rw_tenant_id row = tenantID \<and>
                    (status = [] \<or> run_status_text (rw_status row) = status)) (db_workflow_runs db))) s of
        Inl e \<Rightarrow> Inl (wrap ''query workflow runs'' e)
      | Inr rows \<Rightarrow> scan_all ''scan workflow run'' (scanRun L) rows)"

definition scan_pending :: "pg_lib \<Rightarrow> pending_row \<Rightarrow> pending_state result" where
  "scan_pending L row =
     (case pl_strings L (pw_queue_json row) of
        Inl e \<Rightarrow> Inl (wrap ''decode pending queue'' e)
      | Inr queue \<Rightarrow>
      case decodeJSON L (pw_step_outputs_json row) of
        Inl e \<Rightarrow> Inl (wrap ''decode pending step outputs'' e)
      | Inr outputs \<Rightarrow>
      case (if pw_executed_json row = [] \<or> pw_executed_json row = ''null'' then Inr {}
            else pl_flags L (pw_executed_json row)) of
        Inl e \<Rightarrow> Inl (wrap ''decode pending executed state'' e)
      | Inr executed \<Rightarrow>
          Inr \<lparr>pn_WaitingNodeID = pw_waiting_node_id row, pn_Queue = queue, pn_StepOutputs = outputs,
               pn_Executed = executed\<rparr>)"

definition pg_LoadPending :: "pg_lib \<Rightarrow> string \<Rightarrow> string \<Rightarrow> pg \<Rightarrow> (run \<times> step list \<times> pending_state) result" where
  "pg_LoadPending L tenantID runID s =
     (case pg_GetRun L tenantID runID s of Inl e \<Rightarrow> Inl e | Inr r \<Rightarrow>
      case pg_ListSteps L tenantID runID s of Inl e \<Rightarrow> Inl e | Inr steps \<Rightarrow>
      case pg_query L ''SELECT workflow_run_pending''
             (\<lambda>db. find (\<lambda>row. pw_tenant_id row = tenantID \<and> pw_run_id row = runID) (db_workflow_run_pending db)) s of
        Inl e \<Rightarrow> Inl (wrap ''query workflow pending state'' e)
      | Inr None \<Rightarrow> Inl ErrRunNotAwaitingReview
      | Inr (Some row) \<Rightarrow> (case scan_pending L row of Inl e \<Rightarrow> Inl e | Inr p \<Rightarrow> Inr (r, steps, p)))"

section \<open>The in-memory repository it represents\<close>

definition rep_run :: "pg_lib \<Rightarrow> run_row \<Rightarrow> string \<times> run \<Rightarrow> bool" where
  "rep_run L row kr \<longleftrightarrow> rw_id row = fst kr \<and> scanRun L row = Inr (snd kr)"

definition rep_runs :: "pg_lib \<Rightarrow> run_row list \<Rightarrow> (string \<times> run) list \<Rightarrow> bool" where
  "rep_runs L rows rs \<longleftrightarrow> list_all2 (rep_run L) rows rs \<and> distinct (map rw_id rows)"

definition rep_steps :: "pg_lib \<Rightarrow> database \<Rightarrow> (string \<Rightarrow> step list) \<Rightarrow> bool" where
  "rep_steps L db stored \<longleftrightarrow> (\<forall>k context. scan_all context (scanStep L) (select_steps L k db) = Inr (stored k))"

definition find_pending :: "string \<Rightarrow> database \<Rightarrow> pending_row option" where
  "find_pending k db = find (\<lambda>row. pw_run_id row = k) (db_workflow_run_pending db)"

definition rep_pending :: "pg_lib \<Rightarrow> database \<Rightarrow> (string \<rightharpoonup> pending_state) \<Rightarrow> bool" where
  "rep_pending L db stored \<longleftrightarrow>
     (\<forall>k. map_option (scan_pending L) (find_pending k db) = map_option Inr (stored k))"

text \<open>Pending rows belong to a run, and to its tenant.\<close>

definition pending_owned :: "database \<Rightarrow> bool" where
  "pending_owned db \<longleftrightarrow>
     list_all (\<lambda>row. (pw_run_id row, pw_tenant_id row) \<in> (\<lambda>r. (rw_id r, rw_tenant_id r)) ` set (db_workflow_runs db))
       (db_workflow_run_pending db)"

definition represents :: "pg_lib \<Rightarrow> database \<Rightarrow> run_memory \<Rightarrow> bool" where
  "represents L db m \<longleftrightarrow>
     rep_runs L (db_workflow_runs db) (rm_runs m) \<and> rep_steps L db (rm_steps m) \<and>
     rep_pending L db (rm_pending m) \<and> pending_owned db \<and> distinct (map pw_run_id (db_workflow_run_pending db))"

lemma represents_empty: "represents L empty_database empty_run_memory"
  by (simp add: represents_def rep_runs_def rep_steps_def rep_pending_def pending_owned_def find_pending_def
      empty_database_def empty_run_memory_def select_steps_def sort_func_def)

section \<open>Reads\<close>

lemma rep_run_tenant: "rep_run L row kr \<Longrightarrow> rw_tenant_id row = run_TenantID (snd kr)"
  by (cases kr) (auto simp: rep_run_def scanRun_def split: sum.splits)

lemma rep_run_ids: "list_all2 (rep_run L) rows rs \<Longrightarrow> map rw_id rows = map fst rs"
  by (induction rule: list_all2_induct) (simp_all add: rep_run_def)

lemma find_run:
  assumes "list_all2 (rep_run L) rows rs" and "distinct (map rw_id rows)"
  shows "case map_of rs k of
      None \<Rightarrow> find (is_run t k) rows = None
    | Some r \<Rightarrow>
        if run_TenantID r = t then (\<exists>row. find (is_run t k) rows = Some row \<and> scanRun L row = Inr r)
        else find (is_run t k) rows = None"
  using assms
proof (induction rule: list_all2_induct)
  case (Cons row rows kr rs)
  have fresh: "rw_id row \<notin> rw_id ` set rows" using Cons.prems by simp
  have none: "find (is_run t (rw_id row)) rows = None"
    using fresh by (simp add: find_None_iff is_run_def image_iff) metis
  have "rw_id row \<notin> fst ` set rs"
    using fresh by (metis rep_run_ids [OF Cons.hyps(2)] list.set_map)
  then show ?case
    using Cons none rep_run_tenant [OF Cons.hyps(1)]
    by (cases kr) (auto simp: rep_run_def is_run_def split: option.splits if_splits)
qed simp

lemma GetRun_represented:
  assumes "no_faults L" and "represents L (pg_db s) m"
  shows "pg_GetRun L t k s = run_mem_GetRun t k m"
  using find_run [where rows = "db_workflow_runs (pg_db s)" and rs = "rm_runs m" and k = k and t = t and L = L] assms
  by (auto simp: pg_GetRun_def pg_query_ok run_mem_GetRun_def represents_def rep_runs_def
      split: option.splits if_splits)

lemma ListSteps_represented:
  assumes "no_faults L" and "represents L (pg_db s) m"
  shows "pg_ListSteps L t k s = run_mem_ListSteps t k m"
  using assms(2)
  by (auto simp: pg_ListSteps_def GetRun_represented [OF assms] pg_query_ok [OF assms(1)] represents_def rep_steps_def
      run_mem_GetRun_def run_mem_ListSteps_def split: option.splits)

lemma represented_row:
  assumes "list_all2 (rep_run L) rows rs" and "map_of rs k = Some r"
  shows "\<exists>row \<in> set rows. rw_id row = k \<and> rw_tenant_id row = run_TenantID r"
  using assms
proof (induction rule: list_all2_induct)
  case (Cons row rows kr rs)
  then show ?case using rep_run_tenant [OF Cons.hyps(1)]
    by (cases kr) (auto simp: rep_run_def split: if_splits)
qed simp

lemma find_distinct:
  "distinct (map f xs) \<Longrightarrow> x \<in> set xs \<Longrightarrow> f x = k \<Longrightarrow> find (\<lambda>y. f y = k) xs = Some x"
  by (induction xs) (auto simp: image_iff)

lemma LoadPending_represented:
  assumes "no_faults L" and "represents L (pg_db s) m"
  shows "pg_LoadPending L t k s = run_mem_LoadPending t k m"
proof (cases "run_mem_GetRun t k m")
  case (Inl e)
  then show ?thesis
    by (auto simp: pg_LoadPending_def GetRun_represented [OF assms] run_mem_GetRun_def run_mem_LoadPending_def
        split: option.splits if_splits)
next
  case (Inr r)
  then have r: "map_of (rm_runs m) k = Some r" "run_TenantID r = t"
    by (auto simp: run_mem_GetRun_def split: option.splits if_splits)
  have owned: "pw_tenant_id row = t" if row: "row \<in> set (db_workflow_run_pending (pg_db s))" "pw_run_id row = k" for row
  proof -
    obtain x where x: "x \<in> set (db_workflow_runs (pg_db s))" "rw_id x = k" "rw_tenant_id x = t"
      using represented_row [OF _ r(1)] r(2) assms(2) by (force simp: represents_def rep_runs_def)
    have "(pw_run_id row, pw_tenant_id row) \<in> (\<lambda>r. (rw_id r, rw_tenant_id r)) ` set (db_workflow_runs (pg_db s))"
      using assms(2) row(1) by (simp add: represents_def pending_owned_def list_all_iff)
    then obtain y where y: "y \<in> set (db_workflow_runs (pg_db s))" "rw_id y = k" "rw_tenant_id y = pw_tenant_id row"
      using row(2) by auto
    have "inj_on rw_id (set (db_workflow_runs (pg_db s)))"
      using assms(2) by (simp add: represents_def rep_runs_def distinct_map)
    then show ?thesis using x y by (metis inj_onD)
  qed
  let ?P = "\<lambda>row. pw_tenant_id row = t \<and> pw_run_id row = k"
  have find: "find ?P (db_workflow_run_pending (pg_db s)) = find_pending k (pg_db s)"
    unfolding find_pending_def using owned by (intro find_cong refl) auto
  have "map_option (scan_pending L) (find_pending k (pg_db s)) = map_option Inr (rm_pending m k)"
    using assms(2) by (simp add: represents_def rep_pending_def)
  then show ?thesis
    by (auto simp: pg_LoadPending_def GetRun_represented [OF assms] ListSteps_represented [OF assms] Inr
        pg_query_ok [OF assms(1)] find run_mem_LoadPending_def run_mem_ListSteps_def r split: option.splits)
qed

section \<open>Writes to the runs\<close>

text \<open>What is read back of a run is the run that was written.\<close>

definition run_kept :: "pg_lib \<Rightarrow> run \<Rightarrow> bool" where
  "run_kept L r \<longleftrightarrow> (case encode_run L r of Inl e \<Rightarrow> False | Inr row \<Rightarrow> scanRun L row = Inr r)"

lemma encode_run_ids:
  "encode_run L r = Inr row \<Longrightarrow>
     rw_id row = run_ID r \<and> rw_tenant_id row = run_TenantID r \<and> rw_workflow_id row = run_WorkflowID r"
  by (auto simp: encode_run_def split: sum.splits)

lemma run_keptE:
  assumes "run_kept L r"
  obtains row where "encode_run L r = Inr row" "scanRun L row = Inr r" "rw_id row = run_ID r"
    "rw_tenant_id row = run_TenantID r" "rw_workflow_id row = run_WorkflowID r"
  using assms encode_run_ids [of L r] by (auto simp: run_kept_def split: sum.splits)

lemma rep_runs_update:
  assumes "list_all2 (rep_run L) rows rs" and "distinct (map rw_id rows)"
    and "map_of rs k = Some r0" and "run_TenantID r0 = t" and "rep_run L row (k, r)"
  shows "list_all2 (rep_run L) (map (\<lambda>old. if is_run t k old then row else old) rows) (AList.update k r rs)"
  using assms
proof (induction rule: list_all2_induct)
  case (Cons old rows kr rs)
  show ?case
  proof (cases "rw_id old = k")
    case True
    then have "\<forall>o' \<in> set rows. \<not> is_run t k o'" using Cons.prems(1) by (simp add: is_run_def image_iff) metis
    then have rest: "map (\<lambda>old. if is_run t k old then row else old) rows = rows" by (intro map_idI) simp
    have "kr = (k, r0)" "is_run t k old"
      using True Cons.hyps(1) Cons.prems(2,3) rep_run_tenant [OF Cons.hyps(1)]
      by (cases kr, auto simp: rep_run_def is_run_def split: if_splits)+
    then show ?thesis using rest Cons.hyps(2) Cons.prems(4) by simp
  next
    case False
    then show ?thesis using Cons by (cases kr) (auto simp: rep_run_def is_run_def)
  qed
qed simp

lemma rep_runs_insert:
  assumes "list_all2 (rep_run L) rows rs" and "k \<notin> rw_id ` set rows" and "rep_run L row (k, r)"
  shows "list_all2 (rep_run L) (rows @ [row]) (AList.update k r rs)"
  using assms
  by (induction rule: list_all2_induct) (auto simp: rep_run_def)

lemma update_pairs:
  assumes "rw_id row = k" and "rw_tenant_id row = t"
  shows "map (\<lambda>r. (rw_id r, rw_tenant_id r)) (map (\<lambda>old. if is_run t k old then row else old) rows) =
    map (\<lambda>r. (rw_id r, rw_tenant_id r)) rows"
  using assms by (auto simp: is_run_def)

lemma update_ids:
  assumes "rw_id row = k"
  shows "map rw_id (map (\<lambda>old. if is_run t k old then row else old) rows) = map rw_id rows"
  using assms by (auto simp: is_run_def)

lemma rep_runs_write:
  assumes "rep_runs L rows rs" and "map_of rs (run_ID r) = Some r0" and "run_TenantID r0 = run_TenantID r"
    and "scanRun L row = Inr r" and "rw_id row = run_ID r"
  shows "rep_runs L (map (\<lambda>old. if is_run (run_TenantID r) (run_ID r) old then row else old) rows)
    (AList.update (run_ID r) r rs)"
  using assms rep_runs_update [of L rows rs "run_ID r" r0 "run_TenantID r" row r]
  by (simp add: rep_runs_def rep_run_def update_ids del: map_map)

section \<open>Writes to the steps\<close>

lemma sort_func_sorted: "cmp_sorted cmp xs \<Longrightarrow> sort_func cmp xs = xs"
proof (induction xs)
  case (Cons x xs)
  then have "sort_func cmp xs = xs" by (simp add: cmp_sorted_def)
  then have "sort_func cmp (x # xs) = insert_cmp cmp x xs" by (simp add: sort_func_def)
  then show ?case using Cons.prems by (cases xs) (simp_all add: cmp_sorted_def)
qed (simp add: sort_func_def)

lemma scan_all_context: "scan_all c f xs = Inr ys \<Longrightarrow> scan_all c' f xs = Inr ys"
  by (induction xs arbitrary: ys) (auto split: sum.splits)

lemma scan_all_Inr: "scan_all c f xs = Inr ys \<Longrightarrow> list_all2 (\<lambda>x y. f x = Inr y) xs ys"
  by (induction xs arbitrary: ys) (auto split: sum.splits)

text \<open>
  What is read back of steps that were written, in the order of the query; the steps belong to the run
  and have ids of their own.
\<close>

definition encode_steps :: "pg_lib \<Rightarrow> step list \<Rightarrow> step_row list result" where
  "encode_steps L = scan_all ''insert workflow step'' (encode_step L)"

definition steps_stored :: "pg_lib \<Rightarrow> string \<Rightarrow> step list \<Rightarrow> step list \<Rightarrow> bool" where
  "steps_stored L k steps read \<longleftrightarrow>
     (case encode_steps L steps of
        Inl e \<Rightarrow> False
      | Inr rows \<Rightarrow>
          scan_all [] (scanStep L) (sort_func (step_order L) rows) = Inr read \<and>
          distinct (map sw_id rows) \<and> list_all (\<lambda>row. sw_run_id row = k) rows)"

definition steps_fresh :: "string \<Rightarrow> step list \<Rightarrow> database \<Rightarrow> bool" where
  "steps_fresh k steps db \<longleftrightarrow>
     list_all (\<lambda>st. list_all (\<lambda>row. sw_run_id row \<noteq> k \<longrightarrow> sw_id row \<noteq> step_ID st) (db_workflow_steps db)) steps"

lemma encode_step_id: "encode_step L st = Inr row \<Longrightarrow> sw_id row = step_ID st"
  by (auto simp: encode_step_def split: sum.splits)

lemma encode_steps_ids: "encode_steps L steps = Inr rows \<Longrightarrow> map sw_id rows = map step_ID steps"
  unfolding encode_steps_def
  by (induction steps arbitrary: rows) (auto simp: encode_step_id split: sum.splits)

lemma insert_steps:
  assumes "no_faults L" and "encode_steps L steps = Inr rows" and "distinct (map sw_id rows)"
    and "set (map sw_id rows) \<inter> sw_id ` set (db_workflow_steps (pg_db s)) = {}"
    and "list_all (\<lambda>row. has_run (pg_db s) (sw_run_id row)) rows"
  shows "\<exists>s'. pg_each (\<lambda>st s. pg_step ''insert workflow step''
        (pg_exec L ''INSERT workflow_steps'' (insert_step L st) s)) steps s = (None, s') \<and>
      pg_db s' = (pg_db s)\<lparr>db_workflow_steps := db_workflow_steps (pg_db s) @ rows\<rparr>"
  using assms(2-)
proof (induction steps arbitrary: s rows)
  case Nil
  then show ?case by (simp add: encode_steps_def)
next
  case (Cons st steps)
  obtain row rows' where rows: "rows = row # rows'" "encode_step L st = Inr row" "encode_steps L steps = Inr rows'"
    using Cons.prems(1) by (auto simp: encode_steps_def split: sum.splits)
  let ?db = "(pg_db s)\<lparr>db_workflow_steps := db_workflow_steps (pg_db s) @ [row]\<rparr>"
  have "insert_step L st (pg_db s) = Inr ?db"
    using Cons.prems(3,4) rows by (simp add: insert_step_def)
  then have first: "pg_exec L ''INSERT workflow_steps'' (insert_step L st) s =
      (None, \<lparr>pg_db = ?db, pg_tick = Suc (pg_tick s)\<rparr>)"
    by (rule pg_exec_ok [OF assms(1)])
  have "\<exists>s'. pg_each (\<lambda>st s. pg_step ''insert workflow step''
        (pg_exec L ''INSERT workflow_steps'' (insert_step L st) s)) steps \<lparr>pg_db = ?db, pg_tick = Suc (pg_tick s)\<rparr> = (None, s') \<and>
      pg_db s' = ?db\<lparr>db_workflow_steps := db_workflow_steps ?db @ rows'\<rparr>"
    using Cons.IH [of rows' "\<lparr>pg_db = ?db, pg_tick = Suc (pg_tick s)\<rparr>"] Cons.prems rows
    by (auto simp: has_run_def)
  then show ?case by (simp add: first pg_step_def pg_then_def rows(1))
qed

definition with_steps :: "string \<Rightarrow> step_row list \<Rightarrow> database \<Rightarrow> database" where
  "with_steps k rows db =
     db\<lparr>db_workflow_steps := filter (\<lambda>row. sw_run_id row \<noteq> k) (db_workflow_steps db) @ rows\<rparr>"

lemma replaceStepsTx_ok:
  assumes "no_faults L" and "encode_steps L steps = Inr rows" and "distinct (map sw_id rows)"
    and "list_all (\<lambda>row. sw_run_id row = k) rows" and "steps_fresh k steps (pg_db s)" and "has_run (pg_db s) k"
  shows "\<exists>s'. replaceStepsTx L k steps s = (None, s') \<and> pg_db s' = with_steps k rows (pg_db s)"
proof -
  let ?db = "(pg_db s)\<lparr>db_workflow_steps := filter (\<lambda>row. sw_run_id row \<noteq> k) (db_workflow_steps (pg_db s))\<rparr>"
  let ?s = "\<lparr>pg_db = ?db, pg_tick = Suc (pg_tick s)\<rparr>"
  have first: "pg_exec L ''DELETE workflow_steps'' (delete_steps k) s = (None, ?s)"
    by (rule pg_exec_ok [OF assms(1)]) (simp add: delete_steps_def)
  have "set (map step_ID steps) \<inter> sw_id ` set (db_workflow_steps ?db) = {}"
    using assms(5) by (fastforce simp: steps_fresh_def list_all_iff)
  then have "set (map sw_id rows) \<inter> sw_id ` set (db_workflow_steps (pg_db ?s)) = {}"
    by (simp only: encode_steps_ids [OF assms(2)] pg.simps)
  moreover have "list_all (\<lambda>row. has_run (pg_db ?s) (sw_run_id row)) rows"
    using assms(4,6) by (simp add: list_all_iff has_run_def)
  ultimately obtain s' where "pg_each (\<lambda>st s. pg_step ''insert workflow step''
        (pg_exec L ''INSERT workflow_steps'' (insert_step L st) s)) steps ?s = (None, s')"
      "pg_db s' = ?db\<lparr>db_workflow_steps := db_workflow_steps ?db @ rows\<rparr>"
    using insert_steps [OF assms(1-3), of ?s] by auto
  then show ?thesis by (simp add: replaceStepsTx_def first pg_step_def pg_then_def with_steps_def)
qed

lemma select_with_steps:
  assumes "list_all (\<lambda>row. sw_run_id row = k) rows"
  shows "select_steps L k' (with_steps k rows db) =
    (if k' = k then sort_func (step_order L) rows else select_steps L k' db)"
proof -
  have "filter (\<lambda>row. sw_run_id row = k) rows = rows" "k' \<noteq> k \<Longrightarrow> filter (\<lambda>row. sw_run_id row = k') rows = []"
    using assms by (auto simp: list_all_iff filter_id_conv filter_empty_conv)
  moreover have "filter (\<lambda>row. sw_run_id row = k' \<and> sw_run_id row \<noteq> k) (db_workflow_steps db) =
      (if k' = k then [] else filter (\<lambda>row. sw_run_id row = k') (db_workflow_steps db))"
    by (auto simp: filter_empty_conv intro!: filter_cong)
  ultimately show ?thesis
    by (simp add: select_steps_def with_steps_def conj_commute)
qed

section \<open>Completing and parking a run\<close>

definition with_run :: "run_row \<Rightarrow> database \<Rightarrow> database" where
  "with_run row db =
     db\<lparr>db_workflow_runs :=
       map (\<lambda>old. if is_run (rw_tenant_id row) (rw_id row) old then row else old) (db_workflow_runs db)\<rparr>"

lemma with_run_ids:
  "rw_id ` set (db_workflow_runs (with_run row db)) = rw_id ` set (db_workflow_runs db)"
  "(\<lambda>r. (rw_id r, rw_tenant_id r)) ` set (db_workflow_runs (with_run row db)) =
     (\<lambda>r. (rw_id r, rw_tenant_id r)) ` set (db_workflow_runs db)"
  using arg_cong [OF update_ids [OF refl, where row = row and t = "rw_tenant_id row" and rows = "db_workflow_runs db"], of set]
    arg_cong [OF update_pairs [OF refl refl, where row = row and rows = "db_workflow_runs db"], of set]
  unfolding list.set_map with_run_def by simp_all

lemma updateRunTx_ok:
  assumes "no_faults L" and "encode_run L r = Inr row" and "has_workflow (pg_db s) (run_WorkflowID r)"
  shows "updateRunTx L r s = (None, \<lparr>pg_db = with_run row (pg_db s), pg_tick = Suc (pg_tick s)\<rparr>)"
proof -
  have "update_run_tx L r (pg_db s) = Inr (with_run row (pg_db s))"
    using assms(2,3) encode_run_ids [OF assms(2)] by (simp add: update_run_tx_def with_run_def)
  from pg_exec_ok [OF assms(1), where f = "update_run_tx L r", OF this] show ?thesis by (simp add: updateRunTx_def pg_step_def)
qed

text \<open>The two statements that both transactions begin with.\<close>

lemma park_statements:
  assumes "no_faults L" and "represents L (pg_db s) m" and "run_mem_GetRun (run_TenantID r) (run_ID r) m = Inr r0"
    and "run_kept L r" and "has_workflow (pg_db s) (run_WorkflowID r)"
    and "steps_stored L (run_ID r) steps read" and "steps_fresh (run_ID r) steps (pg_db s)"
  obtains row rows s' where
    "pg_then (updateRunTx L r s) (replaceStepsTx L (run_ID r) steps) = (None, s')"
    "pg_db s' = with_steps (run_ID r) rows (with_run row (pg_db s))"
    "scanRun L row = Inr r" "rw_id row = run_ID r" "rw_tenant_id row = run_TenantID r"
    "scan_all [] (scanStep L) (sort_func (step_order L) rows) = Inr read"
    "list_all (\<lambda>st. sw_run_id st = run_ID r) rows" "has_run (pg_db s) (run_ID r)"
proof -
  obtain row where row: "encode_run L r = Inr row" "scanRun L row = Inr r" "rw_id row = run_ID r"
      "rw_tenant_id row = run_TenantID r"
    using run_keptE [OF assms(4)] by metis
  obtain rows where rows: "encode_steps L steps = Inr rows"
      "scan_all [] (scanStep L) (sort_func (step_order L) rows) = Inr read" "distinct (map sw_id rows)"
      "list_all (\<lambda>st. sw_run_id st = run_ID r) rows"
    using assms(6) by (auto simp: steps_stored_def split: sum.splits)
  have "map_of (rm_runs m) (run_ID r) = Some r0"
    using assms(3) by (auto simp: run_mem_GetRun_def split: option.splits if_splits)
  then have has: "has_run (pg_db s) (run_ID r)"
    using represented_row [of L "db_workflow_runs (pg_db s)" "rm_runs m"] assms(2)
    by (auto simp: represents_def rep_runs_def has_run_def) (metis imageI)
  let ?s = "\<lparr>pg_db = with_run row (pg_db s), pg_tick = Suc (pg_tick s)\<rparr>"
  have update: "updateRunTx L r s = (None, ?s)" by (rule updateRunTx_ok [OF assms(1) row(1) assms(5)])
  have "has_run (pg_db ?s) (run_ID r)" using has by (simp add: has_run_def with_run_ids)
  moreover have "steps_fresh (run_ID r) steps (pg_db ?s)"
    using assms(7) by (simp add: steps_fresh_def with_run_def)
  ultimately obtain s' where "replaceStepsTx L (run_ID r) steps ?s = (None, s')"
      "pg_db s' = with_steps (run_ID r) rows (pg_db ?s)"
    using replaceStepsTx_ok [OF assms(1) rows(1,3,4)] by blast
  then show thesis using that row rows has by (simp add: update pg_then_def)
qed

text \<open>What the two statements and a change of the pending rows represent.\<close>

lemma represents_write:
  assumes "represents L db m" and "run_mem_GetRun (run_TenantID r) (run_ID r) m = Inr r0"
    and "scanRun L row = Inr r" and "rw_id row = run_ID r" and "rw_tenant_id row = run_TenantID r"
    and "scan_all [] (scanStep L) (sort_func (step_order L) rows) = Inr read"
    and "list_all (\<lambda>st. sw_run_id st = run_ID r) rows"
    and "\<And>k. map_option (scan_pending L) (find (\<lambda>row. pw_run_id row = k) pending) =
      map_option Inr (if k = run_ID r then new else rm_pending m k)"
    and "distinct (map pw_run_id pending)"
    and "\<And>row. row \<in> set pending \<Longrightarrow> row \<in> set (db_workflow_run_pending db) \<or>
      pw_run_id row = run_ID r \<and> pw_tenant_id row = run_TenantID r"
  shows "represents L ((with_steps (run_ID r) rows (with_run row db))\<lparr>db_workflow_run_pending := pending\<rparr>)
    ((put_run r m)\<lparr>rm_steps := (rm_steps m)(run_ID r := read), rm_pending := (rm_pending m)(run_ID r := new)\<rparr>)"
proof -
  let ?db = "(with_steps (run_ID r) rows (with_run row db))\<lparr>db_workflow_run_pending := pending\<rparr>"
  have r0: "map_of (rm_runs m) (run_ID r) = Some r0" "run_TenantID r0 = run_TenantID r"
    using assms(2) by (auto simp: run_mem_GetRun_def split: option.splits if_splits)
  have runs: "rep_runs L (db_workflow_runs db) (rm_runs m)" using assms(1) by (simp add: represents_def)
  have "rep_runs L (db_workflow_runs ?db) (AList.update (run_ID r) r (rm_runs m))"
    using rep_runs_write [OF runs r0 assms(3,4)] assms(4,5) by (simp add: with_steps_def with_run_def)
  moreover have "rep_steps L ?db ((rm_steps m)(run_ID r := read))"
  proof -
    have "select_steps L k ?db = select_steps L k (with_steps (run_ID r) rows (with_run row db))" for k
      by (simp add: select_steps_def with_steps_def)
    moreover have "select_steps L k (with_run row db) = select_steps L k db" for k
      by (simp add: select_steps_def with_run_def)
    ultimately show ?thesis
      using select_with_steps [OF assms(7)] scan_all_context [OF assms(6)] assms(1)
      by (auto simp: rep_steps_def represents_def)
  qed
  moreover have "rep_pending L ?db ((rm_pending m)(run_ID r := new))"
    using assms(8) by (simp add: rep_pending_def find_pending_def)
  moreover have "pending_owned ?db"
  proof -
    have pairs: "(\<lambda>r. (rw_id r, rw_tenant_id r)) ` set (db_workflow_runs ?db) =
        (\<lambda>r. (rw_id r, rw_tenant_id r)) ` set (db_workflow_runs db)"
      by (simp add: with_steps_def with_run_ids)
    obtain y where "y \<in> set (db_workflow_runs db)" "rw_id y = run_ID r" "rw_tenant_id y = run_TenantID r"
      using represented_row [OF _ r0(1)] runs r0(2) by (auto simp: rep_runs_def)
    then have "(run_ID r, run_TenantID r) \<in> (\<lambda>r. (rw_id r, rw_tenant_id r)) ` set (db_workflow_runs db)"
      by (metis (mono_tags, lifting) rev_image_eqI)
    moreover have "row \<in> set (db_workflow_run_pending db) \<Longrightarrow>
        (pw_run_id row, pw_tenant_id row) \<in> (\<lambda>r. (rw_id r, rw_tenant_id r)) ` set (db_workflow_runs db)" for row
      using assms(1) by (simp add: represents_def pending_owned_def list_all_iff)
    moreover have "db_workflow_run_pending ?db = pending" by simp
    ultimately show ?thesis
      using assms(10) unfolding pending_owned_def pairs list_all_iff by metis
  qed
  ultimately show ?thesis using assms(9) by (simp add: represents_def put_run_def)
qed

lemma find_filter_other: "find (\<lambda>x. f x = k) (filter (\<lambda>x. f x \<noteq> k') xs) = (if k = k' then None else find (\<lambda>x. f x = k) xs)"
  by (induction xs) auto

lemma map_replace_absent: "f y \<notin> f ` set xs \<Longrightarrow> map (\<lambda>x. if f x = f y then y else x) xs = xs"
  by (rule map_idI) (metis imageI)

lemma find_upsert:
  assumes "distinct (map f xs)"
  shows "find (\<lambda>x. f x = k) (if f y \<in> f ` set xs then map (\<lambda>x. if f x = f y then y else x) xs else xs @ [y]) =
    (if k = f y then Some y else find (\<lambda>x. f x = k) xs)"
  using assms by (induction xs) (auto simp: map_replace_absent)

lemma upsert_keys:
  "map f (if f y \<in> f ` set xs then map (\<lambda>x. if f x = f y then y else x) xs else xs @ [y]) =
    (if f y \<in> f ` set xs then map f xs else map f xs @ [f y])"
  by auto

definition pending_kept :: "pg_lib \<Rightarrow> run \<Rightarrow> pending_state \<Rightarrow> bool" where
  "pending_kept L r p \<longleftrightarrow>
     (case encode_pending L r p of Inl e \<Rightarrow> False | Inr row \<Rightarrow> scan_pending L row = Inr p)"

lemma encode_pending_ids:
  "encode_pending L r p = Inr row \<Longrightarrow> pw_run_id row = run_ID r \<and> pw_tenant_id row = run_TenantID r"
  by (auto simp: encode_pending_def split: sum.splits)

lemma with_frame [simp]:
  "db_workflow_run_pending (with_steps k rows db) = db_workflow_run_pending db"
  "db_workflow_run_pending (with_run row db) = db_workflow_run_pending db"
  "db_tenants (with_steps k rows db) = db_tenants db" "db_tenants (with_run row db) = db_tenants db"
  "db_workflow_runs (with_steps k rows db) = db_workflow_runs db"
  by (simp_all add: with_steps_def with_run_def)

lemma CompleteRun_represented:
  assumes "no_faults L" and "represents L (pg_db s) m" and "run_mem_GetRun (run_TenantID r) (run_ID r) m = Inr r0"
    and "run_kept L r" and "has_workflow (pg_db s) (run_WorkflowID r)"
    and "steps_stored L (run_ID r) steps read" and "steps_fresh (run_ID r) steps (pg_db s)"
  shows "\<exists>s'. pg_CompleteRun L r steps s = (None, s') \<and>
    represents L (pg_db s') (snd (run_mem_CompleteRun r read m))"
proof -
  let ?s = "s\<lparr>pg_tick := Suc (pg_tick s)\<rparr>"
  have same: "pg_db ?s = pg_db s" by simp
  obtain row rows s1 where s1: "pg_then (updateRunTx L r ?s) (replaceStepsTx L (run_ID r) steps) = (None, s1)"
      "pg_db s1 = with_steps (run_ID r) rows (with_run row (pg_db s))"
    and row: "scanRun L row = Inr r" "rw_id row = run_ID r" "rw_tenant_id row = run_TenantID r"
      "scan_all [] (scanStep L) (sort_func (step_order L) rows) = Inr read"
      "list_all (\<lambda>st. sw_run_id st = run_ID r) rows"
    by (rule park_statements [where s = ?s, unfolded same, OF assms])
  let ?pending = "filter (\<lambda>row. pw_run_id row \<noteq> run_ID r) (db_workflow_run_pending (pg_db s))"
  let ?db = "(pg_db s1)\<lparr>db_workflow_run_pending := ?pending\<rparr>"
  have "delete_pending (run_ID r) (pg_db s1) = Inr ?db" by (simp add: delete_pending_def s1(2))
  then have last: "pg_exec L ''DELETE workflow_run_pending'' (delete_pending (run_ID r)) s1 =
      (None, \<lparr>pg_db = ?db, pg_tick = Suc (pg_tick s1)\<rparr>)"
    by (rule pg_exec_ok [where f = "delete_pending (run_ID r)", OF assms(1)])
  have "represents L ?db ((put_run r m)\<lparr>rm_steps := (rm_steps m)(run_ID r := read),
      rm_pending := (rm_pending m)(run_ID r := None)\<rparr>)"
    unfolding s1(2)
  proof (rule represents_write [OF assms(2,3) row])
    show "map_option (scan_pending L) (find (\<lambda>row. pw_run_id row = k) ?pending) =
        map_option Inr (if k = run_ID r then None else rm_pending m k)" for k
      using assms(2) by (simp add: find_filter_other represents_def rep_pending_def find_pending_def)
    show "distinct (map pw_run_id ?pending)" using assms(2) by (simp add: represents_def distinct_map_filter)
  qed auto
  moreover have "pg_CompleteRun L r steps s = (None, \<lparr>pg_db = ?db, pg_tick = Suc (Suc (pg_tick s1))\<rparr>)"
    unfolding pg_CompleteRun_def
    by (rule pg_tx_ok [OF assms(1)]) (simp only: s1(1), simp add: pg_then_def last pg_step_def)
  ultimately show ?thesis by (auto simp: run_mem_CompleteRun_def)
qed

lemma SavePending_represented:
  assumes "no_faults L" and "represents L (pg_db s) m" and "run_mem_GetRun (run_TenantID r) (run_ID r) m = Inr r0"
    and "run_kept L r" and "has_workflow (pg_db s) (run_WorkflowID r)"
    and "steps_stored L (run_ID r) steps read" and "steps_fresh (run_ID r) steps (pg_db s)"
    and "pending_kept L r p" and "has_tenant (pg_db s) (run_TenantID r)"
  shows "\<exists>s'. pg_SavePending L r steps p s = (None, s') \<and>
    represents L (pg_db s') (snd (run_mem_SavePending r read p m))"
proof -
  let ?s = "s\<lparr>pg_tick := Suc (pg_tick s)\<rparr>"
  have same: "pg_db ?s = pg_db s" by simp
  obtain row rows s1 where s1: "pg_then (updateRunTx L r ?s) (replaceStepsTx L (run_ID r) steps) = (None, s1)"
      "pg_db s1 = with_steps (run_ID r) rows (with_run row (pg_db s))"
    and row: "scanRun L row = Inr r" "rw_id row = run_ID r" "rw_tenant_id row = run_TenantID r"
      "scan_all [] (scanStep L) (sort_func (step_order L) rows) = Inr read"
      "list_all (\<lambda>st. sw_run_id st = run_ID r) rows"
    and has: "has_run (pg_db s) (run_ID r)"
    by (rule park_statements [where s = ?s, unfolded same, OF assms(1-7)])
  obtain new where new: "encode_pending L r p = Inr new" "scan_pending L new = Inr p"
      "pw_run_id new = run_ID r" "pw_tenant_id new = run_TenantID r"
    using assms(8) encode_pending_ids [of L r p] by (auto simp: pending_kept_def split: sum.splits)
  let ?old = "db_workflow_run_pending (pg_db s)"
  let ?pending = "if pw_run_id new \<in> pw_run_id ` set ?old
    then map (\<lambda>old. if pw_run_id old = pw_run_id new then new else old) ?old else ?old @ [new]"
  let ?db = "(pg_db s1)\<lparr>db_workflow_run_pending := ?pending\<rparr>"
  have "has_run (pg_db s1) (run_ID r)" "has_tenant (pg_db s1) (run_TenantID r)"
    using has assms(9) by (simp_all add: s1(2) has_run_def has_tenant_def with_run_ids)
  then have "upsert_pending L r p (pg_db s1) = Inr ?db"
    using new by (simp add: upsert_pending_def s1(2))
  then have last: "pg_exec L ''INSERT workflow_run_pending'' (upsert_pending L r p) s1 =
      (None, \<lparr>pg_db = ?db, pg_tick = Suc (pg_tick s1)\<rparr>)"
    by (rule pg_exec_ok [where f = "upsert_pending L r p", OF assms(1)])
  have distinct: "distinct (map pw_run_id ?old)" using assms(2) by (simp add: represents_def)
  have "represents L ?db ((put_run r m)\<lparr>rm_steps := (rm_steps m)(run_ID r := read),
      rm_pending := (rm_pending m)(run_ID r := Some p)\<rparr>)"
    unfolding s1(2)
  proof (rule represents_write [OF assms(2,3) row])
    show "map_option (scan_pending L) (find (\<lambda>row. pw_run_id row = k) ?pending) =
        map_option Inr (if k = run_ID r then Some p else rm_pending m k)" for k
      unfolding find_upsert [OF distinct]
      using assms(2) new by (simp add: represents_def rep_pending_def find_pending_def)
    show "distinct (map pw_run_id ?pending)" unfolding upsert_keys using distinct by auto
  qed (use new in \<open>auto split: if_splits\<close>)
  moreover have "pg_SavePending L r steps p s = (None, \<lparr>pg_db = ?db, pg_tick = Suc (Suc (pg_tick s1))\<rparr>)"
    unfolding pg_SavePending_def
    by (rule pg_tx_ok [OF assms(1)]) (simp only: s1(1), simp add: pg_then_def last pg_step_def)
  ultimately show ?thesis by (auto simp: run_mem_SavePending_def)
qed

lemma CreateRun_represented:
  assumes "no_faults L" and "represents L (pg_db s) m" and "map_of (rm_runs m) (run_ID r) = None"
    and "run_kept L r" and "has_tenant (pg_db s) (run_TenantID r)" and "has_workflow (pg_db s) (run_WorkflowID r)"
  shows "\<exists>s'. pg_CreateRun L r s = (None, s') \<and> represents L (pg_db s') (snd (run_mem_CreateRun r m))"
proof -
  obtain row where row: "encode_run L r = Inr row" "scanRun L row = Inr r" "rw_id row = run_ID r"
      "rw_tenant_id row = run_TenantID r" "rw_workflow_id row = run_WorkflowID r"
    using run_keptE [OF assms(4)] by metis
  have reps: "list_all2 (rep_run L) (db_workflow_runs (pg_db s)) (rm_runs m)"
      "distinct (map rw_id (db_workflow_runs (pg_db s)))"
    using assms(2) by (simp_all add: represents_def rep_runs_def)
  have new: "run_ID r \<notin> rw_id ` set (db_workflow_runs (pg_db s))"
    using assms(3) rep_run_ids [OF reps(1)] by (metis list.set_map map_of_eq_None_iff)
  let ?db = "(pg_db s)\<lparr>db_workflow_runs := db_workflow_runs (pg_db s) @ [row]\<rparr>"
  have "insert_run L r (pg_db s) = Inr ?db"
    using row new assms(5,6) by (simp add: insert_run_def has_run_def)
  from pg_exec_ok [where f = "insert_run L r", OF assms(1) this]
  have done_: "pg_CreateRun L r s = (None, \<lparr>pg_db = ?db, pg_tick = Suc (pg_tick s)\<rparr>)"
    by (simp add: pg_CreateRun_def pg_step_def)
  have "list_all2 (rep_run L) (db_workflow_runs ?db) (rm_runs (put_run r m))"
    using rep_runs_insert [OF reps(1) new, of row r] row by (simp add: put_run_def rep_run_def)
  moreover have "distinct (map rw_id (db_workflow_runs ?db))" using reps(2) new row(3) by simp
  moreover have "pending_owned ?db" "rep_steps L ?db (rm_steps m)" "rep_pending L ?db (rm_pending m)"
    using assms(2)
    by (auto simp: represents_def pending_owned_def list_all_iff rep_steps_def select_steps_def
        rep_pending_def find_pending_def)
  ultimately have "represents L ?db (put_run r m)"
    using assms(2) by (simp add: represents_def rep_runs_def)
  then show ?thesis by (simp add: done_ run_mem_CreateRun_def)
qed

section \<open>Faults\<close>

text \<open>The library without faults, on which a call that succeeds does the same.\<close>

definition quiet :: "pg_lib \<Rightarrow> pg_lib" where
  "quiet L = L\<lparr>pl_fault := (\<lambda>n statement. None)\<rparr>"

lemma quiet_fields:
  "pl_jsonb (quiet L) = pl_jsonb L" "pl_time (quiet L) = pl_time L" "pl_violation (quiet L) = pl_violation L"
  "mustJSON (quiet L) = mustJSON L" "nullableJSON (quiet L) = nullableJSON L" "texts_ok (quiet L) = texts_ok L"
  by (simp_all add: quiet_def fun_eq_iff mustJSON_def nullableJSON_def texts_ok_def)

lemma quiet_helpers:
  "jsonb_option (quiet L) = jsonb_option L" "require (quiet L) = require L" "flags_json (quiet L) = flags_json L"
  by (unfold jsonb_option_def require_def flags_json_def quiet_fields, (rule refl)+)

lemma quiet_rows:
  "encode_run (quiet L) = encode_run L" "encode_step (quiet L) = encode_step L"
  "encode_pending (quiet L) = encode_pending L"
  by (unfold encode_run_def encode_step_def encode_pending_def quiet_fields quiet_helpers, (rule refl)+)

lemma quiet_statements [simp]:
  "update_run_tx (quiet L) = update_run_tx L" "insert_step (quiet L) = insert_step L"
  "upsert_pending (quiet L) = upsert_pending L"
  by (unfold update_run_tx_def insert_step_def upsert_pending_def quiet_rows quiet_helpers, (rule refl)+)

lemma quiet_exec: "pg_exec L statement f s = (None, s') \<Longrightarrow> pg_exec (quiet L) statement f s = (None, s')"
  by (auto simp: pg_exec_def quiet_def Let_def split: option.splits)

lemma quiet_step: "pg_step c (pg_exec L statement f s) = (None, s') \<Longrightarrow>
    pg_step c (pg_exec (quiet L) statement f s) = (None, s')"
  using quiet_exec [of L statement f s]
  by (auto simp: pg_step_def split: prod.splits option.splits)

lemma pg_then_None:
  "pg_then r f = (None, s') \<longleftrightarrow> (\<exists>s1. r = (None, s1) \<and> f s1 = (None, s'))"
  by (auto simp: pg_then_def split: prod.splits option.splits)

lemma quiet_each:
  "pg_each (\<lambda>st s. pg_step c (pg_exec L statement (insert_step L st) s)) steps s = (None, s') \<Longrightarrow>
     pg_each (\<lambda>st s. pg_step c (pg_exec (quiet L) statement (insert_step L st) s)) steps s = (None, s')"
  by (induction steps arbitrary: s) (auto simp: pg_then_None dest: quiet_step)

lemma quiet_park:
  assumes "pg_then (updateRunTx L r s) (replaceStepsTx L k steps) = (None, s')"
  shows "pg_then (updateRunTx (quiet L) r s) (replaceStepsTx (quiet L) k steps) = (None, s')"
  using assms by (auto simp: pg_then_None updateRunTx_def replaceStepsTx_def dest: quiet_step quiet_each) 

lemma quiet_tx:
  assumes "pg_tx L bc cc body s = (err, s')"
    and "\<And>s s'. body s = (None, s') \<Longrightarrow> body' s = (None, s')"
  shows "(pg_db s' = pg_db s \<and> err \<noteq> None) \<or>
    (\<exists>s1. pg_tx (quiet L) bc cc body' s = (None, s1) \<and> pg_db s' = pg_db s1)"
proof -
  have "\<exists>s1. pg_tx (quiet L) bc cc body' s = (None, s1) \<and> pg_db s0 = pg_db s1"
    if "body (s\<lparr>pg_tick := Suc (pg_tick s)\<rparr>) = (None, s0)" for s0
    using assms(2) [OF that] by (simp add: pg_tx_def quiet_def)
  then show ?thesis using pg_tx_atomic [OF assms(1)] by metis
qed

section \<open>Properties\<close>

text \<open>C17: the PostgreSQL repository refines the in-memory one: on tables that represent a memory, reading
  a run, its steps or its pending state gives what the memory gives, and completing or parking a run
  leads to tables that represent the memory after the same write. The run must be there, its workflow and
  tenant as well, and what is written must survive the column types: JSON, timestamps and the order of the
  steps.\<close>
theorem pg_refines_memory:
  assumes "no_faults L" and "represents L (pg_db s) m" and "run_mem_GetRun (run_TenantID r) (run_ID r) m = Inr r0"
    and "run_kept L r" and "has_workflow (pg_db s) (run_WorkflowID r)"
    and "steps_stored L (run_ID r) steps steps" and "steps_fresh (run_ID r) steps (pg_db s)"
    and "pending_kept L r p" and "has_tenant (pg_db s) (run_TenantID r)"
  shows "pg_GetRun L t k s = run_mem_GetRun t k m \<and> pg_ListSteps L t k s = run_mem_ListSteps t k m \<and>
    pg_LoadPending L t k s = run_mem_LoadPending t k m \<and>
    (\<exists>s'. pg_CompleteRun L r steps s = (None, s') \<and> represents L (pg_db s') (snd (run_mem_CompleteRun r steps m))) \<and>
    (\<exists>s'. pg_SavePending L r steps p s = (None, s') \<and> represents L (pg_db s') (snd (run_mem_SavePending r steps p m)))"
  using GetRun_represented [OF assms(1,2)] ListSteps_represented [OF assms(1,2)] LoadPending_represented [OF assms(1,2)]
    CompleteRun_represented [OF assms(1-7)] SavePending_represented [OF assms]
  by simp

text \<open>C19: a run is completed or parked entirely or not at all, whatever statement fails, and also when the
  answer to the commit is lost: the tables are as before, or as the call without faults leaves them; and
  a call that reports success has done everything.\<close>
theorem pg_writes_atomic:
  assumes "write \<in> {\<lambda>L. pg_CompleteRun L r steps, \<lambda>L. pg_SavePending L r steps p}"
    and "write L s = (err, s')"
  shows "(pg_db s' = pg_db s \<and> err \<noteq> None) \<or>
    (\<exists>s1. write (quiet L) s = (None, s1) \<and> pg_db s' = pg_db s1)"
proof -
  have complete: "pg_then (pg_then (updateRunTx (quiet L) r s) (replaceStepsTx (quiet L) (run_ID r) steps))
      (\<lambda>s. pg_step c (pg_exec (quiet L) statement f s)) = (None, s')"
    if "pg_then (pg_then (updateRunTx L r s) (replaceStepsTx L (run_ID r) steps))
      (\<lambda>s. pg_step c (pg_exec L statement f s)) = (None, s')" for s s' c statement f
    using that quiet_park quiet_step unfolding pg_then_None [of "pg_then a b" for a b] by metis
  show ?thesis
    using assms(1)
  proof (elim insertE emptyE)
    assume w: "write = (\<lambda>L. pg_CompleteRun L r steps)"
    show ?thesis
      unfolding w pg_CompleteRun_def
      by (rule quiet_tx [OF assms(2) [unfolded w pg_CompleteRun_def]]) (rule complete)
  next
    assume w: "write = (\<lambda>L. pg_SavePending L r steps p)"
    show ?thesis
      unfolding w pg_SavePending_def quiet_statements
      by (rule quiet_tx [OF assms(2) [unfolded w pg_SavePending_def]]) (rule complete)
  qed
qed

text \<open>The order of steps is lost: two steps whose start is stored as the same time are listed in the
  order of their ids, whatever the order in which they were executed. The last step of a parked run, which
  a decision on the approval is written to, is then not the step that waits.\<close>
theorem pg_steps_reordered:
  assumes "no_faults L" and "represents L (pg_db s) m" and "run_mem_GetRun (run_TenantID r) (run_ID r) m = Inr r0"
    and "run_kept L r" and "has_workflow (pg_db s) (run_WorkflowID r)" and "has_tenant (pg_db s) (run_TenantID r)"
    and "steps_fresh (run_ID r) [first, waiting] (pg_db s)" and "pending_kept L r p"
    and "encode_step L first = Inr row1" and "scanStep L row1 = Inr first"
    and "encode_step L waiting = Inr row2" and "scanStep L row2 = Inr waiting"
    and "step_RunID first = run_ID r" and "step_RunID waiting = run_ID r"
    and "sw_started_at row1 = sw_started_at row2" and "0 < pl_text_compare L (step_ID first) (step_ID waiting)"
    and "step_ID first \<noteq> step_ID waiting"
  shows "\<exists>s'. pg_SavePending L r [first, waiting] p s = (None, s') \<and>
    pg_LoadPending L (run_TenantID r) (run_ID r) s' = Inr (r, [waiting, first], p)"
proof -
  have ids: "sw_id row1 = step_ID first" "sw_id row2 = step_ID waiting"
      "sw_run_id row1 = run_ID r" "sw_run_id row2 = run_ID r"
    using assms(9,11,13,14) by (auto simp: encode_step_def split: sum.splits)
  have "steps_stored L (run_ID r) [first, waiting] [waiting, first]"
    using assms(9-12,15-17) ids by (simp add: steps_stored_def encode_steps_def sort_func_def step_order_def)
  from SavePending_represented [OF assms(1-5) this assms(7,8,6)]
  obtain s' where s': "pg_SavePending L r [first, waiting] p s = (None, s')"
      "represents L (pg_db s') (snd (run_mem_SavePending r [waiting, first] p m))" by blast
  have "run_mem_LoadPending (run_TenantID r) (run_ID r) (snd (run_mem_SavePending r [waiting, first] p m)) =
      Inr (r, [waiting, first], p)"
    by (simp add: run_mem_LoadPending_def run_mem_SavePending_def)
  then show ?thesis using s' LoadPending_represented [OF assms(1) s'(2)] by simp
qed

section \<open>A server, for the examples\<close>

text \<open>
  It stores times as microseconds and texts as they are, compares texts bytewise, and its decoders know
  the empty object and the empty array.
\<close>

definition demo_pg :: pg_lib where
  "demo_pg =
     \<lparr>pl_fmt = \<lparr>fmt_float_json = (\<lambda>_. ''0''), fmt_time_json = (\<lambda>_. []), fmt_Sprint = (\<lambda>_. [])\<rparr>,
      pl_time = (\<lambda>t. t div 1000 * 1000), pl_jsonb = Inr, pl_text = (\<lambda>_. True), pl_text_compare = str_compare,
      pl_violation = Anonymous, pl_fault = (\<lambda>n statement. None), pl_committed = (\<lambda>n. False),
      pl_object = (\<lambda>txt. if txt = ''{}'' then Inr [] else Inl (Anonymous ''json'')),
      pl_any = (\<lambda>txt. Inl (Anonymous ''json'')),
      pl_strings = (\<lambda>txt. if txt = ''[]'' then Inr [] else Inl (Anonymous ''json'')),
      pl_flags = (\<lambda>txt. if txt = ''{}'' then Inr {} else Inl (Anonymous ''json'')),
      pl_definition = (\<lambda>txt. Inl (Anonymous ''json''))\<rparr>"

definition demo_step :: "string \<Rightarrow> time \<Rightarrow> step" where
  "demo_step k t = \<lparr>step_ID = k, step_RunID = ''r1'', step_NodeID = k, step_NodeType = ''approval'',
     step_Status = StepStatusCompleted, step_Attempt = 1, step_Input = [], step_Output = VNil,
     step_Error = [], step_StartedAt = t, step_CompletedAt = t\<rparr>"

definition demo_pending :: pending_state where
  "demo_pending = \<lparr>pn_WaitingNodeID = ''n'', pn_Queue = [], pn_StepOutputs = [], pn_Executed = {}\<rparr>"

definition demo_memory :: run_memory where
  "demo_memory = empty_run_memory\<lparr>rm_runs := [(''r1'', demo_run ''r1'' 5000)]\<rparr>"

definition demo_row :: run_row where
  "demo_row = \<lparr>rw_id = ''r1'', rw_tenant_id = ''acme'', rw_workflow_id = ''w1'', rw_status = RunStatusCompleted,
     rw_trigger_mode = ''sync'', rw_attempt = 0, rw_max_attempts = 0, rw_input_json = ''{}'',
     rw_output_json = None, rw_error_message = [], rw_created_at = 5000, rw_started_at = 5000,
     rw_completed_at = Some 5000\<rparr>"

definition demo_tables :: pg where
  "demo_tables = \<lparr>pg_db = empty_database
     \<lparr>db_tenants := [\<lparr>tenant_ID = ''acme'', tenant_Name = ''Acme'', tenant_Status = TenantActive\<rparr>],
      db_workflows := [\<lparr>ww_id = ''w1'', ww_tenant_id = ''acme'', ww_name = [], ww_description = [], ww_version = 1,
        ww_status = StatusDraft, ww_validation_status = ValidationStatusValid, ww_definition_json = ''{}'',
        ww_created_at = 0, ww_updated_at = 0\<rparr>],
      db_workflow_runs := [demo_row]\<rparr>, pg_tick = 0\<rparr>"

lemma demo_represents: "represents demo_pg (pg_db demo_tables) demo_memory"
  by (simp add: represents_def rep_runs_def rep_run_def rep_steps_def rep_pending_def pending_owned_def
      find_pending_def demo_tables_def demo_memory_def empty_database_def empty_run_memory_def select_steps_def
      sort_func_def)
    (simp add: demo_row_def demo_run_def scanRun_def decodeJSON_def decodeNullableJSON_def demo_pg_def scan_time_def)

lemma demo_pg_fields: "pl_jsonb demo_pg txt = Inr txt" "pl_text demo_pg txt" "pl_strings demo_pg ''[]'' = Inr []"
    "pl_flags demo_pg ''{}'' = Inr {}" "decodeJSON demo_pg ''{}'' = Inr []" "texts_ok demo_pg txts"
    "flags_json demo_pg {} = ''{}''" "mustJSON demo_pg (VStrs []) = ''[]''" "mustJSON demo_pg (VMap []) = ''{}''"
proof -
  show "mustJSON demo_pg (VStrs []) = ''[]''" "mustJSON demo_pg (VMap []) = ''{}''"
      "decodeJSON demo_pg ''{}'' = Inr []" by code_simp+
  show "flags_json demo_pg {} = ''{}''" by (simp add: flags_json_def mustJSON_def json_object_def)
  show "texts_ok demo_pg txts" by (simp add: texts_ok_def demo_pg_def list_all_iff)
qed (simp_all add: demo_pg_def)

lemma demo_kept: "no_faults demo_pg" "run_kept demo_pg (demo_run ''r1'' 5000)"
    "pending_kept demo_pg (demo_run ''r1'' 5000) demo_pending"
    "run_mem_GetRun ''acme'' ''r1'' demo_memory = Inr (demo_run ''r1'' 5000)"
    "has_workflow (pg_db demo_tables) ''w1''" "has_tenant (pg_db demo_tables) ''acme''"
    "steps_fresh ''r1'' steps (pg_db demo_tables)"
proof -
  show "no_faults demo_pg" by (simp add: no_faults_def demo_pg_def)
  show "run_kept demo_pg (demo_run ''r1'' 5000)" by code_simp
  show "pending_kept demo_pg (demo_run ''r1'' 5000) demo_pending"
    by (simp add: pending_kept_def encode_pending_def demo_pending_def demo_run_def scan_pending_def
        demo_pg_fields require_def)
  show "run_mem_GetRun ''acme'' ''r1'' demo_memory = Inr (demo_run ''r1'' 5000)"
    by (simp add: run_mem_GetRun_def demo_memory_def demo_run_def)
  show "has_workflow (pg_db demo_tables) ''w1''" "has_tenant (pg_db demo_tables) ''acme''"
      "steps_fresh ''r1'' steps (pg_db demo_tables)"
    by (simp_all add: has_workflow_def has_tenant_def steps_fresh_def demo_tables_def empty_database_def list_all_iff)
qed

lemma demo_run_ids: "run_ID (demo_run ''r1'' t) = ''r1''" "run_TenantID (demo_run ''r1'' t) = ''acme''"
    "run_WorkflowID (demo_run ''r1'' t) = ''w1''"
  by (simp_all add: demo_run_def)

theorem pg_refines_memory_witness:
  "\<exists>s'. pg_CompleteRun demo_pg (demo_run ''r1'' 5000) [demo_step ''s1'' 1000, demo_step ''s2'' 2000] demo_tables = (None, s') \<and>
     represents demo_pg (pg_db s') (snd (run_mem_CompleteRun (demo_run ''r1'' 5000)
       [demo_step ''s1'' 1000, demo_step ''s2'' 2000] demo_memory))"
proof -
  have "steps_stored demo_pg ''r1'' [demo_step ''s1'' 1000, demo_step ''s2'' 2000] [demo_step ''s1'' 1000, demo_step ''s2'' 2000]"
    by code_simp
  then show ?thesis
    using pg_refines_memory [OF demo_kept(1) demo_represents _ demo_kept(2), unfolded demo_run_ids,
        OF demo_kept(4,5) _ demo_kept(7,3,6)] by blast
qed

theorem pg_writes_atomic_witness:
  "pg_db (snd (pg_CompleteRun (demo_pg\<lparr>pl_fault := \<lambda>n statement. if n = 2 then Some (Anonymous ''closed'') else None\<rparr>)
     (demo_run ''r1'' 5000) [] demo_tables)) = pg_db demo_tables"
proof -
  let ?L = "demo_pg\<lparr>pl_fault := \<lambda>n statement. if n = 2 then Some (Anonymous ''closed'') else None\<rparr>"
  let ?w = "\<lambda>L. pg_CompleteRun L (demo_run ''r1'' 5000) []"
  obtain err s' where w: "?w ?L demo_tables = (err, s')" by fastforce
  have "pg_db s' = pg_db demo_tables \<or>
      (\<exists>s1. ?w (quiet ?L) demo_tables = (None, s1) \<and> pg_db s' = pg_db s1)"
    using pg_writes_atomic [of ?w "demo_run ''r1'' 5000" "[]" demo_pending ?L demo_tables err s'] w by blast
  moreover have "pg_db (snd (?w (quiet ?L) demo_tables)) = pg_db demo_tables" by code_simp
  ultimately show ?thesis using w by force
qed

theorem pg_steps_reordered_witness:
  "\<exists>s'. pg_SavePending demo_pg (demo_run ''r1'' 5000) [demo_step ''s2'' 1000, demo_step ''s1'' 1000] demo_pending demo_tables =
      (None, s') \<and>
     pg_LoadPending demo_pg ''acme'' ''r1'' s' =
       Inr (demo_run ''r1'' 5000, [demo_step ''s1'' 1000, demo_step ''s2'' 1000], demo_pending)"
proof -
  obtain row1 row2 where rows: "encode_step demo_pg (demo_step ''s2'' 1000) = Inr row1" "scanStep demo_pg row1 = Inr (demo_step ''s2'' 1000)"
      "encode_step demo_pg (demo_step ''s1'' 1000) = Inr row2" "scanStep demo_pg row2 = Inr (demo_step ''s1'' 1000)"
      "sw_started_at row1 = sw_started_at row2"
  proof -
    have "case encode_step demo_pg (demo_step ''s2'' 1000) of Inl e \<Rightarrow> False | Inr row1 \<Rightarrow>
        case encode_step demo_pg (demo_step ''s1'' 1000) of Inl e \<Rightarrow> False | Inr row2 \<Rightarrow>
          scanStep demo_pg row1 = Inr (demo_step ''s2'' 1000) \<and> scanStep demo_pg row2 = Inr (demo_step ''s1'' 1000) \<and>
          sw_started_at row1 = sw_started_at row2"
      by code_simp
    then show thesis using that by (auto split: sum.splits)
  qed
  have "0 < pl_text_compare demo_pg (step_ID (demo_step ''s2'' 1000)) (step_ID (demo_step ''s1'' 1000))" by code_simp
  moreover have "step_RunID (demo_step k 1000) = ''r1''" "step_ID (demo_step k 1000) = k" for k
    by (simp_all add: demo_step_def)
  ultimately show ?thesis
    using pg_steps_reordered [OF demo_kept(1) demo_represents _ demo_kept(2), unfolded demo_run_ids,
        OF demo_kept(4,5,6,7,3) rows(1-4)] rows(5) by simp
qed

end
