(* ===== verification/PgStores.thy ===== *)
theory PgStores
  imports PgRuns App Bootstrap
begin

text \<open>
  The other PostgreSQL repositories, \<open>postgres_repository.go\<close> of \<open>internal/documents\<close>,
  \<open>internal/workflow\<close>, \<open>internal/audit\<close>, \<open>internal/tenant\<close> and \<open>internal/auth\<close>; the seeding of tenants
  and keys in \<open>internal/platform/bootstrap/repositories.go\<close>; and the executor of a process whose
  repositories are in PostgreSQL.
\<close>

section \<open>Documents\<close>

definition encode_document :: "pg_lib \<Rightarrow> document \<Rightarrow> document_row result" where
  "encode_document L d =
     require L ''text'' (texts_ok L [doc_ID d, doc_TenantID d, doc_ObjectKey d, doc_Filename d, doc_ContentType d, doc_Checksum d])
    (require L ''integer'' (int4 (int (doc_ChunkCount d)))
      (Inr \<lparr>dw_id = doc_ID d, dw_tenant_id = doc_TenantID d, dw_object_key = doc_ObjectKey d,
            dw_filename = doc_Filename d, dw_content_type = doc_ContentType d, dw_size_bytes = doc_SizeBytes d,
            dw_checksum = doc_Checksum d, dw_status = doc_Status d, dw_created_at = pl_time L (doc_CreatedAt d),
            dw_ingested_at = map_option (pl_time L) (nullableTime (doc_IngestedAt d)),
            dw_chunk_count = doc_ChunkCount d\<rparr>))"

definition scan_document :: "document_row \<Rightarrow> document" where
  "scan_document row =
     \<lparr>doc_ID = dw_id row, doc_TenantID = dw_tenant_id row, doc_Filename = dw_filename row,
      doc_ContentType = dw_content_type row, doc_SizeBytes = dw_size_bytes row, doc_Checksum = dw_checksum row,
      doc_ObjectKey = dw_object_key row, doc_Status = dw_status row, doc_CreatedAt = dw_created_at row,
      doc_IngestedAt = scan_time (dw_ingested_at row), doc_ChunkCount = dw_chunk_count row\<rparr>"

definition insert_document :: "pg_lib \<Rightarrow> document \<Rightarrow> database \<Rightarrow> database result" where
  "insert_document L d db =
     (case encode_document L d of Inl e \<Rightarrow> Inl e | Inr row \<Rightarrow>
        require L ''documents_pkey'' (\<not> has_document db (dw_id row))
        (require L ''documents_tenant_id_fkey'' (has_tenant db (dw_tenant_id row))
          (Inr (db\<lparr>db_documents := db_documents db @ [row]\<rparr>))))"

definition same_position :: "chunk \<Rightarrow> chunk \<Rightarrow> bool" where
  "same_position a b \<longleftrightarrow> chunk_DocumentID a = chunk_DocumentID b \<and> chunk_ChunkIndex a = chunk_ChunkIndex b"

definition encode_chunk :: "pg_lib \<Rightarrow> chunk \<Rightarrow> chunk result" where
  "encode_chunk L c =
     require L ''text'' (texts_ok L [chunk_ID c, chunk_TenantID c, chunk_DocumentID c, chunk_Content c])
    (require L ''integer'' (int4 (int (chunk_ChunkIndex c)) \<and> int4 (int (chunk_TokenEstimate c)))
      (Inr (c\<lparr>chunk_CreatedAt := pl_time L (chunk_CreatedAt c)\<rparr>)))"

definition insert_chunk :: "pg_lib \<Rightarrow> chunk \<Rightarrow> database \<Rightarrow> database result" where
  "insert_chunk L c db =
     (case encode_chunk L c of Inl e \<Rightarrow> Inl e | Inr row \<Rightarrow>
        require L ''document_chunks_pkey'' (chunk_ID row \<notin> chunk_ID ` set (db_document_chunks db))
        (require L ''idx_document_chunks_document_index'' (\<not> list_ex (same_position row) (db_document_chunks db))
        (require L ''document_chunks_tenant_id_fkey'' (has_tenant db (chunk_TenantID row))
        (require L ''document_chunks_document_id_fkey'' (has_document db (chunk_DocumentID row))
          (Inr (db\<lparr>db_document_chunks := db_document_chunks db @ [row]\<rparr>))))))"

definition pg_doc_Create :: "pg_lib \<Rightarrow> document \<Rightarrow> chunk list \<Rightarrow> pg \<Rightarrow> goerr option \<times> pg" where
  "pg_doc_Create L d chunks s =
     pg_tx L ''begin document transaction'' ''commit document transaction''
       (\<lambda>s. pg_then (pg_step ''insert document'' (pg_exec L ''INSERT documents'' (insert_document L d) s))
          (pg_each (\<lambda>c s. pg_step ''insert document chunk'' (pg_exec L ''INSERT document_chunks'' (insert_chunk L c) s)) chunks)) s"

definition is_document :: "string \<Rightarrow> string \<Rightarrow> document_row \<Rightarrow> bool" where
  "is_document t k row \<longleftrightarrow> dw_id row = k \<and> dw_tenant_id row = t"

definition pg_doc_GetByID :: "pg_lib \<Rightarrow> string \<Rightarrow> string \<Rightarrow> pg \<Rightarrow> document result" where
  "pg_doc_GetByID L tenantID documentID s =
     (case pg_query L ''SELECT documents'' (\<lambda>db. find (is_document tenantID documentID) (db_documents db)) s of
        Inl e \<Rightarrow> Inl (wrap ''query document by id'' e)
      | Inr None \<Rightarrow> Inl documents_ErrNotFound
      | Inr (Some row) \<Rightarrow> Inr (scan_document row))"

text \<open>The chunks joined with their document, \<open>ORDER BY c.chunk_index ASC\<close>.\<close>

definition chunk_order :: "chunk \<Rightarrow> chunk \<Rightarrow> int" where
  "chunk_order a b = int (chunk_ChunkIndex a) - int (chunk_ChunkIndex b)"

interpretation chunks_by_index: comparator chunk_order
  by unfold_locales (auto simp: chunk_order_def)

definition select_chunks :: "string \<Rightarrow> string \<Rightarrow> database \<Rightarrow> chunk list" where
  "select_chunks tenantID documentID db =
     (if list_ex (is_document tenantID documentID) (db_documents db)
      then sort_func chunk_order
             (filter (\<lambda>c. chunk_TenantID c = tenantID \<and> chunk_DocumentID c = documentID) (db_document_chunks db))
      else [])"

definition pg_doc_ListChunks :: "pg_lib \<Rightarrow> string \<Rightarrow> string \<Rightarrow> pg \<Rightarrow> chunk list result" where
  "pg_doc_ListChunks L tenantID documentID s =
     (case pg_query L ''SELECT document_chunks'' (select_chunks tenantID documentID) s of
        Inl e \<Rightarrow> Inl (wrap ''query document chunks'' e)
      | Inr chunks \<Rightarrow>
          if chunks = [] then
            (case pg_doc_GetByID L tenantID documentID s of Inl e \<Rightarrow> Inl e | Inr d \<Rightarrow> Inr chunks)
          else Inr chunks)"

section \<open>Workflows\<close>

text \<open>
  The JSON text of a definition, with its struct tags. A slice that is nil, which Go writes as null, is
  an empty list here.
\<close>

definition optional_member :: "string \<Rightarrow> bool \<Rightarrow> string \<Rightarrow> (string \<times> string) list" where
  "optional_member name present txt = (if present then [(name, txt)] else [])"

definition json_node :: "gofmt \<Rightarrow> node \<Rightarrow> string" where
  "json_node F n = json_struct
     ([(''id'', json_string (node_ID n)), (''type'', json_string (node_Type n))] @
      optional_member ''config'' (node_Config n \<noteq> []) (json_marshal F (VMap (node_Config n))))"

definition json_edge :: "edge \<Rightarrow> string" where
  "json_edge e = json_struct
     ([(''from'', json_string (edge_From e)), (''to'', json_string (edge_To e))] @
      optional_member ''condition'' (edge_Condition e \<noteq> []) (json_string (edge_Condition e)))"

definition json_definition :: "gofmt \<Rightarrow> wf_definition \<Rightarrow> string" where
  "json_definition F d = json_struct
     ([(''name'', json_string (def_Name d))] @
      optional_member ''description'' (def_Description d \<noteq> []) (json_string (def_Description d)) @
      [(''version'', int_str (def_Version d))] @
      optional_member ''input_schema'' (def_InputSchema d \<noteq> []) (json_marshal F (VMap (def_InputSchema d))) @
      [(''nodes'', json_array (map (json_node F) (def_Nodes d))),
       (''edges'', json_array (map json_edge (def_Edges d)))])"

definition insert_workflow :: "pg_lib \<Rightarrow> workflow \<Rightarrow> database \<Rightarrow> database result" where
  "insert_workflow L w db =
     (case pl_jsonb L (json_definition (pl_fmt L) (wf_Definition w)) of Inl e \<Rightarrow> Inl e | Inr definition_json \<Rightarrow>
        require L ''text'' (texts_ok L [wf_ID w, wf_TenantID w, wf_Name w, wf_Description w])
        (require L ''integer'' (int4 (wf_Version w))
        (require L ''workflows_pkey'' (\<not> has_workflow db (wf_ID w))
        (require L ''workflows_tenant_id_fkey'' (has_tenant db (wf_TenantID w))
          (Inr (db\<lparr>db_workflows := db_workflows db @
            [\<lparr>ww_id = wf_ID w, ww_tenant_id = wf_TenantID w, ww_name = wf_Name w, ww_description = wf_Description w,
              ww_version = wf_Version w, ww_status = wf_Status w, ww_validation_status = wf_ValidationStatus w,
              ww_definition_json = definition_json, ww_created_at = pl_time L (wf_CreatedAt w),
              ww_updated_at = pl_time L (wf_UpdatedAt w)\<rparr>]\<rparr>))))))"

definition pg_wf_Create :: "pg_lib \<Rightarrow> workflow \<Rightarrow> pg \<Rightarrow> goerr option \<times> pg" where
  "pg_wf_Create L w s = pg_step ''insert workflow'' (pg_exec L ''INSERT workflows'' (insert_workflow L w) s)"

definition pg_wf_GetByID :: "pg_lib \<Rightarrow> string \<Rightarrow> string \<Rightarrow> pg \<Rightarrow> workflow result" where
  "pg_wf_GetByID L tenantID workflowID s =
     (case pg_query L ''SELECT workflows''
             (\<lambda>db. find (\<lambda>row. ww_tenant_id row = tenantID \<and> ww_id row = workflowID) (db_workflows db)) s of
        Inl e \<Rightarrow> Inl (wrap ''query workflow by id'' e)
      | Inr None \<Rightarrow> Inl workflow_ErrNotFound
      | Inr (Some row) \<Rightarrow>
          (case pl_definition L (ww_definition_json row) of
             Inl e \<Rightarrow> Inl (wrap ''decode workflow definition'' e)
           | Inr d \<Rightarrow>
               Inr \<lparr>wf_ID = ww_id row, wf_TenantID = ww_tenant_id row, wf_Name = ww_name row,
                    wf_Description = ww_description row, wf_Version = ww_version row, wf_Status = ww_status row,
                    wf_ValidationStatus = ww_validation_status row, wf_Definition = d,
                    wf_CreatedAt = ww_created_at row, wf_UpdatedAt = ww_updated_at row\<rparr>))"

section \<open>Audit events\<close>

definition nullif :: "string \<Rightarrow> string option" where
  "nullif txt = (if txt = [] then None else Some txt)"

definition coalesce :: "string option \<Rightarrow> string" where
  "coalesce txt = (case txt of None \<Rightarrow> [] | Some x \<Rightarrow> x)"

text \<open>\<open>cloneMap\<close> makes nil of an empty map, which is written as null.\<close>

definition metadata_json :: "pg_lib \<Rightarrow> vmap \<Rightarrow> string" where
  "metadata_json L metadata =
     (if cloneMap metadata = [] then ''null'' else json_marshal (pl_fmt L) (VMap (cloneMap metadata)))"

definition insert_event :: "pg_lib \<Rightarrow> event \<Rightarrow> database \<Rightarrow> database result" where
  "insert_event L e db =
     (case pl_jsonb L (metadata_json L (event_Metadata e)) of Inl err \<Rightarrow> Inl err | Inr metadata \<Rightarrow>
        require L ''text'' (texts_ok L [event_ID e, event_TenantID e, event_RunID e, event_WorkflowID e,
            event_StepID e, event_NodeID e, event_Type e, event_Message e])
        (require L ''audit_events_pkey'' (event_ID e \<notin> ew_id ` set (db_audit_events db))
        (require L ''audit_events_tenant_id_fkey'' (has_tenant db (event_TenantID e))
        (require L ''audit_events_run_id_fkey'' (has_run db (event_RunID e))
        (require L ''audit_events_workflow_id_fkey'' (has_workflow db (event_WorkflowID e))
          (Inr (db\<lparr>db_audit_events := db_audit_events db @
            [\<lparr>ew_id = event_ID e, ew_tenant_id = event_TenantID e, ew_run_id = event_RunID e,
              ew_workflow_id = event_WorkflowID e, ew_step_id = nullif (event_StepID e),
              ew_node_id = nullif (event_NodeID e), ew_type = event_Type e, ew_message = event_Message e,
              ew_metadata_json = metadata, ew_created_at = pl_time L (event_CreatedAt e)\<rparr>]\<rparr>)))))))"

definition pg_audit_Create :: "pg_lib \<Rightarrow> event \<Rightarrow> pg \<Rightarrow> goerr option \<times> pg" where
  "pg_audit_Create L e s =
     pg_step ''insert audit event'' (pg_exec L ''INSERT audit_events'' (insert_event L e) s)"

definition scan_event :: "pg_lib \<Rightarrow> event_row \<Rightarrow> event result" where
  "scan_event L row =
     (case decodeJSON L (ew_metadata_json row) of Inl e \<Rightarrow> Inl e | Inr metadata \<Rightarrow>
        Inr \<lparr>event_ID = ew_id row, event_TenantID = ew_tenant_id row, event_RunID = ew_run_id row,
             event_WorkflowID = ew_workflow_id row, event_StepID = coalesce (ew_step_id row),
             event_NodeID = coalesce (ew_node_id row), event_Type = ew_type row, event_Message = ew_message row,
             event_Metadata = metadata, event_CreatedAt = ew_created_at row\<rparr>)"

definition event_order :: "pg_lib \<Rightarrow> event_row \<Rightarrow> event_row \<Rightarrow> int" where
  "event_order L a b =
     (if ew_created_at a < ew_created_at b then -1
      else if ew_created_at b < ew_created_at a then 1
      else pl_text_compare L (ew_id a) (ew_id b))"

definition pg_audit_ListByRun :: "pg_lib \<Rightarrow> string \<Rightarrow> string \<Rightarrow> pg \<Rightarrow> event list result" where
  "pg_audit_ListByRun L tenantID runID s =
     (case pg_query L ''SELECT audit_events''
             (\<lambda>db. sort_func (event_order L)
                (filter (\<lambda>row. ew_tenant_id row = tenantID \<and> ew_run_id row = runID) (db_audit_events db))) s of
        Inl e \<Rightarrow> Inl (wrap ''query audit events by run'' e)
      | Inr rows \<Rightarrow> scan_all ''decode audit event metadata'' (scan_event L) rows)"

section \<open>Tenants and keys\<close>

definition pg_tenant_GetByID :: "pg_lib \<Rightarrow> string \<Rightarrow> pg \<Rightarrow> tenant result" where
  "pg_tenant_GetByID L k s =
     (case pg_query L ''SELECT tenants'' (\<lambda>db. find (\<lambda>t. tenant_ID t = k) (db_tenants db)) s of
        Inl e \<Rightarrow> Inl (wrap ''query tenant by id'' e)
      | Inr None \<Rightarrow> Inl tenant_ErrNotFound
      | Inr (Some t) \<Rightarrow> Inr t)"

text \<open>\<open>INSERT ... ON CONFLICT (id) DO UPDATE\<close>.\<close>

definition upsert_row :: "('r \<Rightarrow> string) \<Rightarrow> 'r \<Rightarrow> 'r list \<Rightarrow> 'r list" where
  "upsert_row key row rows =
     (if key row \<in> key ` set rows then map (\<lambda>old. if key old = key row then row else old) rows else rows @ [row])"

definition upsert_tenant :: "pg_lib \<Rightarrow> tenant \<Rightarrow> database \<Rightarrow> database result" where
  "upsert_tenant L t db =
     require L ''text'' (texts_ok L [tenant_ID t, tenant_Name t])
       (Inr (db\<lparr>db_tenants := upsert_row tenant_ID t (db_tenants db)\<rparr>))"

definition pg_tenant_Upsert :: "pg_lib \<Rightarrow> tenant \<Rightarrow> pg \<Rightarrow> goerr option \<times> pg" where
  "pg_tenant_Upsert L t s = pg_step ''upsert tenant'' (pg_exec L ''INSERT tenants'' (upsert_tenant L t) s)"

definition pg_LookupByHash :: "pg_lib \<Rightarrow> string \<Rightarrow> pg \<Rightarrow> credential result" where
  "pg_LookupByHash L keyHash s =
     (case pg_query L ''SELECT api_keys'' (\<lambda>db. find (\<lambda>c. cr_KeyHash c = keyHash) (db_api_keys db)) s of
        Inl e \<Rightarrow> Inl (wrap ''query api key by hash'' e)
      | Inr None \<Rightarrow> Inl ErrInvalidAPIKey
      | Inr (Some c) \<Rightarrow> Inr c)"

definition upsert_key :: "pg_lib \<Rightarrow> credential \<Rightarrow> database \<Rightarrow> database result" where
  "upsert_key L c db =
     require L ''text'' (texts_ok L [cr_ID c, cr_TenantID c, cr_KeyHash c, cr_Label c])
    (require L ''api_keys_key_hash_key''
       (\<not> list_ex (\<lambda>old. cr_ID old \<noteq> cr_ID c \<and> cr_KeyHash old = cr_KeyHash c) (db_api_keys db))
    (require L ''api_keys_tenant_id_fkey'' (has_tenant db (cr_TenantID c))
       (Inr (db\<lparr>db_api_keys := upsert_row cr_ID c (db_api_keys db)\<rparr>))))"

definition pg_key_Upsert :: "pg_lib \<Rightarrow> credential \<Rightarrow> pg \<Rightarrow> goerr option \<times> pg" where
  "pg_key_Upsert L c s = pg_step ''upsert api key'' (pg_exec L ''INSERT api_keys'' (upsert_key L c) s)"

section \<open>Seeding\<close>

definition seeded_tenant :: "bootstrap_key \<Rightarrow> tenant" where
  "seeded_tenant entry =
     \<lparr>tenant_ID = bk_TenantID entry, tenant_Name = bk_TenantName entry, tenant_Status = TenantActive\<rparr>"

definition seeded_key :: "(string \<Rightarrow> string) \<Rightarrow> bootstrap_key \<Rightarrow> credential" where
  "seeded_key hash entry =
     \<lparr>cr_ID = bk_APIKeyID entry, cr_TenantID = bk_TenantID entry, cr_Label = bk_Label entry,
      cr_KeyHash = hash (bk_PlaintextKey entry), cr_Status = KeyActive\<rparr>"

definition seedBootstrapData ::
    "pg_lib \<Rightarrow> (string \<Rightarrow> string) \<Rightarrow> bootstrap_key list \<Rightarrow> pg \<Rightarrow> goerr option \<times> pg" where
  "seedBootstrapData L hash =
     pg_each (\<lambda>entry s.
       pg_then (pg_step (''upsert bootstrap tenant '' @ bk_TenantID entry) (pg_tenant_Upsert L (seeded_tenant entry) s))
         (\<lambda>s. pg_step (''upsert bootstrap api key '' @ bk_APIKeyID entry) (pg_key_Upsert L (seeded_key hash entry) s)))"

end
