(* ===== verification/PgKeys.thy ===== *)
theory PgKeys
  imports PgStores
begin

text \<open>
  What the seeding of \<open>internal/platform/bootstrap/repositories.go\<close> does to the keys in the database, and
  authentication against it.
\<close>

section \<open>Numbers of keys\<close>

lemma digit_char_inj: "m < 10 \<Longrightarrow> n < 10 \<Longrightarrow> digit_char m = digit_char n \<Longrightarrow> m = n"
  by (simp add: digit_char_def)

lemma nat_str_nonempty: "nat_str n \<noteq> []"
  by (subst nat_str.simps) simp

lemma nat_str_inj: "nat_str m = nat_str n \<Longrightarrow> m = n"
proof (induction m arbitrary: n rule: nat_str.induct)
  case (1 m)
  show ?case
  proof (cases "m < 10")
    case True
    with 1(2) have "nat_str n = [digit_char m]" by (simp add: nat_str.simps [of m])
    then show ?thesis
      using True digit_char_inj [of m n] nat_str_nonempty [of "n div 10"]
      by (subst (asm) nat_str.simps) (auto split: if_splits)
  next
    case False
    then have m: "nat_str m = nat_str (m div 10) @ [digit_char (m mod 10)]" by (simp add: nat_str.simps [of m])
    have "\<not> n < 10"
    proof
      assume "n < 10"
      then have "nat_str n = [digit_char n]" by (simp add: nat_str.simps [of n])
      then show False using 1(2) m nat_str_nonempty [of "m div 10"] by simp
    qed
    then have "nat_str n = nat_str (n div 10) @ [digit_char (n mod 10)]" by (simp add: nat_str.simps [of n])
    then have "m div 10 = n div 10" "m mod 10 = n mod 10"
      using 1(1) [OF False] 1(2) m digit_char_inj [of "m mod 10" "n mod 10"] by auto
    then show ?thesis by (metis div_mult_mod_eq)
  qed
qed

lemma parse_entries_ids:
  "parse_entries i items = Inr keys \<Longrightarrow> n < length keys \<Longrightarrow>
     bk_APIKeyID (keys ! n) = ''bootstrap-key-'' @ nat_str (i + n + 1)"
  by (induction i items arbitrary: keys n rule: parse_entries.induct)
     (auto simp: Let_def nth_Cons split: list.splits if_splits sum.splits nat.splits)

lemma parse_ids:
  assumes "parseBootstrapAPIKeys raw = Inr keys"
  shows "i < length keys \<Longrightarrow> bk_APIKeyID (keys ! i) = ''bootstrap-key-'' @ nat_str (i + 1)"
    and "distinct (map bk_APIKeyID keys)"
proof -
  have ids: "bk_APIKeyID (keys ! i) = ''bootstrap-key-'' @ nat_str (i + 1)" if "i < length keys" for i
    using assms parse_entries_ids [of 0 _ keys i] that
    by (auto simp: parseBootstrapAPIKeys_def Let_def split: if_splits)
  then show "i < length keys \<Longrightarrow> bk_APIKeyID (keys ! i) = ''bootstrap-key-'' @ nat_str (i + 1)" .
  show "distinct (map bk_APIKeyID keys)"
    unfolding distinct_conv_nth using ids nat_str_inj by fastforce
qed

section \<open>One entry\<close>

text \<open>What an entry that was seeded did to the tables.\<close>

lemma pg_exec_None:
  "pg_exec L statement f s = (None, s') \<Longrightarrow> f (pg_db s) = Inr (pg_db s')"
  using pg_exec_done by blast

lemma pg_each_append: "pg_each f (xs @ ys) s = pg_then (pg_each f xs s) (pg_each f ys)"
  by (induction xs arbitrary: s) (auto simp: pg_then_def split: prod.split option.split)

lemma pg_each_prefix: "pg_each f xs s = (None, s') \<Longrightarrow> \<exists>s1. pg_each f (take n xs) s = (None, s1)"
  by (metis append_take_drop_id pg_each_append pg_then_None)

lemma pg_step_None: "pg_step c r = (None, s') \<longleftrightarrow> r = (None, s')"
  by (auto simp: pg_step_def split: prod.splits option.splits)

definition key_taken :: "credential \<Rightarrow> database \<Rightarrow> bool" where
  "key_taken c db \<longleftrightarrow> list_ex (\<lambda>old. cr_ID old \<noteq> cr_ID c \<and> cr_KeyHash old = cr_KeyHash c) (db_api_keys db)"

lemma seed_entry:
  assumes "seedBootstrapData L hash (entry # entries) s = (None, s')"
  obtains s1 where "seedBootstrapData L hash entries s1 = (None, s')"
    and "db_tenants (pg_db s1) = upsert_row tenant_ID (seeded_tenant entry) (db_tenants (pg_db s))"
    and "db_api_keys (pg_db s1) = upsert_row cr_ID (seeded_key hash entry) (db_api_keys (pg_db s))"
    and "\<not> key_taken (seeded_key hash entry) (pg_db s)"
proof -
  obtain s0 s1 where steps: "pg_tenant_Upsert L (seeded_tenant entry) s = (None, s0)"
      "pg_key_Upsert L (seeded_key hash entry) s0 = (None, s1)" "seedBootstrapData L hash entries s1 = (None, s')"
    using assms by (auto simp: seedBootstrapData_def pg_then_None pg_step_None)
  have "upsert_tenant L (seeded_tenant entry) (pg_db s) = Inr (pg_db s0)"
    "upsert_key L (seeded_key hash entry) (pg_db s0) = Inr (pg_db s1)"
    using steps(1,2) by (simp_all add: pg_tenant_Upsert_def pg_key_Upsert_def pg_step_None pg_exec_None)
  then have "pg_db s0 = (pg_db s)\<lparr>db_tenants := upsert_row tenant_ID (seeded_tenant entry) (db_tenants (pg_db s))\<rparr>"
    "pg_db s1 = (pg_db s0)\<lparr>db_api_keys := upsert_row cr_ID (seeded_key hash entry) (db_api_keys (pg_db s0))\<rparr>"
    "\<not> key_taken (seeded_key hash entry) (pg_db s0)"
    by (auto simp: upsert_tenant_def upsert_key_def key_taken_def)
  then show thesis by (intro that [OF steps(3)]) (simp_all add: key_taken_def)
qed

lemma set_upsert_row: "set (upsert_row key row rows) = insert row (set rows - {old. key old = key row})"
  by (auto simp: upsert_row_def image_iff)

lemma find_upsert_row:
  assumes "distinct (map key rows)"
  shows "find (\<lambda>x. key x = k) (upsert_row key row rows) = (if k = key row then Some row else find (\<lambda>x. key x = k) rows)"
  unfolding upsert_row_def by (rule find_upsert [OF assms])

lemma distinct_upsert_row: "distinct (map key rows) \<Longrightarrow> distinct (map key (upsert_row key row rows))"
  unfolding upsert_row_def upsert_keys by auto

section \<open>All entries\<close>

text \<open>Keys with other ids stay as they are, and their hashes are not used.\<close>

lemma seed_other_keys:
  assumes "seedBootstrapData L hash entries s = (None, s')" and "cr_ID c \<notin> bk_APIKeyID ` set entries"
    and "c \<in> set (db_api_keys (pg_db s))"
  shows "c \<in> set (db_api_keys (pg_db s')) \<and> cr_KeyHash c \<notin> (\<lambda>e. hash (bk_PlaintextKey e)) ` set entries"
  using assms
proof (induction entries arbitrary: s)
  case Nil
  then show ?case by (simp add: seedBootstrapData_def)
next
  case (Cons entry entries)
  from Cons.prems(1) obtain s1 where s1: "seedBootstrapData L hash entries s1 = (None, s')"
    "db_api_keys (pg_db s1) = upsert_row cr_ID (seeded_key hash entry) (db_api_keys (pg_db s))"
    "\<not> key_taken (seeded_key hash entry) (pg_db s)"
    by (rule seed_entry)
  have id: "cr_ID c \<noteq> cr_ID (seeded_key hash entry)" using Cons.prems(2) by (auto simp: seeded_key_def)
  then have "c \<in> set (db_api_keys (pg_db s1))" using Cons.prems(3) s1(2) by (simp add: set_upsert_row)
  moreover have "cr_KeyHash c \<noteq> hash (bk_PlaintextKey entry)"
    using s1(3) Cons.prems(3) id by (auto simp: key_taken_def list_ex_iff seeded_key_def)
  ultimately show ?case using Cons.IH [OF s1(1)] Cons.prems(2) by auto
qed

lemma seed_keys:
  assumes "seedBootstrapData L hash entries s = (None, s')" and "distinct (map bk_APIKeyID entries)"
    and "entry \<in> set entries"
  shows "seeded_key hash entry \<in> set (db_api_keys (pg_db s'))"
  using assms
proof (induction entries arbitrary: s)
  case (Cons first entries)
  from Cons.prems(1) obtain s1 where s1: "seedBootstrapData L hash entries s1 = (None, s')"
    "db_api_keys (pg_db s1) = upsert_row cr_ID (seeded_key hash first) (db_api_keys (pg_db s))"
    by (rule seed_entry)
  show ?case
  proof (cases "entry = first")
    case True
    have "seeded_key hash first \<in> set (db_api_keys (pg_db s1))" by (simp add: s1(2) set_upsert_row)
    moreover have "cr_ID (seeded_key hash first) \<notin> bk_APIKeyID ` set entries"
      using Cons.prems(2) by (simp add: seeded_key_def)
    ultimately show ?thesis using seed_other_keys [OF s1(1)] True by blast
  next
    case False
    then show ?thesis using Cons.IH [OF s1(1)] Cons.prems by simp
  qed
qed simp

text \<open>The rows: keys of distinct ids and hashes, tenants of distinct ids.\<close>

definition keys_ok :: "database \<Rightarrow> bool" where
  "keys_ok db \<longleftrightarrow> distinct (map cr_ID (db_api_keys db)) \<and> distinct (map cr_KeyHash (db_api_keys db)) \<and>
     distinct (map tenant_ID (db_tenants db))"

lemma upsert_hashes:
  assumes "distinct (map cr_ID rows)" and "distinct (map cr_KeyHash rows)"
    and "\<not> list_ex (\<lambda>old. cr_ID old \<noteq> cr_ID c \<and> cr_KeyHash old = cr_KeyHash c) rows"
  shows "distinct (map cr_KeyHash (upsert_row cr_ID c rows))"
proof (cases "cr_ID c \<in> cr_ID ` set rows")
  case True
  have "inj_on cr_KeyHash (set (upsert_row cr_ID c rows))"
    using assms(2,3) unfolding set_upsert_row
    by (auto simp: inj_on_def distinct_map list_ex_iff)
  moreover have "distinct (upsert_row cr_ID c rows)"
    using distinct_upsert_row [OF assms(1), of c] by (simp add: distinct_map)
  ultimately show ?thesis by (simp add: distinct_map)
next
  case False
  then show ?thesis using assms(2,3) by (auto simp: upsert_row_def list_ex_iff) (metis imageI)
qed

lemma seed_keys_ok:
  assumes "seedBootstrapData L hash entries s = (None, s')" and "keys_ok (pg_db s)"
  shows "keys_ok (pg_db s')"
  using assms
proof (induction entries arbitrary: s)
  case (Cons entry entries)
  from Cons.prems(1) obtain s1 where s1: "seedBootstrapData L hash entries s1 = (None, s')"
    "db_tenants (pg_db s1) = upsert_row tenant_ID (seeded_tenant entry) (db_tenants (pg_db s))"
    "db_api_keys (pg_db s1) = upsert_row cr_ID (seeded_key hash entry) (db_api_keys (pg_db s))"
    "\<not> key_taken (seeded_key hash entry) (pg_db s)"
    by (rule seed_entry)
  have "keys_ok (pg_db s1)"
    using Cons.prems(2) upsert_hashes [of "db_api_keys (pg_db s)"] s1(4)
    by (simp add: keys_ok_def s1(2,3) distinct_upsert_row key_taken_def)
  then show ?case by (rule Cons.IH [OF s1(1)])
qed (simp add: seedBootstrapData_def)

lemma find_elem: "find P xs = Some x \<Longrightarrow> x \<in> set xs \<and> P x"
  by (induction xs) (auto split: if_splits)

lemma find_snoc: "find P (xs @ [x]) = (case find P xs of None \<Rightarrow> if P x then Some x else None | Some y \<Rightarrow> Some y)"
  by (induction xs) auto

text \<open>A tenant has the name of its last entry.\<close>

lemma seed_tenants:
  assumes "seedBootstrapData L hash entries s = (None, s')" and "keys_ok (pg_db s)"
  shows "find (\<lambda>t. tenant_ID t = k) (db_tenants (pg_db s')) =
    (case find (\<lambda>e. bk_TenantID e = k) (rev entries) of
       Some entry \<Rightarrow> Some (seeded_tenant entry)
     | None \<Rightarrow> find (\<lambda>t. tenant_ID t = k) (db_tenants (pg_db s)))"
  using assms
proof (induction entries arbitrary: s)
  case (Cons entry entries)
  from Cons.prems(1) obtain s1 where s1: "seedBootstrapData L hash entries s1 = (None, s')"
    "db_tenants (pg_db s1) = upsert_row tenant_ID (seeded_tenant entry) (db_tenants (pg_db s))"
    "db_api_keys (pg_db s1) = upsert_row cr_ID (seeded_key hash entry) (db_api_keys (pg_db s))"
    "\<not> key_taken (seeded_key hash entry) (pg_db s)"
    by (rule seed_entry)
  have "keys_ok (pg_db s1)"
    using Cons.prems(2) upsert_hashes [of "db_api_keys (pg_db s)"] s1(4)
    by (simp add: keys_ok_def s1(2,3) distinct_upsert_row key_taken_def)
  moreover have "find (\<lambda>t. tenant_ID t = k) (db_tenants (pg_db s1)) =
      (if k = bk_TenantID entry then Some (seeded_tenant entry) else find (\<lambda>t. tenant_ID t = k) (db_tenants (pg_db s)))"
    using Cons.prems(2) by (simp add: s1(2) find_upsert_row keys_ok_def seeded_tenant_def)
  ultimately show ?case
    using Cons.IH [OF s1(1)] by (auto simp: find_snoc split: option.splits)
qed (simp add: seedBootstrapData_def)

section \<open>Authentication against the database\<close>

definition pg_auth :: "pg_lib \<Rightarrow> (string \<Rightarrow> string) \<Rightarrow> pg \<Rightarrow> auth_env" where
  "pg_auth L hash s =
     \<lparr>au_hash = hash, au_LookupByHash = (\<lambda>h. pg_LookupByHash L h s), au_Get = (\<lambda>k. pg_tenant_GetByID L k s)\<rparr>"

lemma pg_lookup:
  assumes "no_faults L" and "keys_ok (pg_db s)"
  shows "pg_LookupByHash L h s = Inr c \<longleftrightarrow> c \<in> set (db_api_keys (pg_db s)) \<and> cr_KeyHash c = h"
    and "h \<notin> cr_KeyHash ` set (db_api_keys (pg_db s)) \<Longrightarrow> pg_LookupByHash L h s = Inl ErrInvalidAPIKey"
proof -
  have "find (\<lambda>c. cr_KeyHash c = h) (db_api_keys (pg_db s)) = Some c \<longleftrightarrow>
      c \<in> set (db_api_keys (pg_db s)) \<and> cr_KeyHash c = h"
    using find_distinct [of cr_KeyHash "db_api_keys (pg_db s)" c h] assms(2)
    by (auto simp: keys_ok_def find_Some_iff)
  then show "pg_LookupByHash L h s = Inr c \<longleftrightarrow> c \<in> set (db_api_keys (pg_db s)) \<and> cr_KeyHash c = h"
    by (auto simp: pg_LookupByHash_def pg_query_ok [OF assms(1)] split: option.split)
  show "pg_LookupByHash L h s = Inl ErrInvalidAPIKey" if "h \<notin> cr_KeyHash ` set (db_api_keys (pg_db s))"
  proof -
    have "find (\<lambda>c. cr_KeyHash c = h) (db_api_keys (pg_db s)) = None"
      using that by (auto simp: find_None_iff)
    then show ?thesis by (simp add: pg_LookupByHash_def pg_query_ok [OF assms(1)])
  qed
qed

lemma pg_tenant: "no_faults L \<Longrightarrow> pg_tenant_GetByID L k s =
    (case find (\<lambda>t. tenant_ID t = k) (db_tenants (pg_db s)) of None \<Rightarrow> Inl tenant_ErrNotFound | Some t \<Rightarrow> Inr t)"
  by (simp add: pg_tenant_GetByID_def pg_query_ok)

lemma seed_rows:
  assumes "seedBootstrapData L hash entries s = (None, s')" and "c \<in> set (db_api_keys (pg_db s'))"
  shows "c \<in> set (db_api_keys (pg_db s)) \<or> c \<in> seeded_key hash ` set entries"
  using assms
proof (induction entries arbitrary: s)
  case (Cons entry entries)
  from Cons.prems(1) obtain s1 where s1: "seedBootstrapData L hash entries s1 = (None, s')"
    "db_api_keys (pg_db s1) = upsert_row cr_ID (seeded_key hash entry) (db_api_keys (pg_db s))"
    by (rule seed_entry)
  then show ?case using Cons.IH [OF s1(1) Cons.prems(2)] by (auto simp: set_upsert_row)
qed (simp add: seedBootstrapData_def)

lemma seed_hashes:
  assumes "seedBootstrapData L hash entries s = (None, s')" and "distinct (map bk_APIKeyID entries)"
    and "keys_ok (pg_db s)"
  shows "distinct (map (\<lambda>e. hash (bk_PlaintextKey e)) entries)"
proof -
  have "inj_on (\<lambda>e. hash (bk_PlaintextKey e)) (set entries)"
  proof (rule inj_onI)
    fix a b
    assume "a \<in> set entries" "b \<in> set entries" and same: "hash (bk_PlaintextKey a) = hash (bk_PlaintextKey b)"
    then have "seeded_key hash a \<in> set (db_api_keys (pg_db s'))" "seeded_key hash b \<in> set (db_api_keys (pg_db s'))"
      using seed_keys [OF assms(1,2)] by blast+
    moreover have "inj_on cr_KeyHash (set (db_api_keys (pg_db s')))"
      using seed_keys_ok [OF assms(1,3)] by (simp add: keys_ok_def distinct_map)
    moreover have "cr_KeyHash (seeded_key hash a) = cr_KeyHash (seeded_key hash b)" using same by (simp add: seeded_key_def)
    ultimately have "seeded_key hash a = seeded_key hash b" by (metis inj_onD)
    then have "bk_APIKeyID a = bk_APIKeyID b" by (simp add: seeded_key_def)
    then show "a = b"
      using assms(2) \<open>a \<in> set entries\<close> \<open>b \<in> set entries\<close> by (auto simp: distinct_map inj_on_def)
  qed
  then show ?thesis using assms(2) by (auto simp: distinct_map)
qed

lemma bootstrap_tenants_seeded: "t \<in> set (bootstrap_tenants seen entries) \<Longrightarrow> \<exists>e \<in> set entries. t = seeded_tenant e"
  by (induction seen entries rule: bootstrap_tenants.induct) (auto simp: seeded_tenant_def split: if_splits)

lemma unseeded_key_unknown:
  assumes "no_faults L" and "seedBootstrapData L hash entries \<lparr>pg_db = empty_database, pg_tick = n\<rparr> = (None, s)"
    and "\<forall>entry \<in> set entries. hash (bk_PlaintextKey entry) \<noteq> h"
  shows "pg_LookupByHash L h s = Inl ErrInvalidAPIKey"
    and "auth_NewMemoryRepository hash (buildBootstrapAPIKeys entries) h = None"
proof -
  have empty: "keys_ok (pg_db \<lparr>pg_db = empty_database, pg_tick = n\<rparr>)" by (simp add: keys_ok_def empty_database_def)
  have "h \<notin> cr_KeyHash ` set (db_api_keys (pg_db s))"
    using seed_rows [OF assms(2)] assms(3) by (fastforce simp: empty_database_def seeded_key_def)
  then show "pg_LookupByHash L h s = Inl ErrInvalidAPIKey"
    using pg_lookup(2) [OF assms(1) seed_keys_ok [OF assms(2) empty]] by simp
  show "auth_NewMemoryRepository hash (buildBootstrapAPIKeys entries) h = None"
    using auth_map_Some [of hash "buildBootstrapAPIKeys entries" h] assms(3)
    by (cases "auth_NewMemoryRepository hash (buildBootstrapAPIKeys entries) h") (auto simp: buildBootstrapAPIKeys_def)
qed

lemma seeded_tenants_agree:
  assumes "no_faults L" and "seedBootstrapData L hash entries \<lparr>pg_db = empty_database, pg_tick = n\<rparr> = (None, s)"
    and "list_all (\<lambda>a. list_all (\<lambda>b. bk_TenantID a = bk_TenantID b \<longrightarrow> bk_TenantName a = bk_TenantName b) entries) entries"
    and "entry \<in> set entries"
  shows "pg_tenant_GetByID L (bk_TenantID entry) s = Inr (seeded_tenant entry)"
    and "tenant_GetByID (tenant_NewMemoryRepository (buildBootstrapTenants entries)) (bk_TenantID entry) =
      Inr (seeded_tenant entry)"
proof -
  have empty: "keys_ok (pg_db \<lparr>pg_db = empty_database, pg_tick = n\<rparr>)" by (simp add: keys_ok_def empty_database_def)
  have named: "seeded_tenant e = seeded_tenant entry" if "e \<in> set entries" "bk_TenantID e = bk_TenantID entry" for e
  proof -
    have "bk_TenantName e = bk_TenantName entry" using assms(3,4) that unfolding list_all_iff by blast
    then show ?thesis using that(2) by (simp add: seeded_tenant_def)
  qed
  obtain e where e: "find (\<lambda>e. bk_TenantID e = bk_TenantID entry) (rev entries) = Some e"
    using assms(4) by (cases "find (\<lambda>e. bk_TenantID e = bk_TenantID entry) (rev entries)") (auto simp: find_None_iff)
  then have "e \<in> set entries" "bk_TenantID e = bk_TenantID entry" using find_elem by fastforce+
  then show "pg_tenant_GetByID L (bk_TenantID entry) s = Inr (seeded_tenant entry)"
    using seed_tenants [OF assms(2) empty, of "bk_TenantID entry"] e named by (simp add: pg_tenant [OF assms(1)])
  obtain m where m: "m \<in> set (buildBootstrapTenants entries)" "tenant_ID m = bk_TenantID entry"
    using bootstrap_tenants_ids [of "{}" entries] assms(4) unfolding buildBootstrapTenants_def
    by (metis Diff_empty image_iff)
  have "m = seeded_tenant entry"
    using m bootstrap_tenants_seeded [of m "{}" entries] named by (auto simp: buildBootstrapTenants_def seeded_tenant_def)
  then show "tenant_GetByID (tenant_NewMemoryRepository (buildBootstrapTenants entries)) (bk_TenantID entry) =
      Inr (seeded_tenant entry)"
    using tenant_map_last [OF m(1)] m(2) bootstrap_tenants_ids [of "{}" entries]
    by (simp add: tenant_GetByID_def tenant_NewMemoryRepository_def buildBootstrapTenants_def)
qed

text \<open>C27: with one name for each tenant, a server whose keys were seeded into an empty database accepts the
  keys that a server without a database accepts, and as the same tenants; for every text presented as a
  key both give the same identity or the same error.\<close>
theorem pg_auth_as_in_memory:
  assumes "no_faults L" and "parseBootstrapAPIKeys raw = Inr entries"
    and "list_all (\<lambda>a. list_all (\<lambda>b. bk_TenantID a = bk_TenantID b \<longrightarrow> bk_TenantName a = bk_TenantName b) entries) entries"
    and "seedBootstrapData L hash entries \<lparr>pg_db = empty_database, pg_tick = n\<rparr> = (None, s)"
  shows "Authenticate (pg_auth L hash s) presented =
    Authenticate (memory_auth hash (buildBootstrapAPIKeys entries) (buildBootstrapTenants entries)) presented"
proof -
  note ids = parse_ids(2) [OF assms(2)]
  have empty: "keys_ok (pg_db \<lparr>pg_db = empty_database, pg_tick = n\<rparr>)" by (simp add: keys_ok_def empty_database_def)
  note ok = seed_keys_ok [OF assms(4) empty]
  note lookup = pg_lookup [OF assms(1) ok]
  let ?h = "hash (trim_space presented)"
  let ?keys = "buildBootstrapAPIKeys entries"
  have hashes: "distinct (map (\<lambda>k. hash (ak_Plaintext k)) ?keys)"
    using seed_hashes [OF assms(4) ids empty] by (simp add: buildBootstrapAPIKeys_def comp_def)
  show ?thesis
  proof (cases "\<exists>entry \<in> set entries. hash (bk_PlaintextKey entry) = ?h")
    case False
    then show ?thesis
      using unseeded_key_unknown [OF assms(1,4), of ?h]
      by (simp add: Authenticate_def pg_auth_def memory_auth_def LookupByHash_def Let_def)
  next
    case True
    then obtain entry where entry: "entry \<in> set entries" "hash (bk_PlaintextKey entry) = ?h" by blast
    let ?k = "\<lparr>ak_ID = bk_APIKeyID entry, ak_TenantID = bk_TenantID entry, ak_Label = bk_Label entry,
      ak_Plaintext = bk_PlaintextKey entry, ak_Status = KeyActive\<rparr>"
    have "?k \<in> set ?keys" using entry(1) by (auto simp: buildBootstrapAPIKeys_def)
    from auth_map_lookup [OF this hashes] obtain c where c:
      "auth_NewMemoryRepository hash ?keys ?h = Some c" "cr_ID c = bk_APIKeyID entry"
      "cr_TenantID c = bk_TenantID entry" "cr_Label c = bk_Label entry" "cr_Status c = KeyActive"
      using entry(2) by auto
    have row: "pg_LookupByHash L ?h s = Inr (seeded_key hash entry)"
      using lookup(1) seed_keys [OF assms(4) ids entry(1)] entry(2) by (simp add: seeded_key_def)
    show ?thesis
      using row seeded_tenants_agree [OF assms(1,4,3) entry(1)] c
      by (simp add: Authenticate_def pg_auth_def memory_auth_def LookupByHash_def Let_def seeded_key_def)
  qed
qed

text \<open>A key is not revoked by removing it from the configuration. A key that a server with a database
  accepts, and whose id none of the newly configured keys has, is accepted after the next start as well,
  as the same key and tenant.\<close>
theorem removed_key_still_accepted:
  assumes "no_faults L" and "keys_ok (pg_db s)"
    and "Authenticate (pg_auth L hash s) presented = Inr i" and "id_APIKeyID i \<notin> bk_APIKeyID ` set entries"
    and "seedBootstrapData L hash entries s = (None, s')"
  shows "\<exists>i'. Authenticate (pg_auth L hash s') presented = Inr i' \<and>
    id_APIKeyID i' = id_APIKeyID i \<and> id_TenantID i' = id_TenantID i"
proof -
  obtain c t where c: "pg_LookupByHash L (hash (trim_space presented)) s = Inr c" "cr_Status c = KeyActive"
    and t: "pg_tenant_GetByID L (cr_TenantID c) s = Inr t" "tenant_Status t = TenantActive"
    and i: "trim_space presented \<noteq> []" "id_APIKeyID i = cr_ID c" "id_TenantID i = tenant_ID t"
    using assms(3) by (auto simp: Authenticate_def pg_auth_def Let_def split: if_splits sum.splits)
  note ok = seed_keys_ok [OF assms(5,2)]
  have "c \<in> set (db_api_keys (pg_db s'))" "cr_KeyHash c = hash (trim_space presented)"
    using seed_other_keys [OF assms(5), of c] pg_lookup(1) [OF assms(1,2)] c(1) assms(4) i(2) by auto
  then have c': "pg_LookupByHash L (hash (trim_space presented)) s' = Inr c"
    using pg_lookup(1) [OF assms(1) ok] by blast
  have tid: "tenant_ID t = cr_TenantID c"
    using t(1) by (auto simp: pg_tenant [OF assms(1)] find_Some_iff split: option.splits)
  obtain t' where "pg_tenant_GetByID L (cr_TenantID c) s' = Inr t'" "tenant_Status t' = TenantActive"
    "tenant_ID t' = tenant_ID t"
  proof (cases "find (\<lambda>e. bk_TenantID e = cr_TenantID c) (rev entries)")
    case None
    then have "pg_tenant_GetByID L (cr_TenantID c) s' = Inr t"
      using t(1) by (simp add: pg_tenant [OF assms(1)] seed_tenants [OF assms(5,2)])
    then show thesis by (rule that) (use t(2) in simp_all)
  next
    case (Some e)
    then have "pg_tenant_GetByID L (cr_TenantID c) s' = Inr (seeded_tenant e)"
      by (simp add: pg_tenant [OF assms(1)] seed_tenants [OF assms(5,2)])
    moreover have "bk_TenantID e = cr_TenantID c" using Some by (auto simp: find_Some_iff)
    ultimately show thesis using tid by (intro that [of "seeded_tenant e"]) (simp_all add: seeded_tenant_def)
  qed
  then show ?thesis using c' c(2) i by (simp add: Authenticate_def pg_auth_def Let_def)
qed

text \<open>C30: keys cannot be reordered. The ids of the keys are their positions in the configuration: when a
  key stands before the position at which it was seeded, because it was moved or because a key before it
  was removed, the next start of the server fails.\<close>
theorem moved_key_blocks_start:
  assumes "parseBootstrapAPIKeys raw = Inr entries" and "parseBootstrapAPIKeys raw' = Inr entries'"
    and "seedBootstrapData L hash entries s = (None, s1)"
    and "i < j" and "j < length entries" and "i < length entries'"
    and "bk_PlaintextKey (entries' ! i) = bk_PlaintextKey (entries ! j)"
  shows "\<exists>e s2. seedBootstrapData L hash entries' s1 = (Some e, s2)"
proof (rule ccontr)
  assume no_error: "\<nexists>e s2. seedBootstrapData L hash entries' s1 = (Some e, s2)"
  obtain err s2 where run: "seedBootstrapData L hash entries' s1 = (err, s2)" by fastforce
  then have "err = None" using no_error by (cases err) auto
  with run obtain s3 where prefix: "seedBootstrapData L hash (take (Suc i) entries') s1 = (None, s3)"
    unfolding seedBootstrapData_def using pg_each_prefix by blast
  let ?c = "seeded_key hash (entries ! j)"
  have "?c \<in> set (db_api_keys (pg_db s1))"
    using seed_keys [OF assms(3) parse_ids(2) [OF assms(1)]] assms(5) by simp
  moreover have "cr_ID ?c \<notin> bk_APIKeyID ` set (take (Suc i) entries')"
  proof
    assume "cr_ID ?c \<in> bk_APIKeyID ` set (take (Suc i) entries')"
    then obtain k where "k < Suc i" "k < length entries'" "cr_ID ?c = bk_APIKeyID (entries' ! k)"
      by (auto simp: in_set_conv_nth)
    then show False
      using parse_ids(1) [OF assms(1,5)] parse_ids(1) [OF assms(2), of k] assms(4) nat_str_inj
      by (fastforce simp: seeded_key_def)
  qed
  ultimately have "cr_KeyHash ?c \<notin> (\<lambda>e. hash (bk_PlaintextKey e)) ` set (take (Suc i) entries')"
    using seed_other_keys [OF prefix] by blast
  moreover have "entries' ! i \<in> set (take (Suc i) entries')"
    using assms(6) by (simp add: take_Suc_conv_app_nth)
  moreover have "cr_KeyHash ?c = hash (bk_PlaintextKey (entries' ! i))"
    using assms(7) by (simp add: seeded_key_def)
  ultimately show False by blast
qed

section \<open>Examples\<close>

definition demo_keys :: "bootstrap_key list" where
  "demo_keys =
     [\<lparr>bk_APIKeyID = ''bootstrap-key-1'', bk_Label = ''bootstrap'', bk_TenantID = ''a'', bk_TenantName = ''A'', bk_PlaintextKey = ''k''\<rparr>,
      \<lparr>bk_APIKeyID = ''bootstrap-key-2'', bk_Label = ''bootstrap'', bk_TenantID = ''b'', bk_TenantName = ''B'', bk_PlaintextKey = ''m''\<rparr>]"

definition demo_moved :: "bootstrap_key list" where
  "demo_moved = [(demo_keys ! 1)\<lparr>bk_APIKeyID := ''bootstrap-key-1''\<rparr>]"

lemma demo_parsed: "parseBootstrapAPIKeys ''a|A|k,b|B|m'' = Inr demo_keys" "parseBootstrapAPIKeys ''b|B|m'' = Inr demo_moved"
  by code_simp+

definition demo_seeded :: pg where
  "demo_seeded = snd (seedBootstrapData demo_pg (\<lambda>k. k) demo_keys \<lparr>pg_db = empty_database, pg_tick = 0\<rparr>)"

lemma demo_seeding:
  "seedBootstrapData demo_pg (\<lambda>k. k) demo_keys \<lparr>pg_db = empty_database, pg_tick = 0\<rparr> = (None, demo_seeded)"
proof -
  have "fst (seedBootstrapData demo_pg (\<lambda>k. k) demo_keys \<lparr>pg_db = empty_database, pg_tick = 0\<rparr>) = None" by code_simp
  then show ?thesis unfolding demo_seeded_def by (simp add: prod_eq_iff)
qed

theorem pg_auth_as_in_memory_witness:
  "Authenticate (pg_auth demo_pg (\<lambda>k. k) demo_seeded) '' m '' =
     Authenticate (memory_auth (\<lambda>k. k) (buildBootstrapAPIKeys demo_keys) (buildBootstrapTenants demo_keys)) '' m '' \<and>
   (\<exists>i. Authenticate (pg_auth demo_pg (\<lambda>k. k) demo_seeded) '' m '' = Inr i)"
proof -
  have "list_all (\<lambda>a. list_all (\<lambda>b. bk_TenantID a = bk_TenantID b \<longrightarrow> bk_TenantName a = bk_TenantName b) demo_keys) demo_keys"
    by code_simp
  note pg_auth_as_in_memory [OF demo_kept(1) demo_parsed(1) this demo_seeding, of "'' m ''"]
  moreover have "case Authenticate (pg_auth demo_pg (\<lambda>k. k) demo_seeded) '' m '' of Inl e \<Rightarrow> False | Inr i \<Rightarrow> True"
    by code_simp
  ultimately show ?thesis by (auto split: sum.splits)
qed

theorem removed_key_still_accepted_witness:
  "\<exists>s' i'. seedBootstrapData demo_pg (\<lambda>k. k) [hd demo_keys] demo_seeded = (None, s') \<and>
     Authenticate (pg_auth demo_pg (\<lambda>k. k) s') ''m'' = Inr i' \<and> id_TenantID i' = ''b''"
proof -
  have "case Authenticate (pg_auth demo_pg (\<lambda>k. k) demo_seeded) ''m'' of Inl e \<Rightarrow> False
      | Inr i \<Rightarrow> id_APIKeyID i \<notin> bk_APIKeyID ` set [hd demo_keys] \<and> id_TenantID i = ''b''"
    by code_simp
  then obtain i where i: "Authenticate (pg_auth demo_pg (\<lambda>k. k) demo_seeded) ''m'' = Inr i"
    "id_APIKeyID i \<notin> bk_APIKeyID ` set [hd demo_keys]" "id_TenantID i = ''b''"
    by (auto split: sum.splits)
  have ok: "keys_ok (pg_db demo_seeded)" by code_simp
  have "fst (seedBootstrapData demo_pg (\<lambda>k. k) [hd demo_keys] demo_seeded) = None" by code_simp
  then obtain s' where s': "seedBootstrapData demo_pg (\<lambda>k. k) [hd demo_keys] demo_seeded = (None, s')"
    by (metis prod.collapse)
  from removed_key_still_accepted [OF demo_kept(1) ok i(1,2) s'] s' i(3) show ?thesis by auto
qed

theorem moved_key_blocks_start_witness:
  "\<exists>e s2. seedBootstrapData demo_pg (\<lambda>k. k) demo_moved demo_seeded = (Some e, s2)"
proof -
  have "bk_PlaintextKey (demo_moved ! 0) = bk_PlaintextKey (demo_keys ! 1)" "1 < length demo_keys" "0 < length demo_moved"
    by code_simp+
  then show ?thesis
    using moved_key_blocks_start [OF demo_parsed demo_seeding, of 0 1] by simp
qed

end
