(* ===== verification/PgProgram.thy ===== *)
theory PgProgram
  imports PgKeys Program
begin

text \<open>
  The services of a process whose repositories are in PostgreSQL (\<open>OpenRepositories\<close> with a DSN, wired by
  \<open>cmd/api/main.go\<close> and \<open>cmd/worker/main.go\<close>): what is uploaded can be read, and what becomes of audit
  events.
\<close>

section \<open>The services\<close>

text \<open>
  The state is the server and the rest of the process: clock, random bytes, files, quotas, queue. The
  in-memory repositories in the rest are not used.
\<close>

type_synonym pg_world = "pg \<times> world"

definition on_pg :: "(pg \<Rightarrow> 'a \<times> pg) \<Rightarrow> pg_world \<Rightarrow> 'a \<times> pg_world" where
  "on_pg f sw = (case f (fst sw) of (x, s) \<Rightarrow> (x, (s, snd sw)))"

definition beside :: "(world \<Rightarrow> 'a \<times> world) \<Rightarrow> pg_world \<Rightarrow> 'a \<times> pg_world" where
  "beside f sw = (case f (snd sw) of (x, w) \<Rightarrow> (x, (fst sw, w)))"

definition pg_documents :: "pg_lib \<Rightarrow> platform \<Rightarrow> pg_world doc_env" where
  "pg_documents L P =
     \<lparr>de_Create = (\<lambda>d cs. on_pg (pg_doc_Create L d cs)),
      de_GetByID = (\<lambda>t k sw. pg_doc_GetByID L t k (fst sw)),
      de_ListChunks = (\<lambda>t k sw. pg_doc_ListChunks L t k (fst sw)),
      de_Put = (\<lambda>key content. beside (app_Put P key content)), de_now = beside (app_now P),
      de_newID = beside (app_newID P)\<rparr>"

definition pg_workflows :: "pg_lib \<Rightarrow> platform \<Rightarrow> pg_world wf_env" where
  "pg_workflows L P =
     \<lparr>we_Create = (\<lambda>x. on_pg (pg_wf_Create L x)), we_GetByID = (\<lambda>t k sw. pg_wf_GetByID L t k (fst sw)),
      we_now = beside (app_now P), we_newID = beside (app_newID P), we_net = pf_net P, we_fmt = pf_fmt P\<rparr>"

definition pg_audit :: "pg_lib \<Rightarrow> platform \<Rightarrow> pg_world audit_env" where
  "pg_audit L P =
     \<lparr>ae_Create = (\<lambda>e. on_pg (pg_audit_Create L e)),
      ae_ListByRun = (\<lambda>t k sw. pg_audit_ListByRun L t k (fst sw)),
      ae_now = beside (app_now P), ae_newID = beside (app_newID P)\<rparr>"

definition pg_trigger :: "platform \<Rightarrow> pg_world trigger_ops" where
  "pg_trigger P =
     \<lparr>to_Allow = (\<lambda>t. beside (to_Allow (app_trigger P) t)),
      to_Lookup = (\<lambda>t key fingerprint sw. to_Lookup (app_trigger P) t key fingerprint (snd sw)),
      to_Store = (\<lambda>t key rec. beside (to_Store (app_trigger P) t key rec))\<rparr>"

definition pg_executor :: "pg_lib \<Rightarrow> platform \<Rightarrow> pg_world exec_env" where
  "pg_executor L P =
     \<lparr>ee_CreateRun = (\<lambda>r. on_pg (pg_CreateRun L r)),
      ee_UpdateRun = (\<lambda>r. on_pg (pg_UpdateRun L r)),
      ee_CompleteRun = (\<lambda>r steps. on_pg (pg_CompleteRun L r steps)),
      ee_SavePending = (\<lambda>r steps p. on_pg (pg_SavePending L r steps p)),
      ee_LoadPending = (\<lambda>t k sw. pg_LoadPending L t k (fst sw)),
      ee_GetRun = (\<lambda>t k sw. pg_GetRun L t k (fst sw)),
      ee_ListRuns = (\<lambda>t st sw. pg_ListRuns L t st (fst sw)),
      ee_ListSteps = (\<lambda>t k sw. pg_ListSteps L t k (fst sw)),
      ee_workflows_Get = workflows_Get (pg_workflows L P),
      ee_documents_ListChunks = documents_ListChunks (pg_documents L P),
      ee_audit_Record = Some (audit_Record (pg_audit L P)),
      ee_trigger = Some (pg_trigger P),
      ee_Generate = (\<lambda>prompt sw. (Inr (Generate_mock prompt), sw)),
      ee_Do = (\<lambda>rq. beside (\<lambda>w. (pf_http P (w_tick w) rq, tick w))),
      ee_Enqueue = Some (\<lambda>job. beside (on_queue (mq_Enqueue (pf_ctx_err P) job))),
      ee_now = beside (app_now P), ee_newID = beside (app_newID P), ee_net = pf_net P, ee_fmt = pf_fmt P,
      ee_NewRequest = pf_NewRequest P, ee_Unmarshal = pf_Unmarshal P\<rparr>"

abbreviation tables :: "pg_world \<Rightarrow> database" where
  "tables sw \<equiv> pg_db (fst sw)"

lemma on_pg_tables: "tables (snd (on_pg f sw)) = pg_db (snd (f (fst sw)))"
  by (simp add: on_pg_def split: prod.split)

lemma on_pg_None: "on_pg f sw = (x, sw') \<longleftrightarrow> f (fst sw) = (x, fst sw') \<and> snd sw' = snd sw"
  by (cases sw') (auto simp: on_pg_def split: prod.splits)

lemma beside_tables [simp]: "fst (snd (beside f sw)) = fst sw"
  by (simp add: beside_def split: prod.split)

section \<open>Audit events\<close>

lemma pg_exec_tables:
  "pg_db (snd (pg_exec L statement f s)) = pg_db s \<or> f (pg_db s) = Inr (pg_db (snd (pg_exec L statement f s)))"
  by (auto simp: pg_exec_def Let_def split: option.split sum.split)

text \<open>An event that is stored has the workflow of a row; so one without a workflow is not stored.\<close>

lemma pg_audit_Create_tables:
  "pg_db (snd (pg_audit_Create L e s)) = pg_db s \<or>
     has_workflow (pg_db s) (event_WorkflowID e) \<and>
     (\<exists>row. pg_db (snd (pg_audit_Create L e s)) = (pg_db s)\<lparr>db_audit_events := db_audit_events (pg_db s) @ [row]\<rparr>)"
proof -
  have "pg_db (snd (pg_audit_Create L e s)) = pg_db (snd (pg_exec L ''INSERT audit_events'' (insert_event L e) s))"
    by (simp add: pg_audit_Create_def pg_step_def split: prod.split option.split)
  moreover have "has_workflow (pg_db s) (event_WorkflowID e) \<and>
      (\<exists>row. db = (pg_db s)\<lparr>db_audit_events := db_audit_events (pg_db s) @ [row]\<rparr>)"
    if "insert_event L e (pg_db s) = Inr db" for db
    using that by (auto simp: insert_event_def split: sum.splits)
  ultimately show ?thesis using pg_exec_tables [of L "''INSERT audit_events''" "insert_event L e" s] by metis
qed

lemma pg_audit_Record_tables:
  "tables (snd (audit_Record (pg_audit L P) t p sw)) = tables sw \<or>
     has_workflow (tables sw) (rp_WorkflowID p) \<and>
     (\<exists>row. tables (snd (audit_Record (pg_audit L P) t p sw)) = (tables sw)\<lparr>db_audit_events := db_audit_events (tables sw) @ [row]\<rparr>)"
proof -
  obtain x sw1 where newID: "beside (app_newID P) sw = (x, sw1)" by (metis prod.exhaust)
  obtain now sw2 where now: "beside (app_now P) sw1 = (now, sw2)" by (metis prod.exhaust)
  have same: "tables sw1 = tables sw" "tables sw2 = tables sw"
    using beside_tables [of "app_newID P" sw] beside_tables [of "app_now P" sw1] newID now by simp_all
  show ?thesis
  proof (cases "trim_space t = [] \<or> (\<exists>e. x = Inl e)")
    case True
    then show ?thesis using newID same by (auto simp: audit_Record_def pg_audit_def)
  next
    case False
    then obtain k where x: "x = Inr k" "trim_space t \<noteq> []" by (cases x) auto
    let ?e = "\<lparr>event_ID = k, event_TenantID = t, event_RunID = rp_RunID p, event_WorkflowID = rp_WorkflowID p,
      event_StepID = rp_StepID p, event_NodeID = rp_NodeID p, event_Type = trim_space (rp_Type p),
      event_Message = trim_space (rp_Message p), event_Metadata = cloneMap (rp_Metadata p), event_CreatedAt = now\<rparr>"
    have "audit_Record (pg_audit L P) t p sw = on_pg (pg_audit_Create L ?e) sw2"
      using x newID now by (simp add: audit_Record_def pg_audit_def)
    then show ?thesis
      using pg_audit_Create_tables [of L ?e "fst sw2"] same(2) by (simp add: on_pg_tables)
  qed
qed

text \<open>
  The tables, as far as no workflow has the empty id: executing nodes does not change them, although it
  records an event for every step.
\<close>

definition observed :: "pg_world \<Rightarrow> database option" where
  "observed sw = (if has_workflow (tables sw) [] then None else Some (tables sw))"

lemma has_workflow_events [simp]: "has_workflow (db\<lparr>db_audit_events := rows\<rparr>) k = has_workflow db k"
  by (simp add: has_workflow_def)

lemma observed_audit:
  assumes "rp_WorkflowID p = []"
  shows "observed (snd (audit_Record (pg_audit L P) t p sw)) = observed sw"
  using pg_audit_Record_tables [of L P t p sw] assms by (auto simp: observed_def)

lemma observed_beside [simp]: "observed (snd (beside f sw)) = observed sw"
  by (simp add: observed_def)

interpretation pg_nodes: node_effects "pg_executor L P" observed
  by unfold_locales (auto simp: pg_executor_def observed_audit)

text \<open>C26: a server with a database stores no audit event of a node: however the nodes of a run are
  executed, the tables are the same afterwards, because the events step_completed, step_failed and
  step_waiting_approval carry no workflow id, which the table requires, and the error is not looked at. (The
  event approval_resolved, which \<open>ResumeApproval\<close> records with a workflow id, is not one of an execution.)\<close>
theorem pg_step_events_lost:
  assumes "\<not> has_workflow (tables sw) []"
    and "continueExecution (pg_executor L P) runID t g input st sw = Some (r, sw')"
  shows "tables sw' = tables sw"
  using pg_nodes.continueExecution_obs [OF assms(2)] assms(1) by (auto simp: observed_def split: if_splits)

section \<open>Documents\<close>

text \<open>What is stored of a document and a chunk: the times as the columns keep them.\<close>

definition stored_document :: "pg_lib \<Rightarrow> document \<Rightarrow> document" where
  "stored_document L d = d\<lparr>doc_CreatedAt := pl_time L (doc_CreatedAt d),
     doc_IngestedAt := scan_time (map_option (pl_time L) (nullableTime (doc_IngestedAt d)))\<rparr>"

definition stored_chunk :: "pg_lib \<Rightarrow> chunk \<Rightarrow> chunk" where
  "stored_chunk L c = c\<lparr>chunk_CreatedAt := pl_time L (chunk_CreatedAt c)\<rparr>"

definition document_tables_ok :: "database \<Rightarrow> bool" where
  "document_tables_ok db \<longleftrightarrow> distinct (map dw_id (db_documents db)) \<and>
     list_all (\<lambda>c. has_document db (chunk_DocumentID c)) (db_document_chunks db)"

lemma encode_document_scan: "encode_document L d = Inr row \<Longrightarrow> scan_document row = stored_document L d"
  by (auto simp: encode_document_def scan_document_def stored_document_def)

lemma insert_chunks_done:
  assumes "pg_each (\<lambda>c s. pg_step x (pg_exec L statement (insert_chunk L c) s)) chunks s = (None, s')"
  shows "pg_db s' = (pg_db s)\<lparr>db_document_chunks := db_document_chunks (pg_db s) @ map (stored_chunk L) chunks\<rparr> \<and>
    list_all (\<lambda>c. pl_text L (chunk_Content c) \<and> has_document (pg_db s) (chunk_DocumentID c)) chunks"
  using assms
proof (induction chunks arbitrary: s)
  case (Cons c chunks)
  obtain s1 where s1: "pg_exec L statement (insert_chunk L c) s = (None, s1)"
    and rest: "pg_each (\<lambda>c s. pg_step x (pg_exec L statement (insert_chunk L c) s)) chunks s1 = (None, s')"
    using Cons.prems by (auto simp: pg_then_None pg_step_None)
  have "insert_chunk L c (pg_db s) = Inr (pg_db s1)" using pg_exec_None [OF s1] .
  then have "pg_db s1 = (pg_db s)\<lparr>db_document_chunks := db_document_chunks (pg_db s) @ [stored_chunk L c]\<rparr>"
    and ok: "pl_text L (chunk_Content c)" "has_document (pg_db s) (chunk_DocumentID c)"
    by (auto simp: insert_chunk_def encode_chunk_def stored_chunk_def texts_ok_def split: sum.splits)
  then show ?case
    using Cons.IH [OF rest] by (simp add: has_document_def)
qed simp

text \<open>All rows of a document or none, and what the rows are.\<close>

lemma pg_doc_Create_tables:
  assumes "pg_doc_Create L d chunks s = (err, s')"
  shows "pg_db s' = pg_db s \<and> err \<noteq> None \<or>
    (\<exists>row. encode_document L d = Inr row \<and> \<not> has_document (pg_db s) (doc_ID d) \<and>
      pg_db s' = (pg_db s)\<lparr>db_documents := db_documents (pg_db s) @ [row],
        db_document_chunks := db_document_chunks (pg_db s) @ map (stored_chunk L) chunks\<rparr> \<and>
      list_all (\<lambda>c. pl_text L (chunk_Content c)) chunks \<and>
      list_all (\<lambda>c. has_document (pg_db s') (chunk_DocumentID c)) chunks)"
proof -
  let ?body = "\<lambda>s. pg_then (pg_step ''insert document'' (pg_exec L ''INSERT documents'' (insert_document L d) s))
    (pg_each (\<lambda>c s. pg_step ''insert document chunk'' (pg_exec L ''INSERT document_chunks'' (insert_chunk L c) s)) chunks)"
  have all: "\<exists>row. encode_document L d = Inr row \<and> \<not> has_document (pg_db s) (doc_ID d) \<and>
      pg_db s1 = (pg_db s)\<lparr>db_documents := db_documents (pg_db s) @ [row],
        db_document_chunks := db_document_chunks (pg_db s) @ map (stored_chunk L) chunks\<rparr> \<and>
      list_all (\<lambda>c. pl_text L (chunk_Content c)) chunks \<and>
      list_all (\<lambda>c. has_document (pg_db s1) (chunk_DocumentID c)) chunks"
    if body: "?body (s\<lparr>pg_tick := Suc (pg_tick s)\<rparr>) = (None, s1)" for s1
  proof -
    obtain s0 where s0: "pg_exec L ''INSERT documents'' (insert_document L d) (s\<lparr>pg_tick := Suc (pg_tick s)\<rparr>) = (None, s0)"
      and rest: "pg_each (\<lambda>c s. pg_step ''insert document chunk'' (pg_exec L ''INSERT document_chunks'' (insert_chunk L c) s))
        chunks s0 = (None, s1)"
      using body by (auto simp: pg_then_None pg_step_None)
    have "insert_document L d (pg_db s) = Inr (pg_db s0)" using pg_exec_None [OF s0] by simp
    then obtain row where row: "encode_document L d = Inr row" "\<not> has_document (pg_db s) (doc_ID d)"
      "pg_db s0 = (pg_db s)\<lparr>db_documents := db_documents (pg_db s) @ [row]\<rparr>"
      by (auto simp: insert_document_def encode_document_def split: sum.splits)
    then show ?thesis
      using insert_chunks_done [OF rest] by (auto simp: list_all_iff has_document_def)
  qed
  show ?thesis using pg_tx_atomic [OF assms [unfolded pg_doc_Create_def]] all by metis
qed

lemma document_tables_kept:
  assumes "pg_doc_Create L d chunks s = (err, s')" and "document_tables_ok (pg_db s)"
  shows "document_tables_ok (pg_db s')"
proof -
  consider "pg_db s' = pg_db s"
    | row where "encode_document L d = Inr row" "\<not> has_document (pg_db s) (doc_ID d)"
      "pg_db s' = (pg_db s)\<lparr>db_documents := db_documents (pg_db s) @ [row],
        db_document_chunks := db_document_chunks (pg_db s) @ map (stored_chunk L) chunks\<rparr>"
      "list_all (\<lambda>c. has_document (pg_db s') (chunk_DocumentID c)) chunks"
    using pg_doc_Create_tables [OF assms(1)] by blast
  then show ?thesis
  proof cases
    case 1
    then show ?thesis using assms(2) by simp
  next
    case 2
    have "dw_id row = doc_ID d" using 2(1) by (auto simp: encode_document_def)
    then show ?thesis
      using 2(2-) assms(2)
      by (auto simp: document_tables_ok_def has_document_def list_all_iff stored_chunk_def)
  qed
qed

text \<open>Everything before the transaction of an upload happens beside the tables.\<close>

lemma beside_fst: "beside f sw = (x, sw') \<Longrightarrow> fst sw' = fst sw"
  by (metis beside_tables snd_conv)

lemma pg_build_chunks:
  assumes "build_chunk_list (pg_documents L P) k t c i parts sw = (x, sw')"
  shows "fst sw' = fst sw"
  using assms
proof (induction parts arbitrary: i sw x sw')
  case (Cons part parts)
  obtain y sw1 where newID: "beside (app_newID P) sw = (y, sw1)" by (metis prod.exhaust)
  obtain z sw2 where rest: "build_chunk_list (pg_documents L P) k t c (Suc i) parts sw1 = (z, sw2)"
    by (metis prod.exhaust)
  have "sw' = sw1 \<or> sw' = sw2"
    using Cons.prems newID rest by (auto simp: pg_documents_def split: sum.splits)
  then show ?case using beside_fst [OF newID] Cons.IH [OF rest] by auto
qed simp

lemma pg_documents_Create_parts:
  assumes "documents_Create (pg_documents L P) t p sw = (Inr d, sw')"
  obtains content chunks s1 s2 where "trim_space t \<noteq> []" "cp_Content p = Some (Inr content)" "doc_TenantID d = t"
    "buildChunks (pg_documents L P) (doc_ID d) t (doc_ContentType d) content (doc_CreatedAt d) s1 = (Inr chunks, s2)"
    "pg_doc_Create L d chunks (fst sw) = (None, fst sw')"
proof -
  let ?E = "pg_documents L P"
  let ?name = "file_base (trim_space (cp_Filename p))" and ?type = "normalizeContentType (cp_ContentType p)"
  obtain content k s0 where step: "trim_space t \<noteq> []" "cp_Content p = Some (Inr content)"
    "beside (app_newID P) sw = (Inr k, s0)" "store_document ?E t ?name ?type k content s0 = (Inr d, sw')"
    using assms by (auto simp: documents_Create_def Let_def pg_documents_def split: go_split)
  let ?key = "path_join t (k @ file_ext ?name)"
  obtain stored now s1 s2 s3 chunks where parts:
    "beside (app_Put P ?key content) s0 = (Inr stored, s1)" "beside (app_now P) s1 = (now, s2)"
    "buildChunks ?E k t ?type content now s2 = (Inr chunks, s3)"
    "d = new_document k t ?name ?type ?key stored now chunks" "on_pg (pg_doc_Create L d chunks) s3 = (None, sw')"
    using step(4) by (auto simp: store_document_def Let_def pg_documents_def split: go_split)
  have "fst s3 = fst s2"
    using parts(3) pg_build_chunks by (auto simp: buildChunks_def split: if_splits)
  then have "fst s3 = fst sw" using parts(1,2) step(3) by (auto dest!: beside_fst)
  then have "pg_doc_Create L d chunks (fst sw) = (None, fst sw')" using parts(5) by (simp add: on_pg_None)
  then show thesis
    using step(1,2) parts(3,4) by (intro that) (auto simp: new_document_def Let_def)
qed

lemma new_chunks:
  assumes "buildChunks E k t ct content now s = (Inr chunks, s')"
  shows "map chunk_ChunkIndex chunks = [0 ..< length chunks]"
    and "list_all (\<lambda>c. chunk_DocumentID c = k \<and> chunk_TenantID c = t) chunks"
    and "map chunk_Content chunks = (if has_prefix ct ''text/'' then chunkText content defaultChunkSize else [])"
proof -
  have "map chunk_ChunkIndex chunks = [0 ..< length chunks] \<and>
      list_all (\<lambda>c. chunk_DocumentID c = k \<and> chunk_TenantID c = t) chunks \<and>
      map chunk_Content chunks = (if has_prefix ct ''text/'' then chunkText content defaultChunkSize else [])"
  proof (cases "has_prefix ct ''text/''")
    case True
    then have "build_chunk_list E k t now 0 (chunkText content defaultChunkSize) s = (Inr chunks, s')"
      using assms by (simp add: buildChunks_def)
    note built = build_chunk_list_result [OF this]
    then have "length chunks = length (chunkText content defaultChunkSize)" by (metis length_map)
    then show ?thesis using built True by (simp add: list_all_iff)
  qed (use assms in \<open>simp add: buildChunks_def\<close>)
  then show "map chunk_ChunkIndex chunks = [0 ..< length chunks]"
    "list_all (\<lambda>c. chunk_DocumentID c = k \<and> chunk_TenantID c = t) chunks"
    "map chunk_Content chunks = (if has_prefix ct ''text/'' then chunkText content defaultChunkSize else [])" by auto
qed

lemma sorted_by_index:
  assumes "map chunk_ChunkIndex chunks = [0 ..< n]"
  shows "cmp_sorted chunk_order chunks"
proof -
  have "sorted_wrt (\<le>) (map chunk_ChunkIndex chunks)" unfolding assms by simp
  then have "sorted_wrt (\<lambda>a b. chunk_ChunkIndex a \<le> chunk_ChunkIndex b) chunks" by (simp add: sorted_wrt_map)
  then show ?thesis unfolding cmp_sorted_def by (rule sorted_wrt_mono_rel [rotated]) (simp add: chunk_order_def)
qed

text \<open>A document just written is the only one with its id, and the chunks of that id are its own.\<close>

lemma pg_created_document:
  assumes "no_faults L" and "document_tables_ok (pg_db s)" and "pg_doc_Create L d chunks s = (None, s')"
    and "map chunk_ChunkIndex chunks = [0 ..< length chunks]"
    and "list_all (\<lambda>c. chunk_DocumentID c = doc_ID d \<and> chunk_TenantID c = doc_TenantID d) chunks"
  shows "pg_doc_GetByID L (doc_TenantID d) (doc_ID d) s' = Inr (stored_document L d)"
    and "pg_doc_ListChunks L (doc_TenantID d) (doc_ID d) s' = Inr (map (stored_chunk L) chunks)"
proof -
  obtain row where row: "encode_document L d = Inr row" "\<not> has_document (pg_db s) (doc_ID d)"
    and tables: "pg_db s' = (pg_db s)\<lparr>db_documents := db_documents (pg_db s) @ [row],
        db_document_chunks := db_document_chunks (pg_db s) @ map (stored_chunk L) chunks\<rparr>"
    using pg_doc_Create_tables [OF assms(3)] by auto
  have new: "is_document (doc_TenantID d) (doc_ID d) row"
    using row(1) by (auto simp: encode_document_def is_document_def)
  have "\<forall>old \<in> set (db_documents (pg_db s)). \<not> is_document (doc_TenantID d) (doc_ID d) old"
    using row(2) by (auto simp: has_document_def is_document_def image_iff)
  then have found: "find (is_document (doc_TenantID d) (doc_ID d)) (db_documents (pg_db s')) = Some row"
    using new by (simp add: tables find_snoc) (metis find_None_iff option.simps(4))
  then show get: "pg_doc_GetByID L (doc_TenantID d) (doc_ID d) s' = Inr (stored_document L d)"
    by (simp add: pg_doc_GetByID_def pg_query_ok [OF assms(1)] encode_document_scan [OF row(1)])
  let ?own = "\<lambda>c. chunk_TenantID c = doc_TenantID d \<and> chunk_DocumentID c = doc_ID d"
  have "filter ?own (db_document_chunks (pg_db s)) = []"
    using assms(2) row(2) by (auto simp: document_tables_ok_def list_all_iff filter_empty_conv)
  moreover have "filter ?own (map (stored_chunk L) chunks) = map (stored_chunk L) chunks"
    using assms(5) by (auto simp: list_all_iff stored_chunk_def filter_id_conv)
  moreover have "map chunk_ChunkIndex (map (stored_chunk L) chunks) = [0 ..< length chunks]"
    unfolding assms(4) [symmetric] by (simp add: stored_chunk_def)
  ultimately have "select_chunks (doc_TenantID d) (doc_ID d) (pg_db s') = map (stored_chunk L) chunks"
    using new by (simp add: select_chunks_def tables sort_func_sorted sorted_by_index)
  then show "pg_doc_ListChunks L (doc_TenantID d) (doc_ID d) s' = Inr (map (stored_chunk L) chunks)"
    by (simp add: pg_doc_ListChunks_def pg_query_ok [OF assms(1)] get)
qed

text \<open>C29: an upload to a server with a database that reports success can be read by its tenant, with all
  its chunks in their order, up to the precision of the timestamps; each chunk of the listing is text that the
  column accepts; and the tables still have a document for every chunk and no document twice.\<close>
theorem pg_uploaded_document_readable:
  assumes "no_faults L" and "document_tables_ok (tables sw)"
    and "documents_Create (pg_documents L P) t p sw = (Inr d, sw')"
  shows "documents_Get (pg_documents L P) t (doc_ID d) sw' = Inr (stored_document L d) \<and>
    (\<exists>chunks content. cp_Content p = Some (Inr content) \<and>
       documents_ListChunks (pg_documents L P) t (doc_ID d) sw' = Inr chunks \<and>
       map chunk_Content chunks =
         (if has_prefix (doc_ContentType d) ''text/'' then chunkText content defaultChunkSize else []) \<and>
       list_all (\<lambda>c. pl_text L (chunk_Content c)) chunks) \<and>
    document_tables_ok (tables sw')"
  using assms(3)
proof (rule pg_documents_Create_parts)
  fix content chunks s1 s2
  assume t: "trim_space t \<noteq> []" "doc_TenantID d = t" and content: "cp_Content p = Some (Inr content)"
    and built: "buildChunks (pg_documents L P) (doc_ID d) t (doc_ContentType d) content (doc_CreatedAt d) s1 = (Inr chunks, s2)"
    and created: "pg_doc_Create L d chunks (fst sw) = (None, fst sw')"
  note new = new_chunks [OF built]
  note read = pg_created_document [OF assms(1,2) created new(1), unfolded t(2), OF new(2)]
  have "map chunk_Content (map (stored_chunk L) chunks) = map chunk_Content chunks" by (simp add: stored_chunk_def)
  moreover have "list_all (\<lambda>c. pl_text L (chunk_Content c)) (map (stored_chunk L) chunks)"
    using pg_doc_Create_tables [OF created] by (auto simp: list_all_iff stored_chunk_def)
  ultimately show ?thesis
    using read t(1) content new(3) document_tables_kept [OF created assms(2)]
    by (simp add: documents_Get_def documents_ListChunks_def pg_documents_def)
qed

section \<open>Examples\<close>

lemma demo_pg_upload:
  "case documents_Create (pg_documents demo_pg demo_platform) ''acme'' demo_upload (demo_tables, demo_start) of
     (Inr d, sw) \<Rightarrow> doc_TenantID d = ''acme'' \<and> doc_ChunkCount d = 1 | _ \<Rightarrow> False"
  by code_simp

theorem pg_uploaded_document_readable_witness:
  "\<exists>d sw. documents_Create (pg_documents demo_pg demo_platform) ''acme'' demo_upload (demo_tables, demo_start) = (Inr d, sw) \<and>
     documents_Get (pg_documents demo_pg demo_platform) ''acme'' (doc_ID d) sw = Inr (stored_document demo_pg d)"
proof -
  obtain d sw where created:
    "documents_Create (pg_documents demo_pg demo_platform) ''acme'' demo_upload (demo_tables, demo_start) = (Inr d, sw)"
    using demo_pg_upload by (auto split: prod.split_asm sum.split_asm)
  have "document_tables_ok (tables (demo_tables, demo_start))" by code_simp
  from pg_uploaded_document_readable [OF demo_kept(1) this created] created show ?thesis by blast
qed

theorem pg_step_events_lost_witness:
  "\<exists>r sw'. continueExecution (pg_executor demo_pg demo_platform) ''r1'' ''acme'' demo_graph [] demo_new (demo_tables, demo_start) =
      Some (r, sw') \<and> tables sw' = pg_db demo_tables"
proof -
  obtain st out sw' where run: "continueExecution (pg_executor demo_pg demo_platform) ''r1'' ''acme'' demo_graph [] demo_new
      (demo_tables, demo_start) = Some ((st, out), sw')"
    using continueExecution_total [OF valid_graph_build [OF demo_graph_valid],
        of "pg_executor demo_pg demo_platform" "''r1''" "''acme''" "[]" demo_new "(demo_tables, demo_start)"] by auto
  have "\<not> has_workflow (tables (demo_tables, demo_start)) []" by code_simp
  from pg_step_events_lost [OF this run] run show ?thesis by auto
qed

end
