(* ===== verification/Simulation.thy ===== *)
theory Simulation
  imports Executor
begin

text \<open>
  Two executor services that the execution of a workflow cannot tell apart: what nodes see and get of both
  is the same as long as their states are related.
\<close>

definition alike :: "('s \<Rightarrow> 't \<Rightarrow> bool) \<Rightarrow> 'a \<times> 's \<Rightarrow> 'a \<times> 't \<Rightarrow> bool" where
  "alike R p q \<longleftrightarrow> fst p = fst q \<and> R (snd p) (snd q)"

lemma alike_Pair [simp]: "alike R (x, s) (y, s') \<longleftrightarrow> x = y \<and> R s s'"
  by (simp add: alike_def)

lemma alikeE:
  assumes "alike R p q"
  obtains x s s' where "p = (x, s)" "q = (x, s')" "R s s'"
  using assms by (cases p; cases q) auto

locale same_effects =
  fixes E :: "'s exec_env" and E' :: "'t exec_env" and R :: "'s \<Rightarrow> 't \<Rightarrow> bool"
  assumes same_libraries: "ee_fmt E = ee_fmt E'" "ee_net E = ee_net E'" "ee_NewRequest E = ee_NewRequest E'"
      "ee_Unmarshal E = ee_Unmarshal E'"
    and same_now: "R s s' \<Longrightarrow> alike R (ee_now E s) (ee_now E' s')"
    and same_newID: "R s s' \<Longrightarrow> alike R (ee_newID E s) (ee_newID E' s')"
    and same_Generate: "R s s' \<Longrightarrow> alike R (ee_Generate E prompt s) (ee_Generate E' prompt s')"
    and same_Do: "R s s' \<Longrightarrow> alike R (ee_Do E rq s) (ee_Do E' rq s')"
    and same_chunks: "R s s' \<Longrightarrow> ee_documents_ListChunks E t d s = ee_documents_ListChunks E' t d s'"
    and same_audit: "R s s' \<Longrightarrow> R (recordAudit E t p s) (recordAudit E' t p s')"
begin

lemma collect_chunks_same: "R s s' \<Longrightarrow> collect_chunks E t query ds s = collect_chunks E' t query ds s'"
  by (induction ds) (simp_all add: same_chunks split: sum.split)

lemma readHTTPToolResponse_same: "readHTTPToolResponse E = readHTTPToolResponse E'"
proof -
  have "decodeHTTPToolBody E = decodeHTTPToolBody E'"
    by (rule ext)+ (simp only: decodeHTTPToolBody_def same_libraries)
  then show ?thesis by (intro ext) (simp only: readHTTPToolResponse_def)
qed

lemma executeLLM_same:
  assumes "R s s'"
  shows "alike R (executeLLM E c i outs s) (executeLLM E' c i outs s')"
proof -
  let ?prompt = "join (replicate 2 (CHR 0x0A)) (llm_parts (ee_fmt E') c i outs)"
  obtain x a b where "ee_Generate E ?prompt s = (x, a)" "ee_Generate E' ?prompt s' = (x, b)" "R a b"
    using same_Generate [OF assms, of ?prompt] by (rule alikeE)
  then show ?thesis by (simp add: executeLLM_def same_libraries split: sum.split)
qed

lemma executeHTTPTool_same:
  assumes "R s s'"
  shows "alike R (executeHTTPTool E c i outs s) (executeHTTPTool E' c i outs s')"
proof -
  have "alike R (case ee_Do E rq s of (Inl e, u) \<Rightarrow> (Inl (wrap prefix e), u)
        | (Inr resp, u) \<Rightarrow> (readHTTPToolResponse E resp m url, u))
      (case ee_Do E' rq s' of (Inl e, u) \<Rightarrow> (Inl (wrap prefix e), u)
        | (Inr resp, u) \<Rightarrow> (readHTTPToolResponse E' resp m url, u))" for rq prefix m url
  proof -
    obtain x a b where "ee_Do E rq s = (x, a)" "ee_Do E' rq s' = (x, b)" "R a b"
      using same_Do [OF assms, of rq] by (rule alikeE)
    then show ?thesis by (simp add: readHTTPToolResponse_same split: sum.split)
  qed
  then show ?thesis
    using assms by (simp add: executeHTTPTool_def Let_def same_libraries split: option.split)
qed

lemma executeRetrieval_same: "R s s' \<Longrightarrow> executeRetrieval E t c i s = executeRetrieval E' t c i s'"
  by (simp only: executeRetrieval_def same_libraries collect_chunks_same)

lemma executeNode_same:
  assumes "R s s'"
  shows "alike R (executeNode E t n i outs s) (executeNode E' t n i outs s')"
  using assms executeLLM_same [OF assms] executeHTTPTool_same [OF assms]
  by (simp add: executeNode_def executeRetrieval_same [OF assms] same_libraries)

lemma executeStep_same:
  assumes "R s s'"
  shows "alike R (executeStep E runID t n i outs s) (executeStep E' runID t n i outs s')"
proof -
  obtain x a1 b1 where id: "ee_newID E s = (x, a1)" "ee_newID E' s' = (x, b1)" "R a1 b1"
    using same_newID [OF assms] by (rule alikeE)
  obtain began a2 b2 where n1: "ee_now E a1 = (began, a2)" "ee_now E' b1 = (began, b2)" "R a2 b2"
    using same_now [OF id(3)] by (rule alikeE)
  obtain answer a3 b3 where node: "executeNode E t n i outs a2 = (answer, a3)"
      "executeNode E' t n i outs b2 = (answer, b3)" "R a3 b3"
    using executeNode_same [OF n1(3), of t n i outs] by (rule alikeE)
  obtain ended a4 b4 where n2: "ee_now E a3 = (ended, a4)" "ee_now E' b3 = (ended, b4)" "R a4 b4"
    using same_now [OF node(3)] by (rule alikeE)
  show ?thesis
    using id n1 node n2 by (simp add: executeStep_def Let_def split: sum.split)
qed

lemma pause_at_same:
  assumes "R s s'"
  shows "alike R (pause_at E runID t g n st s) (pause_at E' runID t g n st s')"
proof -
  obtain x a1 b1 where id: "ee_newID E s = (x, a1)" "ee_newID E' s' = (x, b1)" "R a1 b1"
    using same_newID [OF assms] by (rule alikeE)
  obtain began a2 b2 where n1: "ee_now E a1 = (began, a2)" "ee_now E' b1 = (began, b2)" "R a2 b2"
    using same_now [OF id(3)] by (rule alikeE)
  show ?thesis
    using id n1 by (simp add: pause_at_def awaitApproval_def Let_def same_libraries same_audit split: sum.split)
qed

lemma run_node_same:
  assumes "R s s'"
  shows "alike R (run_node E runID t g i n st queued s) (run_node E' runID t g i n st queued s')"
proof (cases "node_Type n = ''approval''")
  case True
  obtain x a b where "pause_at E runID t g n st s = (x, a)" "pause_at E' runID t g n st s' = (x, b)" "R a b"
    using pause_at_same [OF assms, of runID t g n st] by (rule alikeE)
  with True show ?thesis by (simp add: run_node_def)
next
  case False
  obtain x a b where step: "executeStep E runID t n i (es_stepOutputs st) s = (x, a)"
      "executeStep E' runID t n i (es_stepOutputs st) s' = (x, b)" "R a b"
    using executeStep_same [OF assms, of runID t n i "es_stepOutputs st"] by (rule alikeE)
  obtain new_step answer where x: "x = (new_step, answer)" by (cases x)
  show ?thesis
    using False step x by (simp add: run_node_def Let_def same_audit split: sum.split prod.split)
qed

lemma exec_loop_same:
  assumes "exec_loop E runID t g i st queued s = Some r" and "R s s'"
  shows "\<exists>r'. exec_loop E' runID t g i st queued s' = Some r' \<and> alike R r r'"
proof -
  have "E = E \<longrightarrow> (\<forall>s'. R s s' \<longrightarrow> (\<exists>r'. exec_loop E' runID t g i st queued s' = Some r' \<and> alike R r r'))"
  proof (rule exec_loop.raw_induct
      [where P = "\<lambda>F runID t g i st queued s r. F = E \<longrightarrow>
        (\<forall>s'. R s s' \<longrightarrow> (\<exists>r'. exec_loop E' runID t g i st queued s' = Some r' \<and> alike R r r'))",
       OF _ assms(1)], intro impI allI, goal_cases)
    case (1 loop F runID t g i st queued s r s')
    show ?case
    proof (cases "es_queue st")
      case Nil
      then show ?thesis using 1 by (subst exec_loop.simps) auto
    next
      case (Cons k rest)
      obtain x a b where run:
          "run_node E runID t g i (graph_node g k) (st\<lparr>es_queue := rest\<rparr>) (queued - {k}) s = (x, a)"
          "run_node E' runID t g i (graph_node g k) (st\<lparr>es_queue := rest\<rparr>) (queued - {k}) s' = (x, b)" "R a b"
        using run_node_same [OF 1(4), of runID t g i "graph_node g k" "st\<lparr>es_queue := rest\<rparr>" "queued - {k}"]
        by (rule alikeE)
      show ?thesis
      proof (cases x)
        case (Inl y)
        obtain st' queued' where y: "y = (st', queued')" by (cases y)
        have "loop F runID t g i st' queued' a = Some r" using 1(2,3) Cons run(1) Inl y by simp
        with 1(1) [OF this] 1(3) run(3) show ?thesis
          using Cons run(2) Inl y by (subst exec_loop.simps) simp
      next
        case (Inr y)
        then show ?thesis using 1(2,3) Cons run by (subst exec_loop.simps) auto
      qed
    qed
  qed
  then show ?thesis using assms(2) by blast
qed

lemma continueExecution_same:
  assumes "continueExecution E runID t g i st s = Some (x, a)" and "R s s'"
  obtains b where "continueExecution E' runID t g i st s' = Some (x, b)" "R a b"
  using exec_loop_same [OF assms [unfolded continueExecution_def]]
  unfolding continueExecution_def by (auto simp: alike_def)

end

end
