(* ===== verification/Pg_Execution.thy ===== *)
theory Pg_Execution
  imports PgProgram Simulation
begin

text \<open>
  Whole operations of the executor over PostgreSQL (\<open>executor/service.go\<close> over \<open>executor/postgres_repository.go\<close>)
  against the same operations over the in-memory repositories.
\<close>

section \<open>A database that mirrors the memory\<close>

text \<open>
  The server works; the tables represent the runs in memory, and give the same workflows and chunks; the
  rest of the process is the same. The audit trails may differ.
\<close>

definition same_process :: "world \<Rightarrow> world \<Rightarrow> bool" where
  "same_process v w \<longleftrightarrow> w_tick v = w_tick w \<and> w_files v = w_files w \<and> w_trigger v = w_trigger w \<and> w_queue v = w_queue w"

definition same_reads :: "pg_lib \<Rightarrow> pg \<Rightarrow> world \<Rightarrow> bool" where
  "same_reads L g w \<longleftrightarrow> (\<forall>t k. pg_wf_GetByID L t k g = wf_mem_GetByID t k (w_workflows w)) \<and>
     (\<forall>t k. pg_doc_ListChunks L t k g = doc_mem_ListChunks t k (w_documents w))"

definition mirrors :: "pg_lib \<Rightarrow> pg_world \<Rightarrow> world \<Rightarrow> bool" where
  "mirrors L sw w \<longleftrightarrow> no_faults L \<and> represents L (tables sw) (w_runs w) \<and> same_reads L (fst sw) w \<and>
     same_process (snd sw) w"

text \<open>The tables that the executor only reads.\<close>

definition other_tables :: "database \<Rightarrow> tenant list \<times> workflow_row list \<times> document_row list \<times> chunk list" where
  "other_tables db = (db_tenants db, db_workflows db, db_documents db, db_document_chunks db)"

lemma same_reads_cong:
  assumes "no_faults L" and "other_tables (pg_db g') = other_tables (pg_db g)"
    and "w_workflows w' = w_workflows w" and "w_documents w' = w_documents w"
  shows "same_reads L g' w' = same_reads L g w"
proof -
  have "pg_wf_GetByID L t k g' = pg_wf_GetByID L t k g" "pg_doc_ListChunks L t k g' = pg_doc_ListChunks L t k g" for t k
    using assms(2)
    by (simp_all add: pg_wf_GetByID_def pg_doc_ListChunks_def pg_doc_GetByID_def pg_query_ok [OF assms(1)] other_tables_def
        select_chunks_def split: sum.split)
  then show ?thesis using assms(3,4) by (simp add: same_reads_def)
qed

lemma represents_events [simp]: "represents L (db\<lparr>db_audit_events := rows\<rparr>) m = represents L db m"
  by (simp add: represents_def rep_runs_def rep_steps_def rep_pending_def pending_owned_def find_pending_def select_steps_def)

lemma other_tables_update [simp]:
  "other_tables (db\<lparr>db_audit_events := es\<rparr>) = other_tables db"
  "other_tables (db\<lparr>db_workflow_runs := rs\<rparr>) = other_tables db"
  "other_tables (db\<lparr>db_workflow_steps := sts\<rparr>) = other_tables db"
  "other_tables (db\<lparr>db_workflow_run_pending := ps\<rparr>) = other_tables db"
  by (simp_all add: other_tables_def)

lemma mirrorsI:
  assumes "mirrors L (g, v) w" and "represents L (pg_db g') (w_runs w')"
    and "other_tables (pg_db g') = other_tables (pg_db g)"
    and "w_workflows w' = w_workflows w" "w_documents w' = w_documents w" and "same_process v' w'"
  shows "mirrors L (g', v') w'"
  using assms same_reads_cong [OF _ assms(3-5)] by (simp add: mirrors_def)

section \<open>Effects\<close>

lemma mirrors_beside:
  assumes "mirrors L sw w" and "\<And>v w. same_process v w \<Longrightarrow> alike same_process (f v) (f w)"
    and "w_runs (snd (f w)) = w_runs w" "w_workflows (snd (f w)) = w_workflows w" "w_documents (snd (f w)) = w_documents w"
  shows "alike (mirrors L) (beside f sw) (f w)"
proof -
  have "alike same_process (f (snd sw)) (f w)" using assms(1,2) by (simp add: mirrors_def)
  moreover have "mirrors L (fst sw, snd sw) w" using assms(1) by simp
  ultimately show ?thesis
    using assms(3-5) mirrorsI [of L "fst sw" "snd sw" w "fst sw" "snd (f w)" "snd (f (snd sw))"]
    by (auto simp: beside_def alike_def mirrors_def split: prod.split)
qed

lemma same_process_tick: "same_process v w \<Longrightarrow> w_tick v = w_tick w \<and> same_process (tick v) (tick w)"
  unfolding same_process_def tick_def by simp

lemma mirrors_ticking:
  assumes "mirrors L sw w"
  shows "alike (mirrors L) (beside (\<lambda>w. (x (w_tick w), tick w)) sw) (x (w_tick w), tick w)"
proof (rule mirrors_beside [where f = "\<lambda>w. (x (w_tick w), tick w)", OF assms])
  show "alike same_process (x (w_tick v), tick v) (x (w_tick w), tick w)" if "same_process v w" for v w
    using same_process_tick [OF that] by simp
qed simp_all

lemma mirrors_now: "mirrors L sw w \<Longrightarrow> alike (mirrors L) (beside (app_now P) sw) (app_now P w)"
  unfolding app_now_def by (rule mirrors_ticking)

lemma mirrors_newID: "mirrors L sw w \<Longrightarrow> alike (mirrors L) (beside (app_newID P) sw) (app_newID P w)"
  unfolding app_newID_def by (rule mirrors_ticking [where x = "\<lambda>n. ids_New (pf_random P n)"])

lemma mirrors_event:
  assumes "mirrors L sw w"
  shows "mirrors L (snd (on_pg (pg_audit_Create L e) sw)) (snd (on_audit (audit_mem_Create e') w))"
proof -
  obtain x g where g: "pg_audit_Create L e (fst sw) = (x, g)" by fastforce
  have "pg_db g = tables sw \<or> (\<exists>row. pg_db g = (tables sw)\<lparr>db_audit_events := db_audit_events (tables sw) @ [row]\<rparr>)"
    using pg_audit_Create_tables [of L e "fst sw"] g by auto
  then have g': "represents L (pg_db g) (w_runs w)" "other_tables (pg_db g) = other_tables (tables sw)"
    using assms by (auto simp: mirrors_def)
  let ?w = "w\<lparr>w_audit := snd (audit_mem_Create e' (w_audit w))\<rparr>"
  have w: "snd (on_audit (audit_mem_Create e') w) = ?w" by (simp add: on_audit_def split: prod.split)
  have "mirrors L (fst sw, snd sw) w" using assms by simp
  then have "mirrors L (g, snd sw) ?w"
  proof (rule mirrorsI)
    show "same_process (snd sw) ?w" using assms by (simp add: mirrors_def same_process_def)
  qed (use g' in simp_all)
  then show ?thesis by (simp add: on_pg_def g w)
qed

lemma mirrors_Record:
  assumes "mirrors L sw w"
  shows "mirrors L (snd (audit_Record (pg_audit L P) t p sw)) (snd (audit_Record (app_audit P) t p w))"
proof -
  obtain x a1 b1 where id: "beside (app_newID P) sw = (x, a1)" "app_newID P w = (x, b1)" "mirrors L a1 b1"
    using mirrors_newID [OF assms] by (rule alikeE)
  obtain now a2 b2 where n: "beside (app_now P) a1 = (now, a2)" "app_now P b1 = (now, b2)" "mirrors L a2 b2"
    using mirrors_now [OF id(3)] by (rule alikeE)
  show ?thesis
    using assms id n by (auto simp: audit_Record_def pg_audit_def app_audit_def mirrors_event split: sum.split)
qed

lemma pg_executor_fields:
  "ee_CreateRun (pg_executor L P) r = on_pg (pg_CreateRun L r)"
  "ee_UpdateRun (pg_executor L P) r = on_pg (pg_UpdateRun L r)"
  "ee_CompleteRun (pg_executor L P) r steps = on_pg (pg_CompleteRun L r steps)"
  "ee_SavePending (pg_executor L P) r steps p = on_pg (pg_SavePending L r steps p)"
  "ee_LoadPending (pg_executor L P) t k sw = pg_LoadPending L t k (fst sw)"
  "ee_GetRun (pg_executor L P) t k sw = pg_GetRun L t k (fst sw)"
  "ee_workflows_Get (pg_executor L P) = workflows_Get (pg_workflows L P)"
  "ee_audit_Record (pg_executor L P) = Some (audit_Record (pg_audit L P))"
  "ee_now (pg_executor L P) = beside (app_now P)" "ee_newID (pg_executor L P) = beside (app_newID P)"
  by (simp_all add: pg_executor_def)

interpretation pg_mirror: same_effects "pg_executor L P" "app_executor P" "mirrors L"
proof unfold_locales
  fix s s' assume m: "mirrors L s s'"
  show "alike (mirrors L) (ee_now (pg_executor L P) s) (ee_now (app_executor P) s')"
    using mirrors_now [OF m] by (simp add: pg_executor_def app_executor_def)
  show "alike (mirrors L) (ee_newID (pg_executor L P) s) (ee_newID (app_executor P) s')"
    using mirrors_newID [OF m] by (simp add: pg_executor_def app_executor_def)
  show "alike (mirrors L) (ee_Generate (pg_executor L P) prompt s) (ee_Generate (app_executor P) prompt s')" for prompt
    using m by (simp add: pg_executor_def app_executor_def)
  show "alike (mirrors L) (ee_Do (pg_executor L P) rq s) (ee_Do (app_executor P) rq s')" for rq
    using mirrors_ticking [OF m, of "\<lambda>n. pf_http P n rq"] by (simp add: pg_executor_def app_executor_def)
  show "ee_documents_ListChunks (pg_executor L P) t d s = ee_documents_ListChunks (app_executor P) t d s'" for t d
    using m by (simp add: pg_executor_def app_executor_def documents_ListChunks_def pg_documents_def app_documents_def
        mirrors_def same_reads_def)
  show "mirrors L (recordAudit (pg_executor L P) t p s) (recordAudit (app_executor P) t p s')" for t p
    using mirrors_Record [OF m] by (simp add: recordAudit_def pg_executor_def app_executor_def)
qed (simp_all add: pg_executor_def app_executor_def)

section \<open>Writes leave the other tables alone\<close>

definition keeps_other :: "(pg \<Rightarrow> 'a \<times> pg) \<Rightarrow> bool" where
  "keeps_other f \<longleftrightarrow> (\<forall>s. other_tables (pg_db (snd (f s))) = other_tables (pg_db s))"

named_theorems keeps_intros

lemma keeps_step [keeps_intros]: "keeps_other f \<Longrightarrow> keeps_other (\<lambda>s. pg_step c (f s))"
  unfolding keeps_other_def pg_step_def by (simp split: prod.split option.split) (metis snd_conv)

lemma keeps_exec [keeps_intros]:
  "(\<And>db db'. f db = Inr db' \<Longrightarrow> other_tables db' = other_tables db) \<Longrightarrow> keeps_other (pg_exec L statement f)"
  unfolding keeps_other_def by (metis pg_exec_tables)

lemma keeps_then [keeps_intros]:
  assumes "keeps_other f" and "keeps_other g"
  shows "keeps_other (\<lambda>s. pg_then (f s) g)"
  using assms unfolding keeps_other_def pg_then_def by (auto split: prod.split option.split) (metis snd_conv)+

lemma keeps_each [keeps_intros]:
  assumes "\<And>x. keeps_other (f x)"
  shows "keeps_other (pg_each f xs)"
proof (induction xs)
  case (Cons x xs)
  have "keeps_other (\<lambda>s. pg_then (f x s) (pg_each f xs))" by (rule keeps_then [OF assms Cons])
  then show ?case by (simp add: keeps_other_def)
qed (simp add: keeps_other_def)

lemma keeps_tx [keeps_intros]:
  assumes "keeps_other body"
  shows "keeps_other (pg_tx L bc cc body)"
  unfolding keeps_other_def
proof
  fix s
  obtain err s' where tx: "pg_tx L bc cc body s = (err, s')" by fastforce
  have "other_tables (pg_db (snd (body (s\<lparr>pg_tick := Suc (pg_tick s)\<rparr>)))) = other_tables (pg_db s)"
    using assms unfolding keeps_other_def by (metis pg.select_convs(1) pg.surjective pg.update_convs(2))
  then show "other_tables (pg_db (snd (pg_tx L bc cc body s))) = other_tables (pg_db s)"
    using pg_tx_atomic(1) [OF tx] tx by auto
qed

lemma statements_keep:
  "insert_run L r db = Inr db' \<Longrightarrow> other_tables db' = other_tables db"
  "update_run L r db = Inr db' \<Longrightarrow> other_tables db' = other_tables db"
  "update_run_tx L r db = Inr db' \<Longrightarrow> other_tables db' = other_tables db"
  "delete_steps k db = Inr db' \<Longrightarrow> other_tables db' = other_tables db"
  "insert_step L st db = Inr db' \<Longrightarrow> other_tables db' = other_tables db"
  "delete_pending k db = Inr db' \<Longrightarrow> other_tables db' = other_tables db"
  "upsert_pending L r p db = Inr db' \<Longrightarrow> other_tables db' = other_tables db"
  by (auto simp: insert_run_def update_run_def update_run_tx_def delete_steps_def insert_step_def delete_pending_def
      upsert_pending_def split: sum.splits)

lemma writes_keep:
  "keeps_other (pg_CreateRun L r)" "keeps_other (pg_UpdateRun L r)"
  "keeps_other (pg_CompleteRun L r steps)" "keeps_other (pg_SavePending L r steps p)"
  unfolding pg_CreateRun_def [abs_def] pg_UpdateRun_def [abs_def] pg_CompleteRun_def [abs_def] pg_SavePending_def [abs_def]
    updateRunTx_def [abs_def] replaceStepsTx_def [abs_def]
  by (intro keeps_intros statements_keep; assumption)+

section \<open>Settling a run\<close>

text \<open>What is stored of a run can be read back: the run, its steps, and its pending state if it has one.\<close>

definition run_storable :: "pg_lib \<Rightarrow> run \<Rightarrow> run_memory \<Rightarrow> bool" where
  "run_storable L r m \<longleftrightarrow> run_kept L r \<and> steps_stored L (run_ID r) (rm_steps m (run_ID r)) (rm_steps m (run_ID r)) \<and>
     (case rm_pending m (run_ID r) of None \<Rightarrow> True | Some p \<Rightarrow> pending_kept L r p)"

text \<open>What the tables must have for it: the tenant, the workflow, and no other step with the id of a new one.\<close>

definition tables_ready :: "run \<Rightarrow> run_memory \<Rightarrow> database \<Rightarrow> bool" where
  "tables_ready r m db \<longleftrightarrow> has_tenant db (run_TenantID r) \<and> has_workflow db (run_WorkflowID r) \<and>
     steps_fresh (run_ID r) (rm_steps m (run_ID r)) db"

lemma mirrors_write:
  assumes "mirrors L sw w" and "f (fst sw) = (x, g)" and "keeps_other f" and "represents L (pg_db g) m"
  shows "on_pg f sw = (x, (g, snd sw)) \<and> mirrors L (g, snd sw) (w\<lparr>w_runs := m\<rparr>)"
proof
  show "on_pg f sw = (x, (g, snd sw))" using assms(2) by (simp add: on_pg_def)
  have "mirrors L (fst sw, snd sw) w" using assms(1) by simp
  then show "mirrors L (g, snd sw) (w\<lparr>w_runs := m\<rparr>)"
  proof (rule mirrorsI)
    show "same_process (snd sw) (w\<lparr>w_runs := m\<rparr>)" using assms(1) by (simp add: mirrors_def same_process_def)
    show "other_tables (pg_db g) = other_tables (tables sw)"
      using assms(2,3) unfolding keeps_other_def by (metis snd_conv)
  qed (use assms(4) in simp_all)
qed

lemma recordAudit_runs: "w_runs (recordAudit (app_executor P) t p w) = w_runs w"
  by (simp add: recordAudit_def app_executor_fields audit_Record_runs)

lemma complete_run_mirrors:
  assumes "mirrors L sw w" and "run_mem_GetRun (run_TenantID r) (run_ID r) (w_runs w) = Inr r0"
    and "complete_run (app_executor P) c r steps et msg md w = (x, w')"
    and "run_storable L r (w_runs w')" and "tables_ready r (w_runs w') (tables sw)"
  obtains sw' where "complete_run (pg_executor L P) c r steps et msg md sw = (x, sw')" and "mirrors L sw' w'"
proof -
  let ?m = "snd (run_mem_CompleteRun r steps (w_runs w))"
  let ?p = "newRunAudit r et msg md"
  have w': "x = Inr r" "w' = recordAudit (app_executor P) (run_TenantID r) ?p (w\<lparr>w_runs := ?m\<rparr>)"
    using assms(3) by (auto simp: complete_run_def app_executor_fields on_runs_def run_mem_CompleteRun_def)
  then have runs: "w_runs w' = ?m" by (simp add: recordAudit_runs)
  then have steps: "rm_steps (w_runs w') (run_ID r) = steps" by (simp add: run_mem_CompleteRun_def)
  obtain g where g: "pg_CompleteRun L r steps (fst sw) = (None, g)" "represents L (pg_db g) ?m"
    using CompleteRun_represented [of L "fst sw" "w_runs w" r r0 steps steps] assms(1,2,4,5)
    by (auto simp: mirrors_def run_storable_def tables_ready_def steps)
  from mirrors_write [of L sw w "pg_CompleteRun L r steps", OF assms(1) g(1) writes_keep(3) g(2)]
  have done_: "on_pg (pg_CompleteRun L r steps) sw = (None, (g, snd sw))" "mirrors L (g, snd sw) (w\<lparr>w_runs := ?m\<rparr>)" by auto
  show thesis
    using that [of "recordAudit (pg_executor L P) (run_TenantID r) ?p (g, snd sw)"] pg_mirror.same_audit [OF done_(2)] w'
    by (simp add: complete_run_def pg_executor_fields done_(1))
qed

text \<open>Completing a run after a look at the clock.\<close>

lemma complete_later_mirrors:
  assumes "mirrors L sw w" and "run_mem_GetRun (run_TenantID r0) (run_ID r0) (w_runs w) = Inr r1"
    and "ee_now (app_executor P) w = (now, w1)"
    and "complete_run (app_executor P) c r0 steps et msg md w1 = (Inr r, w')"
    and "run_storable L r (w_runs w')" and "tables_ready r (w_runs w') (tables sw)"
  obtains sw1 sw' where "ee_now (pg_executor L P) sw = (now, sw1)"
    and "complete_run (pg_executor L P) c r0 steps et msg md sw1 = (Inr r, sw')" and "mirrors L sw' w'"
proof -
  obtain sw1 where now: "ee_now (pg_executor L P) sw = (now, sw1)" "mirrors L sw1 w1"
    using pg_mirror.same_now [OF assms(1), of P] assms(3) by (auto elim!: alikeE)
  have same: "w_runs w1 = w_runs w" "tables sw1 = tables sw"
    using now(1) assms(3) app_effects(1) [of P w] beside_tables [of "app_now P" sw]
    by (auto simp: app_executor_fields pg_executor_fields)
  have r: "r0 = r" using assms(4) by (auto simp: complete_run_def split: prod.splits option.splits)
  have "run_mem_GetRun (run_TenantID r0) (run_ID r0) (w_runs w1) = Inr r1" using assms(2) same(1) by simp
  from complete_run_mirrors [OF now(2) this assms(4)] assms(5,6) same(2) now(1) that show thesis
    unfolding r by metis
qed

lemma pause_mirrors:
  assumes "mirrors L sw w" and "run_mem_GetRun (run_TenantID r0) (run_ID r0) (w_runs w) = Inr r1"
    and "settle_run (app_executor P) r0 st (Paused pause) w = (Inr r, w')"
    and "run_storable L r (w_runs w')" and "tables_ready r (w_runs w') (tables sw)"
  obtains sw' where "settle_run (pg_executor L P) r0 st (Paused pause) sw = (Inr r, sw')" and "mirrors L sw' w'"
proof -
  let ?r = "r0\<lparr>run_Status := RunStatusWaitingApproval, run_Output := pp_output pause\<rparr>"
  let ?p = "newRunAudit ?r ''run_waiting_approval'' ''workflow run is waiting for approval'' []"
  let ?m = "snd (run_mem_SavePending ?r (es_steps st) (pp_pending pause) (w_runs w))"
  have w': "?r = r" "w' = recordAudit (app_executor P) (run_TenantID ?r) ?p (w\<lparr>w_runs := ?m\<rparr>)"
    using assms(3) by (auto simp: settle_run_def Let_def app_executor_fields on_runs_def run_mem_SavePending_def)
  then have runs: "w_runs w' = ?m" by (simp add: recordAudit_runs)
  then have stored: "rm_steps (w_runs w') (run_ID r) = es_steps st" "rm_pending (w_runs w') (run_ID r) = Some (pp_pending pause)"
    using w'(1) by (auto simp: run_mem_SavePending_def)
  have get: "run_mem_GetRun (run_TenantID r) (run_ID r) (w_runs w) = Inr r1" using assms(2) w'(1) by auto
  obtain g where g: "pg_SavePending L r (es_steps st) (pp_pending pause) (fst sw) = (None, g)" "represents L (pg_db g) ?m"
    using SavePending_represented [of L "fst sw" "w_runs w" r r1 "es_steps st" "es_steps st" "pp_pending pause"] get assms(1,4,5)
    unfolding w'(1) by (auto simp: mirrors_def run_storable_def tables_ready_def stored)
  from mirrors_write [of L sw w "pg_SavePending L r (es_steps st) (pp_pending pause)", OF assms(1) g(1) writes_keep(4) g(2)]
  have saved: "on_pg (pg_SavePending L r (es_steps st) (pp_pending pause)) sw = (None, (g, snd sw))"
    "mirrors L (g, snd sw) (w\<lparr>w_runs := ?m\<rparr>)" by auto
  show thesis
    using that [of "recordAudit (pg_executor L P) (run_TenantID ?r) ?p (g, snd sw)"]
      pg_mirror.same_audit [OF saved(2)] w'(2) saved(1)
    by (simp add: settle_run_def Let_def pg_executor_fields w'(1))
qed

lemma settle_run_mirrors:
  assumes "mirrors L sw w" and "run_mem_GetRun (run_TenantID r0) (run_ID r0) (w_runs w) = Inr r1"
    and "settle_run (app_executor P) r0 st out w = (Inr r, w')"
    and "run_storable L r (w_runs w')" and "tables_ready r (w_runs w') (tables sw)"
  obtains sw' where "settle_run (pg_executor L P) r0 st out sw = (Inr r, sw')" and "mirrors L sw' w'"
proof -
  obtain now w1 where now: "ee_now (app_executor P) w = (now, w1)" by (metis prod.collapse)
  show thesis
  proof (cases out)
    case (Aborted e)
    then show ?thesis using assms(3) by (simp add: settle_run_def)
  next
    case (Paused pause)
    then show ?thesis using pause_mirrors [OF assms(1,2) _ assms(4,5)] assms(3) that by auto
  next
    case (Failed failure)
    let ?md = "[(''failed_node'', VStr (rf_NodeID failure))]"
    let ?r = "r0\<lparr>run_Status := RunStatusFailed, run_Error := error_text (rf_Err failure), run_Output := VMap ?md,
      run_CompletedAt := now\<rparr>"
    have get: "run_mem_GetRun (run_TenantID ?r) (run_ID ?r) (w_runs w) = Inr r1" using assms(2) by simp
    have run: "complete_run (app_executor P) ''complete failed run'' ?r (es_steps st) ''run_failed'' (run_Error ?r) ?md w1 = (Inr r, w')"
      using assms(3) Failed now by (simp add: settle_run_def Let_def)
    obtain sw1 sw' where "ee_now (pg_executor L P) sw = (now, sw1)"
        "complete_run (pg_executor L P) ''complete failed run'' ?r (es_steps st) ''run_failed'' (run_Error ?r) ?md sw1 = (Inr r, sw')"
        "mirrors L sw' w'"
      by (rule complete_later_mirrors [OF assms(1) get now run assms(4,5)])
    then show ?thesis using that Failed by (simp add: settle_run_def Let_def)
  next
    case Finished
    let ?r = "r0\<lparr>run_Status := RunStatusCompleted, run_Output := buildRunOutput (es_lastNodeID st) (es_stepOutputs st),
      run_CompletedAt := now\<rparr>"
    have get: "run_mem_GetRun (run_TenantID ?r) (run_ID ?r) (w_runs w) = Inr r1" using assms(2) by simp
    have run: "complete_run (app_executor P) ''complete run'' ?r (es_steps st) ''run_completed'' ''workflow run completed'' [] w1 = (Inr r, w')"
      using assms(3) Finished now by (simp add: settle_run_def Let_def)
    obtain sw1 sw' where "ee_now (pg_executor L P) sw = (now, sw1)"
        "complete_run (pg_executor L P) ''complete run'' ?r (es_steps st) ''run_completed'' ''workflow run completed'' [] sw1 = (Inr r, sw')"
        "mirrors L sw' w'"
      by (rule complete_later_mirrors [OF assms(1) get now run assms(4,5)])
    then show ?thesis using that Finished by (simp add: settle_run_def Let_def)
  qed
qed

section \<open>Executing a run\<close>

text \<open>What \<open>tables_ready\<close> looks at; effects of nodes and audit events leave it alone.\<close>

definition ready_tables :: "pg_world \<Rightarrow> tenant list \<times> workflow_row list \<times> step_row list" where
  "ready_tables sw = (db_tenants (tables sw), db_workflows (tables sw), db_workflow_steps (tables sw))"

lemma tables_ready_cong: "ready_tables sw' = ready_tables sw \<Longrightarrow> tables_ready r m (tables sw') = tables_ready r m (tables sw)"
  by (simp add: ready_tables_def tables_ready_def has_tenant_def has_workflow_def steps_fresh_def)

lemma ready_beside [simp]: "ready_tables (snd (beside f sw)) = ready_tables sw"
  by (simp add: ready_tables_def)

lemma Record_ready: "ready_tables (snd (audit_Record (pg_audit L P) t p sw)) = ready_tables sw"
  using pg_audit_Record_tables [of L P t p sw] by (auto simp: ready_tables_def)

interpretation pg_ready: effect_frame "pg_executor L P" ready_tables
  by unfold_locales (auto simp: pg_executor_def Record_ready)

lemma continueExecution_mirrors:
  assumes "mirrors L sw w" and "buildGraph d = Inr g"
    and "continueExecution (app_executor P) runID t g i st w = Some (x, w')"
  obtains sw' where "continueExecution (pg_executor L P) runID t g i st sw = Some (x, sw')" and "mirrors L sw' w'"
    and "ready_tables sw' = ready_tables sw"
proof -
  obtain y sw' where run: "continueExecution (pg_executor L P) runID t g i st sw = Some (y, sw')"
    using continueExecution_total [OF assms(2), of "pg_executor L P" runID t i st sw] by auto
  obtain w'' where "continueExecution (app_executor P) runID t g i st w = Some (y, w'')" "mirrors L sw' w''"
    by (rule pg_mirror.continueExecution_same [OF run assms(1)])
  with assms(3) show thesis using that run pg_ready.continueExecution_obs [OF run] by simp
qed

lemma continueExecution_runs:
  "continueExecution (app_executor P) runID t g i st w = Some (x, w') \<Longrightarrow> w_runs w' = w_runs w"
  using app_stores.continueExecution_obs by fastforce

lemma executeRun_mirrors:
  assumes "mirrors L sw w" and "buildGraph d = Inr g"
    and "run_mem_GetRun (run_TenantID r0) (run_ID r0) (w_runs w) = Inr r1"
    and "executeRun (app_executor P) r0 g input st w = Some (Inr r, w')"
    and "run_storable L r (w_runs w')" and "tables_ready r (w_runs w') (tables sw)"
  obtains sw' where "executeRun (pg_executor L P) r0 g input st sw = Some (Inr r, sw')" and "mirrors L sw' w'"
proof -
  let ?p = "newRunAudit r0 ''run_started'' ''workflow run started'' []"
  let ?w1 = "recordAudit (app_executor P) (run_TenantID r0) ?p w" and ?sw1 = "recordAudit (pg_executor L P) (run_TenantID r0) ?p sw"
  obtain st' out w2 where run: "continueExecution (app_executor P) (run_ID r0) (run_TenantID r0) g input st ?w1 = Some ((st', out), w2)"
    and settle: "settle_run (app_executor P) r0 st' out w2 = (Inr r, w')"
    using assms(4) by (auto simp: executeRun_def Let_def split: option.splits)
  obtain sw2 where run': "continueExecution (pg_executor L P) (run_ID r0) (run_TenantID r0) g input st ?sw1 = Some ((st', out), sw2)"
    and m: "mirrors L sw2 w2" and ready: "ready_tables sw2 = ready_tables ?sw1"
    by (rule continueExecution_mirrors [OF pg_mirror.same_audit [OF assms(1)] assms(2) run])
  have "w_runs w2 = w_runs w" using continueExecution_runs [OF run] by (simp add: recordAudit_runs)
  then have get: "run_mem_GetRun (run_TenantID r0) (run_ID r0) (w_runs w2) = Inr r1" using assms(3) by simp
  have "tables_ready r (w_runs w') (tables sw2)"
    using assms(6) tables_ready_cong [of sw2 sw] ready pg_ready.recordAudit_obs by simp
  then obtain sw' where "settle_run (pg_executor L P) r0 st' out sw2 = (Inr r, sw')" "mirrors L sw' w'"
    by (rule settle_run_mirrors [OF m get settle assms(5)])
  then show thesis using that run' by (simp add: executeRun_def Let_def)
qed

text \<open>What an execution leaves of the run that it was given.\<close>

lemma executeRun_fields:
  assumes "executeRun E r0 g input st s = Some (Inr r, s')"
  shows "run_ID r = run_ID r0" "run_TenantID r = run_TenantID r0" "run_WorkflowID r = run_WorkflowID r0"
    "run_CreatedAt r = run_CreatedAt r0" "run_StartedAt r = run_StartedAt r0"
  using assms
  by (auto simp: executeRun_def settle_run_def complete_run_def Let_def split: option.splits prod.splits outcome.splits)

lemma create_ready:
  assumes "pg_CreateRun L r g = (None, g1)"
  shows "ready_tables (g1, v) = ready_tables (g, v')"
proof -
  have "insert_run L r (pg_db g) = Inr (pg_db g1)"
    using assms by (auto simp: pg_CreateRun_def pg_step_None dest: pg_exec_None)
  then have "\<exists>rows. pg_db g1 = (pg_db g)\<lparr>db_workflow_runs := rows\<rparr>"
    by (auto simp: insert_run_def dest: sym split: sum.splits)
  then show ?thesis by (auto simp: ready_tables_def)
qed

section \<open>Properties\<close>

lemma workflows_Get_mirrors:
  "mirrors L sw w \<Longrightarrow> workflows_Get (pg_workflows L P) t k sw = workflows_Get (app_workflows P) t k w"
  by (simp add: workflows_Get_def pg_workflows_def app_workflows_def mirrors_def same_reads_def)

lemma LoadPending_mirrors: "mirrors L sw w \<Longrightarrow> pg_LoadPending L t k (fst sw) = run_mem_LoadPending t k (w_runs w)"
  by (simp add: mirrors_def LoadPending_represented)

lemma get_put_run: "run_mem_GetRun (run_TenantID r) (run_ID r) (put_run r m) = Inr r"
  by (simp add: run_mem_GetRun_def put_run_def update_conv')

text \<open>C18: a run over PostgreSQL is the run over the memory: when the tables mirror the repositories in memory,
  and a synchronous execution there answers a run that the columns can keep, the same request over
  PostgreSQL answers the same run, and the tables mirror the memory again: the run, its steps and pending
  state are stored as they are there, and files, queue and trigger control of the two processes agree.\<close>
theorem pg_sync_as_in_memory:
  assumes "mirrors L sw w" and "ExecuteSync (app_executor P) t k input w = Some (Inr r, w')"
    and "run_storable L r (w_runs w')" and "tables_ready r (w_runs w') (tables sw)"
    and "run_kept L (sync_run (run_ID r) t k input (run_CreatedAt r))" and "map_of (rm_runs (w_runs w)) (run_ID r) = None"
  shows "\<exists>sw'. ExecuteSync (pg_executor L P) t k input sw = Some (Inr r, sw') \<and> mirrors L sw' w'"
proof -
  let ?A = "app_executor P" and ?E = "pg_executor L P"
  obtain wf runID w1 began w2 w3 g where steps: "trim_space t \<noteq> []" "workflows_Get (app_workflows P) t k w = Inr wf"
      "ee_newID ?A w = (Inr runID, w1)" "ee_now ?A w1 = (began, w2)"
      "ee_CreateRun ?A (sync_run runID t k input began) w2 = (None, w3)" "buildGraph (wf_Definition wf) = Inr g"
    and run: "executeRun ?A (sync_run runID t k input began) g input (newExecutionState (graph_roots g)) w3 = Some (Inr r, w')"
    using assms(2)
    by (auto simp: ExecuteSync_def Let_def app_executor_fields(9) split: if_splits sum.splits prod.splits option.splits)
  obtain sw1 where id: "ee_newID ?E sw = (Inr runID, sw1)" "mirrors L sw1 w1"
    using pg_mirror.same_newID [OF assms(1), of P] steps(3) by (auto elim!: alikeE)
  obtain sw2 where now: "ee_now ?E sw1 = (began, sw2)" "mirrors L sw2 w2"
    using pg_mirror.same_now [OF id(2), of P] steps(4) by (auto elim!: alikeE)
  let ?r = "sync_run runID t k input began"
  have r: "run_ID r = runID" "run_CreatedAt r = began" "run_TenantID r = t" "run_WorkflowID r = k"
    using executeRun_fields [OF run] by (simp_all add: sync_run_def)
  have runs: "w_runs w2 = w_runs w"
    using steps(3,4) app_effects(1) [of P w1] app_effects(2) [of P w] by (simp add: app_executor_fields)
  have tables: "tables sw2 = tables sw"
    using id(1) now(1) beside_tables [of "app_newID P" sw] beside_tables [of "app_now P" sw1] by (simp add: pg_executor_fields)
  obtain g1 where g1: "pg_CreateRun L ?r (fst sw2) = (None, g1)" "represents L (pg_db g1) (put_run ?r (w_runs w2))"
    using CreateRun_represented [of L "fst sw2" "w_runs w2" ?r] now(2) assms(4-6) runs tables r
    by (auto simp: mirrors_def tables_ready_def run_mem_CreateRun_def sync_run_def)
  have w3: "w3 = w2\<lparr>w_runs := put_run ?r (w_runs w2)\<rparr>"
    using steps(5) by (simp add: app_executor_fields on_runs_def run_mem_CreateRun_def)
  from mirrors_write [of L sw2 w2 "pg_CreateRun L ?r", OF now(2) g1(1) writes_keep(1) g1(2)]
  have create: "ee_CreateRun ?E ?r sw2 = (None, (g1, snd sw2))" "mirrors L (g1, snd sw2) w3"
    by (simp_all add: pg_executor_fields w3)
  have "tables_ready r (w_runs w') (tables (g1, snd sw2))"
    using assms(4) tables_ready_cong [of "(g1, snd sw2)" sw] create_ready [OF g1(1), of "snd sw2" "snd sw2"] tables by (simp add: ready_tables_def)
  then obtain sw' where "executeRun ?E ?r g input (newExecutionState (graph_roots g)) (g1, snd sw2) = Some (Inr r, sw')"
      "mirrors L sw' w'"
    using executeRun_mirrors [OF create(2) steps(6) _ run assms(3)] get_put_run [of ?r "w_runs w2"] by (auto simp: w3)
  then show ?thesis
    using steps(1,2,6) id(1) now(1) create(1) workflows_Get_mirrors [OF assms(1), of P t k]
    by (simp add: ExecuteSync_def Let_def pg_executor_fields(7))
qed


text \<open>The memory keeps a run under its own id, when tables represent it.\<close>

lemma represented_id:
  assumes "represents L db m" and "run_mem_GetRun t k m = Inr r"
  shows "run_ID r = k" and "run_TenantID r = t"
proof -
  have r: "map_of (rm_runs m) k = Some r" "run_TenantID r = t"
    using assms(2) by (auto simp: run_mem_GetRun_def split: option.splits if_splits)
  then obtain row where "rw_id row = k" "scanRun L row = Inr r"
    using assms(1) unfolding represents_def rep_runs_def list_all2_conv_all_nth
    by (force dest!: map_of_SomeD simp: in_set_conv_nth rep_run_def)
  then show "run_ID r = k" "run_TenantID r = t" using r(2) by (auto simp: scanRun_def split: sum.splits)
qed

text \<open>A decision on an approval, and an attempt on a job, likewise.\<close>

theorem pg_decision_as_in_memory:
  assumes "mirrors L sw w" and "ResumeApproval (app_executor P) t k approved comment input w = Some (Inr r, w')"
    and "run_storable L r (w_runs w')" and "tables_ready r (w_runs w') (tables sw)"
  shows "\<exists>sw'. ResumeApproval (pg_executor L P) t k approved comment input sw = Some (Inr r, sw') \<and> mirrors L sw' w'"
proof -
  let ?A = "app_executor P" and ?E = "pg_executor L P"
  obtain r0 steps0 p wf g where loaded: "trim_space t \<noteq> []" "run_mem_LoadPending t k (w_runs w) = Inr (r0, steps0, p)"
      "workflows_Get (app_workflows P) t (run_WorkflowID r0) w = Inr wf" "buildGraph (wf_Definition wf) = Inr g"
      "\<not> (steps0 = [] \<or> step_NodeID (last steps0) \<noteq> pn_WaitingNodeID p)"
    using assms(2)
    by (auto simp: ResumeApproval_def Let_def app_executor_fields(5,9) split: if_splits sum.splits prod.splits)
  then have loaded': "ee_LoadPending ?E t k sw = Inr (r0, steps0, p)" "ee_LoadPending ?A t k w = Inr (r0, steps0, p)"
      "ee_workflows_Get ?E t (run_WorkflowID r0) sw = Inr wf" "ee_workflows_Get ?A t (run_WorkflowID r0) w = Inr wf"
    using LoadPending_mirrors [OF assms(1)] workflows_Get_mirrors [OF assms(1)]
    by (simp_all add: app_executor_fields pg_executor_fields)
  have "run_mem_GetRun t k (w_runs w) = Inr r0"
    using loaded(2) by (auto simp: run_mem_LoadPending_def run_mem_GetRun_def split: option.splits if_splits)
  then have get: "run_mem_GetRun (run_TenantID r0) (run_ID r0) (w_runs w) = Inr r0"
    using represented_id [of L "tables sw" "w_runs w" t k r0] assms(1) by (simp add: mirrors_def)
  obtain resolvedAt sw1 w1 where now: "ee_now ?E sw = (resolvedAt, sw1)" "ee_now ?A w = (resolvedAt, w1)" "mirrors L sw1 w1"
    using pg_mirror.same_now [OF assms(1)] by (rule alikeE)
  let ?r = "r0\<lparr>run_Input := mergeInput (run_Input r0) input\<rparr>"
  let ?out = "approval_output approved comment"
  let ?steps = "resolve_last ?out resolvedAt steps0"
  let ?p = "\<lparr>rp_RunID = run_ID ?r, rp_WorkflowID = run_WorkflowID ?r, rp_StepID = step_ID (last ?steps),
    rp_NodeID = pn_WaitingNodeID p, rp_Type = ''approval_resolved'', rp_Message = ''approval decision recorded'',
    rp_Metadata = approval_fields approved comment\<rparr>"
  let ?sw2 = "recordAudit ?E t ?p sw1" and ?w2 = "recordAudit ?A t ?p w1"
  have m2: "mirrors L ?sw2 ?w2" by (rule pg_mirror.same_audit [OF now(3)])
  have runs1: "w_runs w1 = w_runs w" using now(2) app_effects(1) [of P w] by (simp add: app_executor_fields)
  then have runs2: "w_runs ?w2 = w_runs w" by (simp add: recordAudit_runs)
  have ready1: "ready_tables sw1 = ready_tables sw" using pg_ready.now_obs' [OF now(1)] .
  have ready: "tables_ready r (w_runs w') (tables sw3)" if "ready_tables sw3 = ready_tables ?sw2" for sw3
    using assms(4) that ready1 by (simp add: tables_ready_cong [of sw3 sw])
  show ?thesis
  proof (cases approved)
    case False
    obtain now w3 where now3: "ee_now ?A ?w2 = (now, w3)" by (metis prod.collapse)
    let ?md = "[(''failed_node'', VStr (pn_WaitingNodeID p)), (''approval'', ?out)]"
    let ?r1 = "?r\<lparr>run_Status := RunStatusFailed, run_Error := ''approval rejected'', run_Output := VMap ?md,
      run_CompletedAt := now\<rparr>"
    have get1: "run_mem_GetRun (run_TenantID ?r1) (run_ID ?r1) (w_runs ?w2) = Inr r0" using get runs2 by simp
    have run: "complete_run ?A ''complete rejected run'' ?r1 ?steps ''run_failed'' (run_Error ?r1) ?md w3 = (Inr r, w')"
      using assms(2) loaded loaded' now(2) now3 False by (simp add: ResumeApproval_def Let_def)
    obtain sw3 sw' where "ee_now ?E ?sw2 = (now, sw3)"
        "complete_run ?E ''complete rejected run'' ?r1 ?steps ''run_failed'' (run_Error ?r1) ?md sw3 = (Inr r, sw')"
        "mirrors L sw' w'"
      by (rule complete_later_mirrors [OF m2 get1 now3 run assms(3) ready [OF refl]])
    then show ?thesis using loaded loaded' now(1) False by (simp add: ResumeApproval_def Let_def)
  next
    case True
    let ?r1 = "?r\<lparr>run_Status := RunStatusRunning, run_Error := [], run_Output := VNil, run_CompletedAt := zero_time\<rparr>"
    let ?st = "resumed_state ?steps p ?out"
    have run: "executeRun ?A ?r1 g (run_Input ?r1) ?st ?w2 = Some (Inr r, w')"
      using assms(2) loaded loaded' now(2) True by (simp add: ResumeApproval_def Let_def)
    have "run_mem_GetRun (run_TenantID ?r1) (run_ID ?r1) (w_runs ?w2) = Inr r0" using get runs2 by simp
    then obtain sw' where "executeRun ?E ?r1 g (run_Input ?r1) ?st ?sw2 = Some (Inr r, sw')" "mirrors L sw' w'"
      by (rule executeRun_mirrors [OF m2 loaded(4) _ run assms(3) ready [OF refl]])
    then show ?thesis using loaded loaded' now(1) True by (simp add: ResumeApproval_def Let_def)
  qed
qed


section \<open>Jobs\<close>

lemma encode_run_workflow:
  assumes "encode_run L r = Inr row"
  shows "encode_run L (r\<lparr>run_WorkflowID := run_ID r\<rparr>) = Inr (row\<lparr>rw_workflow_id := run_ID r\<rparr>)"
  using assms by (auto simp: encode_run_def texts_ok_def split: sum.splits)

lemma UpdateRun_represented:
  assumes "no_faults L" and "represents L (pg_db s) m" and "run_mem_GetRun (run_TenantID r) (run_ID r) m = Inr r0"
    and "run_kept L r" and "run_WorkflowID r = run_WorkflowID r0"
  obtains s' where "pg_UpdateRun L r s = (None, s')" and "represents L (pg_db s') (put_run r m)"
proof -
  obtain row where row: "encode_run L r = Inr row" "scanRun L row = Inr r" "rw_id row = run_ID r"
      "rw_tenant_id row = run_TenantID r" "rw_workflow_id row = run_WorkflowID r"
    using run_keptE [OF assms(4)] by metis
  have r0: "map_of (rm_runs m) (run_ID r) = Some r0" "run_TenantID r0 = run_TenantID r"
    using assms(3) by (auto simp: run_mem_GetRun_def split: option.splits if_splits)
  let ?rows = "db_workflow_runs (pg_db s)"
  have reps: "rep_runs L ?rows (rm_runs m)" using assms(2) by (simp add: represents_def)
  have old: "rw_workflow_id old = run_WorkflowID r" if "old \<in> set ?rows" "is_run (run_TenantID r) (run_ID r) old" for old
  proof -
    obtain x where x: "find (is_run (run_TenantID r) (run_ID r)) ?rows = Some x" "scanRun L x = Inr r0"
      using find_run [of L ?rows "rm_runs m", where k = "run_ID r" and t = "run_TenantID r"] reps r0 by (auto simp: rep_runs_def)
    then have "x \<in> set ?rows" "rw_id x = run_ID r" using find_elem [OF x(1)] by (simp_all add: is_run_def)
    moreover have "rw_id old = run_ID r" using that(2) by (simp add: is_run_def)
    moreover have "inj_on rw_id (set ?rows)" using reps by (simp add: rep_runs_def distinct_map)
    ultimately have "old = x" using that(1) by (simp add: inj_on_def)
    then show ?thesis using x(2) assms(5) by (auto simp: scanRun_def split: sum.splits)
  qed
  let ?new = "map (\<lambda>old. if is_run (run_TenantID r) (run_ID r) old then row else old) ?rows"
  let ?db = "(pg_db s)\<lparr>db_workflow_runs := ?new\<rparr>"
  have "map (\<lambda>old. if is_run (run_TenantID r) (run_ID r) old
        then (row\<lparr>rw_workflow_id := run_ID r\<rparr>)\<lparr>rw_workflow_id := rw_workflow_id old\<rparr> else old) ?rows = ?new"
    using old row(5) by (intro map_cong refl) auto
  then have update: "update_run L r (pg_db s) = Inr ?db"
    using encode_run_workflow [OF row(1)] by (simp add: update_run_def)
  have done_: "pg_UpdateRun L r s = (None, \<lparr>pg_db = ?db, pg_tick = Suc (pg_tick s)\<rparr>)"
    using pg_exec_ok [where f = "update_run L r", OF assms(1) update] by (simp add: pg_UpdateRun_def pg_step_def)
  have "rep_runs L ?new (AList.update (run_ID r) r (rm_runs m))"
    by (rule rep_runs_write [OF reps r0 row(2,3)])
  moreover have "pending_owned ?db"
  proof -
    have "(\<lambda>r. (rw_id r, rw_tenant_id r)) ` set ?new = (\<lambda>r. (rw_id r, rw_tenant_id r)) ` set ?rows"
      using arg_cong [OF update_pairs [OF row(3,4), of ?rows], of set] unfolding list.set_map .
    then show ?thesis using assms(2) unfolding represents_def pending_owned_def by simp
  qed
  ultimately have "represents L ?db (put_run r m)"
    using assms(2)
    by (simp add: represents_def put_run_def rep_steps_def select_steps_def rep_pending_def find_pending_def)
  then show thesis using that [OF done_] by simp
qed

lemma update_ready:
  assumes "pg_UpdateRun L r g = (None, g1)"
  shows "ready_tables (g1, v) = ready_tables (g, v')"
proof -
  have "update_run L r (pg_db g) = Inr (pg_db g1)"
    using assms by (auto simp: pg_UpdateRun_def pg_step_None dest: pg_exec_None)
  then have "\<exists>rows. pg_db g1 = (pg_db g)\<lparr>db_workflow_runs := rows\<rparr>"
    by (auto simp: update_run_def dest: sym split: sum.splits)
  then show ?thesis by (auto simp: ready_tables_def)
qed

lemma started_run_fields:
  "run_ID (started_run job r began) = run_ID r" "run_TenantID (started_run job r began) = run_TenantID r"
  "run_WorkflowID (started_run job r began) = run_WorkflowID r" "run_StartedAt (started_run job r began) = began"
  by (simp_all add: started_run_def)

lemma fail_job_mirrors:
  assumes "mirrors L sw w" and "run_mem_GetRun (run_TenantID r0) (run_ID r0) (w_runs w) = Inr r1"
    and "fail_job (app_executor P) c r0 e w = (Inr r, w')"
    and "run_storable L r (w_runs w')" and "tables_ready r (w_runs w') (tables sw)"
  obtains sw' where "fail_job (pg_executor L P) c r0 e sw = (Inr r, sw')" and "mirrors L sw' w'"
proof -
  obtain now sw1 w1 where now: "ee_now (pg_executor L P) sw = (now, sw1)" "ee_now (app_executor P) w = (now, w1)"
      "mirrors L sw1 w1"
    using pg_mirror.same_now [OF assms(1)] by (rule alikeE)
  have runs1: "w_runs w1 = w_runs w" using now(2) app_effects(1) [of P w] by (simp add: app_executor_fields)
  let ?r = "r0\<lparr>run_Status := RunStatusFailed, run_Error := error_text e, run_CompletedAt := now\<rparr>"
  let ?m = "snd (run_mem_CompleteRun ?r [] (w_runs w1))"
  have r: "?r = r" and w': "w' = w1\<lparr>w_runs := ?m\<rparr>"
    using assms(3) now(2)
    by (auto simp: fail_job_def Let_def app_executor_fields on_runs_def run_mem_CompleteRun_def)
  then have steps: "rm_steps (w_runs w') (run_ID r) = []" by (auto simp: run_mem_CompleteRun_def)
  have ready: "tables_ready r (w_runs w') (tables sw1)"
    using assms(5) tables_ready_cong [OF pg_ready.now_obs' [OF now(1)]] by simp
  have get: "run_mem_GetRun (run_TenantID r) (run_ID r) (w_runs w1) = Inr r1" using assms(2) runs1 r by auto
  obtain g where g: "pg_CompleteRun L r [] (fst sw1) = (None, g)" "represents L (pg_db g) ?m"
    using CompleteRun_represented [OF _ _ get, of L "fst sw1" "[]" "[]"] now(3) assms(4) ready
    unfolding r by (auto simp: mirrors_def run_storable_def tables_ready_def steps)
  from mirrors_write [of L sw1 w1 "pg_CompleteRun L r []", OF now(3) g(1) writes_keep(3) g(2)]
  show thesis
    using that [of "(g, snd sw1)"] now(1) w' by (simp add: fail_job_def Let_def pg_executor_fields r)
qed

lemma start_job_mirrors:
  assumes "mirrors L sw w" and "run_mem_GetRun (run_TenantID r0) (run_ID r0) (w_runs w) = Inr r0"
    and "ee_now (app_executor P) w = (began, w1)" and "buildGraph d = Inr g"
    and "executeRun (app_executor P) (started_run job r0 began) g (run_Input (started_run job r0 began)) st
      (w1\<lparr>w_runs := put_run (started_run job r0 began) (w_runs w1)\<rparr>) = Some (Inr r, w')"
    and "run_storable L r (w_runs w')" and "tables_ready r (w_runs w') (tables sw)"
    and "run_kept L (started_run job r0 began)"
  shows "\<exists>sw1 sw2 sw'. ee_now (pg_executor L P) sw = (began, sw1) \<and>
    ee_UpdateRun (pg_executor L P) (started_run job r0 began) sw1 = (None, sw2) \<and>
    executeRun (pg_executor L P) (started_run job r0 began) g (run_Input (started_run job r0 began)) st sw2 =
      Some (Inr r, sw') \<and> mirrors L sw' w'"
proof -
  let ?r = "started_run job r0 began"
  obtain sw1 where now: "ee_now (pg_executor L P) sw = (began, sw1)" "mirrors L sw1 w1"
    using pg_mirror.same_now [OF assms(1), of P] assms(3) by (auto elim!: alikeE)
  have runs: "w_runs w1 = w_runs w" using assms(3) app_effects(1) [of P w] by (simp add: app_executor_fields)
  have get: "run_mem_GetRun (run_TenantID ?r) (run_ID ?r) (w_runs w1) = Inr r0"
    using assms(2) runs by (simp add: started_run_fields)
  obtain g1 where g1: "pg_UpdateRun L ?r (fst sw1) = (None, g1)" "represents L (pg_db g1) (put_run ?r (w_runs w1))"
    using UpdateRun_represented [OF _ _ get assms(8) started_run_fields(3), of "fst sw1"] now(2)
    by (auto simp: mirrors_def)
  from mirrors_write [of L sw1 w1 "pg_UpdateRun L ?r", OF now(2) g1(1) writes_keep(2) g1(2)]
  have update: "ee_UpdateRun (pg_executor L P) ?r sw1 = (None, (g1, snd sw1))"
      "mirrors L (g1, snd sw1) (w1\<lparr>w_runs := put_run ?r (w_runs w1)\<rparr>)"
    by (simp_all add: pg_executor_fields)
  have "tables_ready r (w_runs w') (tables (g1, snd sw1))"
    using assms(7) tables_ready_cong [of "(g1, snd sw1)" sw] update_ready [OF g1(1), of "snd sw1" "snd sw1"]
      pg_ready.now_obs' [OF now(1)] by (simp add: ready_tables_def)
  then obtain sw' where "executeRun (pg_executor L P) ?r g (run_Input ?r) st (g1, snd sw1) = Some (Inr r, sw')" "mirrors L sw' w'"
    using executeRun_mirrors [OF update(2) assms(4) _ assms(5,6)] get_put_run [of ?r "w_runs w1"] by auto
  then show ?thesis using now(1) update(1) by blast
qed

theorem pg_job_as_in_memory:
  assumes "mirrors L sw w" and "ProcessAsyncJob (app_executor P) job w = Some (Inr r, w')"
    and "run_mem_GetRun (job_TenantID job) (job_RunID job) (w_runs w) = Inr r0"
    and "run_storable L r (w_runs w')" and "tables_ready r (w_runs w') (tables sw)"
    and "run_kept L (started_run job r0 (run_StartedAt r))"
  shows "\<exists>sw'. ProcessAsyncJob (pg_executor L P) job sw = Some (Inr r, sw') \<and> mirrors L sw' w'"
proof -
  let ?A = "app_executor P" and ?E = "pg_executor L P"
  let ?t = "job_TenantID job" and ?k = "job_WorkflowID job"
  have trim: "trim_space ?t \<noteq> []" using assms(2) by (auto simp: ProcessAsyncJob_def)
  have read: "ee_GetRun ?A ?t (job_RunID job) w = Inr r0" "ee_GetRun ?E ?t (job_RunID job) sw = Inr r0"
    using assms(1,3) GetRun_represented [of L "fst sw" "w_runs w"]
    by (simp_all add: app_executor_fields pg_executor_fields mirrors_def)
  have get: "run_mem_GetRun (run_TenantID r0) (run_ID r0) (w_runs w) = Inr r0"
    using represented_id [of L "tables sw" "w_runs w"] assms(1,3) by (auto simp: mirrors_def)
  have wf: "ee_workflows_Get ?E ?t ?k sw = ee_workflows_Get ?A ?t ?k w"
    using workflows_Get_mirrors [OF assms(1)] by (simp add: app_executor_fields pg_executor_fields)
  show ?thesis
  proof (cases "run_Status r0 = RunStatusQueued")
    case False
    then show ?thesis using assms(1,2) trim read by (simp add: ProcessAsyncJob_def)
  next
    case queued: True
    show ?thesis
    proof (cases "ee_workflows_Get ?A ?t ?k w")
      case (Inl e)
      then have "fail_job ?A ''complete missing async workflow run'' r0 e w = (Inr r, w')"
        using assms(2) trim read queued by (simp add: ProcessAsyncJob_def)
      then obtain sw' where "fail_job ?E ''complete missing async workflow run'' r0 e sw = (Inr r, sw')" "mirrors L sw' w'"
        by (rule fail_job_mirrors [OF assms(1) get _ assms(4,5)])
      then show ?thesis using trim read queued wf Inl by (simp add: ProcessAsyncJob_def)
    next
      case found: (Inr x)
      show ?thesis
      proof (cases "buildGraph (wf_Definition x)")
        case (Inl e)
        then have "fail_job ?A ''complete invalid async workflow run'' r0 e w = (Inr r, w')"
          using assms(2) trim read queued found by (simp add: ProcessAsyncJob_def)
        then obtain sw' where "fail_job ?E ''complete invalid async workflow run'' r0 e sw = (Inr r, sw')" "mirrors L sw' w'"
          by (rule fail_job_mirrors [OF assms(1) get _ assms(4,5)])
        then show ?thesis using trim read queued wf found Inl by (simp add: ProcessAsyncJob_def)
      next
        case (Inr g)
        obtain began w1 where now: "ee_now ?A w = (began, w1)" by (metis prod.collapse)
        let ?r = "started_run job r0 began" and ?st = "newExecutionState (graph_roots g)"
        have run: "executeRun ?A ?r g (run_Input ?r) ?st (w1\<lparr>w_runs := put_run ?r (w_runs w1)\<rparr>) = Some (Inr r, w')"
          using assms(2) trim read queued found Inr now
          by (simp add: ProcessAsyncJob_def Let_def app_executor_fields on_runs_def run_mem_UpdateRun_def)
        have kept: "run_kept L ?r" using assms(6) executeRun_fields(5) [OF run] by (simp add: started_run_fields)
        from start_job_mirrors [OF assms(1) get now Inr run assms(4,5) kept] show ?thesis
          using trim read queued wf found Inr by (auto simp: ProcessAsyncJob_def Let_def)
      qed
    qed
  qed
qed

section \<open>A small deployment\<close>

text \<open>The one workflow asks for an approval, the clock stands still, and the libraries read back what is written here.\<close>

definition mirror_pg :: pg_lib where
  "mirror_pg = demo_pg\<lparr>pl_definition := (\<lambda>txt. Inr ask_flow),
     pl_object := (\<lambda>txt. Inr (if txt = ''{}'' then [] else [(''config'', VMap [])])),
     pl_any := (\<lambda>txt. Inr (VMap [(''message'', VStr ''approval required'')]))\<rparr>"

definition mirror_platform :: platform where
  "mirror_platform = demo_platform\<lparr>pf_clock := (\<lambda>n. 5000)\<rparr>"

definition mirror_workflow :: workflow where
  "mirror_workflow = \<lparr>wf_ID = ''w1'', wf_TenantID = ''acme'', wf_Name = [], wf_Description = [], wf_Version = 1,
     wf_Status = StatusDraft, wf_ValidationStatus = ValidationStatusValid, wf_Definition = ask_flow,
     wf_CreatedAt = 0, wf_UpdatedAt = 0\<rparr>"

definition mirror_world :: world where
  "mirror_world = (start_world 10 0)\<lparr>w_runs := demo_memory, w_workflows := [''w1'' \<mapsto> mirror_workflow]\<rparr>"

lemma mirror_no_faults: "no_faults mirror_pg"
  using demo_kept(1) by (simp add: mirror_pg_def no_faults_def)

lemma mirror_reads: "same_reads mirror_pg demo_tables mirror_world"
proof -
  have "pl_definition mirror_pg raw = Inr ask_flow" for raw by (simp add: mirror_pg_def)
  then have "pg_wf_GetByID mirror_pg t k demo_tables = wf_mem_GetByID t k (w_workflows mirror_world)" for t k
    by (simp add: pg_wf_GetByID_def pg_query_ok [OF mirror_no_faults] demo_tables_def empty_database_def
        mirror_world_def wf_mem_GetByID_def mirror_workflow_def)
  moreover have "pg_doc_ListChunks mirror_pg t k demo_tables = doc_mem_ListChunks t k (w_documents mirror_world)" for t k
    by (simp add: pg_doc_ListChunks_def pg_doc_GetByID_def pg_query_ok [OF mirror_no_faults] demo_tables_def
        empty_database_def select_chunks_def mirror_world_def start_world_def empty_document_memory_def
        doc_mem_ListChunks_def sort_func_def)
  ultimately show ?thesis by (simp add: same_reads_def)
qed

lemma mirror_start: "mirrors mirror_pg (demo_tables, mirror_world) mirror_world"
proof -
  have "represents mirror_pg (pg_db demo_tables) demo_memory"
    using demo_represents
    by (simp add: represents_def rep_runs_def rep_run_def rep_steps_def rep_pending_def pending_owned_def
        find_pending_def demo_tables_def demo_memory_def empty_database_def empty_run_memory_def select_steps_def
        sort_func_def)
      (simp add: demo_row_def demo_run_def scanRun_def decodeJSON_def decodeNullableJSON_def mirror_pg_def demo_pg_def scan_time_def)
  then show ?thesis
    using mirror_no_faults mirror_reads by (simp add: mirrors_def same_process_def mirror_world_def)
qed

definition mirror_waiting :: run where
  "mirror_waiting = (sync_run [] ''acme'' ''w1'' [] 5000)
     \<lparr>run_Status := RunStatusWaitingApproval, run_Output := VMap [(''message'', VStr ''approval required'')]\<rparr>"

definition mirror_step :: step where
  "mirror_step = (step_of [] [] ask StepStatusWaitingApproval 5000)
     \<lparr>step_Output := VMap [(''message'', VStr ''approval required'')]\<rparr>"

definition mirror_pending :: pending_state where
  "mirror_pending = \<lparr>pn_WaitingNodeID = ''b'', pn_Queue = [], pn_StepOutputs = [], pn_Executed = {}\<rparr>"

lemma mirror_effects:
  "app_now mirror_platform w = (5000, tick w)" "app_newID mirror_platform w = (Inr [], tick w)"
  by (simp_all add: app_now_def app_newID_def mirror_platform_def demo_platform_def ids_New_def EncodeToString_def)

lemma mirror_graph:
  obtains g where "buildGraph ask_flow = Inr g" "graph_roots g = [''b'']" "graph_node g ''b'' = ask" "graph_next g ask v = []"
  by (simp add: buildGraph_def ask_flow_def ask_def audit_node_def count_incoming_def graph_node_def graph_next_def group_outbound_def)

lemma mirror_sync:
  "\<exists>w'. ExecuteSync (app_executor mirror_platform) ''acme'' ''w1'' [] mirror_world = Some (Inr mirror_waiting, w') \<and>
     rm_steps (w_runs w') [] = [mirror_step] \<and> rm_pending (w_runs w') [] = Some mirror_pending"
proof -
  obtain g where g: "buildGraph ask_flow = Inr g" "graph_roots g = [''b'']" "graph_node g ''b'' = ask"
      "graph_next g ask (VMap [(''message'', VStr ''approval required'')]) = []"
    by (rule mirror_graph)
  have ask: "node_Type ask = ''approval''" "node_ID ask = ''b''" "node_Config ask = []"
    by (simp_all add: ask_def audit_node_def)
  have runs: "w_runs (tick w) = w_runs w" "w_workflows (tick w) = w_workflows w" for w by (simp_all add: tick_def)
  have empty: "appendQueue [] [] {} = []" "cloneMap [] = []" "cloneBoolMap {} = {}" by code_simp+
  show ?thesis
    by (simp add: ExecuteSync_def trim_acme app_executor_fields workflows_Get_def app_workflows_def
        wf_mem_GetByID_def mirror_effects on_runs_def run_mem_CreateRun_def g Let_def mirror_world_def mirror_workflow_def
        executeRun_def continueExecution_def newExecutionState_def sync_run_def runs empty
        exec_loop.simps [of _ _ _ _ _ "\<lparr>es_steps = s, es_stepOutputs = so, es_lastNodeID = l,
          es_queue = q, es_executed = x\<rparr>" for s so l q x]
        run_node_def ask pause_at_def awaitApproval_def settle_run_def run_mem_SavePending_def
        stringConfig_def mirror_waiting_def mirror_step_def mirror_pending_def)
qed

lemma mirror_storable:
  assumes "rm_steps m [] = [mirror_step]" and "rm_pending m [] = Some mirror_pending"
  shows "run_storable mirror_pg mirror_waiting m" "tables_ready mirror_waiting m (pg_db demo_tables)"
    "run_kept mirror_pg (sync_run [] ''acme'' ''w1'' [] 5000)" "map_of (rm_runs (w_runs mirror_world)) [] = None"
proof -
  have id: "run_ID mirror_waiting = []" by (simp add: mirror_waiting_def sync_run_def)
  have "run_kept mirror_pg mirror_waiting" "steps_stored mirror_pg [] [mirror_step] [mirror_step]" by code_simp+
  moreover have "pending_kept mirror_pg mirror_waiting mirror_pending" by code_simp
  ultimately show "run_storable mirror_pg mirror_waiting m" using assms by (simp add: run_storable_def id)
  show "tables_ready mirror_waiting m (pg_db demo_tables)"
    using demo_kept(5-7) assms by (simp add: tables_ready_def id mirror_waiting_def sync_run_def steps_fresh_def demo_tables_def empty_database_def has_tenant_def has_workflow_def)
  show "run_kept mirror_pg (sync_run [] ''acme'' ''w1'' [] 5000)" by code_simp
  show "map_of (rm_runs (w_runs mirror_world)) [] = None" by (simp add: mirror_world_def demo_memory_def)
qed

theorem pg_sync_as_in_memory_witness:
  "\<exists>w' sw'. ExecuteSync (pg_executor mirror_pg mirror_platform) ''acme'' ''w1'' [] (demo_tables, mirror_world) =
       Some (Inr mirror_waiting, sw') \<and> mirrors mirror_pg sw' w' \<and> rm_pending (w_runs w') [] = Some mirror_pending"
proof -
  obtain w' where run: "ExecuteSync (app_executor mirror_platform) ''acme'' ''w1'' [] mirror_world = Some (Inr mirror_waiting, w')"
    and stored: "rm_steps (w_runs w') [] = [mirror_step]" "rm_pending (w_runs w') [] = Some mirror_pending"
    using mirror_sync by blast
  have fields: "run_ID mirror_waiting = []" "run_CreatedAt mirror_waiting = 5000"
    by (simp_all add: mirror_waiting_def sync_run_def)
  show ?thesis
    using pg_sync_as_in_memory [OF mirror_start run] mirror_storable [OF stored] stored(2) by (auto simp: fields)
qed

end
