(* ===== verification/Races.thy ===== *)
theory Races
  imports Lifecycle
begin

text \<open>
  Two decisions on one approval at the same time (\<open>executor/service.go\<close>). \<open>ResumeApproval\<close> reads the pending state
  and writes the outcome in separate calls of the repository, and nothing is locked between them. Its two stages
  are separated here, and another decision put between them.
\<close>

section \<open>The stages of a decision\<close>

definition resume_load ::
    "'s exec_env \<Rightarrow> string \<Rightarrow> string \<Rightarrow> 's \<Rightarrow> (run \<times> step list \<times> pending_state \<times> graph) result" where
  "resume_load E tenantID runID s =
     (if trim_space tenantID = [] then Inl exec_ErrInvalidTenant
      else case ee_LoadPending E tenantID runID s of
        Inl e \<Rightarrow> Inl e
      | Inr (r0, steps0, pending) \<Rightarrow>
          (case ee_workflows_Get E tenantID (run_WorkflowID r0) s of
             Inl e \<Rightarrow> Inl e
           | Inr w \<Rightarrow>
               (case buildGraph (wf_Definition w) of
                  Inl e \<Rightarrow> Inl e
                | Inr g \<Rightarrow>
                    if steps0 = [] \<or> step_NodeID (last steps0) \<noteq> pn_WaitingNodeID pending
                    then Inl ErrRunNotAwaitingReview
                    else Inr (r0, steps0, pending, g))))"

definition resume_decide ::
    "'s exec_env \<Rightarrow> string \<Rightarrow> bool \<Rightarrow> string \<Rightarrow> vmap \<Rightarrow> run \<times> step list \<times> pending_state \<times> graph \<Rightarrow> 's \<Rightarrow>
     (run result \<times> 's) option" where
  "resume_decide E tenantID approved comment input loaded s =
     (case loaded of (r0, steps0, pending, g) \<Rightarrow>
        let r = r0\<lparr>run_Input := mergeInput (run_Input r0) input\<rparr>;
            waiting = pn_WaitingNodeID pending;
            approvalOutput = approval_output approved comment in
        case ee_now E s of (resolvedAt, s1) \<Rightarrow>
          let steps = resolve_last approvalOutput resolvedAt steps0;
              s2 = recordAudit E tenantID
                \<lparr>rp_RunID = run_ID r, rp_WorkflowID = run_WorkflowID r,
                 rp_StepID = step_ID (last steps), rp_NodeID = waiting,
                 rp_Type = ''approval_resolved'',
                 rp_Message = ''approval decision recorded'',
                 rp_Metadata = approval_fields approved comment\<rparr> s1
          in if \<not> approved then
               (case ee_now E s2 of (now, s3) \<Rightarrow>
                  let rejection = [(''failed_node'', VStr waiting), (''approval'', approvalOutput)];
                      r1 = r\<lparr>run_Status := RunStatusFailed, run_Error := ''approval rejected'',
                             run_Output := VMap rejection, run_CompletedAt := now\<rparr>
                  in Some (complete_run E ''complete rejected run'' r1 steps ''run_failed''
                       (run_Error r1) rejection s3))
             else
               let r1 = r\<lparr>run_Status := RunStatusRunning, run_Error := [],
                          run_Output := VNil, run_CompletedAt := zero_time\<rparr>
               in executeRun E r1 g (run_Input r1) (resumed_state steps pending approvalOutput) s2)"

text \<open>The operation is its two stages, one right after the other.\<close>

lemma ResumeApproval_stages:
  "ResumeApproval E t k approved comment input s =
     (case resume_load E t k s of
        Inl e \<Rightarrow> Some (Inl e, s)
      | Inr loaded \<Rightarrow> resume_decide E t approved comment input loaded s)"
  by (simp add: ResumeApproval_def resume_load_def resume_decide_def Let_def split: sum.split prod.split)

section \<open>A second decision\<close>

text \<open>A rejection whose first stage was done is carried out in any later state.\<close>

lemma late_rejection:
  assumes "resume_load (app_executor P) t k w = Inr loaded" and "world_ok w"
  shows "\<exists>r2 w2. resume_decide (app_executor P) t False comment input loaded w1 = Some (Inr r2, w2) \<and>
    run_Status r2 = RunStatusFailed \<and> run_Error r2 = ''approval rejected'' \<and>
    run_mem_GetRun t k (w_runs w2) = Inr r2"
proof -
  let ?E = "app_executor P"
  obtain r0 steps0 pending g where loaded: "loaded = (r0, steps0, pending, g)"
      and load: "run_mem_LoadPending t k (w_runs w) = Inr (r0, steps0, pending)"
    using assms(1) by (auto simp: resume_load_def app_executor_fields split: if_splits sum.splits)
  then have get: "run_mem_GetRun t k (w_runs w) = Inr r0"
    by (auto simp: run_mem_LoadPending_def run_mem_GetRun_def split: option.splits if_splits)
  have own: "run_TenantID r0 = t" using get by (auto simp: run_mem_GetRun_def split: option.splits if_splits)
  have key: "run_ID r0 = k" by (rule world_ok_key [OF assms(2) get])
  have complete: "complete_run ?E c r steps et msg md v =
      (Inr r, recordAudit ?E (run_TenantID r) (newRunAudit r et msg md) (v\<lparr>w_runs := snd (run_mem_CompleteRun r steps (w_runs v))\<rparr>))"
    for c r steps et msg md v
    by (simp add: complete_run_def app_executor_fields(3) on_runs_def run_mem_CompleteRun_def)
  have stored: "run_mem_GetRun (run_TenantID r) (run_ID r)
      (w_runs (recordAudit ?E t' p (v\<lparr>w_runs := snd (run_mem_CompleteRun r steps (w_runs v))\<rparr>))) = Inr r" for r steps t' p v
    using memory_view_writes(5) [of "run_TenantID r" r steps "w_runs v"]
    by (simp add: app_runs.recordAudit_obs memory_view_def owned_def)
  let ?r = "\<lambda>out now. r0\<lparr>run_Input := mergeInput (run_Input r0) input, run_Status := RunStatusFailed,
    run_Error := ''approval rejected'', run_Output := out, run_CompletedAt := now\<rparr>"
  have "\<exists>out now c steps et msg md v. resume_decide ?E t False comment input loaded w1 =
      Some (complete_run ?E c (?r out now) steps et msg md v)"
    by (simp only: loaded resume_decide_def Let_def split_beta fst_conv snd_conv not_False_eq_True if_True)
      (intro exI, rule refl)
  then obtain out now c steps et msg md v where
      decide: "resume_decide ?E t False comment input loaded w1 = Some (complete_run ?E c (?r out now) steps et msg md v)"
    by blast
  show ?thesis
    using decide stored [of "?r out now"] own key by (simp add: complete)
qed

text \<open>C5: an approval can be decided twice: a rejection that has read the pending state before an approval was
  carried out is accepted after it, although it is refused if it starts then. Both callers are told that
  their decision was taken, the nodes behind the approval have run, and the stored run says that it was rejected.\<close>
theorem approval_decided_twice:
  assumes "reachable P w" and "resume_load (app_executor P) t k w = Inr loaded"
    and "resume_decide (app_executor P) t True comment input loaded w = Some (Inr r1, w1)"
    and "run_Status r1 \<noteq> RunStatusWaitingApproval"
  shows "run_mem_GetRun t k (w_runs w1) = Inr r1 \<and>
    ResumeApproval (app_executor P) t k False comment2 input2 w1 = Some (Inl ErrRunNotAwaitingReview, w1) \<and>
    (\<exists>r2 w2. resume_decide (app_executor P) t False comment2 input2 loaded w1 = Some (Inr r2, w2) \<and>
       run_Status r2 = RunStatusFailed \<and> run_Error r2 = ''approval rejected'' \<and>
       run_mem_GetRun t k (w_runs w2) = Inr r2)"
proof -
  have first: "ResumeApproval (app_executor P) t k True comment input w = Some (Inr r1, w1)"
    using assms(2,3) by (simp add: ResumeApproval_stages)
  have key: "ee_GetRun (app_executor P) t k w = Inr r0 \<Longrightarrow> run_ID r0 = k" for r0
    by (rule reachable_key [OF assms(1)])
  have "settled (app_executor P) t k r1 w1"
    using app.ResumeApproval_settled [OF first key] by blast
  then have "run_mem_GetRun t k (w_runs w1) = Inr r1"
    by (simp add: settled_def app_executor_fields)
  moreover have "ResumeApproval (app_executor P) t k False comment2 input2 w1 = Some (Inl ErrRunNotAwaitingReview, w1)"
    by (rule app.ResumeApproval_again [OF first key assms(4)])
  ultimately show ?thesis using late_rejection [OF assms(2) reachable_ok [OF assms(1)]] by blast
qed

section \<open>An example\<close>

lemma ask_graph_next: "\<exists>g. buildGraph ask_flow = Inr g \<and> graph_roots g = [''b''] \<and> graph_node g ''b'' = ask \<and>
    (\<forall>out. graph_next g ask out = [])"
  by (simp add: buildGraph_def ask_flow_def ask_def audit_node_def count_incoming_def graph_node_def graph_next_def
      group_outbound_def)

lemma ask_paused:
  "\<exists>r w s p. ExecuteSync (app_executor demo_platform) ''acme'' [] [] demo_start = Some (Inr r, w) \<and>
     w_workflows w = w_workflows demo_start \<and> run_WorkflowID r = [] \<and>
     run_mem_LoadPending ''acme'' [] (w_runs w) = Inr (r, [s], p) \<and>
     step_NodeID s = ''b'' \<and> pn_WaitingNodeID p = ''b'' \<and> pn_Queue p = []"
proof -
  obtain g where g: "buildGraph ask_flow = Inr g" "graph_roots g = [''b'']" "graph_node g ''b'' = ask"
      "\<And>out. graph_next g ask out = []"
    using ask_graph_next by blast
  have type: "node_Type ask = ''approval''" "node_ID ask = ''b''" by (simp_all add: ask_def audit_node_def)
  have flow: "w_workflows demo_start [] = Some (new_workflow [] ''acme'' ask_flow 2)" by (simp add: demo_start_def)
  show ?thesis
    by (simp add: ExecuteSync_def trim_acme app_executor_fields workflows_Get_def app_workflows_def
        wf_mem_GetByID_def flow demo_effects on_runs_def run_mem_CreateRun_def g Let_def
        executeRun_def continueExecution_def newExecutionState_def sync_run_def
        exec_loop.simps [of _ _ _ _ _ "\<lparr>es_steps = s, es_stepOutputs = so, es_lastNodeID = l,
          es_queue = q, es_executed = x\<rparr>" for s so l q x]
        run_node_def type pause_at_def awaitApproval_def settle_run_def run_mem_SavePending_def
        run_mem_LoadPending_def appendQueue_def)
qed

lemma ask_approved:
  assumes "run_mem_LoadPending ''acme'' [] (w_runs w) = Inr (r, [s], p)" and "run_WorkflowID r = []"
    and "w_workflows w = w_workflows demo_start"
    and "step_NodeID s = ''b''" "pn_WaitingNodeID p = ''b''" "pn_Queue p = []"
  shows "\<exists>loaded r1 w1. resume_load (app_executor demo_platform) ''acme'' [] w = Inr loaded \<and>
     resume_decide (app_executor demo_platform) ''acme'' True [] [] loaded w = Some (Inr r1, w1) \<and>
     run_Status r1 = RunStatusCompleted"
proof -
  obtain g where g: "buildGraph ask_flow = Inr g" using ask_graph by blast
  have "w_workflows w [] = Some (new_workflow [] ''acme'' ask_flow 2)" by (simp add: assms(3) demo_start_def)
  then have load: "resume_load (app_executor demo_platform) ''acme'' [] w = Inr (r, [s], p, g)"
    using assms g by (simp add: resume_load_def trim_acme app_executor_fields workflows_Get_def app_workflows_def
        wf_mem_GetByID_def)
  have "\<exists>r1 w1. resume_decide (app_executor demo_platform) ''acme'' True [] [] (r, [s], p, g) w = Some (Inr r1, w1) \<and>
     run_Status r1 = RunStatusCompleted"
    using assms(4-6)
    by (simp add: resume_decide_def Let_def app_executor_fields demo_effects executeRun_def continueExecution_def
        resumed_state_def stateFromPending_def settle_run_def complete_run_def on_runs_def run_mem_CompleteRun_def
        exec_loop.simps split: prod.split)
  then show ?thesis using load by blast
qed

theorem approval_decided_twice_witness:
  "\<exists>w loaded r1 w1 r2 w2.
     resume_decide (app_executor demo_platform) ''acme'' True [] [] loaded w = Some (Inr r1, w1) \<and>
     run_Status r1 = RunStatusCompleted \<and>
     resume_decide (app_executor demo_platform) ''acme'' False ''no'' [] loaded w1 = Some (Inr r2, w2) \<and>
     run_Status r2 = RunStatusFailed"
proof -
  obtain r w s p where run: "ExecuteSync (app_executor demo_platform) ''acme'' [] [] demo_start = Some (Inr r, w)"
    and paused: "run_mem_LoadPending ''acme'' [] (w_runs w) = Inr (r, [s], p)" "run_WorkflowID r = []"
      "w_workflows w = w_workflows demo_start" "step_NodeID s = ''b''" "pn_WaitingNodeID p = ''b''" "pn_Queue p = []"
    using ask_paused by blast
  have w: "reachable demo_platform w"
    by (rule reachable.step [OF demo_start_reachable app_step.run_sync [OF run]])
  obtain loaded r1 w1 where
      loaded: "resume_load (app_executor demo_platform) ''acme'' [] w = Inr loaded"
      and approved: "resume_decide (app_executor demo_platform) ''acme'' True [] [] loaded w = Some (Inr r1, w1)"
      and r1: "run_Status r1 = RunStatusCompleted"
    using ask_approved [OF paused] by blast
  have "run_Status r1 \<noteq> RunStatusWaitingApproval" by (simp add: r1)
  from approval_decided_twice [OF w loaded approved this, of "''no''" "[]"] approved r1 show ?thesis by blast
qed

end
