(* ===== verification/Key_Races.thy ===== *)
theory Key_Races
  imports Api_Program
begin

text \<open>
  Two requests with one idempotency key at the same time (\<open>api/server.go\<close>). \<open>handleExecuteWorkflow\<close> looks the key up,
  executes the workflow, and stores the run under the key afterwards; nothing holds the key in between. The
  handler is separated here into the stage that looks up and the stage that executes.
\<close>

section \<open>The stages of an execution\<close>

text \<open>What the first stage hands on: service, tenant, mode, input, key and fingerprint.\<close>

type_synonym 's keyed_request = "'s exec_env \<times> string \<times> string \<times> vmap \<times> string \<times> string"

definition execute_lookup ::
    "'s api_env \<Rightarrow> identity option \<Rightarrow> api_request \<Rightarrow> string \<Rightarrow> 's \<Rightarrow> api_response + 's keyed_request" where
  "execute_lookup A ident req workflowID s =
     (case serviceContext (av_exec A) ''executor'' ident of
        Inl resp \<Rightarrow> Inl resp
      | Inr (i, E) \<Rightarrow>
          (case av_DecodeExecute A (ar_Body req) of
             (request, err) \<Rightarrow>
               if real_error err then Inl (writeError [] 400 ''invalid workflow execution payload'')
               else
                 let mode = execution_mode request;
                     fingerprint = executionFingerprint (av_fmt A) mode workflowID (er_Input request);
                     key = trim_space (ar_Header req ''Idempotency-Key'')
                 in case LookupIdempotentRun E (id_TenantID i) key fingerprint s of
                      Inl e \<Rightarrow> Inl (writeExecutionError [] e ''failed to resolve idempotent workflow run'')
                    | Inr (Some r) \<Rightarrow>
                        Inl (writeJSON (header_set ''X-Idempotent-Replay'' ''true'' []) (statusCodeForRun r) (BRun r))
                    | Inr None \<Rightarrow> Inr (E, id_TenantID i, mode, er_Input request, key, fingerprint)))"

definition execute_fresh ::
    "'s api_env \<Rightarrow> string \<Rightarrow> 's keyed_request \<Rightarrow> 's \<Rightarrow> (api_response \<times> 's) option" where
  "execute_fresh A workflowID p s =
     (case p of (E, tenantID, mode, input, key, fingerprint) \<Rightarrow>
        (case ReserveExecution E tenantID s of
           ((quota, err), s1) \<Rightarrow>
             (case writeQuotaHeaders A quota [] s1 of
                (header, s2) \<Rightarrow>
                  (case err of
                     Some e \<Rightarrow>
                       Some (writeExecutionError header e ''failed to reserve tenant execution capacity'', s2)
                   | None \<Rightarrow> execute_reserved E tenantID mode workflowID input key fingerprint header s2))))"

text \<open>The handler is its two stages, one right after the other.\<close>

lemma handleExecuteWorkflow_stages:
  "handleExecuteWorkflow A ident req k s =
     (case execute_lookup A ident req k s of Inl resp \<Rightarrow> Some (resp, s) | Inr p \<Rightarrow> execute_fresh A k p s)"
  by (simp add: handleExecuteWorkflow_def execute_lookup_def execute_fresh_def Let_def
      split: sum.split prod.split option.split)

section \<open>Other runs\<close>

context run_repository
begin

lemma newID_view': "ee_newID E s = (x, s') \<Longrightarrow> run_view E t k s' = run_view E t k s"
  using newID_obs [of s] by (metis snd_conv)

lemma ExecuteSync_other:
  assumes "ExecuteSync E t w input s = Some (Inr r, s')" and "k \<noteq> run_ID r"
  shows "run_view E u k s' = run_view E u k s"
proof -
  obtain runID s1 began s2 s3 g where steps: "ee_newID E s = (Inr runID, s1)" "ee_now E s1 = (began, s2)"
      "ee_CreateRun E (sync_run runID t w input began) s2 = (None, s3)"
    and run: "executeRun E (sync_run runID t w input began) g input (newExecutionState (graph_roots g)) s3 = Some (Inr r, s')"
    using assms(1) by (auto simp: ExecuteSync_def Let_def split: if_splits sum.splits prod.splits option.splits)
  have "run_ID r = runID"
    using executeRun_settled(1) [OF run] by (simp add: settled_def sync_run_def)
  then have k: "k \<noteq> run_ID (sync_run runID t w input began)" using assms(2) by (simp add: sync_run_def)
  show ?thesis
    using executeRun_settled(2) [OF run k] create_view [OF steps(3), of u k] k now_view' [OF steps(2)] newID_view' [OF steps(1)]
    by simp
qed

lemma ExecuteAsync_other:
  assumes "ExecuteAsync E t w input s = (Inr r, s')" and "k \<noteq> run_ID r"
  shows "run_view E u k s' = run_view E u k s"
proof -
  obtain runID s1 began s2 s3 enqueue job where steps: "ee_newID E s = (Inr runID, s1)" "ee_now E s1 = (began, s2)"
      "ee_CreateRun E r s2 = (None, s3)" "ee_Enqueue E = Some enqueue"
    and s': "enqueue job (recordAudit E t (newRunAudit r ''run_queued'' ''async run queued'' []) s3) = (None, s')"
    using assms(1) by (auto simp: ExecuteAsync_def Let_def split: if_splits sum.splits prod.splits option.splits)
  have "run_view E u k s' = run_view E u k s3"
    using enqueue_view [OF steps(4), of u k job] s' by (metis recordAudit_view snd_conv)
  then show ?thesis
    using create_view [OF steps(3), of u k] assms(2) now_view' [OF steps(2)] newID_view' [OF steps(1)] by simp
qed

end

section \<open>A second request\<close>

text \<open>What an execution that answers a run has done: it is stored, and the key leads to it.\<close>

lemma execute_reserved_runs:
  assumes "execute_reserved (app_executor P) t mode k input key fp h w = Some (resp, w')" and "ap_Body resp = BRun r"
  shows "run_mem_GetRun t (run_ID r) (w_runs w') = Inr r"
    and "c \<noteq> run_ID r \<Longrightarrow> run_mem_GetRun u c (w_runs w') = run_mem_GetRun u c (w_runs w)"
proof -
  have "\<exists>w1. (ExecuteSync (app_executor P) t k input w = Some (Inr r, w1) \<or>
        ExecuteAsync (app_executor P) t k input w = (Inr r, w1)) \<and>
      StoreIdempotentRun (app_executor P) t key fp r w1 = (None, w')"
    using assms by (auto simp: execute_reserved_def split: if_splits option.splits sum.splits prod.splits)
  then obtain w1 where run: "ExecuteSync (app_executor P) t k input w = Some (Inr r, w1) \<or>
        ExecuteAsync (app_executor P) t k input w = (Inr r, w1)"
    and store: "StoreIdempotentRun (app_executor P) t key fp r w1 = (None, w')"
    by blast
  note same = StoreIdempotentRun_stores(1) [OF store]
  show "run_mem_GetRun t (run_ID r) (w_runs w') = Inr r"
    using run by (auto simp: same settled_def app_executor_fields dest!: app.ExecuteSync_settled app.ExecuteAsync_queued)
  assume c: "c \<noteq> run_ID r"
  have "run_view (app_executor P) u c w1 = run_view (app_executor P) u c w"
    using run app.ExecuteSync_other [OF _ c] app.ExecuteAsync_other [OF _ c] by blast
  then show "run_mem_GetRun u c (w_runs w') = run_mem_GetRun u c (w_runs w)"
    by (simp add: same run_view_def app_executor_fields)
qed

lemma reserve_runs:
  assumes "ReserveExecution (app_executor P) t w = (x, w1)" and "writeQuotaHeaders (app_api P L keys tenants) quota h w1 = (h', w2)"
  shows "w_runs w2 = w_runs w"
  using assms
  by (auto simp: ReserveExecution_def app_executor_def app_trigger_def on_trigger_def writeQuotaHeaders_def Let_def app_now_def
      tick_def app_api_def split: if_splits prod.splits)

lemma execute_fresh_runs:
  assumes "execute_lookup (app_api P L keys tenants) (Some i) req k w0 = Inr p"
    and "execute_fresh (app_api P L keys tenants) k p w = Some (resp, w')" and "ap_Body resp = BRun r"
  shows "run_mem_GetRun (id_TenantID i) (run_ID r) (w_runs w') = Inr r"
    and "c \<noteq> run_ID r \<Longrightarrow> run_mem_GetRun u c (w_runs w') = run_mem_GetRun u c (w_runs w)"
    and "trim_space (ar_Header req ''Idempotency-Key'') \<noteq> [] \<Longrightarrow>
      execute_lookup (app_api P L keys tenants) (Some i) req k w' =
        Inl (writeJSON (header_set ''X-Idempotent-Replay'' ''true'' []) (statusCodeForRun r) (BRun r))"
proof -
  let ?t = "id_TenantID i" and ?key = "trim_space (ar_Header req ''Idempotency-Key'')"
  obtain request err where decode: "av_DecodeExecute (app_api P L keys tenants) (ar_Body req) = (request, err)" by fastforce
  let ?fp = "executionFingerprint (pf_fmt P) (execution_mode request) k (er_Input request)"
  have ok: "\<not> real_error err" and p: "p = (app_executor P, ?t, execution_mode request, er_Input request, ?key, ?fp)"
    using assms(1) decode
    by (auto simp: execute_lookup_def Let_def split: if_splits sum.splits option.splits)
  obtain quota err1 w1 where reserve: "ReserveExecution (app_executor P) ?t w = ((quota, err1), w1)" by (metis prod.collapse)
  obtain h w2 where headers: "writeQuotaHeaders (app_api P L keys tenants) quota [] w1 = (h, w2)" by fastforce
  have same: "w_runs w2 = w_runs w" by (rule reserve_runs [OF reserve headers])
  have run: "execute_reserved (app_executor P) ?t (execution_mode request) k (er_Input request) ?key ?fp h w2 = Some (resp, w')"
    using assms(2,3) reserve headers by (auto simp: execute_fresh_def p split: option.splits)
  show "run_mem_GetRun ?t (run_ID r) (w_runs w') = Inr r"
    and "c \<noteq> run_ID r \<Longrightarrow> run_mem_GetRun u c (w_runs w') = run_mem_GetRun u c (w_runs w)"
    using execute_reserved_runs [OF run assms(3)] same by simp_all
  assume "?key \<noteq> []"
  then have "LookupIdempotentRun (app_executor P) ?t ?key ?fp w' = Inr (Some r)"
    using executed_replays [OF run assms(3)] by simp
  then show "execute_lookup (app_api P L keys tenants) (Some i) req k w' =
      Inl (writeJSON (header_set ''X-Idempotent-Replay'' ''true'' []) (statusCodeForRun r) (BRun r))"
    using decode ok by (simp add: execute_lookup_def Let_def)
qed

section \<open>The second execution succeeds\<close>

text \<open>One asynchronous execution of a workflow that can be read, with room in the queue.\<close>

lemma recordAudit_stores:
  "w_workflows (recordAudit (app_executor P) t p w) = w_workflows w \<and> w_queue (recordAudit (app_executor P) t p w) = w_queue w \<and>
   w_tick w \<le> w_tick (recordAudit (app_executor P) t p w)"
  by (auto simp: recordAudit_def app_executor_fields audit_Record_def app_audit_def lifts app_now_def app_newID_def tick_def
      split: sum.split prod.split)

lemma async_accepts:
  assumes "trim_space t \<noteq> []" and "workflows_Get (app_workflows P) t k w = Inr flow"
    and "length (mq_jobs (w_queue w)) < mq_size (w_queue w)" and "ids_New (pf_random P (w_tick w)) = Inr c"
  shows "\<exists>r w'. ExecuteAsync (app_executor P) t k input w = (Inr r, w') \<and> run_ID r = c \<and>
    w_trigger w' = w_trigger w \<and> w_workflows w' = w_workflows w \<and> w_tick w < w_tick w' \<and>
    w_queue w' = (w_queue w)\<lparr>mq_jobs := mq_jobs (w_queue w) @ [new_job r input]\<rparr>"
proof -
  let ?E = "app_executor P"
  let ?r = "queued_run c t k input (pf_clock P (Suc (w_tick w)))"
  let ?w3 = "(tick (tick w))\<lparr>w_runs := snd (run_mem_CreateRun ?r (w_runs w))\<rparr>"
  let ?w4 = "recordAudit ?E t (newRunAudit ?r ''run_queued'' ''async run queued'' []) ?w3"
  let ?w5 = "?w4\<lparr>w_queue := (w_queue ?w4)\<lparr>mq_jobs := mq_jobs (w_queue ?w4) @ [new_job ?r input]\<rparr>\<rparr>"
  have w4: "w_workflows ?w4 = w_workflows w" "w_queue ?w4 = w_queue w" "w_trigger ?w4 = w_trigger w" "w_tick w < w_tick ?w4"
    using recordAudit_stores [of P t "newRunAudit ?r ''run_queued'' ''async run queued'' []" ?w3] by (auto simp: tick_def)
  have sent: "on_queue (mq_Enqueue (pf_ctx_err P) (new_job ?r input)) ?w4 = (None, ?w5)"
    using assms(3) by (simp add: on_queue_def mq_Enqueue_def w4)
  have create: "ee_CreateRun ?E ?r (tick (tick w)) = (None, ?w3)"
    by (simp add: app_executor_fields on_runs_def run_mem_CreateRun_def)
  have effects: "ee_newID ?E w = (Inr c, tick w)" "ee_now ?E (tick w) = (pf_clock P (Suc (w_tick w)), tick (tick w))"
    by (simp_all add: app_executor_fields app_newID_def app_now_def assms(4), simp add: tick_def)
  have "ExecuteAsync ?E t k input w = (Inr ?r, ?w5)"
    using assms(1,2) by (simp add: ExecuteAsync_def app_executor_fields(9,12) effects create sent Let_def)
  then show ?thesis using w4 by (intro exI [of _ ?r] exI [of _ ?w5]) (simp add: queued_run_def)
qed

text \<open>A state in which the tenant may start \<open>n\<close> more executions of the workflow \<open>k\<close> with the fingerprint \<open>fp\<close>.\<close>

definition key_ready :: "platform \<Rightarrow> string \<Rightarrow> string \<Rightarrow> string \<Rightarrow> nat \<Rightarrow> string \<Rightarrow> world \<Rightarrow> bool" where
  "key_ready P t k key n fp w \<longleftrightarrow>
     (\<exists>flow. workflows_Get (app_workflows P) t k w = Inr flow) \<and>
     length (mq_jobs (w_queue w)) + n \<le> mq_size (w_queue w) \<and>
     (tc_limit (w_trigger w) = 0 \<or> int n \<le> tc_limit (w_trigger w) \<and>
        (\<forall>b. tc_quotas (w_trigger w) t = Some b \<longrightarrow> qb_count b + int n \<le> tc_limit (w_trigger w))) \<and>
     (\<forall>rec. tc_records (w_trigger w) (recordKey t key) = Some rec \<longrightarrow> ir_Fingerprint rec = fp)"

lemma key_ready_flow: "w_workflows w' = w_workflows w \<Longrightarrow>
    workflows_Get (app_workflows P) t k w' = workflows_Get (app_workflows P) t k w"
  by (simp add: app_workflows_Get)

lemma key_reserve:
  assumes "key_ready P t k key (Suc n) fp w" and "trim_space t \<noteq> []"
  shows "\<exists>quota w1. ReserveExecution (app_executor P) t w = ((quota, None), w1) \<and>
    w_tick w \<le> w_tick w1 \<and> w_workflows w1 = w_workflows w \<and> w_queue w1 = w_queue w \<and> key_ready P t k key n fp w1"
proof (cases "tc_limit (w_trigger w) = 0")
  case True
  then have "ReserveExecution (app_executor P) t w = ((zero_quota, None), w)"
    using assms(2) by (simp add: ReserveExecution_def app_executor_def app_trigger_def on_trigger_def Allow_def)
  then show ?thesis using assms(1) by (auto simp: key_ready_def)
next
  case False
  let ?b = "current_bucket (w_trigger w) (pf_clock P (w_tick w)) t"
  let ?w1 = "(tick w)\<lparr>w_trigger := (w_trigger w)\<lparr>tc_quotas := (tc_quotas (w_trigger w))(t \<mapsto> ?b\<lparr>qb_count := qb_count ?b + 1\<rparr>)\<rparr>\<rparr>"
  have room: "qb_count ?b + int (Suc n) \<le> tc_limit (w_trigger w)"
    using assms(1) False
    by (auto simp: key_ready_def current_bucket_def zero_bucket_def Let_def split: option.splits)
  then have "\<exists>quota. ReserveExecution (app_executor P) t w = ((quota, None), ?w1)"
    using assms(2) False
    by (simp add: ReserveExecution_def app_executor_def app_trigger_def on_trigger_def app_now_def Allow_def Let_def tick_def)
  moreover have "key_ready P t k key n fp ?w1"
    using assms(1) room by (auto simp: key_ready_def app_workflows_Get)
  ultimately show ?thesis by (auto simp: tick_def)
qed

text \<open>One request after its lookup: its reservation, its execution and the record of its key.\<close>

lemma key_fresh:
  assumes "key_ready P t k key (Suc n) fp w" and "trim_space t \<noteq> []" and "trim_space key = key" and "key \<noteq> []"
    and "\<And>m. ids_New (pf_random P m) = Inr (ident m)"
  shows "\<exists>resp r w' m. execute_fresh (app_api P L keys tenants) k (app_executor P, t, ''async'', input, key, fp) w = Some (resp, w') \<and>
    ap_Body resp = BRun r \<and> run_ID r = ident m \<and> w_tick w \<le> m \<and> m < w_tick w' \<and> key_ready P t k key n fp w' \<and>
    mq_jobs (w_queue w') = mq_jobs (w_queue w) @ [new_job r input]"
proof -
  let ?E = "app_executor P" and ?A = "app_api P L keys tenants"
  from key_reserve [OF assms(1,2)] obtain quota w1 where reserve: "ReserveExecution ?E t w = ((quota, None), w1)"
    and w1: "w_tick w \<le> w_tick w1" "w_workflows w1 = w_workflows w" "w_queue w1 = w_queue w" "key_ready P t k key n fp w1"
    by blast
  obtain h w2 where headers: "writeQuotaHeaders ?A quota [] w1 = (h, w2)" by fastforce
  have w2: "w_workflows w2 = w_workflows w1" "w_trigger w2 = w_trigger w1" "w_queue w2 = w_queue w1" "w_tick w1 \<le> w_tick w2"
    using headers by (auto simp: writeQuotaHeaders_def Let_def app_now_def tick_def split: if_splits)
  obtain flow where "workflows_Get (app_workflows P) t k w = Inr flow" using assms(1) by (auto simp: key_ready_def)
  then have flow: "workflows_Get (app_workflows P) t k w2 = Inr flow" using key_ready_flow w1(2) w2(1) by metis
  have room: "length (mq_jobs (w_queue w2)) < mq_size (w_queue w2)"
    using assms(1) w1(3) w2(3) by (simp add: key_ready_def)
  from async_accepts [OF assms(2) flow room assms(5)] obtain r w3 where run: "ExecuteAsync ?E t k input w2 = (Inr r, w3)"
    and w3: "run_ID r = ident (w_tick w2)" "w_trigger w3 = w_trigger w2" "w_workflows w3 = w_workflows w2" "w_tick w2 < w_tick w3"
      "w_queue w3 = (w_queue w2)\<lparr>mq_jobs := mq_jobs (w_queue w2) @ [new_job r input]\<rparr>"
    by blast
  define rec where "rec = \<lparr>ir_Fingerprint = fp, ir_RunID = run_ID r, ir_TriggerMode = run_TriggerMode r\<rparr>"
  define w4 where "w4 = w3\<lparr>w_trigger := (w_trigger w3)\<lparr>tc_records := (tc_records (w_trigger w3))(recordKey t key \<mapsto> rec)\<rparr>\<rparr>"
  have "StoreIdempotentRun ?E t key fp r w3 = (None, w4)"
    using w1(4) w2(2) w3(2) assms(3,4)
    by (auto simp: key_ready_def StoreIdempotentRun_def app_executor_def app_trigger_def on_trigger_def tc_Store_def
        Let_def rec_def w4_def split: option.split)
  then have "execute_fresh ?A k (?E, t, ''async'', input, key, fp) w = Some (writeJSON h 202 (BRun r), w4)"
    by (simp add: execute_fresh_def reserve headers execute_reserved_def run)
  moreover have "key_ready P t k key n fp w4"
    using assms(1) w1 w2 w3 flow by (auto simp: key_ready_def w4_def rec_def app_workflows_Get)
  moreover have "w_tick w \<le> w_tick w2" "w_tick w2 < w_tick w4" "mq_jobs (w_queue w4) = mq_jobs (w_queue w) @ [new_job r input]"
    using w1(1,3) w2(3,4) w3(4,5) by (simp_all add: w4_def)
  ultimately show ?thesis
    using w3(1) by (intro exI [of _ "writeJSON h 202 (BRun r)"] exI [of _ r] exI [of _ w4] exI [of _ "w_tick w2"]) (simp add: writeJSON_def)
qed

text \<open>A lookup that found no run under the key has found no record, or one with the same fingerprint.\<close>

lemma lookup_ready:
  assumes "execute_lookup (app_api P L keys tenants) (Some i) req k w = Inr p"
    and "execution_mode (fst (al_DecodeExecute L (ar_Body req))) = ''async''"
    and "trim_space (ar_Header req ''Idempotency-Key'') \<noteq> []"
  shows "\<exists>input fp. p = (app_executor P, id_TenantID i, ''async'', input, trim_space (ar_Header req ''Idempotency-Key''), fp) \<and>
    (\<forall>rec. tc_records (w_trigger w) (recordKey (id_TenantID i) (trim_space (ar_Header req ''Idempotency-Key''))) = Some rec \<longrightarrow>
       ir_Fingerprint rec = fp)"
proof -
  let ?key = "trim_space (ar_Header req ''Idempotency-Key'')"
  obtain request err where decode: "al_DecodeExecute L (ar_Body req) = (request, err)" by fastforce
  let ?fp = "executionFingerprint (pf_fmt P) ''async'' k (er_Input request)"
  have fields: "av_DecodeExecute (app_api P L keys tenants) = al_DecodeExecute L" by (simp add: app_api_def)
  have p: "p = (app_executor P, id_TenantID i, ''async'', er_Input request, ?key, ?fp)"
    and none: "LookupIdempotentRun (app_executor P) (id_TenantID i) ?key ?fp w = Inr None"
    using assms(1,2) decode
    by (auto simp: execute_lookup_def fields Let_def split: if_splits sum.splits option.splits)
  have "ir_Fingerprint rec = ?fp" if "tc_records (w_trigger w) (recordKey (id_TenantID i) ?key) = Some rec" for rec
    using none that assms(3)
    by (auto simp: LookupIdempotentRun_def app_executor_def app_trigger_def tc_Lookup_def Let_def split: if_splits)
  then show ?thesis using p by blast
qed

text \<open>C9: an idempotency key does not exclude a second execution. Let two copies of an asynchronous execution request
  with a key both look the key up and find no run, before either of them has executed; let the workflow be readable,
  the queue have room for two jobs, the tenant two executions left in its quota, and the random source deliver different ids at
  different times. Then both are accepted: each answers a run of its own, with another id, both runs are stored and a job of
  each is queued. A request that starts after the first answer executes nothing and repeats it; after the second answer
  it repeats the second, so the answer of the first client is never repeated again.\<close>
theorem key_does_not_exclude:
  assumes "execute_lookup (app_api P L keys tenants) (Some i) req k w = Inr p"
    and "execution_mode (fst (al_DecodeExecute L (ar_Body req))) = ''async''"
    and "trim_space (ar_Header req ''Idempotency-Key'') \<noteq> []" and "trim_space (id_TenantID i) \<noteq> []"
    and "workflows_Get (app_workflows P) (id_TenantID i) k w = Inr flow"
    and "length (mq_jobs (w_queue w)) + 2 \<le> mq_size (w_queue w)" and "2 \<le> tc_limit (w_trigger w)"
    and "\<And>b. tc_quotas (w_trigger w) (id_TenantID i) = Some b \<Longrightarrow> qb_count b + 2 \<le> tc_limit (w_trigger w)"
    and "\<And>n. ids_New (pf_random P n) = Inr (ident n)" and "inj ident"
  shows "\<exists>resp1 r1 w1 resp2 r2 w2.
    execute_fresh (app_api P L keys tenants) k p w = Some (resp1, w1) \<and> ap_Body resp1 = BRun r1 \<and>
    execute_fresh (app_api P L keys tenants) k p w1 = Some (resp2, w2) \<and> ap_Body resp2 = BRun r2 \<and>
    run_ID r1 \<noteq> run_ID r2 \<and>
    run_mem_GetRun (id_TenantID i) (run_ID r1) (w_runs w2) = Inr r1 \<and>
    run_mem_GetRun (id_TenantID i) (run_ID r2) (w_runs w2) = Inr r2 \<and>
    map job_RunID (mq_jobs (w_queue w2)) = map job_RunID (mq_jobs (w_queue w)) @ [run_ID r1, run_ID r2] \<and>
    handleExecuteWorkflow (app_api P L keys tenants) (Some i) req k w1 =
      Some (writeJSON (header_set ''X-Idempotent-Replay'' ''true'' []) (statusCodeForRun r1) (BRun r1), w1) \<and>
    handleExecuteWorkflow (app_api P L keys tenants) (Some i) req k w2 =
      Some (writeJSON (header_set ''X-Idempotent-Replay'' ''true'' []) (statusCodeForRun r2) (BRun r2), w2)"
proof -
  let ?A = "app_api P L keys tenants" and ?t = "id_TenantID i" and ?key = "trim_space (ar_Header req ''Idempotency-Key'')"
  obtain input fp where p: "p = (app_executor P, ?t, ''async'', input, ?key, fp)"
    and rec: "\<forall>rec. tc_records (w_trigger w) (recordKey ?t ?key) = Some rec \<longrightarrow> ir_Fingerprint rec = fp"
    using lookup_ready [OF assms(1-3)] by blast
  have ready: "key_ready P ?t k ?key (Suc (Suc 0)) fp w"
    using assms(5-8) rec by (auto simp: key_ready_def)
  obtain resp1 r1 w1 m where one: "execute_fresh ?A k p w = Some (resp1, w1)" "ap_Body resp1 = BRun r1" "run_ID r1 = ident m"
      "m < w_tick w1" "key_ready P ?t k ?key (Suc 0) fp w1" "mq_jobs (w_queue w1) = mq_jobs (w_queue w) @ [new_job r1 input]"
    using key_fresh [OF ready assms(4) trim_space_idem assms(3,9), of L keys tenants input] unfolding p by blast
  obtain resp2 r2 w2 n where two: "execute_fresh ?A k p w1 = Some (resp2, w2)" "ap_Body resp2 = BRun r2" "run_ID r2 = ident n"
      "w_tick w1 \<le> n" "mq_jobs (w_queue w2) = mq_jobs (w_queue w1) @ [new_job r2 input]"
    using key_fresh [OF one(5) assms(4) trim_space_idem assms(3,9), of L keys tenants input] unfolding p by blast
  have ids: "run_ID r1 \<noteq> run_ID r2" using one(3,4) two(3,4) injD [OF assms(10), of m n] by auto
  note first = execute_fresh_runs [OF assms(1) one(1,2)] and second = execute_fresh_runs [OF assms(1) two(1,2)]
  have "map job_RunID (mq_jobs (w_queue w2)) = map job_RunID (mq_jobs (w_queue w)) @ [run_ID r1, run_ID r2]"
    using one(6) two(5) by (simp add: new_job_def)
  moreover have "run_mem_GetRun ?t (run_ID r1) (w_runs w2) = Inr r1"
    using first(1) second(2) [OF ids, of ?t] by simp
  moreover have "handleExecuteWorkflow ?A (Some i) req k w1 =
      Some (writeJSON (header_set ''X-Idempotent-Replay'' ''true'' []) (statusCodeForRun r1) (BRun r1), w1)"
    "handleExecuteWorkflow ?A (Some i) req k w2 =
      Some (writeJSON (header_set ''X-Idempotent-Replay'' ''true'' []) (statusCodeForRun r2) (BRun r2), w2)"
    using first(3) [OF assms(3)] second(3) [OF assms(3)] by (simp_all add: handleExecuteWorkflow_stages)
  ultimately show ?thesis using one(1,2) two(1,2) ids second(1) by blast
qed

section \<open>Examples\<close>

text \<open>A platform whose random source never repeats itself.\<close>

definition key_platform :: platform where
  "key_platform = demo_platform\<lparr>pf_random := (\<lambda>n. Inr (replicate n 0))\<rparr>"

lemma key_ids: "inj (\<lambda>n. EncodeToString (replicate n 0))"
  by (rule injI) (metis EncodeToString_length length_replicate mult_cancel1 zero_neq_numeral)

theorem key_does_not_exclude_witness:
  "\<exists>p (w2 :: world) r1 r2.
     execute_lookup (app_api key_platform (demo_lib (demo_execute ''async'')) [] []) (Some (demo_identity ''acme''))
       (key_execute ''k'') [] demo_start = Inr p \<and> run_ID r1 \<noteq> run_ID r2 \<and>
     run_mem_GetRun ''acme'' (run_ID r1) (w_runs w2) = Inr r1 \<and>
     run_mem_GetRun ''acme'' (run_ID r2) (w_runs w2) = Inr r2"
proof -
  let ?L = "demo_lib (demo_execute ''async'')" and ?E = "app_executor key_platform"
  let ?A = "app_api key_platform ?L [] []"
  define fp where "fp = executionFingerprint (pf_fmt key_platform) ''async'' [] []"
  have trim: "trim_space ''k'' = ''k''" "trim_space ''async'' = ''async''" by code_simp+
  have none: "LookupIdempotentRun ?E ''acme'' ''k'' fp demo_start = Inr None"
    by (simp add: LookupIdempotentRun_def app_executor_def app_trigger_def tc_Lookup_def trim demo_start_def
        start_world_def NewTriggerControl_def)
  have decode: "al_DecodeExecute ?L (ar_Body req) = (demo_execute ''async'', None)" for req
    by (simp add: demo_lib_def)
  have fields: "av_DecodeExecute ?A (ar_Body req) = (demo_execute ''async'', None)" for req
    by (simp add: app_api_def decode)
  have request: "execution_mode (demo_execute ''async'') = ''async''" "er_Input (demo_execute ''async'') = []"
    "ar_Header (key_execute ''k'') ''Idempotency-Key'' = ''k''" "id_TenantID (demo_identity ''acme'') = ''acme''"
    by (simp_all add: execution_mode_def demo_execute_def trim key_execute_def demo_identity_def)
  have lookup: "execute_lookup ?A (Some (demo_identity ''acme'')) (key_execute ''k'') [] demo_start =
      Inr (?E, ''acme'', ''async'', [], ''k'', fp)"
    using none by (simp add: execute_lookup_def fields real_error_def request trim fp_def [symmetric])
  have mode: "execution_mode (fst (al_DecodeExecute ?L (ar_Body (key_execute ''k'')))) = ''async''"
    by (simp add: decode request)
  have texts: "trim_space (ar_Header (key_execute ''k'') ''Idempotency-Key'') \<noteq> []"
    "trim_space (id_TenantID (demo_identity ''acme'')) \<noteq> []"
    by (simp_all add: request trim trim_acme)
  have flow: "workflows_Get (app_workflows key_platform) (id_TenantID (demo_identity ''acme'')) [] demo_start =
      Inr (new_workflow [] ''acme'' ask_flow 2)"
    by (simp add: app_workflows_Get request trim_acme demo_start_def wf_mem_GetByID_def)
  have state: "length (mq_jobs (w_queue demo_start)) + 2 \<le> mq_size (w_queue demo_start)"
    "2 \<le> tc_limit (w_trigger demo_start)" "tc_quotas (w_trigger demo_start) = Map.empty"
    by (simp_all add: demo_start_def start_world_def NewTriggerControl_def NewMemoryQueue_def)
  have random: "ids_New (pf_random key_platform n) = Inr (EncodeToString (replicate n 0))" for n
    by (simp add: key_platform_def ids_New_def)
  have quota: "tc_quotas (w_trigger demo_start) (id_TenantID (demo_identity ''acme'')) = Some b \<Longrightarrow>
      qb_count b + 2 \<le> tc_limit (w_trigger demo_start)" for b
    by (simp add: state(3))
  from key_does_not_exclude [OF lookup mode texts flow state(1,2) quota random key_ids]
  show ?thesis using lookup by (auto simp: request)
qed

end
