(* ===== verification/Worker_Loop.thy ===== *)
theory Worker_Loop
  imports Api_Program
begin

text \<open>
  The loop of the worker, \<open>Run\<close> of \<open>worker/service.go\<close>: turns of \<open>ProcessNext\<close> until the context ends. What the
  rest of the program does between two turns, and during the pause after an error, is a parameter.
\<close>

section \<open>The loop\<close>

text \<open>
  \<open>wc_Err\<close> is the context's error, if it has ended; \<open>wc_pause\<close> the wait of half a second, or the context's error
  if it ends first; \<open>wc_others\<close> what else happens before a turn. The log of errors is left out.
\<close>

record 's worker_context =
  wc_Err :: "'s \<Rightarrow> goerr option"
  wc_pause :: "'s \<Rightarrow> goerr option \<times> 's"
  wc_others :: "'s \<Rightarrow> 's"

partial_function (option) worker_Run :: "'s worker_env \<Rightarrow> 's worker_context \<Rightarrow> 's \<Rightarrow> (goerr \<times> 's) option" where
  "worker_Run W K s =
     (case ProcessNext W (wc_others K s) of
        None \<Rightarrow> None
      | Some ((processed, err), s1) \<Rightarrow>
          (case err of
             Some e \<Rightarrow>
               (case wc_Err K s1 of
                  Some c \<Rightarrow> Some (c, s1)
                | None \<Rightarrow>
                    (case wc_pause K s1 of
                       (Some c, s2) \<Rightarrow> Some (c, s2)
                     | (None, s2) \<Rightarrow> worker_Run W K s2))
           | None \<Rightarrow>
               (case wc_Err K s1 of
                  Some c \<Rightarrow> if \<not> processed then Some (c, s1) else worker_Run W K s1
                | None \<Rightarrow> worker_Run W K s1)))"

declare worker_Run.simps [code]

text \<open>The states between which the loop moves.\<close>

inductive worker_moves :: "'s worker_env \<Rightarrow> 's worker_context \<Rightarrow> 's \<Rightarrow> 's \<Rightarrow> bool" for W K where
  others: "worker_moves W K s (wc_others K s)"
| turn: "ProcessNext W s = Some (x, s') \<Longrightarrow> worker_moves W K s s'"
| pause: "wc_pause K s = (x, s') \<Longrightarrow> worker_moves W K s s'"

lemma worker_Run_moves:
  assumes "worker_Run W K s = Some r"
  shows "(worker_moves W K)\<^sup>*\<^sup>* s (snd r) \<and>
    (wc_Err K (snd r) = Some (fst r) \<or> (\<exists>s1. wc_pause K s1 = (Some (fst r), snd r)))"
proof (rule worker_Run.raw_induct
    [where P = "\<lambda>W K s r. (worker_moves W K)\<^sup>*\<^sup>* s (snd r) \<and>
      (wc_Err K (snd r) = Some (fst r) \<or> (\<exists>s1. wc_pause K s1 = (Some (fst r), snd r)))", OF _ assms], goal_cases)
  case (1 loop W K s r)
  obtain processed err s1 where turn: "ProcessNext W (wc_others K s) = Some ((processed, err), s1)"
    using 1(2) by (auto split: option.splits)
  have s1: "(worker_moves W K)\<^sup>*\<^sup>* s s1"
    by (meson turn worker_moves.others worker_moves.turn converse_rtranclp_into_rtranclp rtranclp.rtrancl_refl)
  show ?case
  proof (cases "\<exists>s2. loop W K s2 = Some r \<and> (s2 = s1 \<or> wc_pause K s1 = (None, s2))")
    case True
    then obtain s2 where s2: "loop W K s2 = Some r" "s2 = s1 \<or> wc_pause K s1 = (None, s2)" by blast
    have "(worker_moves W K)\<^sup>*\<^sup>* s1 s2"
      using s2(2) by (auto intro: worker_moves.pause)
    then show ?thesis using s1 1(1) [OF s2(1)] by (meson rtranclp_trans)
  next
    case False
    have paused: "(worker_moves W K)\<^sup>*\<^sup>* s s2" if "wc_pause K s1 = (x, s2)" for x s2
      by (rule rtranclp.rtrancl_into_rtrancl [OF s1 worker_moves.pause [OF that]])
    show ?thesis
      using False 1(2) turn s1 by (auto split: option.splits prod.splits if_splits intro: paused)
  qed
qed

text \<open>C15: the worker of the program stops only because its context has ended, with the context's error, whatever
  the jobs, their failures and the errors of the queue; and when it does, the program is in a reachable state,
  if what happens besides the worker is steps of the program.\<close>
theorem worker_stops_only_by_context:
  assumes "reachable P w" and "worker_Run (app_worker P) K w = Some (c, w')"
    and "\<And>v. app_steps P v (wc_others K v)" and "\<And>v. app_steps P v (snd (wc_pause K v))"
  shows "reachable P w' \<and> (wc_Err K w' = Some c \<or> (\<exists>v. wc_pause K v = (Some c, w')))"
proof -
  have one: "app_steps P v v'" if "worker_moves (app_worker P) K v v'" for v v'
    using that
  proof (rule worker_moves.cases)
    fix s assume "v = s" "v' = wc_others K s"
    then show ?thesis using assms(3) by simp
  next
    fix s x s' assume "v = s" "v' = s'" "ProcessNext (app_worker P) s = Some (x, s')"
    then show ?thesis by (blast intro: app_step.work)
  next
    fix s x s' assume "v = s" "v' = s'" "wc_pause K s = (x, s')"
    then show ?thesis using assms(4) [of s] by simp
  qed
  have "app_steps P v v'" if "(worker_moves (app_worker P) K)\<^sup>*\<^sup>* v v'" for v v'
    using that by (induction rule: rtranclp_induct) (auto dest: one intro: rtranclp_trans)
  then show ?thesis
    using worker_Run_moves [OF assms(2)] reachable_steps [OF _ assms(1)] by simp
qed

section \<open>The jobs of the in-memory queue\<close>

lemma audit_Record_queue: "w_queue (snd (audit_Record (app_audit P) t p w)) = w_queue w"
  by (auto simp: audit_Record_def app_audit_def lifts app_now_def app_newID_def split: sum.split prod.split)

lemma app_queue_frame:
  assumes "ee_audit_Record (app_executor P) = Some rec"
  shows "w_queue (snd (rec t p w)) = w_queue w"
  using assms audit_Record_queue [of P t p w] by (simp add: app_executor_def)

interpretation app_queue: effect_frame "app_executor P" w_queue
  by unfold_locales (simp_all add: app_queue_frame, simp_all add: app_executor_def)

lemma on_runs_queue: "on_runs f w = (x, w') \<Longrightarrow> w_queue w' = w_queue w"
  by (auto simp: on_runs_def split: prod.splits)

lemma complete_run_queue:
  "complete_run (app_executor P) c r steps et msg md w = (x, w') \<Longrightarrow> w_queue w' = w_queue w"
  by (auto simp: complete_run_def app_executor_fields dest: on_runs_queue split: prod.splits option.splits)

lemma settle_run_queue:
  "settle_run (app_executor P) r st out w = (x, w') \<Longrightarrow> w_queue w' = w_queue w"
  by (auto simp: settle_run_def Let_def app_executor_fields split: outcome.splits prod.splits option.splits
      dest!: complete_run_queue on_runs_queue) (metis app_effects(3) snd_conv)+

lemma executeRun_queue:
  assumes "executeRun (app_executor P) r g input st w = Some (x, w')"
  shows "w_queue w' = w_queue w"
proof -
  obtain st' out w2 where run:
      "continueExecution (app_executor P) (run_ID r) (run_TenantID r) g input st (recordAudit (app_executor P) (run_TenantID r)
         (newRunAudit r ''run_started'' ''workflow run started'' []) w) = Some ((st', out), w2)"
    and settle: "settle_run (app_executor P) r st' out w2 = (x, w')"
    using assms by (auto simp: executeRun_def Let_def split: option.splits)
  show ?thesis using settle_run_queue [OF settle] app_queue.continueExecution_obs [OF run] by simp
qed

lemma fail_job_queue: "fail_job (app_executor P) c r e w = (x, w') \<Longrightarrow> w_queue w' = w_queue w"
  by (auto simp: fail_job_def Let_def app_executor_fields split: prod.splits option.splits dest!: on_runs_queue)
    (metis app_effects(3) snd_conv)+

lemma ProcessAsyncJob_queue:
  assumes "ProcessAsyncJob (app_executor P) job w = Some (x, w')"
  shows "w_queue w' = w_queue w"
proof -
  have now: "app_now P w = (n, w1) \<Longrightarrow> w_queue w1 = w_queue w" for n w1 by (auto simp: app_now_def)
  show ?thesis
    using assms
    by (auto simp: ProcessAsyncJob_def Let_def app_executor_fields split: if_splits sum.splits prod.splits option.splits
        dest!: fail_job_queue executeRun_queue on_runs_queue now)
qed

lemma MarkAsyncRetry_queue: "MarkAsyncRetry (app_executor P) r delay w = (x, w') \<Longrightarrow> w_queue w' = w_queue w"
  by (auto simp: MarkAsyncRetry_def Let_def app_executor_fields split: prod.splits option.splits dest!: on_runs_queue)

lemma MarkDeadLetter_queue: "MarkDeadLetter (app_executor P) r w = (x, w') \<Longrightarrow> w_queue w' = w_queue w"
  by (auto simp: MarkDeadLetter_def Let_def app_executor_fields split: prod.splits option.splits dest!: on_runs_queue)

section \<open>When the context has ended\<close>

text \<open>The in-memory queue then takes no delayed job any more; a waiting job can still be received.\<close>

definition ended_worker :: "platform \<Rightarrow> goerr \<Rightarrow> world worker_env" where
  "ended_worker P c = (app_worker P)\<lparr>wk_EnqueueAfter := \<lambda>job delay. on_queue (mq_EnqueueAfter (Some c) job delay)\<rparr>"

lemma ended_worker_fields:
  "wk_exec (ended_worker P c) = app_executor P" "wk_Dequeue (ended_worker P c) wait = on_queue mq_Dequeue"
  "wk_EnqueueAfter (ended_worker P c) job delay w = (Some c, w)"
  "wk_baseBackoff (ended_worker P c) = default_baseBackoff"
  by (simp_all add: ended_worker_def app_worker_fields on_queue_def mq_EnqueueAfter_def)

abbreviation waiting_jobs :: "world \<Rightarrow> async_job list" where
  "waiting_jobs w \<equiv> mq_jobs (w_queue w)"

lemma ended_turn:
  assumes "ProcessNext (ended_worker P c) w = Some ((processed, err), w')"
  shows "(processed \<longrightarrow> waiting_jobs w \<noteq> [] \<and> waiting_jobs w' = tl (waiting_jobs w)) \<and> (\<not> processed \<longrightarrow> err = None)"
proof (cases "waiting_jobs w")
  case Nil
  then show ?thesis using assms by (simp add: ProcessNext_def ended_worker_fields on_queue_def mq_Dequeue_def)
next
  case (Cons job rest)
  let ?w = "w\<lparr>w_queue := (w_queue w)\<lparr>mq_jobs := rest\<rparr>\<rparr>"
  have deq: "on_queue mq_Dequeue w = (Inr (Some job), ?w)" using Cons by (simp add: on_queue_def mq_Dequeue_def)
  obtain x w2 where run: "ProcessAsyncJob (app_executor P) job ?w = Some (x, w2)"
    using ProcessAsyncJob_total [of "app_executor P" job ?w] by force
  have w2: "w_queue w2 = (w_queue w)\<lparr>mq_jobs := rest\<rparr>" using ProcessAsyncJob_queue [OF run] by simp
  have "w_queue w' = w_queue w2 \<and> processed"
    using assms run
    by (auto simp: ProcessNext_def ended_worker_fields deq retry_job_def Let_def split: sum.splits prod.splits if_splits
        dest!: MarkAsyncRetry_queue MarkDeadLetter_queue)
  then show ?thesis using w2 Cons by simp
qed

lemma worker_stops:
  assumes "\<And>v. wc_Err K v = Some c" and "\<And>v. length (waiting_jobs (wc_others K v)) \<le> length (waiting_jobs v)"
  shows "\<exists>w'. worker_Run (ended_worker P c) K w = Some (c, w')"
proof (induction "length (waiting_jobs w)" arbitrary: w rule: less_induct)
  case less
  obtain processed err w1 where turn: "ProcessNext (ended_worker P c) (wc_others K w) = Some ((processed, err), w1)"
    using ProcessNext_total [of "ended_worker P c" "wc_others K w"] by force
  note one = ended_turn [OF turn]
  show ?case
  proof (cases "processed \<and> err = None")
    case True
    then have "length (waiting_jobs w1) < length (waiting_jobs (wc_others K w))" using one by simp
    also have "\<dots> \<le> length (waiting_jobs w)" by (rule assms(2))
    finally show ?thesis
      using less [of w1] True turn assms(1) by (subst worker_Run.simps) simp
  next
    case False
    then show ?thesis using turn one assms(1) by (subst worker_Run.simps) (auto split: option.split)
  qed
qed

text \<open>A worker that is told to stop does: once its context has ended, and if nobody sends further jobs, the loop
  returns the context's error, after at most as many turns as there are waiting jobs and one more.\<close>
theorem worker_shutdown_ends:
  assumes "\<And>v. wc_Err K v = Some c" and "\<And>v. length (waiting_jobs (wc_others K v)) \<le> length (waiting_jobs v)"
  shows "\<exists>w'. worker_Run (ended_worker P c) K w = Some (c, w')"
  by (rule worker_stops [OF assms])

text \<open>C25: a retry is lost when the worker is stopped: the attempt of a job fails after the context has ended, the run
  is marked as queued again, and then the queue refuses the job. The loop ends with the run stored as queued,
  and no queue holds a job for it.\<close>
theorem shutdown_loses_retry:
  assumes "waiting_jobs w = [job]" and "mq_delayed (w_queue w) = []"
    and "ProcessAsyncJob (app_executor P) job (w\<lparr>w_queue := (w_queue w)\<lparr>mq_jobs := []\<rparr>\<rparr>) = Some (Inr r, w2)"
    and "run_Status r = RunStatusFailed" and "run_Attempt r < run_MaxAttempts r"
    and "wc_others K w = w" and "\<And>v. wc_Err K v = Some c"
  shows "\<exists>w' r'. worker_Run (ended_worker P c) K w = Some (c, w') \<and>
    run_mem_GetRun (run_TenantID r) (run_ID r) (w_runs w') = Inr r' \<and> run_Status r' = RunStatusQueued \<and>
    waiting_jobs w' = [] \<and> mq_delayed (w_queue w') = []"
proof -
  let ?w = "w\<lparr>w_queue := (w_queue w)\<lparr>mq_jobs := []\<rparr>\<rparr>"
  let ?delay = "sint (retryDelay default_baseBackoff (run_Attempt r))"
  have deq: "on_queue mq_Dequeue w = (Inr (Some job), ?w)" using assms(1) by (simp add: on_queue_def mq_Dequeue_def)
  obtain y w3 where mark: "MarkAsyncRetry (app_executor P) r ?delay w2 = (y, w3)" by fastforce
  obtain r' where r': "y = Inr r'" "run_mem_GetRun (run_TenantID r) (run_ID r) (w_runs w3) = Inr r'"
      "run_Status r' = RunStatusQueued"
    using mark_retry_stored [OF mark] by blast
  have "ProcessNext (ended_worker P c) w = Some ((True, Some c), w3)"
    using assms(3-5) mark r'(1) by (simp add: ProcessNext_def ended_worker_fields deq retry_job_def Let_def)
  then have "worker_Run (ended_worker P c) K w = Some (c, w3)"
    using assms(6,7) by (subst worker_Run.simps) simp
  moreover have "w_queue w3 = w_queue ?w"
    using MarkAsyncRetry_queue [OF mark] ProcessAsyncJob_queue [OF assms(3)] by simp
  ultimately show ?thesis using r' assms(2) by (intro exI [of _ w3] exI [of _ r']) simp
qed

text \<open>A job is dropped too when its run cannot be read, for example because the database does not answer: the
  turn ends with that error, and the job is in no queue any more.\<close>
lemma failed_read_drops_job:
  assumes "wk_Dequeue W (wk_pollTimeout W) s = (Inr (Some job), s1)" and "trim_space (job_TenantID job) \<noteq> []"
    and "ee_GetRun (wk_exec W) (job_TenantID job) (job_RunID job) s1 = Inl e"
  shows "ProcessNext W s = Some ((True, Some e), s1)"
  using assms by (simp add: ProcessNext_def ProcessAsyncJob_def)

section \<open>Examples\<close>

definition stopped_context :: "world worker_context" where
  "stopped_context = \<lparr>wc_Err = (\<lambda>w. Some (Anonymous ''context canceled'')), wc_pause = (\<lambda>w. (None, w)), wc_others = (\<lambda>w. w)\<rparr>"

lemma stopped_context_fields:
  "wc_Err stopped_context w = Some (Anonymous ''context canceled'')" "wc_others stopped_context w = w"
  "wc_pause stopped_context w = (None, w)"
  by (simp_all add: stopped_context_def)

theorem worker_stops_only_by_context_witness:
  "\<exists>c w'. worker_Run (app_worker demo_platform) stopped_context demo_start = Some (c, w') \<and> reachable demo_platform w' \<and>
     wc_Err stopped_context w' = Some c"
proof -
  have "waiting_jobs demo_start = []" by (simp add: demo_start_def start_world_def NewMemoryQueue_def)
  then have run: "worker_Run (app_worker demo_platform) stopped_context demo_start =
      Some (Anonymous ''context canceled'', demo_start)"
    by (subst worker_Run.simps)
      (simp add: ProcessNext_def app_worker_fields on_queue_def mq_Dequeue_def stopped_context_fields)
  have "reachable demo_platform demo_start \<and> (wc_Err stopped_context demo_start = Some (Anonymous ''context canceled'') \<or>
      (\<exists>v. wc_pause stopped_context v = (Some (Anonymous ''context canceled''), demo_start)))"
    by (rule worker_stops_only_by_context [OF demo_start_reachable run]) (simp_all add: stopped_context_fields)
  then show ?thesis using run by (auto simp: stopped_context_fields)
qed

theorem worker_shutdown_ends_witness:
  "\<exists>w'. worker_Run (ended_worker demo_platform (Anonymous ''context canceled'')) stopped_context demo_start =
     Some (Anonymous ''context canceled'', w')"
  by (rule worker_shutdown_ends) (simp_all add: stopped_context_fields)

text \<open>A job whose workflow is not there any more.\<close>

theorem shutdown_loses_retry_witness:
  "\<exists>w w' r'. worker_Run (ended_worker demo_platform (Anonymous ''context canceled'')) stopped_context w =
      Some (Anonymous ''context canceled'', w') \<and>
     run_mem_GetRun ''acme'' [] (w_runs w') = Inr r' \<and> run_Status r' = RunStatusQueued \<and> waiting_jobs w' = []"
proof -
  let ?E = "app_executor demo_platform"
  obtain r w where "reachable demo_platform w" and stored: "run_mem_GetRun ''acme'' [] (w_runs w) = Inr r"
    and r: "run_Status r = RunStatusQueued" "run_ID r = []" "run_TenantID r = ''acme''" "run_WorkflowID r = []"
      "run_Attempt r = 0" "run_MaxAttempts r = 3"
    by (rule async_runE) auto
  let ?job = "(new_job r [])\<lparr>job_WorkflowID := ''gone''\<rparr>"
  let ?w = "w\<lparr>w_queue := \<lparr>mq_size = 1, mq_jobs = [?job], mq_delayed = []\<rparr>, w_workflows := Map.empty\<rparr>"
  have jobs: "waiting_jobs ?w = [?job]" "mq_delayed (w_queue ?w) = []" by simp_all
  have "ProcessAsyncJob ?E ?job (?w\<lparr>w_queue := (w_queue ?w)\<lparr>mq_jobs := []\<rparr>\<rparr>) =
      Some (fail_job ?E ''complete missing async workflow run'' r workflow_ErrNotFound (?w\<lparr>w_queue := (w_queue ?w)\<lparr>mq_jobs := []\<rparr>\<rparr>))"
    using stored r by (simp add: ProcessAsyncJob_def new_job_def trim_acme app_executor_fields(6,9) app_workflows_Get
        wf_mem_GetByID_def)
  moreover obtain r1 w2 where fail: "fail_job ?E ''complete missing async workflow run'' r workflow_ErrNotFound
      (?w\<lparr>w_queue := (w_queue ?w)\<lparr>mq_jobs := []\<rparr>\<rparr>) = (Inr r1, w2)"
    by (cases "ee_now ?E (?w\<lparr>w_queue := (w_queue ?w)\<lparr>mq_jobs := []\<rparr>\<rparr>)")
      (auto simp: fail_job_def Let_def app_executor_fields(3) on_runs_def run_mem_CompleteRun_def)
  ultimately have job: "ProcessAsyncJob ?E ?job (?w\<lparr>w_queue := (w_queue ?w)\<lparr>mq_jobs := []\<rparr>\<rparr>) = Some (Inr r1, w2)"
    by simp
  have r1: "run_Status r1 = RunStatusFailed" "run_Attempt r1 < run_MaxAttempts r1" "run_TenantID r1 = ''acme''" "run_ID r1 = []"
    using app.fail_job_settled [OF fail] r by (auto simp: settled_def)
  have "wc_others stopped_context ?w = ?w" by (simp add: stopped_context_fields)
  from shutdown_loses_retry [OF jobs job r1(1,2) this, of "Anonymous ''context canceled''"] r1(3,4) show ?thesis
    by (auto simp: stopped_context_fields)
qed

end
