(* ===== verification/Startup.thy ===== *)
theory Startup
  imports PgProgram Config
begin

text \<open>
  Opening the repositories (\<open>internal/platform/persistence/postgres.go\<close> and
  \<open>internal/platform/bootstrap/repositories.go\<close>): the connection pool, the seeding of tenants and keys, and
  what becomes of both when a step fails or when the process is started again.
\<close>

section \<open>The connection pool\<close>

text \<open>
  The driver: \<open>sql.Open\<close> looks at the data source name, and a ping, which has a deadline, at the server.
  The state is the server and the pools that are open.
\<close>

record sql_pool =
  sq_dsn :: string
  sq_ConnMaxIdleTime :: duration
  sq_ConnMaxLifetime :: duration
  sq_MaxOpenConns :: nat
  sq_MaxIdleConns :: nat

record sql_driver =
  sd_Open :: "string \<Rightarrow> goerr option"
  sd_PingContext :: "duration \<Rightarrow> sql_pool \<Rightarrow> pg \<Rightarrow> goerr option"

record sql_state =
  sq_pg :: pg
  sq_open :: "sql_pool list"

definition pool_Close :: "sql_pool \<Rightarrow> sql_state \<Rightarrow> sql_state" where
  "pool_Close db s = s\<lparr>sq_open := remove1 db (sq_open s)\<rparr>"

definition OpenPostgres :: "sql_driver \<Rightarrow> string \<Rightarrow> sql_state \<Rightarrow> sql_pool result \<times> sql_state" where
  "OpenPostgres D dsn s =
     (case sd_Open D dsn of
        Some e \<Rightarrow> (Inl (wrap ''open postgres connection'' e), s)
      | None \<Rightarrow>
          (let db = \<lparr>sq_dsn = dsn, sq_ConnMaxIdleTime = seconds 300, sq_ConnMaxLifetime = seconds 1800,
                     sq_MaxOpenConns = 16, sq_MaxIdleConns = 16\<rparr>;
               s1 = s\<lparr>sq_open := db # sq_open s\<rparr>
           in case sd_PingContext D (seconds 5) db (sq_pg s1) of
                Some e \<Rightarrow> (Inl (wrap ''ping postgres'' e), pool_Close db s1)
              | None \<Rightarrow> (Inr db, s1)))"

section \<open>The repositories\<close>

datatype repositories =
    InMemory "tenant list" "api_key list"
  | OnPostgres sql_pool

definition OpenRepositories ::
    "pg_lib \<Rightarrow> (string \<Rightarrow> string) \<Rightarrow> sql_driver \<Rightarrow> app_config \<Rightarrow> sql_state \<Rightarrow> repositories result \<times> sql_state" where
  "OpenRepositories L hash D cfg s =
     (if dp_PostgresDSN (cf_Dependencies cfg) = [] then
        (Inr (InMemory (buildBootstrapTenants (cf_Auth cfg)) (buildBootstrapAPIKeys (cf_Auth cfg))), s)
      else
        case OpenPostgres D (dp_PostgresDSN (cf_Dependencies cfg)) s of
          (Inl e, s1) \<Rightarrow> (Inl e, s1)
        | (Inr db, s1) \<Rightarrow>
            (case seedBootstrapData L hash (cf_Auth cfg) (sq_pg s1) of
               (Some e, g) \<Rightarrow> (Inl e, pool_Close db (s1\<lparr>sq_pg := g\<rparr>))
             | (None, g) \<Rightarrow> (Inr (OnPostgres db), s1\<lparr>sq_pg := g\<rparr>)))"

definition repositories_Close :: "repositories \<Rightarrow> sql_state \<Rightarrow> sql_state" where
  "repositories_Close r s = (case r of InMemory tenants keys \<Rightarrow> s | OnPostgres db \<Rightarrow> pool_Close db s)"

lemma pool_Close_opened [simp]: "pool_Close db (s\<lparr>sq_open := db # dbs\<rparr>) = s\<lparr>sq_open := dbs\<rparr>"
  by (simp add: pool_Close_def)

lemma OpenPostgres_fields:
  assumes "OpenPostgres D dsn s = (r, s')"
  shows "sq_pg s' = sq_pg s" and "case r of Inl e \<Rightarrow> s' = s | Inr db \<Rightarrow> s' = s\<lparr>sq_open := db # sq_open s\<rparr> \<and> sq_dsn db = dsn"
  using assms by (auto simp: OpenPostgres_def Let_def split: option.splits)

text \<open>
  No pool is left open by a start that fails, and closing what was opened gives back the pools of before.
  Which repositories are opened is what the configuration says.
\<close>

lemma OpenRepositories_pools:
  assumes "OpenRepositories L hash D cfg s = (r, s')"
  shows "case r of Inl e \<Rightarrow> sq_open s' = sq_open s | Inr reps \<Rightarrow> sq_open (repositories_Close reps s') = sq_open s"
proof (cases "dp_PostgresDSN (cf_Dependencies cfg) = []")
  case True
  then show ?thesis using assms by (auto simp: OpenRepositories_def repositories_Close_def)
next
  case False
  obtain x s1 where opened: "OpenPostgres D (dp_PostgresDSN (cf_Dependencies cfg)) s = (x, s1)" by force
  show ?thesis
    using assms False opened OpenPostgres_fields [OF opened]
    by (cases x) (auto simp: OpenRepositories_def repositories_Close_def pool_Close_def split: prod.splits option.splits)
qed

lemma OpenRepositories_kind:
  assumes "OpenRepositories L hash D cfg s = (Inr reps, s')"
  shows "repositories_of cfg =
    (case reps of InMemory tenants keys \<Rightarrow> MemoryRepositories tenants keys | OnPostgres db \<Rightarrow> PostgresRepositories (sq_dsn db))"
  using assms
  by (auto simp: OpenRepositories_def repositories_of_def split: if_splits prod.splits sum.splits option.splits
      dest!: OpenPostgres_fields(2))

section \<open>Seeding once more\<close>

text \<open>What the entries require of the texts, and that seeding changes no other table.\<close>

definition entry_texts :: "pg_lib \<Rightarrow> (string \<Rightarrow> string) \<Rightarrow> bootstrap_key \<Rightarrow> bool" where
  "entry_texts L hash entry \<longleftrightarrow> texts_ok L [bk_TenantID entry, bk_TenantName entry] \<and>
     texts_ok L [bk_APIKeyID entry, bk_TenantID entry, hash (bk_PlaintextKey entry), bk_Label entry]"

definition seeded_tables :: "(string \<Rightarrow> string) \<Rightarrow> bootstrap_key \<Rightarrow> database \<Rightarrow> database" where
  "seeded_tables hash entry db =
     db\<lparr>db_tenants := upsert_row tenant_ID (seeded_tenant entry) (db_tenants db),
        db_api_keys := upsert_row cr_ID (seeded_key hash entry) (db_api_keys db)\<rparr>"

lemma seed_done:
  assumes "seedBootstrapData L hash (entry # entries) s = (None, s')"
  obtains s1 where "seedBootstrapData L hash entries s1 = (None, s')" and "pg_db s1 = seeded_tables hash entry (pg_db s)"
    and "entry_texts L hash entry" and "\<not> key_taken (seeded_key hash entry) (pg_db s)"
proof -
  obtain s0 s1 where steps: "pg_tenant_Upsert L (seeded_tenant entry) s = (None, s0)"
      "pg_key_Upsert L (seeded_key hash entry) s0 = (None, s1)" "seedBootstrapData L hash entries s1 = (None, s')"
    using assms by (auto simp: seedBootstrapData_def pg_then_None pg_step_None)
  have "upsert_tenant L (seeded_tenant entry) (pg_db s) = Inr (pg_db s0)"
    "upsert_key L (seeded_key hash entry) (pg_db s0) = Inr (pg_db s1)"
    using steps(1,2) by (simp_all add: pg_tenant_Upsert_def pg_key_Upsert_def pg_step_None pg_exec_None)
  then have "pg_db s0 = (pg_db s)\<lparr>db_tenants := upsert_row tenant_ID (seeded_tenant entry) (db_tenants (pg_db s))\<rparr>"
    "pg_db s1 = (pg_db s0)\<lparr>db_api_keys := upsert_row cr_ID (seeded_key hash entry) (db_api_keys (pg_db s0))\<rparr>"
    "entry_texts L hash entry" "\<not> key_taken (seeded_key hash entry) (pg_db s0)"
    by (auto simp: upsert_tenant_def upsert_key_def key_taken_def entry_texts_def seeded_tenant_def seeded_key_def)
  then show thesis by (intro that [OF steps(3)]) (simp_all add: seeded_tables_def key_taken_def)
qed

lemma seed_ok:
  assumes "no_faults L" and "entry_texts L hash entry" and "\<not> key_taken (seeded_key hash entry) (pg_db s)"
  shows "seedBootstrapData L hash (entry # entries) s = seedBootstrapData L hash entries
    \<lparr>pg_db = seeded_tables hash entry (pg_db s), pg_tick = Suc (Suc (pg_tick s))\<rparr>"
proof -
  let ?db = "(pg_db s)\<lparr>db_tenants := upsert_row tenant_ID (seeded_tenant entry) (db_tenants (pg_db s))\<rparr>"
  let ?s = "\<lparr>pg_db = ?db, pg_tick = Suc (pg_tick s)\<rparr>"
  have "pg_tenant_Upsert L (seeded_tenant entry) s = (None, ?s)"
    using assms(2) unfolding pg_tenant_Upsert_def pg_step_None
    by (intro pg_exec_ok [OF assms(1)]) (simp add: upsert_tenant_def entry_texts_def seeded_tenant_def)
  moreover have "pg_key_Upsert L (seeded_key hash entry) ?s =
      (None, \<lparr>pg_db = seeded_tables hash entry (pg_db s), pg_tick = Suc (Suc (pg_tick s))\<rparr>)"
  proof -
    have "upsert_key L (seeded_key hash entry) (pg_db ?s) = Inr (seeded_tables hash entry (pg_db s))"
      using assms(2,3)
      by (auto simp: upsert_key_def entry_texts_def key_taken_def seeded_tables_def seeded_key_def seeded_tenant_def
          has_tenant_def set_upsert_row)
    then show ?thesis
      using pg_exec_ok [OF assms(1), where f = "upsert_key L (seeded_key hash entry)" and s = ?s]
      by (simp add: pg_key_Upsert_def pg_step_None)
  qed
  ultimately show ?thesis by (simp add: seedBootstrapData_def pg_then_def pg_step_def)
qed

text \<open>Updating a row that is there already changes nothing.\<close>

lemma upsert_same:
  assumes "row \<in> set rows" and "distinct (map key rows)"
  shows "upsert_row key row rows = rows"
proof -
  have "old = row" if "old \<in> set rows" "key old = key row" for old
    using assms that by (auto simp: distinct_map inj_on_def)
  then have "map (\<lambda>old. if key old = key row then row else old) rows = rows" by (intro map_idI) auto
  then show ?thesis using assms(1) by (auto simp: upsert_row_def)
qed

lemma upsert_keys_same: "key row \<in> key ` set rows \<Longrightarrow> map key (upsert_row key row rows) = map key rows"
  by (auto simp: upsert_row_def)

lemma equal_by_key:
  assumes "map key xs = map key ys" and "distinct (map key xs)"
    and "\<And>k. find (\<lambda>x. key x = k) xs = find (\<lambda>x. key x = k) ys"
  shows "xs = ys"
proof (rule nth_equalityI)
  show same: "length xs = length ys" using assms(1) by (metis length_map)
  fix i assume i: "i < length xs"
  have keys: "key (xs ! i) = key (ys ! i)" using assms(1) i same by (metis nth_map)
  have "find (\<lambda>x. key x = key (xs ! i)) xs = Some (xs ! i)"
    using assms(2) i by (intro find_distinct) simp_all
  moreover have "find (\<lambda>x. key x = key (xs ! i)) ys = Some (ys ! i)"
    using assms(1,2) i same by (intro find_distinct) (simp_all add: keys)
  ultimately show "xs ! i = ys ! i" using assms(3) by simp
qed

text \<open>What holds of the tables when entries have been seeded.\<close>

lemma seed_tables:
  assumes "seedBootstrapData L hash entries s = (None, s')"
  shows "list_all (entry_texts L hash) entries"
    and "\<exists>tenants keys. pg_db s' = (pg_db s)\<lparr>db_tenants := tenants, db_api_keys := keys\<rparr>"
    and "tenant_ID ` set (db_tenants (pg_db s')) = tenant_ID ` set (db_tenants (pg_db s)) \<union> bk_TenantID ` set entries"
  using assms
proof (induction entries arbitrary: s)
  case Nil
  {
    case 1
    then show ?case by simp
  next
    case 2
    then show ?case by (intro exI [of _ "db_tenants (pg_db s)"] exI [of _ "db_api_keys (pg_db s)"]) (simp add: seedBootstrapData_def)
  next
    case 3
    then show ?case by (simp add: seedBootstrapData_def)
  }
next
  case (Cons entry entries)
  {
    case 1
    then show ?case by (metis list.pred_inject(2) seed_done Cons.IH(1))
  next
    case 2
    then obtain s1 where s1: "seedBootstrapData L hash entries s1 = (None, s')"
      "pg_db s1 = seeded_tables hash entry (pg_db s)" by (rule seed_done)
    then show ?case using Cons.IH(2) [OF s1(1)] by (auto simp: seeded_tables_def)
  next
    case 3
    then obtain s1 where s1: "seedBootstrapData L hash entries s1 = (None, s')"
      "pg_db s1 = seeded_tables hash entry (pg_db s)" by (rule seed_done)
    have "tenant_ID ` set (db_tenants (pg_db s1)) = insert (bk_TenantID entry) (tenant_ID ` set (db_tenants (pg_db s)))"
      by (auto simp: s1(2) seeded_tables_def set_upsert_row seeded_tenant_def image_iff)
    then show ?case using Cons.IH(3) [OF s1(1)] by auto
  }
qed

text \<open>Entries whose keys and tenants are there are seeded without an error, and the keys stay as they are.\<close>

lemma seed_present:
  assumes "no_faults L" and "list_all (entry_texts L hash) entries" and "keys_ok (pg_db s)"
    and "seeded_key hash ` set entries \<subseteq> set (db_api_keys (pg_db s))"
    and "bk_TenantID ` set entries \<subseteq> tenant_ID ` set (db_tenants (pg_db s))"
  shows "\<exists>s'. seedBootstrapData L hash entries s = (None, s') \<and> db_api_keys (pg_db s') = db_api_keys (pg_db s) \<and>
    map tenant_ID (db_tenants (pg_db s')) = map tenant_ID (db_tenants (pg_db s))"
  using assms(2-)
proof (induction entries arbitrary: s)
  case (Cons entry entries)
  let ?db = "seeded_tables hash entry (pg_db s)"
  let ?s = "\<lparr>pg_db = ?db, pg_tick = Suc (Suc (pg_tick s))\<rparr>"
  have key: "seeded_key hash entry \<in> set (db_api_keys (pg_db s))" using Cons.prems(3) by simp
  have free: "\<not> key_taken (seeded_key hash entry) (pg_db s)"
    using Cons.prems(2) key by (auto simp: key_taken_def list_ex_iff keys_ok_def distinct_map dest: inj_onD)
  have keys: "db_api_keys ?db = db_api_keys (pg_db s)"
    using Cons.prems(2) key by (simp add: seeded_tables_def upsert_same keys_ok_def)
  have tenants: "map tenant_ID (db_tenants ?db) = map tenant_ID (db_tenants (pg_db s))"
    using Cons.prems(4) by (auto simp: seeded_tables_def seeded_tenant_def intro!: upsert_keys_same)
  then have ids: "tenant_ID ` set (db_tenants ?db) = tenant_ID ` set (db_tenants (pg_db s))" by (metis set_map)
  have "\<exists>s'. seedBootstrapData L hash entries ?s = (None, s') \<and> db_api_keys (pg_db s') = db_api_keys (pg_db ?s) \<and>
      map tenant_ID (db_tenants (pg_db s')) = map tenant_ID (db_tenants (pg_db ?s))"
    using Cons.prems keys tenants ids by (intro Cons.IH) (simp_all add: keys_ok_def)
  then show ?case
    using seed_ok [OF assms(1) _ free, of entries] Cons.prems(1) keys tenants by simp
qed (simp add: seedBootstrapData_def)

lemma seed_twice:
  assumes "no_faults L" and "keys_ok (pg_db s)" and "distinct (map bk_APIKeyID entries)"
    and "seedBootstrapData L hash entries s = (None, s1)" and "db_tenants (pg_db s2) = db_tenants (pg_db s1)"
    and "db_api_keys (pg_db s2) = db_api_keys (pg_db s1)"
  shows "\<exists>s3. seedBootstrapData L hash entries s2 = (None, s3) \<and> pg_db s3 = pg_db s2"
proof -
  have ok: "keys_ok (pg_db s2)" using seed_keys_ok [OF assms(4,2)] assms(5,6) by (simp add: keys_ok_def)
  have present: "seeded_key hash ` set entries \<subseteq> set (db_api_keys (pg_db s2))"
    "bk_TenantID ` set entries \<subseteq> tenant_ID ` set (db_tenants (pg_db s2))"
    using seed_keys [OF assms(4,3)] seed_tables(3) [OF assms(4)] assms(5,6) by auto
  obtain s3 where s3: "seedBootstrapData L hash entries s2 = (None, s3)"
    "db_api_keys (pg_db s3) = db_api_keys (pg_db s2)"
    "map tenant_ID (db_tenants (pg_db s3)) = map tenant_ID (db_tenants (pg_db s2))"
    using seed_present [OF assms(1) seed_tables(1) [OF assms(4)] ok present] by blast
  have "db_tenants (pg_db s3) = db_tenants (pg_db s2)"
  proof (rule equal_by_key [OF s3(3)])
    show "distinct (map tenant_ID (db_tenants (pg_db s3)))" using ok s3(3) by (simp add: keys_ok_def)
    show "find (\<lambda>t. tenant_ID t = k) (db_tenants (pg_db s3)) = find (\<lambda>t. tenant_ID t = k) (db_tenants (pg_db s2))" for k
      using seed_tenants [OF s3(1) ok, of k] seed_tenants [OF assms(4,2), of k] assms(5) by (simp split: option.splits)
  qed
  then have "pg_db s3 = pg_db s2" using seed_tables(2) [OF s3(1)] s3(2) by auto
  then show ?thesis using s3(1) by auto
qed

lemma Load_ids: "Load V name = Inr cfg \<Longrightarrow> distinct (map bk_APIKeyID (cf_Auth cfg))"
  by (auto simp: Load_def bootstrapAuthConfig_def loaded_config_def split: sum.splits dest: parse_ids(2))

text \<open>Starting again changes nothing: when a process has opened its repositories in a database, a later
  start with the same configuration succeeds on whatever the program has made of the database since, as
  long as tenants and keys are as they were and the server works, and leaves every table as it finds it.\<close>
theorem restart_changes_nothing:
  assumes "no_faults L" and "Load V name = Inr cfg" and "keys_ok (pg_db (sq_pg s))"
    and "OpenRepositories L hash D cfg s = (Inr reps, s1)"
    and "db_tenants (pg_db (sq_pg s2)) = db_tenants (pg_db (sq_pg s1))"
    and "db_api_keys (pg_db (sq_pg s2)) = db_api_keys (pg_db (sq_pg s1))"
    and "\<And>timeout db. sd_PingContext D timeout db (sq_pg s2) = None"
  shows "\<exists>s3. OpenRepositories L hash D cfg s2 = (Inr reps, s3) \<and> pg_db (sq_pg s3) = pg_db (sq_pg s2)"
proof (cases "dp_PostgresDSN (cf_Dependencies cfg) = []")
  case True
  then show ?thesis using assms(4) by (simp add: OpenRepositories_def)
next
  case False
  let ?dsn = "dp_PostgresDSN (cf_Dependencies cfg)"
  obtain db g where db: "fst (OpenPostgres D ?dsn s) = Inr db" and g: "seedBootstrapData L hash (cf_Auth cfg) (sq_pg s) = (None, g)"
    and reps: "reps = OnPostgres db" "sq_pg s1 = g"
    using assms(4) False
    by (auto simp: OpenRepositories_def split: prod.splits sum.splits option.splits dest: OpenPostgres_fields(1))
  obtain s3 where again: "seedBootstrapData L hash (cf_Auth cfg) (sq_pg s2) = (None, s3)" "pg_db s3 = pg_db (sq_pg s2)"
    using seed_twice [OF assms(1,3) Load_ids [OF assms(2)] g] assms(5,6) reps(2) by auto
  have "\<exists>s. OpenPostgres D ?dsn s2 = (Inr db, s) \<and> sq_pg s = sq_pg s2"
    using db assms(7) by (auto simp: OpenPostgres_def Let_def split: option.splits)
  then show ?thesis using False reps(1) again by (auto simp: OpenRepositories_def)
qed

text \<open>
  A start leaves the runs as they are; without Redis, the queue of the process is empty. So nothing takes
  up a run that was queued when the process before ended.
\<close>
theorem queued_runs_left_behind:
  assumes "OpenRepositories L hash D cfg s = (Inr (OnPostgres db), s1)" and "dp_RedisAddr (cf_Dependencies cfg) = []"
    and "r \<in> set (db_workflow_runs (pg_db (sq_pg s)))" and "rw_status r = RunStatusQueued"
  shows "r \<in> set (db_workflow_runs (pg_db (sq_pg s1)))" and "sp_works (start_api cfg)"
    and "sp_queue (start_api cfg) = MemoryJobs (NewMemoryQueue 128)" and "mq_jobs (NewMemoryQueue 128) = []"
proof -
  obtain g where "seedBootstrapData L hash (cf_Auth cfg) (sq_pg s) = (None, g)" "sq_pg s1 = g"
    using assms(1)
    by (auto simp: OpenRepositories_def split: if_splits prod.splits sum.splits option.splits dest: OpenPostgres_fields(1))
  then show "r \<in> set (db_workflow_runs (pg_db (sq_pg s1)))" using seed_tables(2) [of L hash] assms(3) by fastforce
  show "sp_works (start_api cfg)" "sp_queue (start_api cfg) = MemoryJobs (NewMemoryQueue 128)"
    using assms(2) by (simp_all add: start_api_def buildJobQueue_def)
  show "mq_jobs (NewMemoryQueue 128) = []" by (simp add: NewMemoryQueue_def)
qed

section \<open>Examples\<close>

definition demo_environment :: environment where
  "demo_environment =
     \<lparr>ev_Getenv = (\<lambda>key. if key = ''POSTGRES_DSN'' then ''postgres://db/app''
                       else if key = ''BOOTSTRAP_API_KEYS'' then ''a|A|k,b|B|m'' else []),
      ev_ParseDuration = (\<lambda>text. Inl (Anonymous ''time: invalid duration'')),
      ev_ParseFloat = (\<lambda>text. Inl (Anonymous ''strconv.ParseFloat: parsing'')), ev_TempDir = ''/tmp''\<rparr>"

definition demo_config :: app_config where
  "demo_config = (case Load demo_environment ''workflow-api'' of Inr cfg \<Rightarrow> cfg)"

definition demo_driver :: sql_driver where
  "demo_driver = \<lparr>sd_Open = (\<lambda>dsn. None), sd_PingContext = (\<lambda>timeout db s. None)\<rparr>"

definition demo_sql :: sql_state where
  "demo_sql = \<lparr>sq_pg = \<lparr>pg_db = empty_database, pg_tick = 0\<rparr>, sq_open = []\<rparr>"

lemma demo_load: "Load demo_environment ''workflow-api'' = Inr demo_config"
  "dp_PostgresDSN (cf_Dependencies demo_config) = ''postgres://db/app''" "cf_Auth demo_config = demo_keys"
proof -
  have load: "\<exists>cfg. Load demo_environment ''workflow-api'' = Inr cfg \<and>
      dp_PostgresDSN (cf_Dependencies cfg) = trim_space ''postgres://db/app'' \<and> cf_Auth cfg = demo_keys"
    by (simp add: Load_def demo_environment_def durationEnv_def bootstrapAuthConfig_def demo_parsed loaded_config_def Let_def)
  moreover have "trim_space ''postgres://db/app'' = ''postgres://db/app''" by code_simp
  ultimately show "Load demo_environment ''workflow-api'' = Inr demo_config"
    "dp_PostgresDSN (cf_Dependencies demo_config) = ''postgres://db/app''" "cf_Auth demo_config = demo_keys"
    by (auto simp: demo_config_def)
qed

lemma demo_open: "\<exists>db. OpenRepositories demo_pg (\<lambda>k. k) demo_driver demo_config demo_sql =
    (Inr (OnPostgres db), \<lparr>sq_pg = demo_seeded, sq_open = [db]\<rparr>)"
  using demo_seeding
  by (simp add: OpenRepositories_def OpenPostgres_def demo_load demo_driver_def demo_sql_def Let_def)

theorem restart_changes_nothing_witness:
  "\<exists>db s3. OpenRepositories demo_pg (\<lambda>k. k) demo_driver demo_config \<lparr>sq_pg = demo_seeded, sq_open = []\<rparr> =
      (Inr (OnPostgres db), s3) \<and> pg_db (sq_pg s3) = pg_db demo_seeded \<and> db_api_keys (pg_db demo_seeded) \<noteq> []"
proof -
  obtain db where opened: "OpenRepositories demo_pg (\<lambda>k. k) demo_driver demo_config demo_sql =
      (Inr (OnPostgres db), \<lparr>sq_pg = demo_seeded, sq_open = [db]\<rparr>)"
    using demo_open by blast
  have "\<exists>s3. OpenRepositories demo_pg (\<lambda>k. k) demo_driver demo_config \<lparr>sq_pg = demo_seeded, sq_open = []\<rparr> =
      (Inr (OnPostgres db), s3) \<and> pg_db (sq_pg s3) = pg_db (sq_pg \<lparr>sq_pg = demo_seeded, sq_open = []\<rparr>)"
    by (rule restart_changes_nothing [OF demo_kept(1) demo_load(1) _ opened])
      (simp_all add: demo_driver_def demo_sql_def empty_database_def keys_ok_def)
  moreover have "db_api_keys (pg_db demo_seeded) \<noteq> []" by code_simp
  ultimately show ?thesis by auto
qed

end
