(* ===== verification/S3Store.thy ===== *)
theory S3Store
  imports Program
begin

text \<open>
  \<open>internal/documents/s3_store.go\<close>: documents as objects of a bucket, which is created when the first object is
  stored. The MinIO client is a parameter: a record of the three requests that the store makes, over a state
  of the server. What the code relies on of the server is the hypothesis \<open>s3_serves\<close>.
\<close>

section \<open>The store\<close>

record 's s3_client =
  sc_BucketExists :: "string \<Rightarrow> 's \<Rightarrow> bool result \<times> 's"
  sc_MakeBucket :: "string \<Rightarrow> 's \<Rightarrow> goerr option \<times> 's"
  sc_PutObject :: "string \<Rightarrow> string \<Rightarrow> string \<Rightarrow> 's \<Rightarrow> goerr option \<times> 's"

record s3_store =
  ss_bucket :: string
  ss_bucketReady :: bool

definition NewS3ObjectStoreWithClient :: "string \<Rightarrow> s3_store" where
  "NewS3ObjectStoreWithClient bucket = \<lparr>ss_bucket = trim_space bucket, ss_bucketReady = False\<rparr>"

text \<open>\<open>minio.New\<close> is the first argument: endpoint, the two keys, and whether to use TLS.\<close>

definition NewS3ObjectStore ::
    "(string \<Rightarrow> string \<Rightarrow> string \<Rightarrow> bool \<Rightarrow> 's s3_client result) \<Rightarrow> string \<Rightarrow> string \<Rightarrow> string \<Rightarrow> string \<Rightarrow> bool \<Rightarrow>
     ('s s3_client \<times> s3_store) result" where
  "NewS3ObjectStore minio_New endpoint0 accessKey0 secretKey0 bucket0 useSSL =
     (let endpoint = trim_space endpoint0; accessKey = trim_space accessKey0;
          secretKey = trim_space secretKey0; bucket = trim_space bucket0
      in if endpoint = [] then Inl (Anonymous ''s3 endpoint is required'')
         else if accessKey = [] then Inl (Anonymous ''s3 access key is required'')
         else if secretKey = [] then Inl (Anonymous ''s3 secret key is required'')
         else if bucket = [] then Inl (Anonymous ''s3 bucket is required'')
         else case minio_New endpoint accessKey secretKey useSSL of
           Inl e \<Rightarrow> Inl (wrap ''create s3 object store client'' e)
         | Inr client \<Rightarrow> Inr (client, NewS3ObjectStoreWithClient bucket))"

definition ensureBucket :: "'s s3_client \<Rightarrow> s3_store \<Rightarrow> 's \<Rightarrow> (goerr option \<times> s3_store) \<times> 's" where
  "ensureBucket C st s =
     (if ss_bucketReady st then ((None, st), s)
      else case sc_BucketExists C (ss_bucket st) s of
        (Inl e, s1) \<Rightarrow> ((Some (wrap ''check s3 bucket'' e), st), s1)
      | (Inr True, s1) \<Rightarrow> ((None, st\<lparr>ss_bucketReady := True\<rparr>), s1)
      | (Inr False, s1) \<Rightarrow>
          (case sc_MakeBucket C (ss_bucket st) s1 of
             (None, s2) \<Rightarrow> ((None, st\<lparr>ss_bucketReady := True\<rparr>), s2)
           | (Some e, s2) \<Rightarrow>
               (case sc_BucketExists C (ss_bucket st) s2 of
                  (Inl existsErr, s3) \<Rightarrow>
                    ((Some (Wrapped ''create s3 bucket: '' e ('' (recheck failed: '' @ error_text existsErr @ '')'')), st), s3)
                | (Inr False, s3) \<Rightarrow> ((Some (wrap ''create s3 bucket'' e), st), s3)
                | (Inr True, s3) \<Rightarrow> ((None, st\<lparr>ss_bucketReady := True\<rparr>), s3))))"

text \<open>The reader of the content is its bytes or the error of reading them.\<close>

definition s3_Put ::
    "'s s3_client \<Rightarrow> (string \<Rightarrow> string) \<Rightarrow> string \<Rightarrow> string result \<Rightarrow> s3_store \<Rightarrow> 's \<Rightarrow>
     (stored_object result \<times> s3_store) \<times> 's" where
  "s3_Put C sha256 objectKey content st s =
     (case ensureBucket C st s of
        ((Some e, st1), s1) \<Rightarrow> ((Inl e, st1), s1)
      | ((None, st1), s1) \<Rightarrow>
          (case content of
             Inl e \<Rightarrow> ((Inl (wrap ''read object content'' e), st1), s1)
           | Inr payload \<Rightarrow>
               (case sc_PutObject C (ss_bucket st1) objectKey payload s1 of
                  (Some e, s2) \<Rightarrow> ((Inl (wrap ''put s3 object'' e), st1), s2)
                | (None, s2) \<Rightarrow>
                    ((Inr \<lparr>so_SizeBytes = int (length payload), so_Checksum = sha256 payload\<rparr>, st1), s2))))"

section \<open>What the server promises\<close>

text \<open>
  \<open>buckets\<close> are the buckets of a state of the server and their objects. Other clients may act between and
  during requests, but buckets are not removed: an answer about a bucket holds when it is given, a bucket that
  was made exists, and an object whose storing was acknowledged is there.
\<close>

type_synonym buckets = "string \<rightharpoonup> (string \<rightharpoonup> string)"

definition s3_serves :: "'s s3_client \<Rightarrow> ('s \<Rightarrow> buckets) \<Rightarrow> bool" where
  "s3_serves C buckets \<longleftrightarrow>
     (\<forall>b s x s'. sc_BucketExists C b s = (x, s') \<longrightarrow>
        dom (buckets s) \<subseteq> dom (buckets s') \<and> (\<forall>found. x = Inr found \<longrightarrow> found = (b \<in> dom (buckets s')))) \<and>
     (\<forall>b s e s'. sc_MakeBucket C b s = (e, s') \<longrightarrow>
        dom (buckets s) \<subseteq> dom (buckets s') \<and> (e = None \<longrightarrow> b \<in> dom (buckets s'))) \<and>
     (\<forall>b k payload s e s'. sc_PutObject C b k payload s = (e, s') \<longrightarrow>
        dom (buckets s) \<subseteq> dom (buckets s') \<and>
        (e = None \<longrightarrow> (\<exists>objects. buckets s' b = Some objects \<and> objects k = Some payload)))"

text \<open>The flag is set only if there is a bucket.\<close>

definition s3_ok :: "('s \<Rightarrow> buckets) \<Rightarrow> s3_store \<Rightarrow> 's \<Rightarrow> bool" where
  "s3_ok buckets st s \<longleftrightarrow> (ss_bucketReady st \<longrightarrow> ss_bucket st \<in> dom (buckets s))"

lemma s3_new_ok: "s3_ok buckets (NewS3ObjectStoreWithClient b) s"
  by (simp add: s3_ok_def NewS3ObjectStoreWithClient_def)

lemma s3_serves_BucketExists:
  assumes "s3_serves C buckets" and "sc_BucketExists C b s = (x, s')"
  shows "dom (buckets s) \<subseteq> dom (buckets s') \<and> (\<forall>found. x = Inr found \<longrightarrow> found = (b \<in> dom (buckets s')))"
  using assms(1)[unfolded s3_serves_def, THEN conjunct1, rule_format, OF assms(2)] by blast

lemma s3_serves_MakeBucket:
  assumes "s3_serves C buckets" and "sc_MakeBucket C b s = (e, s')"
  shows "dom (buckets s) \<subseteq> dom (buckets s') \<and> (e = None \<longrightarrow> b \<in> dom (buckets s'))"
  using assms(1)[unfolded s3_serves_def, THEN conjunct2, THEN conjunct1, rule_format, OF assms(2)] by blast

lemma s3_serves_PutObject:
  assumes "s3_serves C buckets" and "sc_PutObject C b k payload s = (e, s')"
  shows "dom (buckets s) \<subseteq> dom (buckets s') \<and>
     (e = None \<longrightarrow> (\<exists>objects. buckets s' b = Some objects \<and> objects k = Some payload))"
  using assms(1)[unfolded s3_serves_def, THEN conjunct2, THEN conjunct2, rule_format, OF assms(2)] by blast

lemma ensureBucket_spec:
  assumes "s3_serves C buckets" and "s3_ok buckets st s" and "ensureBucket C st s = ((e, st'), s')"
  shows "ss_bucket st' = ss_bucket st \<and> s3_ok buckets st' s' \<and> (e = None) = ss_bucketReady st' \<and>
    dom (buckets s) \<subseteq> dom (buckets s')"
proof (cases "ss_bucketReady st")
  case True
  then show ?thesis using assms(2,3) by (auto simp: ensureBucket_def)
next
  case False
  obtain x s1 where ask: "sc_BucketExists C (ss_bucket st) s = (x, s1)" by fastforce
  note found = s3_serves_BucketExists [OF assms(1) ask]
  show ?thesis
  proof (cases "x = Inr False")
    case missing: True
    obtain e2 s2 where made: "sc_MakeBucket C (ss_bucket st) s1 = (e2, s2)" by fastforce
    note making = s3_serves_MakeBucket [OF assms(1) made]
    obtain x3 s3 where again: "sc_BucketExists C (ss_bucket st) s2 = (x3, s3)" by fastforce
    note rechecked = s3_serves_BucketExists [OF assms(1) again]
    have "dom (buckets s) \<subseteq> dom (buckets s2)" "dom (buckets s) \<subseteq> dom (buckets s3)"
      using found making rechecked by blast+
    then show ?thesis
      using assms(3) False ask missing made again found making rechecked
      by (auto simp: ensureBucket_def s3_ok_def split: option.splits sum.splits bool.splits)
  next
    case False
    then show ?thesis
      using assms(3) \<open>\<not> ss_bucketReady st\<close> ask found
      by (auto simp: ensureBucket_def s3_ok_def split: sum.splits bool.splits)
  qed
qed

lemma s3_Put_spec:
  assumes "s3_serves C buckets" and "s3_ok buckets st s" and "s3_Put C sha256 key content st s = ((x, st'), s')"
  shows "ss_bucket st' = ss_bucket st \<and> s3_ok buckets st' s' \<and>
    (\<forall>stored. x = Inr stored \<longrightarrow> (\<exists>payload objects. content = Inr payload \<and>
       stored = \<lparr>so_SizeBytes = int (length payload), so_Checksum = sha256 payload\<rparr> \<and>
       buckets s' (ss_bucket st) = Some objects \<and> objects key = Some payload))"
proof -
  obtain e st1 s1 where ensured: "ensureBucket C st s = ((e, st1), s1)" by (metis surj_pair)
  note one = ensureBucket_spec [OF assms(1,2) ensured]
  show ?thesis
  proof (cases "e = None \<and> (\<exists>payload. content = Inr payload)")
    case True
    then obtain payload where payload: "content = Inr payload" "e = None" by blast
    obtain e2 s2 where put: "sc_PutObject C (ss_bucket st1) key payload s1 = (e2, s2)" by fastforce
    note two = s3_serves_PutObject [OF assms(1) put]
    show ?thesis
      using assms(3) ensured payload put one two
      by (auto simp: s3_Put_def s3_ok_def split: option.splits)
  next
    case False
    then show ?thesis
      using assms(3) ensured one by (auto simp: s3_Put_def split: option.splits sum.splits)
  qed
qed

section \<open>Creating the bucket\<close>

text \<open>The answer to a request is an error of the request, not one of its meaning: the bucket was made by somebody.\<close>

definition refuses_only_existing :: "'s s3_client \<Rightarrow> ('s \<Rightarrow> buckets) \<Rightarrow> bool" where
  "refuses_only_existing C buckets \<longleftrightarrow>
     (\<forall>b s. \<not> isl (fst (sc_BucketExists C b s))) \<and>
     (\<forall>b s e s'. sc_MakeBucket C b s = (Some e, s') \<longrightarrow> b \<in> dom (buckets s'))"

text \<open>Several processes may start on one server: when a bucket is refused only because another client has made
  it in the meantime, the store is ready after \<open>ensureBucket\<close> and the bucket is there. Once it is ready no request
  is made any more.\<close>
theorem ensureBucket_survives_race:
  assumes "s3_serves C buckets" and "refuses_only_existing C buckets" and "s3_ok buckets st s"
  shows "\<exists>st' s'. ensureBucket C st s = ((None, st'), s') \<and> ss_bucket st \<in> dom (buckets s') \<and>
    (\<forall>s''. ensureBucket C st' s'' = ((None, st'), s''))"
proof -
  obtain e st' s' where run: "ensureBucket C st s = ((e, st'), s')" by (metis surj_pair)
  note spec = ensureBucket_spec [OF assms(1,3) run]
  have "e = None"
  proof (cases "ss_bucketReady st")
    case True
    then show ?thesis using run by (simp add: ensureBucket_def)
  next
    case False
    have answered: "\<exists>found s1. sc_BucketExists C b s0 = (Inr found, s1)" for b s0
    proof -
      have "\<not> isl (fst (sc_BucketExists C b s0))"
        using assms(2)[unfolded refuses_only_existing_def, THEN conjunct1] by blast
      then show ?thesis by (cases "sc_BucketExists C b s0"; cases "fst (sc_BucketExists C b s0)") auto
    qed
    obtain found s1 where ask: "sc_BucketExists C (ss_bucket st) s = (Inr found, s1)" using answered by blast
    obtain e2 s2 where made: "sc_MakeBucket C (ss_bucket st) s1 = (e2, s2)" by fastforce
    obtain found3 s3 where again: "sc_BucketExists C (ss_bucket st) s2 = (Inr found3, s3)" using answered by blast
    have "found3" if "e2 = Some err" for err
    proof -
      have "ss_bucket st \<in> dom (buckets s2)"
        using assms(2)[unfolded refuses_only_existing_def, THEN conjunct2, rule_format] made that by simp
      then show ?thesis using s3_serves_BucketExists [OF assms(1) again] by blast
    qed
    then show ?thesis
      using run False ask made again by (auto simp: ensureBucket_def split: bool.splits option.splits)
  qed
  then show ?thesis
    using run spec by (auto simp: s3_ok_def ensureBucket_def)
qed

section \<open>Uploads\<close>

text \<open>The documents service over this store; the metadata in the repository of \<open>world\<close>.\<close>

definition beside :: "('w \<Rightarrow> 'a \<times> 'w) \<Rightarrow> 'w \<times> 'r \<Rightarrow> 'a \<times> 'w \<times> 'r" where
  "beside f wr = (case wr of (w, r) \<Rightarrow> case f w of (x, w') \<Rightarrow> (x, w', r))"

definition s3_documents :: "platform \<Rightarrow> 's s3_client \<Rightarrow> (world \<times> s3_store \<times> 's) doc_env" where
  "s3_documents P C =
     \<lparr>de_Create = (\<lambda>d cs. beside (de_Create (app_documents P) d cs)),
      de_GetByID = (\<lambda>t k (w, r). de_GetByID (app_documents P) t k w),
      de_ListChunks = (\<lambda>t k (w, r). de_ListChunks (app_documents P) t k w),
      de_Put = (\<lambda>key content (w, st, s).
        case s3_Put C (pf_sha256 P) key (Inr content) st s of ((x, st'), s') \<Rightarrow> (x, w, st', s')),
      de_now = beside (de_now (app_documents P)), de_newID = beside (de_newID (app_documents P))\<rparr>"

lemma beside_rest: "beside f (w, r) = (x, w', r') \<Longrightarrow> r' = r \<and> f w = (x, w')"
  by (auto simp: beside_def split: prod.splits)

lemma s3_build_chunks:
  "build_chunk_list (s3_documents P C) d t c i parts (w, r) = (x, w', r') \<Longrightarrow>
     r' = r \<and> build_chunk_list (app_documents P) d t c i parts w = (x, w')"
proof (induction parts arbitrary: i w r x w' r')
  case (Cons p parts)
  obtain k w1 where k: "de_newID (app_documents P) w = (k, w1)" by fastforce
  then have k3: "de_newID (s3_documents P C) (w, r) = (k, w1, r)" by (simp add: s3_documents_def beside_def)
  obtain y w2 r2 where rest: "build_chunk_list (s3_documents P C) d t c (Suc i) parts (w1, r) = (y, w2, r2)"
    by (metis surj_pair)
  from Cons.IH [OF rest] Cons.prems show ?case by (auto simp: k k3 rest split: sum.splits)
qed simp

lemma s3_buildChunks:
  "buildChunks (s3_documents P C) d t ct content c (w, r) = (x, w', r') \<Longrightarrow>
     r' = r \<and> w_documents w' = w_documents w"
  using build_chunk_list_stores [of P]
  by (auto simp: buildChunks_def split: if_splits dest!: s3_build_chunks)

lemma s3_store_document:
  assumes "store_document (s3_documents P C) t f ct k content (w, st, s) = (x, w', st', s')"
  shows "\<exists>y. s3_Put C (pf_sha256 P) (path_join t (k @ file_ext f)) (Inr content) st s = ((y, st'), s') \<and>
    (case x of
       Inl e \<Rightarrow> w_documents w' = w_documents w
     | Inr d \<Rightarrow> \<exists>stored. y = Inr stored \<and> doc_ObjectKey d = path_join t (k @ file_ext f) \<and>
         doc_Checksum d = so_Checksum stored \<and> doc_SizeBytes d = so_SizeBytes stored \<and>
         doc_mem_GetByID t (doc_ID d) (w_documents w') = Inr d)"
proof -
  let ?key = "path_join t (k @ file_ext f)" and ?E = "s3_documents P C"
  obtain y st1 s1 where put: "s3_Put C (pf_sha256 P) ?key (Inr content) st s = ((y, st1), s1)" by (metis surj_pair)
  then have put3: "de_Put ?E ?key content (w, st, s) = (y, w, st1, s1)" by (simp add: s3_documents_def)
  show ?thesis
  proof (cases y)
    case (Inl e)
    then show ?thesis using assms put put3 by (auto simp: store_document_def Let_def)
  next
    case (Inr stored)
    obtain at_time w2 where now: "de_now (app_documents P) w = (at_time, w2)" by fastforce
    then have now3: "de_now ?E (w, st1, s1) = (at_time, w2, st1, s1)" by (simp add: s3_documents_def beside_def)
    have w2: "w_documents w2 = w_documents w" using now by (auto simp: app_documents_def app_now_def)
    obtain z w3 r3 where chunks: "buildChunks ?E k t ct content at_time (w2, st1, s1) = (z, w3, r3)"
      by (metis surj_pair)
    note w3 = s3_buildChunks [OF chunks]
    have create: "de_Create ?E d cs (w3, r) = (fst (doc_mem_Create d cs (w_documents w3)),
        w3\<lparr>w_documents := snd (doc_mem_Create d cs (w_documents w3))\<rparr>, r)" for d cs r
      by (simp add: s3_documents_def beside_def app_documents_fields on_documents_def split: prod.split)
    show ?thesis
    proof (cases z)
      case (Inl e)
      then show ?thesis using assms put3 put \<open>y = Inr stored\<close> now3 chunks w3 w2
        by (auto simp: store_document_def Let_def)
    next
      case made: (Inr cs)
      show ?thesis
        using assms put3 put Inr now3 chunks w3 w2 made
        by (auto simp: store_document_def Let_def create new_document_def doc_mem_Create_def doc_mem_GetByID_def
            split: if_splits option.splits prod.splits)
    qed
  qed
qed

text \<open>C28: what an upload to S3 leaves: the content lies in the bucket under the key of the document, size and
  checksum of the document are those of the content, and the tenant can read the document; an upload that fails
  leaves no document. The bucket is made by the first upload.\<close>
theorem s3_upload_stored:
  assumes "s3_serves C buckets" and "s3_ok buckets st s"
    and "documents_Create (s3_documents P C) t p (w, st, s) = (x, w', st', s')"
  shows "s3_ok buckets st' s' \<and> ss_bucket st' = ss_bucket st \<and>
    (case x of
       Inl e \<Rightarrow> w_documents w' = w_documents w
     | Inr d \<Rightarrow> \<exists>content objects. cp_Content p = Some (Inr content) \<and>
         buckets s' (ss_bucket st) = Some objects \<and> objects (doc_ObjectKey d) = Some content \<and>
         doc_SizeBytes d = int (length content) \<and> doc_Checksum d = pf_sha256 P content \<and>
         doc_mem_GetByID t (doc_ID d) (w_documents w') = Inr d)"
proof -
  let ?E = "s3_documents P C" and ?filename = "file_base (trim_space (cp_Filename p))"
  have newID: "de_newID ?E (w, st, s) = (i, wr) \<Longrightarrow> \<exists>w1. wr = (w1, st, s) \<and> w_documents w1 = w_documents w" for i wr
    by (auto simp: s3_documents_def beside_def app_documents_def app_newID_def split: prod.splits)
  consider (early) "w_documents w' = w_documents w" "st' = st" "s' = s" "\<exists>e. x = Inl e"
    | (stored) content k ct w1 where "cp_Content p = Some (Inr content)" "w_documents w1 = w_documents w"
        "store_document ?E t ?filename ct k content (w1, st, s) = (x, w', st', s')"
    using assms(3) newID by (auto simp: documents_Create_def Let_def split: if_splits option.splits sum.splits prod.splits)
  then show ?thesis
  proof cases
    case early
    then show ?thesis using assms(2) by auto
  next
    case stored
    obtain y where put: "s3_Put C (pf_sha256 P) (path_join t (k @ file_ext ?filename)) (Inr content) st s = ((y, st'), s')"
      and doc: "case x of
         Inl e \<Rightarrow> w_documents w' = w_documents w1
       | Inr d \<Rightarrow> \<exists>stored. y = Inr stored \<and> doc_ObjectKey d = path_join t (k @ file_ext ?filename) \<and>
           doc_Checksum d = so_Checksum stored \<and> doc_SizeBytes d = so_SizeBytes stored \<and>
           doc_mem_GetByID t (doc_ID d) (w_documents w') = Inr d"
      using s3_store_document [OF stored(3)] by blast
    show ?thesis
      using s3_Put_spec [OF assms(1,2) put] doc stored(1,2) by (auto split: sum.splits)
  qed
qed

section \<open>Examples\<close>

text \<open>A server with one bucket at most, in which another client makes the bucket just before our request does.\<close>

definition demo_s3 :: "buckets s3_client" where
  "demo_s3 =
     \<lparr>sc_BucketExists = (\<lambda>b s. (Inr (s b \<noteq> None), s)),
      sc_MakeBucket = (\<lambda>b s. (Some (Anonymous ''exists''), if s b = None then s(b \<mapsto> Map.empty) else s)),
      sc_PutObject = (\<lambda>b k payload s. case s b of
         None \<Rightarrow> (Some (Anonymous ''no bucket''), s)
       | Some objects \<Rightarrow> (None, s(b \<mapsto> objects(k \<mapsto> payload))))\<rparr>"

lemma demo_s3_serves: "s3_serves demo_s3 (\<lambda>s. s)"
  unfolding s3_serves_def by (auto simp: demo_s3_def split: if_splits option.splits)

lemma demo_s3_refuses: "refuses_only_existing demo_s3 (\<lambda>s. s)"
  unfolding refuses_only_existing_def by (auto simp: demo_s3_def)

theorem ensureBucket_survives_race_witness:
  "\<exists>st' s'. ensureBucket demo_s3 (NewS3ObjectStoreWithClient ''b'') Map.empty = ((None, st'), s') \<and>
     ss_bucket (NewS3ObjectStoreWithClient ''b'') \<in> dom s'"
  using ensureBucket_survives_race [OF demo_s3_serves demo_s3_refuses s3_new_ok] by blast

theorem s3_upload_stored_witness:
  "\<exists>d r. documents_Create (s3_documents demo_platform demo_s3) ''acme'' demo_upload
       (demo_start, NewS3ObjectStoreWithClient ''b'', Map.empty) = (Inr d, r) \<and>
     doc_SizeBytes d = int (length ''refunds take days'')"
proof -
  obtain x w' st' s' where run: "documents_Create (s3_documents demo_platform demo_s3) ''acme'' demo_upload
      (demo_start, NewS3ObjectStoreWithClient ''b'', Map.empty) = (x, w', st', s')"
    by (metis surj_pair)
  have content: "cp_Content demo_upload = Some (Inr ''refunds take days'')" by (simp add: demo_upload_def)
  have "case documents_Create (s3_documents demo_platform demo_s3) ''acme'' demo_upload
      (demo_start, NewS3ObjectStoreWithClient ''b'', Map.empty) of (Inr d, r) \<Rightarrow> True | _ \<Rightarrow> False"
    by code_simp
  then have "\<not> isl x" by (simp add: run split: sum.splits)
  then obtain d where "x = Inr d" by (cases x) auto
  then show ?thesis
    using s3_upload_stored [OF demo_s3_serves s3_new_ok run] run content by auto
qed

end
