(* ===== verification/Process.thy ===== *)
theory Process
  imports Startup S3Store
begin

text \<open>
  The processes from start to exit: \<open>main\<close> of \<open>cmd/api/main.go\<close> and \<open>cmd/worker/main.go\<close>, with the tracing of
  \<open>internal/platform/observability/tracing.go\<close> and the opening of the object store. What is released, and
  the status the process exits with, on every way out.
\<close>

section \<open>Tracing\<close>

text \<open>The two arguments are the errors of creating the exporter and the resource.\<close>

datatype tracing =
    NoopTracing
  | StdoutTracing rat

definition sample_ratio :: "rat \<Rightarrow> rat" where
  "sample_ratio configured =
     (let ratio = (if configured < 0 then 0 else configured) in if 1 < ratio then 1 else ratio)"

definition observability_Setup :: "goerr option \<Rightarrow> goerr option \<Rightarrow> app_config \<Rightarrow> tracing result" where
  "observability_Setup exporter_err resource_err cfg =
     (let exporterName = trim_space (oc_Exporter (cf_Observability cfg)) in
      if exporterName = [] \<or> exporterName = ''none'' then Inr NoopTracing
      else if exporterName \<noteq> ''stdout'' then Inl (Anonymous (''unsupported otel exporter '' @ quote exporterName))
      else case exporter_err of
        Some e \<Rightarrow> Inl (wrap ''create stdout trace exporter'' e)
      | None \<Rightarrow>
          (case resource_err of
             Some e \<Rightarrow> Inl (wrap ''build trace resource'' e)
           | None \<Rightarrow> Inr (StdoutTracing (sample_ratio (oc_SampleRatio (cf_Observability cfg))))))"

lemma sample_ratio_bounds: "0 \<le> sample_ratio x \<and> sample_ratio x \<le> 1 \<and> (0 \<le> x \<and> x \<le> 1 \<longrightarrow> sample_ratio x = x)"
  by (simp add: sample_ratio_def Let_def)

section \<open>The object store\<close>

datatype 'c opened_store =
    InDirectory string
  | InBucket "'c s3_client" s3_store

definition open_object_store ::
    "(string \<Rightarrow> string \<Rightarrow> string \<Rightarrow> bool \<Rightarrow> 'c s3_client result) \<Rightarrow> app_config \<Rightarrow> 'c opened_store result" where
  "open_object_store minio_New cfg =
     (let s3 = st_S3 (cf_Storage cfg) in
      if s3_Endpoint s3 = [] then Inr (InDirectory (st_ObjectDir (cf_Storage cfg)))
      else case NewS3ObjectStore minio_New (s3_Endpoint s3) (s3_AccessKey s3) (s3_SecretKey s3) (s3_Bucket s3) (s3_UseSSL s3) of
        Inl e \<Rightarrow> Inl e
      | Inr (client, st) \<Rightarrow> Inr (InBucket client st))"

lemma open_object_store_kind:
  "open_object_store minio_New cfg = Inr st \<Longrightarrow>
     (case buildObjectStore cfg of LocalObjects dir \<Rightarrow> st = InDirectory dir | S3Objects s3 \<Rightarrow> \<exists>client b. st = InBucket client b)"
  by (auto simp: open_object_store_def buildObjectStore_def Let_def split: if_splits sum.splits)

section \<open>The API process\<close>

text \<open>
  The state is the database server with the open pools, and how often the tracing provider was shut down,
  which is when it writes its last spans. What happens while the process serves is a parameter: it ends
  with an error of the listener or the worker, or with a signal; and so are the errors of the calls at the
  end. A pool is closed also when its \<open>Close\<close> reports an error, which is only logged.
\<close>

record process_state =
  pr_sql :: sql_state
  pr_flushes :: nat

datatype serving_end =
    StoppedUnexpectedly goerr
  | SignalReceived

datatype process_end =
    Panicked goerr
  | Exited nat

record 'c outside =
  os_env :: environment
  os_lib :: pg_lib
  os_hash :: "string \<Rightarrow> string"
  os_driver :: sql_driver
  os_exporter_err :: "goerr option"
  os_resource_err :: "goerr option"
  os_minio_New :: "string \<Rightarrow> string \<Rightarrow> string \<Rightarrow> bool \<Rightarrow> 'c s3_client result"
  os_serve :: "app_config \<Rightarrow> repositories \<Rightarrow> 'c opened_store \<Rightarrow> process_state \<Rightarrow> serving_end \<times> process_state"
  os_Shutdown :: "duration \<Rightarrow> goerr option"
  os_flush :: "nat \<Rightarrow> goerr option"
  os_work :: "app_config \<Rightarrow> repositories \<Rightarrow> 'c opened_store \<Rightarrow> process_state \<Rightarrow> goerr option \<times> process_state"

definition shutdown_tracing :: "'c outside \<Rightarrow> tracing \<Rightarrow> process_state \<Rightarrow> goerr option \<times> process_state" where
  "shutdown_tracing X tr s =
     (case tr of
        NoopTracing \<Rightarrow> (None, s)
      | StdoutTracing ratio \<Rightarrow> (os_flush X (pr_flushes s), s\<lparr>pr_flushes := Suc (pr_flushes s)\<rparr>))"

definition close_repositories :: "repositories \<Rightarrow> process_state \<Rightarrow> process_state" where
  "close_repositories reps s = s\<lparr>pr_sql := repositories_Close reps (pr_sql s)\<rparr>"

text \<open>
  What a process opens once tracing is set up. \<open>os.Exit\<close> does not run the deferred calls; a process that
  returns from \<open>main\<close> runs them, the last one first.
\<close>

definition open_services ::
    "'c outside \<Rightarrow> app_config \<Rightarrow> process_state \<Rightarrow> (repositories \<times> 'c opened_store) option \<times> process_state" where
  "open_services X cfg s =
     (case OpenRepositories (os_lib X) (os_hash X) (os_driver X) cfg (pr_sql s) of
        (Inl e, q) \<Rightarrow> (None, s\<lparr>pr_sql := q\<rparr>)
      | (Inr reps, q) \<Rightarrow>
          (case open_object_store (os_minio_New X) cfg of
             Inl e \<Rightarrow> (None, s\<lparr>pr_sql := q\<rparr>)
           | Inr st \<Rightarrow> (Some (reps, st), s\<lparr>pr_sql := q\<rparr>)))"

text \<open>From the end of the serving phase to the exit.\<close>

definition api_finish ::
    "'c outside \<Rightarrow> app_config \<Rightarrow> tracing \<Rightarrow> repositories \<Rightarrow> serving_end \<times> process_state \<Rightarrow> process_end \<times> process_state" where
  "api_finish X cfg tr reps r =
     (case r of
        (StoppedUnexpectedly e, s) \<Rightarrow> (Exited 1, s)
      | (SignalReceived, s) \<Rightarrow>
          (case os_Shutdown X (cf_ShutdownTimeout cfg) of
             Some e \<Rightarrow> (Exited 1, s)
           | None \<Rightarrow>
               (case shutdown_tracing X tr s of
                  (Some e, s1) \<Rightarrow> (Exited 1, s1)
                | (None, s1) \<Rightarrow> (Exited 0, close_repositories reps s1))))"

definition api_main :: "'c outside \<Rightarrow> process_state \<Rightarrow> process_end \<times> process_state" where
  "api_main X s =
     (case Load (os_env X) ''workflow-api'' of
        Inl e \<Rightarrow> (Panicked e, s)
      | Inr cfg \<Rightarrow>
          (case observability_Setup (os_exporter_err X) (os_resource_err X) cfg of
             Inl e \<Rightarrow> (Exited 1, s)
           | Inr tr \<Rightarrow>
               (case open_services X cfg s of
                  (None, s1) \<Rightarrow> (Exited 1, s1)
                | (Some (reps, st), s1) \<Rightarrow> api_finish X cfg tr reps (os_serve X cfg reps st s1))))"

section \<open>The worker process\<close>

definition context_Canceled :: goerr where
  "context_Canceled = Sentinel ''context'' ''context canceled''"

definition worker_finish ::
    "'c outside \<Rightarrow> tracing \<Rightarrow> repositories \<Rightarrow> goerr option \<times> process_state \<Rightarrow> process_end \<times> process_state" where
  "worker_finish X tr reps r =
     (case r of (err, s) \<Rightarrow>
        if (case err of None \<Rightarrow> False | Some e \<Rightarrow> \<not> errors_is e context_Canceled) then (Exited 1, s)
        else (Exited 0, snd (shutdown_tracing X tr (close_repositories reps s))))"

definition worker_main :: "'c outside \<Rightarrow> process_state \<Rightarrow> process_end \<times> process_state" where
  "worker_main X s =
     (case Load (os_env X) ''workflow-worker'' of
        Inl e \<Rightarrow> (Panicked e, s)
      | Inr cfg \<Rightarrow>
          (case observability_Setup (os_exporter_err X) (os_resource_err X) cfg of
             Inl e \<Rightarrow> (Exited 1, s)
           | Inr tr \<Rightarrow>
               if dp_RedisAddr (cf_Dependencies cfg) = [] then (Exited 1, s)
               else case open_services X cfg s of
                  (None, s1) \<Rightarrow> (Exited 1, s1)
                | (Some (reps, st), s1) \<Rightarrow> worker_finish X tr reps (os_work X cfg reps st s1)))"

section \<open>What is released\<close>

text \<open>The program in between neither closes pools nor shuts down the provider.\<close>

definition keeps_resources :: "(process_state \<Rightarrow> 'a \<times> process_state) \<Rightarrow> bool" where
  "keeps_resources f \<longleftrightarrow> (\<forall>s. sq_open (pr_sql (snd (f s))) = sq_open (pr_sql s) \<and> pr_flushes (snd (f s)) = pr_flushes s)"

lemma keeps_resourcesD:
  "keeps_resources f \<Longrightarrow> f s = (x, s') \<Longrightarrow> sq_open (pr_sql s') = sq_open (pr_sql s) \<and> pr_flushes s' = pr_flushes s"
  unfolding keeps_resources_def by (metis snd_conv)

definition flushes_of :: "tracing \<Rightarrow> nat" where
  "flushes_of tr = (case tr of NoopTracing \<Rightarrow> 0 | StdoutTracing ratio \<Rightarrow> 1)"

lemma shutdown_tracing_fields:
  "pr_sql (snd (shutdown_tracing X tr s)) = pr_sql s"
  "pr_flushes (snd (shutdown_tracing X tr s)) = pr_flushes s + flushes_of tr"
  by (cases tr; simp add: shutdown_tracing_def flushes_of_def)+

lemma close_cong:
  "sq_open a = sq_open b \<Longrightarrow> sq_open (repositories_Close reps a) = sq_open (repositories_Close reps b)"
  by (cases reps) (simp_all add: repositories_Close_def pool_Close_def)

lemma open_services_pools:
  assumes "open_services X cfg s = (Some (reps, st), s1)"
  shows "sq_open (repositories_Close reps (pr_sql s1)) = sq_open (pr_sql s)" and "pr_flushes s1 = pr_flushes s"
  using assms
  by (auto simp: open_services_def split: prod.splits sum.splits dest: OpenRepositories_pools)

lemma closed_after:
  assumes "open_services X cfg s = (Some (reps, st), s1)" and "sq_open (pr_sql s2) = sq_open (pr_sql s1)"
  shows "sq_open (pr_sql (close_repositories reps s2)) = sq_open (pr_sql s)"
  using open_services_pools(1) [OF assms(1)] close_cong [OF assms(2), of reps]
  by (simp add: close_repositories_def)

text \<open>A process that exits with status 0 has closed its pools, and written its spans exactly once.\<close>

theorem api_clean_exit:
  assumes "api_main X s = (Exited 0, s')" and "\<And>cfg reps st. keeps_resources (os_serve X cfg reps st)"
  shows "sq_open (pr_sql s') = sq_open (pr_sql s) \<and>
    (\<exists>cfg tr. Load (os_env X) ''workflow-api'' = Inr cfg \<and>
       observability_Setup (os_exporter_err X) (os_resource_err X) cfg = Inr tr \<and>
       pr_flushes s' = pr_flushes s + flushes_of tr)"
proof -
  obtain cfg tr reps st s1 s2 where steps: "Load (os_env X) ''workflow-api'' = Inr cfg"
    "observability_Setup (os_exporter_err X) (os_resource_err X) cfg = Inr tr"
    "open_services X cfg s = (Some (reps, st), s1)" "os_serve X cfg reps st s1 = (SignalReceived, s2)"
    and s': "s' = close_repositories reps (snd (shutdown_tracing X tr s2))"
    using assms(1)
    by (auto simp: api_main_def api_finish_def split: sum.splits prod.splits option.splits serving_end.splits)
  note kept = keeps_resourcesD [OF assms(2) steps(4)]
  have "sq_open (pr_sql s') = sq_open (pr_sql s)"
    unfolding s' by (rule closed_after [OF steps(3)]) (simp add: shutdown_tracing_fields kept)
  moreover have "pr_flushes s' = pr_flushes s + flushes_of tr"
    by (simp add: s' close_repositories_def shutdown_tracing_fields kept open_services_pools(2) [OF steps(3)])
  ultimately show ?thesis using steps(1,2) by blast
qed

theorem worker_clean_exit:
  assumes "worker_main X s = (Exited 0, s')" and "\<And>cfg reps st. keeps_resources (os_work X cfg reps st)"
  shows "sq_open (pr_sql s') = sq_open (pr_sql s) \<and>
    (\<exists>cfg tr. Load (os_env X) ''workflow-worker'' = Inr cfg \<and> dp_RedisAddr (cf_Dependencies cfg) \<noteq> [] \<and>
       observability_Setup (os_exporter_err X) (os_resource_err X) cfg = Inr tr \<and>
       pr_flushes s' = pr_flushes s + flushes_of tr)"
proof -
  obtain cfg tr reps st s1 err s2 where steps: "Load (os_env X) ''workflow-worker'' = Inr cfg"
    "observability_Setup (os_exporter_err X) (os_resource_err X) cfg = Inr tr" "dp_RedisAddr (cf_Dependencies cfg) \<noteq> []"
    "open_services X cfg s = (Some (reps, st), s1)" "os_work X cfg reps st s1 = (err, s2)"
    and s': "s' = snd (shutdown_tracing X tr (close_repositories reps s2))"
    using assms(1) by (auto simp: worker_main_def worker_finish_def split: sum.splits prod.splits option.splits if_splits)
  note kept = keeps_resourcesD [OF assms(2) steps(5)]
  have "sq_open (pr_sql s') = sq_open (pr_sql s)"
    using closed_after [OF steps(4), of s2] kept by (simp add: s' shutdown_tracing_fields)
  moreover have "pr_flushes s' = pr_flushes s + flushes_of tr"
    by (simp add: s' close_repositories_def shutdown_tracing_fields kept open_services_pools(2) [OF steps(4)])
  ultimately show ?thesis using steps(1,2,3) by blast
qed

text \<open>An API process that stops unexpectedly loses its spans and leaves its connections open: when the
  listener or the worker fails, the process exits with status 1 without running its deferred calls; the
  tracing provider is not shut down, and the pool that was opened is still open.\<close>
theorem failed_server_releases_nothing:
  assumes "Load (os_env X) ''workflow-api'' = Inr cfg"
    and "observability_Setup (os_exporter_err X) (os_resource_err X) cfg = Inr (StdoutTracing ratio)"
    and "open_services X cfg s = (Some (OnPostgres db, st), s1)"
    and "os_serve X cfg (OnPostgres db) st s1 = (StoppedUnexpectedly e, s2)"
    and "keeps_resources (os_serve X cfg (OnPostgres db) st)"
  shows "api_main X s = (Exited 1, s2) \<and> pr_flushes s2 = pr_flushes s \<and> db \<in> set (sq_open (pr_sql s2))"
proof -
  have "db \<in> set (sq_open (pr_sql s1))"
    using assms(3)
    by (auto simp: open_services_def OpenRepositories_def split: prod.splits sum.splits option.splits if_splits
        dest!: OpenPostgres_fields(2))
  then show ?thesis
    using assms(1-4) keeps_resourcesD [OF assms(5,4)] open_services_pools(2) [OF assms(3)]
    by (simp add: api_main_def api_finish_def)
qed

end
