(* ===== verification/Deployment.thy ===== *)
theory Deployment
  imports Process Redis
begin

text \<open>
  The two processes together, as \<open>cmd/api/main.go\<close> and \<open>cmd/worker/main.go\<close> put them up with PostgreSQL and
  Redis: each has its own memory and effects, both use the same tables and the same queue.
\<close>

section \<open>A service over a part of the state\<close>

text \<open>The operations of an executor service on the part of a state that a pair of functions reads and writes.\<close>

definition up :: "('t \<Rightarrow> 's) \<Rightarrow> ('s \<Rightarrow> 't \<Rightarrow> 't) \<Rightarrow> ('s \<Rightarrow> 'a \<times> 's) \<Rightarrow> 't \<Rightarrow> 'a \<times> 't" where
  "up part update f s = (case f (part s) of (x, u) \<Rightarrow> (x, update u s))"

definition up_trigger :: "('t \<Rightarrow> 's) \<Rightarrow> ('s \<Rightarrow> 't \<Rightarrow> 't) \<Rightarrow> 's trigger_ops \<Rightarrow> 't trigger_ops" where
  "up_trigger part update T =
     \<lparr>to_Allow = (\<lambda>t. up part update (to_Allow T t)),
      to_Lookup = (\<lambda>t key fingerprint s. to_Lookup T t key fingerprint (part s)),
      to_Store = (\<lambda>t key rec. up part update (to_Store T t key rec))\<rparr>"

definition up_executor :: "('t \<Rightarrow> 's) \<Rightarrow> ('s \<Rightarrow> 't \<Rightarrow> 't) \<Rightarrow> 's exec_env \<Rightarrow> 't exec_env" where
  "up_executor part update E =
     \<lparr>ee_CreateRun = (\<lambda>r. up part update (ee_CreateRun E r)),
      ee_UpdateRun = (\<lambda>r. up part update (ee_UpdateRun E r)),
      ee_CompleteRun = (\<lambda>r steps. up part update (ee_CompleteRun E r steps)),
      ee_SavePending = (\<lambda>r steps p. up part update (ee_SavePending E r steps p)),
      ee_LoadPending = (\<lambda>t k s. ee_LoadPending E t k (part s)),
      ee_GetRun = (\<lambda>t k s. ee_GetRun E t k (part s)),
      ee_ListRuns = (\<lambda>t st s. ee_ListRuns E t st (part s)),
      ee_ListSteps = (\<lambda>t k s. ee_ListSteps E t k (part s)),
      ee_workflows_Get = (\<lambda>t k s. ee_workflows_Get E t k (part s)),
      ee_documents_ListChunks = (\<lambda>t k s. ee_documents_ListChunks E t k (part s)),
      ee_audit_Record = map_option (\<lambda>f t p. up part update (f t p)) (ee_audit_Record E),
      ee_trigger = map_option (up_trigger part update) (ee_trigger E),
      ee_Generate = (\<lambda>prompt. up part update (ee_Generate E prompt)),
      ee_Do = (\<lambda>rq. up part update (ee_Do E rq)),
      ee_Enqueue = map_option (\<lambda>f job. up part update (f job)) (ee_Enqueue E),
      ee_now = up part update (ee_now E), ee_newID = up part update (ee_newID E),
      ee_net = ee_net E, ee_fmt = ee_fmt E, ee_NewRequest = ee_NewRequest E, ee_Unmarshal = ee_Unmarshal E\<rparr>"

section \<open>The Redis queue as the queue of a service\<close>

text \<open>
  The interface of queues knows errors only. A call that panics ends its process, and one that does not
  return keeps it; neither happens with a server that keeps its laws, and both are an error here.
\<close>

definition no_answer :: goerr where
  "no_answer = Anonymous ''the process does not go on''"

definition sent :: "unit reading \<times> 'r \<Rightarrow> goerr option \<times> 'r" where
  "sent r = (case r of (Value u, s) \<Rightarrow> (None, s) | (Failure e, s) \<Rightarrow> (Some e, s) | (Panic, s) \<Rightarrow> (Some no_answer, s))"

definition redis_send :: "'r redis_env \<Rightarrow> async_job \<Rightarrow> 'r \<Rightarrow> goerr option \<times> 'r" where
  "redis_send R job s = sent (redis_Enqueue R job s)"

definition redis_send_after :: "'r redis_env \<Rightarrow> async_job \<Rightarrow> duration \<Rightarrow> 'r \<Rightarrow> goerr option \<times> 'r" where
  "redis_send_after R job delay s = sent (redis_EnqueueAfter R job delay s)"

definition redis_receive :: "'r redis_env \<Rightarrow> duration \<Rightarrow> 'r \<Rightarrow> async_job option result \<times> 'r" where
  "redis_receive R wait s =
     (case redis_Dequeue R wait s of
        None \<Rightarrow> (Inl no_answer, s)
      | Some (Value job, s1) \<Rightarrow> (Inr job, s1)
      | Some (Failure e, s1) \<Rightarrow> (Inl e, s1)
      | Some (Panic, s1) \<Rightarrow> (Inl no_answer, s1))"

section \<open>The processes\<close>

record 'r deployment =
  dy_pg :: pg
  dy_redis :: 'r
  dy_api :: world
  dy_worker :: world

definition redis_part :: "('r \<Rightarrow> 'a \<times> 'r) \<Rightarrow> 'r deployment \<Rightarrow> 'a \<times> 'r deployment" where
  "redis_part = up dy_redis (\<lambda>r s. s\<lparr>dy_redis := r\<rparr>)"

definition api_part :: "'r deployment \<Rightarrow> pg_world" where
  "api_part s = (dy_pg s, dy_api s)"

definition set_api_part :: "pg_world \<Rightarrow> 'r deployment \<Rightarrow> 'r deployment" where
  "set_api_part u s = s\<lparr>dy_pg := fst u, dy_api := snd u\<rparr>"

definition worker_part :: "'r deployment \<Rightarrow> pg_world" where
  "worker_part s = (dy_pg s, dy_worker s)"

definition set_worker_part :: "pg_world \<Rightarrow> 'r deployment \<Rightarrow> 'r deployment" where
  "set_worker_part u s = s\<lparr>dy_pg := fst u, dy_worker := snd u\<rparr>"

definition api_executor :: "pg_lib \<Rightarrow> platform \<Rightarrow> 'r redis_env \<Rightarrow> 'r deployment exec_env" where
  "api_executor L P R =
     (up_executor api_part set_api_part (pg_executor L P))\<lparr>ee_Enqueue := Some (\<lambda>job. redis_part (redis_send R job))\<rparr>"

definition worker_executor :: "pg_lib \<Rightarrow> platform \<Rightarrow> 'r redis_env \<Rightarrow> 'r deployment exec_env" where
  "worker_executor L P R =
     (up_executor worker_part set_worker_part (pg_executor L P))\<lparr>ee_Enqueue := Some (\<lambda>job. redis_part (redis_send R job))\<rparr>"

definition worker_service :: "pg_lib \<Rightarrow> platform \<Rightarrow> 'r redis_env \<Rightarrow> 'r deployment worker_env" where
  "worker_service L P R =
     \<lparr>wk_exec = worker_executor L P R, wk_Dequeue = (\<lambda>wait. redis_part (redis_receive R wait)),
      wk_EnqueueAfter = (\<lambda>job delay. redis_part (redis_send_after R job delay)),
      wk_pollTimeout = default_pollTimeout, wk_baseBackoff = default_baseBackoff\<rparr>"

section \<open>What the operations leave alone\<close>

lemma redis_part_fields:
  "dy_pg (snd (redis_part f s)) = dy_pg s" "fst (redis_part f s) = fst (f (dy_redis s))"
  "dy_redis (snd (redis_part f s)) = snd (f (dy_redis s))"
  by (simp_all add: redis_part_def up_def split: prod.split)

lemma up_api_fields:
  "dy_redis (snd (up api_part set_api_part f s)) = dy_redis s"
  "fst (up api_part set_api_part f s) = fst (f (api_part s))"
  "api_part (snd (up api_part set_api_part f s)) = snd (f (api_part s))"
  by (simp_all add: up_def api_part_def set_api_part_def split: prod.split)

text \<open>Whom the row of a new run belongs to, and that recording an event changes no run and no workflow.\<close>

lemma pg_CreateRun_row:
  assumes "no_faults L" and "pg_CreateRun L r g = (None, g1)"
    and "db_workflow_runs (pg_db g2) = db_workflow_runs (pg_db g1)"
  obtains row where "encode_run L r = Inr row" and "pg_GetRun L (run_TenantID r) (run_ID r) g2 =
      map_sum (wrap ''query workflow run by id'') id (scanRun L row)"
    and "db_workflows (pg_db g1) = db_workflows (pg_db g)"
proof -
  have insert: "insert_run L r (pg_db g) = Inr (pg_db g1)"
    using assms(2) by (auto simp: pg_CreateRun_def pg_step_None dest: pg_exec_None)
  then obtain row where row: "encode_run L r = Inr row" by (auto simp: insert_run_def split: sum.splits)
  have ids: "rw_id row = run_ID r" "rw_tenant_id row = run_TenantID r" using encode_run_ids [OF row] by simp_all
  have new: "\<not> has_run (pg_db g) (run_ID r)"
    and g1: "pg_db g1 = (pg_db g)\<lparr>db_workflow_runs := db_workflow_runs (pg_db g) @ [row]\<rparr>"
    using insert row ids by (auto simp: insert_run_def)
  have "find (is_run (run_TenantID r) (run_ID r)) (db_workflow_runs (pg_db g)) = None"
    using new by (force simp: find_None_iff is_run_def has_run_def)
  then have "find (is_run (run_TenantID r) (run_ID r)) (db_workflow_runs (pg_db g2)) = Some row"
    using ids by (simp add: assms(3) g1 find_snoc is_run_def)
  then have "pg_GetRun L (run_TenantID r) (run_ID r) g2 =
      map_sum (wrap ''query workflow run by id'') id (scanRun L row)"
    by (simp add: pg_GetRun_def pg_query_ok [OF assms(1)] split: sum.split)
  then show thesis using that [OF row] by (simp add: g1)
qed

lemma pg_workflow_same:
  assumes "no_faults L" and "db_workflows (pg_db g') = db_workflows (pg_db g)"
  shows "workflows_Get (pg_workflows L P) t k (g', w') = workflows_Get (pg_workflows L P') t k (g, w)"
  using assms by (simp add: workflows_Get_def pg_workflows_def pg_wf_GetByID_def pg_query_ok)


section \<open>From the API to the worker\<close>

lemma api_executor_fields:
  "ee_CreateRun (api_executor L P R) r = up api_part set_api_part (on_pg (pg_CreateRun L r))"
  "ee_workflows_Get (api_executor L P R) t k s = workflows_Get (pg_workflows L P) t k (api_part s)"
  "ee_audit_Record (api_executor L P R) = Some (\<lambda>t p. up api_part set_api_part (audit_Record (pg_audit L P) t p))"
  "ee_Enqueue (api_executor L P R) = Some (\<lambda>job. redis_part (redis_send R job))"
  "ee_now (api_executor L P R) = up api_part set_api_part (PgProgram.beside (app_now P))"
  "ee_newID (api_executor L P R) = up api_part set_api_part (PgProgram.beside (app_newID P))"
  by (simp_all add: api_executor_def up_executor_def pg_executor_def)

lemma worker_service_fields:
  "wk_Dequeue (worker_service L P R) wait = redis_part (redis_receive R wait)"
  "wk_pollTimeout (worker_service L P R) = default_pollTimeout"
  "ee_GetRun (wk_exec (worker_service L P R)) t k s = pg_GetRun L t k (dy_pg s)"
  "ee_workflows_Get (wk_exec (worker_service L P R)) t k s = workflows_Get (pg_workflows L P) t k (worker_part s)"
  by (simp_all add: worker_service_def worker_executor_def up_executor_def pg_executor_def worker_part_def)

text \<open>What an accepted execution has done to the tables and the queue.\<close>

lemma accepted_execution:
  assumes "ExecuteAsync (api_executor L P R) t k input s = (Inr r, s')"
  obtains g1 s4 w where "ee_workflows_Get (api_executor L P R) t k s = Inr w"
    and "r = queued_run (run_ID r) t k input (run_CreatedAt r)" and "pg_CreateRun L r (dy_pg s) = (None, g1)"
    and "db_workflow_runs (pg_db (dy_pg s4)) = db_workflow_runs (pg_db g1)"
    and "db_workflows (pg_db (dy_pg s4)) = db_workflows (pg_db g1)" and "dy_redis s4 = dy_redis s"
    and "redis_part (redis_send R (new_job r input)) s4 = (None, s')"
proof -
  let ?E = "api_executor L P R"
  obtain w runID s1 createdAt s2 s3 where steps: "ee_workflows_Get ?E t k s = Inr w"
      "ee_newID ?E s = (Inr runID, s1)" "ee_now ?E s1 = (createdAt, s2)"
      "ee_CreateRun ?E (queued_run runID t k input createdAt) s2 = (None, s3)"
    and r: "r = queued_run runID t k input createdAt"
    and queue: "redis_part (redis_send R (new_job r input))
      (recordAudit ?E t (newRunAudit r ''run_queued'' ''async run queued'' []) s3) = (None, s')"
    using assms
    by (auto simp: ExecuteAsync_def Let_def api_executor_fields(4) split: if_splits sum.splits option.splits prod.splits)
  let ?p = "newRunAudit r ''run_queued'' ''async run queued'' []"
  let ?s4 = "recordAudit ?E t ?p s3"
  have s1: "dy_redis s1 = dy_redis s" "fst (api_part s1) = dy_pg s"
    using steps(2) up_api_fields [of "PgProgram.beside (app_newID P)" s] by (simp_all add: api_executor_fields api_part_def)
  have s2: "dy_redis s2 = dy_redis s" "fst (api_part s2) = dy_pg s"
    using steps(3) up_api_fields [of "PgProgram.beside (app_now P)" s1] s1 by (simp_all add: api_executor_fields)
  note created = up_api_fields [of "on_pg (pg_CreateRun L r)" s2]
  have create: "up api_part set_api_part (on_pg (pg_CreateRun L r)) s2 = (None, s3)"
    using steps(4) r by (simp add: api_executor_fields)
  then have "on_pg (pg_CreateRun L r) (api_part s2) = (None, api_part s3)"
    using created by (metis fst_conv prod.collapse snd_conv)
  then have g1: "pg_CreateRun L r (dy_pg s) = (None, fst (api_part s3))" by (simp add: on_pg_None s2(2))
  note recorded = up_api_fields [of "audit_Record (pg_audit L P) t ?p" s3]
  have s4: "?s4 = snd (up api_part set_api_part (audit_Record (pg_audit L P) t ?p) s3)"
    by (simp add: recordAudit_def api_executor_fields)
  then have "api_part ?s4 = snd (audit_Record (pg_audit L P) t ?p (api_part s3))" using recorded(3) by metis
  then have "tables (api_part ?s4) = tables (api_part s3) \<or>
      (\<exists>row. tables (api_part ?s4) = (tables (api_part s3))\<lparr>db_audit_events := db_audit_events (tables (api_part s3)) @ [row]\<rparr>)"
    using pg_audit_Record_tables [of L P t ?p "api_part s3"] by metis
  then have "db_workflow_runs (pg_db (dy_pg ?s4)) = db_workflow_runs (pg_db (fst (api_part s3)))"
    "db_workflows (pg_db (dy_pg ?s4)) = db_workflows (pg_db (fst (api_part s3)))"
    by (auto simp: api_part_def)
  moreover have "dy_redis ?s4 = dy_redis s"
    using recorded(1) created(1) create s2(1) s4 by (metis snd_conv)
  moreover have "r = queued_run (run_ID r) t k input (run_CreatedAt r)" by (simp add: r queued_run_def)
  ultimately show thesis using that [OF steps(1) _ g1 _ _ _ queue] by blast
qed

text \<open>What the call that takes a job answers for a payload, as the queue of a service.\<close>

definition received :: "'r redis_env \<Rightarrow> string \<Rightarrow> async_job option result" where
  "received R p =
     (case rd_Unmarshal R p of Inl e \<Rightarrow> Inl (wrap ''decode async job'' e) | Inr job \<Rightarrow> Inr (Some job))"

lemma receive_one:
  assumes "serves R view" and "uncut R" and "clock_ok R" and "fits [rk_key (rd_queue R), p]"
    and "view q = \<lparr>db_jobs = [p], db_delayed = []\<rparr>"
  obtains q2 where "redis_receive R default_pollTimeout q = (received R p, q2)"
    and "view q2 = \<lparr>db_jobs = [], db_delayed = []\<rparr>"
proof -
  have "default_pollTimeout < 2 ^ 62" by (simp add: default_pollTimeout_def)
  moreover have "list_all (\<lambda>p. fits [rk_key (rd_queue R), p]) [p]" "length [p] < 2 ^ 62"
    "view q = \<lparr>db_jobs = rev [p], db_delayed = []\<rparr>"
    using assms(4,5) by simp_all
  ultimately obtain q2 where "dequeue_answers R default_pollTimeout (length [p]) q = Some ([decoded R p], q2)"
      and q2: "view q2 = \<lparr>db_jobs = [], db_delayed = []\<rparr>"
    using dequeue_answers_serves [OF assms(1-3), of default_pollTimeout "[p]" q] by auto
  then have "redis_Dequeue R default_pollTimeout q = Some (decoded R p, q2)"
    by (auto split: option.splits)
  then have "redis_receive R default_pollTimeout q = (received R p, q2)"
    by (simp add: redis_receive_def received_def decoded_def taken_def split: sum.split)
  then show thesis using q2 that by blast
qed

text \<open>C24: what one process accepts the other finds, in an exchange with Redis that the reader can read: with a server
  that keeps the documented laws, an empty queue, answers that the network does not cut (\<open>uncut\<close>) and a job whose
  JSON fits the reader's buffer (\<open>job_fits\<close>), an asynchronous execution that the API process answers with a run
  puts exactly one job there, the JSON of the run's job with the input that was given. The next call of the
  worker process takes exactly this one and hands on what the decoder reads of it, and the queue is empty. For
  the run's id the worker reads the row that was inserted for the answered run: of its tenant and workflow,
  queued, with its attempts, and with its times and its input as the columns keep them; and it reads
  the workflow that the API process read.\<close>
theorem accepted_run_reaches_worker:
  assumes "serves R view" and "uncut R" and "clock_ok R" and "no_faults L"
    and "view (dy_redis s) = \<lparr>db_jobs = [], db_delayed = []\<rparr>"
    and "ExecuteAsync (api_executor L P R) t k input s = (Inr r, s1)" and "job_fits R (new_job r input)"
  shows "db_jobs (view (dy_redis s1)) = [json_job (rd_fmt R) (new_job r input)] \<and>
    (\<exists>s2 row w. wk_Dequeue (worker_service L P' R) (wk_pollTimeout (worker_service L P' R)) s1 =
      (received R (json_job (rd_fmt R) (new_job r input)), s2) \<and>
    view (dy_redis s2) = \<lparr>db_jobs = [], db_delayed = []\<rparr> \<and>
    ee_GetRun (wk_exec (worker_service L P' R)) t (run_ID r) s2 =
      map_sum (wrap ''query workflow run by id'') id (scanRun L row) \<and> encode_run L r = Inr row \<and>
    rw_id row = run_ID r \<and> rw_tenant_id row = t \<and> rw_workflow_id row = k \<and> rw_status row = RunStatusQueued \<and>
    rw_attempt row = 0 \<and> rw_max_attempts row = defaultAsyncMaxAttempts \<and>
    rw_created_at row = pl_time L (run_CreatedAt r) \<and> run_Input r = cloneMap input \<and>
    pl_jsonb L (mustJSON L (VMap (run_Input r))) = Inr (rw_input_json row) \<and>
    ee_workflows_Get (wk_exec (worker_service L P' R)) t k s2 = Inr w \<and>
    ee_workflows_Get (api_executor L P R) t k s = Inr w)"
proof -
  let ?p = "json_job (rd_fmt R) (new_job r input)"
  obtain g1 s4 w where w: "ee_workflows_Get (api_executor L P R) t k s = Inr w"
    and r: "r = queued_run (run_ID r) t k input (run_CreatedAt r)" and g1: "pg_CreateRun L r (dy_pg s) = (None, g1)"
    and same: "db_workflow_runs (pg_db (dy_pg s4)) = db_workflow_runs (pg_db g1)"
      "db_workflows (pg_db (dy_pg s4)) = db_workflows (pg_db g1)" "dy_redis s4 = dy_redis s"
    and queue: "redis_part (redis_send R (new_job r input)) s4 = (None, s1)"
    by (rule accepted_execution [OF assms(6)])
  note parts = redis_part_fields [of "redis_send R (new_job r input)" s4]
  obtain q where q: "redis_Enqueue R (new_job r input) (dy_redis s) = (Value (), q)"
      "view q = \<lparr>db_jobs = [?p], db_delayed = []\<rparr>"
    using Enqueue_serves [OF assms(1) job_fits_short [OF assms(7)], of "dy_redis s"] assms(5) by (auto simp: push_left_def)
  have s1: "dy_redis s1 = q" "dy_pg s1 = dy_pg s4"
    using parts queue same(3) q(1) by (simp_all add: redis_send_def sent_def)
  obtain q2 where "redis_receive R default_pollTimeout q = (received R ?p, q2)"
    and q2: "view q2 = \<lparr>db_jobs = [], db_delayed = []\<rparr>"
    by (rule receive_one [OF assms(1-3) assms(7) [unfolded job_fits_def] q(2)])
  then have taken: "wk_Dequeue (worker_service L P' R) (wk_pollTimeout (worker_service L P' R)) s1 =
      (received R ?p, s1\<lparr>dy_redis := q2\<rparr>)"
    by (simp add: worker_service_fields redis_part_def up_def s1(1))
  have tenant: "run_TenantID r = t" using r by (metis queued_run_def run.select_convs(2))
  have input: "run_Input r = cloneMap input" using r by (metis queued_run_def run.select_convs(8))
  obtain row where row: "encode_run L r = Inr row" "pg_GetRun L t (run_ID r) (dy_pg s4) = map_sum (wrap ''query workflow run by id'') id (scanRun L row)"
    and flows: "db_workflows (pg_db g1) = db_workflows (pg_db (dy_pg s))"
    by (rule pg_CreateRun_row [OF assms(4) g1 same(1), unfolded tenant])
  have fields: "encode_run L (queued_run (run_ID r) t k input (run_CreatedAt r)) = Inr row" using row(1) r by simp
  then have "workflows_Get (pg_workflows L P') t k (dy_pg s4, dy_worker s1) = Inr w"
    using pg_workflow_same [OF assms(4), of "dy_pg s4" "dy_pg s" P' t k "dy_worker s1" P "dy_api s"] w flows same(2)
    by (simp add: api_executor_fields api_part_def)
  then show ?thesis
    using taken w row q2 q(2) fields input
    by (intro conjI exI [of _ "s1\<lparr>dy_redis := q2\<rparr>"] exI [of _ row] exI [of _ w])
       (auto simp: worker_service_fields worker_part_def s1 encode_run_def queued_run_def split: sum.splits)
qed

section \<open>Without a database\<close>

text \<open>
  Nothing asks for a database when Redis is used. The worker process has repositories of its own memory
  then: it takes a job of the API process, does not find the run, and the job is gone.
\<close>

definition memory_worker :: "platform \<Rightarrow> 'r redis_env \<Rightarrow> 'r deployment worker_env" where
  "memory_worker P R =
     \<lparr>wk_exec = (up_executor dy_worker (\<lambda>w s. s\<lparr>dy_worker := w\<rparr>) (app_executor P))
         \<lparr>ee_Enqueue := Some (\<lambda>job. redis_part (redis_send R job))\<rparr>,
      wk_Dequeue = (\<lambda>wait. redis_part (redis_receive R wait)),
      wk_EnqueueAfter = (\<lambda>job delay. redis_part (redis_send_after R job delay)),
      wk_pollTimeout = default_pollTimeout, wk_baseBackoff = default_baseBackoff\<rparr>"

theorem job_lost_without_database:
  assumes "serves R view" and "uncut R" and "clock_ok R" and "fits [rk_key (rd_queue R), p]"
    and "view (dy_redis s) = \<lparr>db_jobs = [p], db_delayed = []\<rparr>"
    and "rd_Unmarshal R p = Inr job" and "trim_space (job_TenantID job) \<noteq> []"
    and "run_mem_GetRun (job_TenantID job) (job_RunID job) (w_runs (dy_worker s)) = Inl e"
  shows "\<exists>s'. ProcessNext (memory_worker P R) s = Some ((True, Some e), s') \<and>
    view (dy_redis s') = \<lparr>db_jobs = [], db_delayed = []\<rparr>"
proof -
  obtain q where "redis_receive R default_pollTimeout (dy_redis s) = (received R p, q)"
    and q: "view q = \<lparr>db_jobs = [], db_delayed = []\<rparr>"
    by (rule receive_one [OF assms(1-5)])
  then have "ProcessNext (memory_worker P R) s = Some ((True, Some e), s\<lparr>dy_redis := q\<rparr>)"
    using assms(6-8)
    by (simp add: ProcessNext_def memory_worker_def redis_part_def up_def ProcessAsyncJob_def up_executor_def
        app_executor_fields received_def)
  then show ?thesis using q by simp
qed

section \<open>An example\<close>

definition shared_pg :: pg_lib where
  "shared_pg = demo_pg\<lparr>pl_definition := (\<lambda>txt. Inr ask_flow)\<rparr>"

definition shared_platform :: platform where
  "shared_platform = demo_platform\<lparr>pf_clock := (\<lambda>n. 5000)\<rparr>"

definition shared_run :: run where
  "shared_run = queued_run [] ''acme'' ''w1'' [] 5000"

definition shared_redis :: "(redis_db \<times> time) redis_env" where
  "shared_redis = demo_redis\<lparr>rd_Unmarshal := (\<lambda>p. Inr (new_job shared_run []))\<rparr>"

definition shared_start :: "(redis_db \<times> time) deployment" where
  "shared_start = \<lparr>dy_pg = demo_tables, dy_redis = (\<lparr>db_jobs = [], db_delayed = []\<rparr>, demo_time),
     dy_api = demo_start, dy_worker = demo_start\<rparr>"

lemma shared_laws: "serves shared_redis fst" "uncut shared_redis" "clock_ok shared_redis" "no_faults shared_pg"
    "job_fits shared_redis (new_job shared_run [])"
proof -
  show "serves shared_redis fst"
    using demo_serves by (simp add: shared_redis_def serves_def answers_def)
  show "uncut shared_redis" using demo_uncut by (simp add: shared_redis_def uncut_def)
  show "clock_ok shared_redis" using demo_clock by (simp add: shared_redis_def clock_ok_def)
  show "no_faults shared_pg" using demo_kept(1) by (simp add: shared_pg_def no_faults_def)
  show "job_fits shared_redis (new_job shared_run [])" by code_simp
qed

lemma shared_accepted:
  "fst (ExecuteAsync (api_executor shared_pg shared_platform shared_redis) ''acme'' ''w1'' [] shared_start) = Inr shared_run"
  by code_simp


theorem accepted_run_reaches_worker_witness:
  "\<exists>s1 s2 row. ExecuteAsync (api_executor shared_pg shared_platform shared_redis) ''acme'' ''w1'' [] shared_start =
      (Inr shared_run, s1) \<and>
     wk_Dequeue (worker_service shared_pg shared_platform shared_redis) default_pollTimeout s1 =
      (Inr (Some (new_job shared_run [])), s2) \<and>
     pg_GetRun shared_pg ''acme'' [] (dy_pg s2) = map_sum (wrap ''query workflow run by id'') id (scanRun shared_pg row) \<and> rw_status row = RunStatusQueued"
proof -
  let ?W = "worker_service shared_pg shared_platform shared_redis"
  obtain s1 where s1: "ExecuteAsync (api_executor shared_pg shared_platform shared_redis) ''acme'' ''w1'' [] shared_start =
      (Inr shared_run, s1)"
    using shared_accepted by (metis prod.collapse)
  have empty: "fst (dy_redis shared_start) = \<lparr>db_jobs = [], db_delayed = []\<rparr>" by (simp add: shared_start_def)
  have decoder: "received shared_redis p = Inr (Some (new_job shared_run []))" for p
    by (simp add: received_def shared_redis_def)
  obtain s2 row where "wk_Dequeue ?W (wk_pollTimeout ?W) s1 = (Inr (Some (new_job shared_run [])), s2)"
      "ee_GetRun (wk_exec ?W) ''acme'' (run_ID shared_run) s2 = map_sum (wrap ''query workflow run by id'') id (scanRun shared_pg row)" "rw_status row = RunStatusQueued"
    using accepted_run_reaches_worker [OF shared_laws(1-4) empty s1 shared_laws(5), of shared_platform]
    unfolding decoder by blast
  then show ?thesis using s1 by (auto simp: worker_service_fields shared_run_def queued_run_def)
qed

end
