(* ===== verification/Stats.thy ===== *)
theory Stats
  imports Executor
begin

text \<open>
  \<open>internal/benchmark/stats.go\<close>: the summaries of a benchmark. Rates are exact rational numbers where the
  code has floating point ones. The index of a percentile is the same in both: \<open>p * n / 100\<close> is an integer
  or at least one hundredth away from one, and the rounding errors of the floating point product are far
  smaller, and vanish where it is an integer.
\<close>

section \<open>Latencies\<close>

record latency_summary =
  ls_Count :: int
  ls_Min :: duration
  ls_P50 :: duration
  ls_P95 :: duration
  ls_Max :: duration
  ls_Mean :: duration

definition zero_latencies :: latency_summary where
  "zero_latencies = \<lparr>ls_Count = 0, ls_Min = 0, ls_P50 = 0, ls_P95 = 0, ls_Max = 0, ls_Mean = 0\<rparr>"

definition percentile :: "duration list \<Rightarrow> nat \<Rightarrow> duration" where
  "percentile durations p =
     (if durations = [] then 0
      else
        let index = (p * length durations + 99) div 100 in
        if index = 0 then durations ! 0
        else if length durations < index then last durations
        else durations ! (index - 1))"

text \<open>Division of durations truncates towards zero.\<close>

definition duration_div :: "duration \<Rightarrow> int \<Rightarrow> duration" where
  "duration_div d n = (if 0 \<le> d then d div n else - ((- d) div n))"

definition SummarizeLatencies :: "duration list \<Rightarrow> latency_summary" where
  "SummarizeLatencies durations =
     (if durations = [] then zero_latencies
      else
        let ordered = sort durations;
            sum = sum_list ordered
        in \<lparr>ls_Count = int (length ordered), ls_Min = ordered ! 0, ls_P50 = percentile ordered 50,
            ls_P95 = percentile ordered 95, ls_Max = last ordered,
            ls_Mean = duration_div sum (int (length ordered))\<rparr>)"

section \<open>Executions\<close>

record run_sample =
  rs_Duration :: duration
  rs_Completed :: bool
  rs_DeadLetter :: bool
  rs_Retried :: bool

record execution_summary =
  es_Runs :: int
  es_Completed :: int
  es_DeadLetters :: int
  es_Retried :: int
  es_Duration :: duration
  es_Throughput :: rat
  es_SuccessRate :: rat
  es_RetryRate :: rat
  es_Latency :: latency_summary

definition rate :: "int \<Rightarrow> duration \<Rightarrow> rat" where
  "rate number duration =
     (if number = 0 \<or> duration \<le> 0 then 0 else of_int number / (of_int duration / 1000000000))"

definition percentage :: "int \<Rightarrow> int \<Rightarrow> rat" where
  "percentage number whole = (if whole = 0 then 0 else of_int number / of_int whole * 100)"

text \<open>The loop over the samples: the latencies and the three counters.\<close>

fun tally :: "run_sample list \<Rightarrow> duration list \<times> int \<times> int \<times> int \<Rightarrow> duration list \<times> int \<times> int \<times> int" where
  "tally [] acc = acc"
| "tally (sample # samples) (latencies, completed, dead, retried) =
     tally samples
       (latencies @ [rs_Duration sample],
        (if rs_Completed sample then completed + 1 else completed),
        (if rs_DeadLetter sample then dead + 1 else dead),
        (if rs_Retried sample then retried + 1 else retried))"

definition SummarizeExecution :: "run_sample list \<Rightarrow> duration \<Rightarrow> execution_summary" where
  "SummarizeExecution samples duration =
     (case tally samples ([], 0, 0, 0) of (latencies, completed, dead, retried) \<Rightarrow>
        \<lparr>es_Runs = int (length samples), es_Completed = completed, es_DeadLetters = dead,
         es_Retried = retried, es_Duration = duration,
         es_Throughput = rate (int (length samples)) duration,
         es_SuccessRate = percentage completed (int (length samples)),
         es_RetryRate = percentage retried (int (length samples)),
         es_Latency = SummarizeLatencies latencies\<rparr>)"

definition BuildOverall :: "run_sample list \<Rightarrow> duration \<Rightarrow> execution_summary" where
  "BuildOverall samples duration = SummarizeExecution samples duration"

section \<open>The report\<close>

record dataset =
  ds_Tenants :: int
  ds_Documents :: int
  ds_DocumentsPerTenant :: int
  ds_DocumentWords :: int
  ds_SyncRuns :: int
  ds_AsyncRuns :: int
  ds_Concurrency :: int
  ds_RetryPercent :: int
  ds_DeadLetterPercent :: int

record ingestion_summary =
  in_Documents :: int
  in_Bytes :: int
  in_Duration :: duration
  in_Throughput :: rat

record bench_result =
  br_GeneratedAt :: time
  br_Dataset :: dataset
  br_Ingestion :: ingestion_summary
  br_Sync :: execution_summary
  br_Async :: execution_summary
  br_Overall :: execution_summary

text \<open>The texts of durations and of numbers with two decimals are parameters.\<close>

record report_fmt =
  rf_duration :: "duration \<Rightarrow> string"
  rf_two :: "rat \<Rightarrow> string"

text \<open>\<open>Duration.Round\<close>, of a positive duration: to the nearest multiple, halves up.\<close>

definition round_to :: "int \<Rightarrow> duration \<Rightarrow> duration" where
  "round_to m d = (let r = d mod m in if r + r < m then d - r else d + (m - r))"

definition humanDuration :: "report_fmt \<Rightarrow> duration \<Rightarrow> string" where
  "humanDuration F duration =
     (if duration \<le> 0 then ''0s''
      else if seconds 1 \<le> duration then rf_duration F (round_to (milliseconds 1) duration)
      else if milliseconds 1 \<le> duration then rf_duration F (round_to 1000 duration)
      else rf_duration F duration)"

definition newline :: string where
  "newline = [CHR 0x0A]"

definition item :: "string \<Rightarrow> string \<Rightarrow> string" where
  "item label value = ''- '' @ label @ '': '' @ value @ newline"

definition renderExecutionSection :: "report_fmt \<Rightarrow> string \<Rightarrow> execution_summary \<Rightarrow> string" where
  "renderExecutionSection F name summary =
     ''### '' @ name @ newline @ newline @
     item ''runs'' (int_str (es_Runs summary)) @
     item ''completed'' (int_str (es_Completed summary)) @
     item ''dead-lettered'' (int_str (es_DeadLetters summary)) @
     item ''retried'' (int_str (es_Retried summary)) @
     item ''wall time'' (humanDuration F (es_Duration summary)) @
     item ''throughput'' (rf_two F (es_Throughput summary) @ '' runs/sec'') @
     item ''success rate'' (rf_two F (es_SuccessRate summary) @ ''%'') @
     item ''retry rate'' (rf_two F (es_RetryRate summary) @ ''%'') @
     item ''latency p50'' (humanDuration F (ls_P50 (es_Latency summary))) @
     item ''latency p95'' (humanDuration F (ls_P95 (es_Latency summary)))"

definition RenderMarkdown :: "report_fmt \<Rightarrow> bench_result \<Rightarrow> string" where
  "RenderMarkdown F result =
     (let d = br_Dataset result; i = br_Ingestion result in
      ''# Benchmark Results'' @ newline @ newline @
      ''## Dataset'' @ newline @ newline @
      item ''tenants'' (int_str (ds_Tenants d)) @
      item ''documents'' (int_str (ds_Documents d) @ '' ('' @ int_str (ds_DocumentsPerTenant d) @ '' per tenant)'') @
      item ''average document size'' (int_str (ds_DocumentWords d) @ '' words'') @
      item ''sync runs'' (int_str (ds_SyncRuns d)) @
      item ''async runs'' (int_str (ds_AsyncRuns d)) @
      item ''concurrency'' (int_str (ds_Concurrency d)) @
      item ''async retry bucket'' (int_str (ds_RetryPercent d) @ ''% transient, '' @
        int_str (ds_DeadLetterPercent d) @ ''% dead-letter'') @ newline @
      ''## Ingestion'' @ newline @ newline @
      item ''documents processed'' (int_str (in_Documents i)) @
      item ''total payload'' (rf_two F (of_int (in_Bytes i) / 1048576) @ '' MB'') @
      item ''batch time'' (humanDuration F (in_Duration i)) @
      item ''ingestion throughput'' (rf_two F (in_Throughput i) @ '' docs/sec'') @ newline @
      ''## Execution'' @ newline @ newline @
      renderExecutionSection F ''Sync'' (br_Sync result) @ newline @
      renderExecutionSection F ''Async'' (br_Async result) @ newline @
      renderExecutionSection F ''Overall'' (br_Overall result))"

section \<open>Percentiles\<close>

text \<open>At least \<open>p\<close> percent of the values are not above the percentile, and it is one of the values.\<close>

lemma percentile_nth:
  assumes "xs \<noteq> []" and "0 < p" and "p \<le> 100"
  defines "i \<equiv> (p * length xs + 99) div 100"
  shows "percentile xs p = xs ! (i - 1)" and "0 < i" and "i \<le> length xs" and "p * length xs \<le> 100 * i"
proof -
  have "0 < p * length xs" using assms(1,2) by simp
  then have "100 \<le> p * length xs + 99" by linarith
  then show i: "0 < i" unfolding i_def by (simp add: div_greater_zero_iff)
  have below: "a \<le> 100 * b \<Longrightarrow> a + 99 < 100 * (b + 1)" for a b :: nat by simp
  have "p * length xs + 99 < 100 * (length xs + 1)" by (rule below [OF mult_le_mono1 [OF assms(3)]])
  then have "i < length xs + 1" unfolding i_def by (simp add: less_mult_imp_div_less mult.commute)
  then show "i \<le> length xs" by simp
  then show "percentile xs p = xs ! (i - 1)"
    using assms(1) i by (simp add: percentile_def Let_def i_def)
  have "a \<le> 100 * ((a + 99) div 100)" for a :: nat by presburger
  then show "p * length xs \<le> 100 * i" unfolding i_def .
qed

lemma sorted_below:
  assumes "sorted xs" and "0 < i" and "i \<le> length xs"
  shows "i \<le> length (filter (\<lambda>x. x \<le> xs ! (i - 1)) xs)"
proof -
  have "filter (\<lambda>x. x \<le> xs ! (i - 1)) (take i xs) = take i xs"
    using assms by (auto simp: filter_id_conv in_set_conv_nth intro!: sorted_nth_mono) linarith+
  then have "length (filter (\<lambda>x. x \<le> xs ! (i - 1)) (take i xs @ drop i xs)) \<ge> i"
    using assms(3) by (simp only: filter_append length_append) simp
  then show ?thesis by simp
qed

lemma tally_counts:
  "tally samples (latencies, c, d, r) =
     (latencies @ map rs_Duration samples, c + int (length (filter rs_Completed samples)),
      d + int (length (filter rs_DeadLetter samples)), r + int (length (filter rs_Retried samples)))"
  by (induction samples arbitrary: latencies c d r) simp_all

lemma percentage_bounds:
  "0 \<le> number \<Longrightarrow> number \<le> whole \<Longrightarrow> 0 \<le> percentage number whole \<and> percentage number whole \<le> 100"
  by (auto simp: percentage_def field_simps)

lemma sum_list_bounds:
  fixes xs :: "int list"
  assumes "\<And>x. x \<in> set xs \<Longrightarrow> lo \<le> x" and "\<And>x. x \<in> set xs \<Longrightarrow> x \<le> hi"
  shows "int (length xs) * lo \<le> sum_list xs" and "sum_list xs \<le> int (length xs) * hi"
  using assms by (induction xs) (force simp: algebra_simps)+

lemma duration_div_bounds:
  assumes "0 < n" and "n * lo \<le> d" and "d \<le> n * hi"
  shows "lo \<le> duration_div d n" and "duration_div d n \<le> hi"
proof -
  have le: "a * n \<le> b \<Longrightarrow> a \<le> b div n" for a b :: int
    using assms(1) zdiv_mono1 [of "a * n" b n] by simp
  have ge: "b \<le> a * n \<Longrightarrow> b div n \<le> a" for a b :: int
    using assms(1) zdiv_mono1 [of b "a * n" n] by simp
  show "lo \<le> duration_div d n"
    using le [of lo d] ge [of "- d" "- lo"] assms(2) by (auto simp: duration_div_def mult.commute)
  show "duration_div d n \<le> hi"
    using ge [of d hi] le [of "- hi" "- d"] assms(3) by (auto simp: duration_div_def mult.commute)
qed

section \<open>Properties\<close>

text \<open>The latencies of a benchmark are summarised correctly: the smallest, the median, the 95th
  percentile and the largest are samples and come in this order, the mean lies between the extremes, at
  least half of the samples do not exceed the median, and at least 95 percent do not exceed the 95th
  percentile.\<close>
theorem latency_summary_bounds:
  assumes "durations \<noteq> []" and "summary = SummarizeLatencies durations"
  shows "ls_Count summary = int (length durations) \<and>
    {ls_Min summary, ls_P50 summary, ls_P95 summary, ls_Max summary} \<subseteq> set durations \<and>
    ls_Min summary \<le> ls_P50 summary \<and> ls_P50 summary \<le> ls_P95 summary \<and> ls_P95 summary \<le> ls_Max summary \<and>
    ls_Min summary \<le> ls_Mean summary \<and> ls_Mean summary \<le> ls_Max summary \<and>
    list_all (\<lambda>d. ls_Min summary \<le> d \<and> d \<le> ls_Max summary) durations \<and>
    length durations \<le> 2 * length (filter (\<lambda>d. d \<le> ls_P50 summary) durations) \<and>
    95 * length durations \<le> 100 * length (filter (\<lambda>d. d \<le> ls_P95 summary) durations)"
proof -
  let ?o = "sort durations"
  have o: "?o \<noteq> []" "sorted ?o" "set ?o = set durations" "length ?o = length durations"
    using assms(1) by (metis length_0_conv length_sort) simp_all
  have filter_o: "length (filter P ?o) = length (filter P durations)" for P
    by (metis filter_sort length_sort)
  let ?n = "length durations"
  have last: "last ?o = ?o ! (?n - 1)" using o(1,4) by (simp add: last_conv_nth)
  have mono: "i \<le> j \<Longrightarrow> j < ?n \<Longrightarrow> ?o ! i \<le> ?o ! j" for i j
    using o(2,4) by (simp add: sorted_nth_mono)
  note p50 = percentile_nth [OF o(1), of 50, simplified, unfolded o(4)]
  note p95 = percentile_nth [OF o(1), of 95, simplified, unfolded o(4)]
  have below: "(50 * ?n + 99) div 100 \<le> (95 * ?n + 99) div 100" by (intro div_le_mono) simp
  have fields: "ls_Count summary = int ?n" "ls_Min summary = ?o ! 0" "ls_P50 summary = percentile ?o 50"
    "ls_P95 summary = percentile ?o 95" "ls_Max summary = ?o ! (?n - 1)"
    "ls_Mean summary = duration_div (sum_list ?o) (int ?n)"
    using assms by (simp_all add: SummarizeLatencies_def Let_def last)
  have range: "?o ! 0 \<le> d" "d \<le> ?o ! (?n - 1)" if d: "d \<in> set ?o" for d
  proof -
    obtain i where "i < ?n" "d = ?o ! i" using d unfolding in_set_conv_nth o(4) by blast
    then show "?o ! 0 \<le> d" "d \<le> ?o ! (?n - 1)" using mono [of 0 i] mono [of i "?n - 1"] by simp_all
  qed
  have mean: "?o ! 0 \<le> ls_Mean summary" "ls_Mean summary \<le> ?o ! (?n - 1)"
    using sum_list_bounds [of ?o, OF range] duration_div_bounds [of "int ?n"] assms(1) o(4)
    by (simp_all add: fields)
  have members: "i < ?n \<Longrightarrow> ?o ! i \<in> set durations" for i using o(3,4) nth_mem [of i ?o] by simp
  let ?i = "(50 * ?n + 99) div 100" and ?j = "(95 * ?n + 99) div 100"
  have i: "0 < ?i" "?i \<le> ?n" "50 * ?n \<le> 100 * ?i" and j: "0 < ?j" "?j \<le> ?n" "95 * ?n \<le> 100 * ?j"
    using p50 p95 by simp_all
  have quantiles: "ls_P50 summary = ?o ! (?i - 1)" "ls_P95 summary = ?o ! (?j - 1)"
    using p50(1) p95(1) by (simp_all add: fields)
  have "{ls_Min summary, ls_P50 summary, ls_P95 summary, ls_Max summary} \<subseteq> set durations"
    using assms(1) i j members [of 0] members [of "?i - 1"] members [of "?j - 1"] members [of "?n - 1"]
    by (simp add: quantiles fields(2,5))
  moreover have "ls_Min summary \<le> ls_P50 summary" "ls_P50 summary \<le> ls_P95 summary" "ls_P95 summary \<le> ls_Max summary"
    unfolding quantiles fields(2,5)
    by (rule mono, simp, use i assms(1) in linarith, rule mono [OF diff_le_mono [OF below]], use j in linarith,
        rule mono [OF diff_le_mono [OF j(2)]], use j in linarith)
  moreover have "list_all (\<lambda>d. ls_Min summary \<le> d \<and> d \<le> ls_Max summary) durations"
    using range o(3) by (simp add: list_all_iff fields(2,5))
  moreover have "?i \<le> length (filter (\<lambda>d. d \<le> ls_P50 summary) durations)"
      "?j \<le> length (filter (\<lambda>d. d \<le> ls_P95 summary) durations)"
    using sorted_below [OF o(2) i(1)] sorted_below [OF o(2) j(1)] i(2) j(2) by (simp_all add: quantiles filter_o o(4))
  moreover have "ls_Count summary = int ?n" "ls_Min summary = ?o ! 0" "ls_Max summary = ?o ! (?n - 1)"
    by (rule fields)+
  ultimately show ?thesis using mean i(3) j(3) by simp
qed

theorem latency_summary_bounds_witness:
  "ls_Min (SummarizeLatencies [30, 10, 20]) \<le> ls_P95 (SummarizeLatencies [30, 10, 20]) \<and>
   95 * length [30, 10, 20 :: duration] \<le>
     100 * length (filter (\<lambda>d. d \<le> ls_P95 (SummarizeLatencies [30, 10, 20])) [30, 10, 20])"
  using latency_summary_bounds [of "[30, 10, 20]", OF _ refl] by fastforce

text \<open>
  The summary of an execution counts what the samples say, and its rates are percentages.
\<close>

lemma execution_summary_counts:
  fixes samples :: "run_sample list" and d :: duration
  defines "S \<equiv> SummarizeExecution samples d"
  shows "es_Completed S = int (length (filter rs_Completed samples))"
    and "es_DeadLetters S = int (length (filter rs_DeadLetter samples))"
    and "es_Retried S = int (length (filter rs_Retried samples))"
    and "es_Latency S = SummarizeLatencies (map rs_Duration samples)"
    and "0 \<le> es_SuccessRate S \<and> es_SuccessRate S \<le> 100" and "0 \<le> es_RetryRate S \<and> es_RetryRate S \<le> 100"
  unfolding S_def SummarizeExecution_def
  by (simp_all add: tally_counts percentage_bounds)

end
