(* ===== verification/Bench.thy ===== *)
theory Bench
  imports Stats Bootstrap PgStores Resp
begin

text \<open>
  \<open>cmd/bench/main.go\<close>: the load generator. Its tenants, documents and workflows, the language model that fails
  on purpose, and the phases of a run, over the HTTP client of an environment.
\<close>

section \<open>Options\<close>

record bench_options =
  bo_tenants :: int
  bo_documentsPerTenant :: int
  bo_documentWords :: int
  bo_syncRuns :: int
  bo_asyncRuns :: int
  bo_concurrency :: int
  bo_retryPercent :: int
  bo_deadLetterPercent :: int
  bo_outputPath :: string

definition default_options :: bench_options where
  "default_options = \<lparr>bo_tenants = 4, bo_documentsPerTenant = 200, bo_documentWords = 900, bo_syncRuns = 1200,
     bo_asyncRuns = 800, bo_concurrency = 24, bo_retryPercent = 12, bo_deadLetterPercent = 3, bo_outputPath = []\<rparr>"

definition validateOptions :: "bench_options \<Rightarrow> goerr option" where
  "validateOptions opts =
     (if bo_tenants opts \<le> 0 then Some (Anonymous ''tenants must be greater than zero'')
      else if bo_documentsPerTenant opts \<le> 0 then Some (Anonymous ''docs-per-tenant must be greater than zero'')
      else if bo_documentWords opts \<le> 0 then Some (Anonymous ''doc-words must be greater than zero'')
      else if bo_syncRuns opts < 0 then Some (Anonymous ''sync-runs cannot be negative'')
      else if bo_asyncRuns opts < 0 then Some (Anonymous ''async-runs cannot be negative'')
      else if bo_concurrency opts \<le> 0 then Some (Anonymous ''concurrency must be greater than zero'')
      else if bo_retryPercent opts < 0 \<or> 100 < bo_retryPercent opts then
        Some (Anonymous ''retry-percent must be between 0 and 100'')
      else if bo_deadLetterPercent opts < 0 \<or> 100 < bo_deadLetterPercent opts then
        Some (Anonymous ''dead-letter-percent must be between 0 and 100'')
      else if 100 < bo_retryPercent opts + bo_deadLetterPercent opts then
        Some (Anonymous ''retry-percent plus dead-letter-percent must not exceed 100'')
      else None)"

section \<open>Tenants\<close>

record bench_tenant =
  bt_ID :: string
  bt_Name :: string
  bt_APIKey :: string
  bt_DocumentIDs :: "string list"
  bt_SyncWorkflowID :: string
  bt_AsyncWorkflowID :: string

text \<open>\<open>%0wd\<close> of a number that is not negative.\<close>

definition zero_padded :: "nat \<Rightarrow> nat \<Rightarrow> string" where
  "zero_padded width n = replicate (width - length (nat_str n)) (CHR ''0'') @ nat_str n"

definition bench_tenant_of :: "nat \<Rightarrow> bench_tenant" where
  "bench_tenant_of index =
     (let ordinal = index + 1 in
      \<lparr>bt_ID = ''tenant-'' @ zero_padded 2 ordinal, bt_Name = ''Tenant '' @ zero_padded 2 ordinal,
       bt_APIKey = ''example-bench-key-'' @ zero_padded 2 ordinal, bt_DocumentIDs = [],
       bt_SyncWorkflowID = [], bt_AsyncWorkflowID = []\<rparr>)"

definition generateTenants :: "nat \<Rightarrow> bench_tenant list" where
  "generateTenants n = map bench_tenant_of [0 ..< n]"

definition toTenantModels :: "bench_tenant list \<Rightarrow> tenant list" where
  "toTenantModels tenants =
     map (\<lambda>t. \<lparr>tenant_ID = bt_ID t, tenant_Name = bt_Name t, tenant_Status = TenantActive\<rparr>) tenants"

definition toAPIKeys :: "bench_tenant list \<Rightarrow> api_key list" where
  "toAPIKeys tenants =
     map (\<lambda>t. \<lparr>ak_ID = bt_ID t @ ''-key'', ak_TenantID = bt_ID t, ak_Label = ''benchmark'',
               ak_Plaintext = bt_APIKey t, ak_Status = KeyActive\<rparr>) tenants"

section \<open>Documents\<close>

definition payload_word :: "nat \<Rightarrow> nat \<Rightarrow> nat \<Rightarrow> string" where
  "payload_word tenantIndex documentIndex index =
     (let r = index mod 8 in
      if r = 0 then ''workflow'' else if r = 1 then ''orchestration'' else if r = 2 then ''backend''
      else if r = 3 then ''audit'' else if r = 4 then ''retrieval''
      else if r = 5 then ''tenant-'' @ zero_padded 2 (tenantIndex + 1)
      else if r = 6 then ''doc-'' @ zero_padded 4 documentIndex
      else ''reliability'')"

text \<open>The loop over the words, with the builder.\<close>

fun payload_loop :: "nat \<Rightarrow> nat \<Rightarrow> nat list \<Rightarrow> string \<Rightarrow> string" where
  "payload_loop tenantIndex documentIndex [] b = b"
| "payload_loop tenantIndex documentIndex (index # indices) b =
     payload_loop tenantIndex documentIndex indices
       ((if 0 < index then b @ '' '' else b) @ payload_word tenantIndex documentIndex index)"

definition generateDocumentPayload :: "nat \<Rightarrow> nat \<Rightarrow> int \<Rightarrow> string" where
  "generateDocumentPayload tenantIndex documentIndex words =
     payload_loop tenantIndex documentIndex [0 ..< nat words] []"

section \<open>The language model\<close>

text \<open>
  The runes of a text, as \<open>range\<close> gives them: a byte that begins no valid encoding is U+FFFD.
\<close>

definition continuation :: "nat \<Rightarrow> nat \<Rightarrow> char \<Rightarrow> bool" where
  "continuation low high c \<longleftrightarrow> low \<le> of_char c \<and> of_char c \<le> (high :: nat)"

text \<open>The bounds of the second byte, by the first.\<close>

definition second_bounds :: "nat \<Rightarrow> nat \<times> nat" where
  "second_bounds b =
     (if b = 0xE0 then (0xA0, 0xBF) else if b = 0xED then (0x80, 0x9F) else if b = 0xF0 then (0x90, 0xBF)
      else if b = 0xF4 then (0x80, 0x8F) else (0x80, 0xBF))"

definition tail_bits :: "char \<Rightarrow> nat" where
  "tail_bits c = of_char c mod 64"

definition decode_rune :: "char \<Rightarrow> string \<Rightarrow> nat \<times> nat" where
  "decode_rune c rest =
     (let b = of_char c :: nat; (low, high) = second_bounds b; invalid = (0xFFFD, 0) in
      if b < 0x80 then (b, 0)
      else if 0xC2 \<le> b \<and> b \<le> 0xDF then
        (case rest of
           c1 # _ \<Rightarrow> if continuation low high c1 then (b mod 32 * 64 + tail_bits c1, 1) else invalid
         | _ \<Rightarrow> invalid)
      else if 0xE0 \<le> b \<and> b \<le> 0xEF then
        (case rest of
           c1 # c2 # _ \<Rightarrow>
             if continuation low high c1 \<and> continuation 0x80 0xBF c2
             then (b mod 16 * 4096 + tail_bits c1 * 64 + tail_bits c2, 2) else invalid
         | _ \<Rightarrow> invalid)
      else if 0xF0 \<le> b \<and> b \<le> 0xF4 then
        (case rest of
           c1 # c2 # c3 # _ \<Rightarrow>
             if continuation low high c1 \<and> continuation 0x80 0xBF c2 \<and> continuation 0x80 0xBF c3
             then (b mod 8 * 262144 + tail_bits c1 * 4096 + tail_bits c2 * 64 + tail_bits c3, 3) else invalid
         | _ \<Rightarrow> invalid)
      else invalid)"

function runes :: "string \<Rightarrow> nat list" where
  "runes [] = []"
| "runes (c # rest) = (case decode_rune c rest of (r, extra) \<Rightarrow> r # runes (drop extra rest))"
  by pat_completeness auto
termination by (relation "measure length") (auto simp: le_imp_less_Suc)

definition stableBucket :: "string \<Rightarrow> int" where
  "stableBucket txt =
     uint (fold (\<lambda>r hash. (hash XOR word_of_nat r) * 16777619) (runes txt) (2166136261 :: 32 word)) mod 100"

record bench_llm =
  bl_attempts :: "string \<Rightarrow> int"
  bl_retryPercent :: int
  bl_deadLetterPercent :: int

definition newBenchmarkLLM :: "int \<Rightarrow> int \<Rightarrow> bench_llm" where
  "newBenchmarkLLM retryPercent deadLetterPercent =
     \<lparr>bl_attempts = (\<lambda>_. 0), bl_retryPercent = retryPercent, bl_deadLetterPercent = deadLetterPercent\<rparr>"

definition bench_Generate :: "string \<Rightarrow> bench_llm \<Rightarrow> string result \<times> bench_llm" where
  "bench_Generate prompt l =
     (let attempt = bl_attempts l prompt + 1;
          l' = l\<lparr>bl_attempts := (bl_attempts l)(prompt := attempt)\<rparr>;
          bucket = stableBucket prompt
      in if contains prompt ''ASYNC BENCH'' then
           if bucket < bl_deadLetterPercent l then (Inl (Anonymous ''benchmark llm terminal failure''), l')
           else if bucket < bl_deadLetterPercent l + bl_retryPercent l \<and> attempt = 1 then
             (Inl (Anonymous ''benchmark llm transient failure''), l')
           else (Inr ''benchmark-response'', l')
         else (Inr ''benchmark-response'', l'))"

section \<open>Padded numbers and words\<close>

lemma zero_padded_value: "digits_value (zero_padded width n) = n"
proof -
  have "digits_value (replicate k (CHR ''0'') @ s) = digits_value s" for k s
    by (induction k) (simp_all add: digits_value_def)
  then show ?thesis using nat_str_digits [of n] by (simp add: zero_padded_def)
qed

lemma zero_padded_inj [simp]: "zero_padded w m = zero_padded w n \<longleftrightarrow> m = n"
  using zero_padded_value [of w] by metis

lemma zero_padded_digits: "c \<in> set (zero_padded w n) \<Longrightarrow> is_digit c"
  using nat_str_head [of c n] by (auto simp: zero_padded_def is_digit_def)

lemma zero_padded_nonempty: "zero_padded w n \<noteq> []"
  using nat_str_digits [of n] by (simp add: zero_padded_def)

text \<open>Printing characters of ASCII.\<close>

definition graphic :: "char \<Rightarrow> bool" where
  "graphic c \<longleftrightarrow> 32 < (of_char c :: nat) \<and> (of_char c :: nat) < 128"

lemma graphic_not_space:
  "ascii_space c \<Longrightarrow> \<not> graphic c"
  "space2 c d \<Longrightarrow> \<not> graphic c \<and> \<not> graphic d"
  "space3 c d e \<Longrightarrow> \<not> graphic c \<and> \<not> graphic e"
  by (auto simp: ascii_space_def space2_def space3_def graphic_def)

lemma graphic_no_space: "graphic c \<Longrightarrow> space_len (c # s) = 0" "graphic c \<Longrightarrow> space_len_rev (c # s) = 0"
  using graphic_not_space
  by (cases "c # s" rule: space_len.cases, simp_all, metis+)
    (cases "c # s" rule: space_len_rev.cases, simp_all, metis+)

lemma graphic_digits: "is_digit c \<Longrightarrow> graphic c"
  by (simp add: is_digit_def graphic_def)

lemma graphic_word: "s \<noteq> [] \<Longrightarrow> list_all graphic s \<Longrightarrow> is_word s"
proof -
  have "list_all graphic s \<Longrightarrow> word_len s = length s" by (induction s) (auto simp: graphic_no_space)
  then show "s \<noteq> [] \<Longrightarrow> list_all graphic s \<Longrightarrow> is_word s" by (simp add: is_word_def)
qed

lemma graphic_trim: "list_all graphic s \<Longrightarrow> trim_space s = s"
proof -
  assume all: "list_all graphic s"
  have "space_len s = 0" using all by (cases s) (auto simp: graphic_no_space)
  moreover have "space_len_rev (rev s) = 0"
    using all by (cases "rev s") (auto simp: graphic_no_space list_all_iff simp flip: set_rev [of s])
  ultimately show ?thesis by (intro trim_space_trimmed) (simp add: trimmed_def)
qed

lemma zero_padded_graphic [simp]: "list_all graphic (zero_padded w n)"
  using zero_padded_digits graphic_digits by (auto simp: list_all_iff)

section \<open>The generated tenants\<close>

lemma graphic_key: "list_all graphic ''example-bench-key-''"
  by code_simp

lemma generated_fields:
  "map tenant_ID (toTenantModels (generateTenants n)) = map (\<lambda>i. ''tenant-'' @ zero_padded 2 (i + 1)) [0 ..< n]"
  "map ak_Plaintext (toAPIKeys (generateTenants n)) = map (\<lambda>i. ''example-bench-key-'' @ zero_padded 2 (i + 1)) [0 ..< n]"
  by (simp_all add: toTenantModels_def toAPIKeys_def generateTenants_def bench_tenant_of_def Let_def)

text \<open>Every generated tenant gets in with its key and as itself, whatever their number: neither two keys
  nor two ids are the same, though the padding is that of two digits. The identity is that of the tenant and
  its key.\<close>
theorem bench_tenants_authenticate:
  assumes "inj hash" and "i < n"
  shows "Authenticate (memory_auth hash (toAPIKeys (generateTenants n)) (toTenantModels (generateTenants n)))
      (bt_APIKey (generateTenants n ! i)) =
    Inr \<lparr>id_TenantID = bt_ID (generateTenants n ! i), id_TenantName = bt_Name (generateTenants n ! i),
         id_TenantStatus = TenantActive, id_APIKeyID = bt_ID (generateTenants n ! i) @ ''-key'',
         id_APIKeyLabel = ''benchmark''\<rparr>"
proof -
  let ?ts = "generateTenants n" and ?b = "bench_tenant_of i"
  let ?k = "\<lparr>ak_ID = bt_ID ?b @ ''-key'', ak_TenantID = bt_ID ?b, ak_Label = ''benchmark'',
    ak_Plaintext = bt_APIKey ?b, ak_Status = KeyActive\<rparr>"
  let ?t = "\<lparr>tenant_ID = bt_ID ?b, tenant_Name = bt_Name ?b, tenant_Status = TenantActive\<rparr>"
  have b: "?ts ! i = ?b" "?b \<in> set ?ts" using assms(2) by (simp_all add: generateTenants_def)
  have key: "?k \<in> set (toAPIKeys ?ts)" and tenant: "?t \<in> set (toTenantModels ?ts)"
    using b(2) by (force simp: toAPIKeys_def, force simp: toTenantModels_def)
  have "distinct (map ak_Plaintext (toAPIKeys ?ts))"
    unfolding generated_fields by (simp add: distinct_map inj_on_def)
  then have "distinct (map hash (map ak_Plaintext (toAPIKeys ?ts)))"
    using assms(1) by (simp only: distinct_map [of hash] inj_on_subset [OF _ subset_UNIV])
  then have keys: "distinct (map (\<lambda>k. hash (ak_Plaintext k)) (toAPIKeys ?ts))"
    by (simp add: comp_def)
  have ids: "distinct (map tenant_ID (toTenantModels ?ts))"
    unfolding generated_fields by (simp add: distinct_map inj_on_def)
  have plain: "bt_APIKey ?b = ''example-bench-key-'' @ zero_padded 2 (i + 1)"
    by (simp add: bench_tenant_of_def)
  have "trim_space (bt_APIKey ?b) = bt_APIKey ?b"
    unfolding plain by (rule graphic_trim) (simp only: list_all_append graphic_key zero_padded_graphic)
  moreover have "bt_APIKey ?b \<noteq> []" unfolding plain by simp
  ultimately show ?thesis
    using Authenticate_complete [OF key keys tenant ids] by (simp add: b(1))
qed

section \<open>The generated documents\<close>

lemma payload_words_graphic:
  "list_all graphic ''workflow''" "list_all graphic ''orchestration''" "list_all graphic ''backend''"
  "list_all graphic ''audit''" "list_all graphic ''retrieval''" "list_all graphic ''reliability''"
  "list_all graphic ''tenant-''" "list_all graphic ''doc-''"
  by code_simp+

lemma payload_word_word: "is_word (payload_word ti di i)"
  unfolding payload_word_def Let_def
  by (auto intro!: graphic_word simp only: payload_words_graphic list_all_append zero_padded_graphic split: if_splits)

lemma join_snoc: "join sep (ws @ [w]) = (if ws = [] then w else join sep ws @ sep @ w)"
  by (induction sep ws rule: join.induct) auto

lemma payload_loop_join:
  "payload_loop ti di [k ..< k + n] (join '' '' (map (payload_word ti di) [0 ..< k])) =
     join '' '' (map (payload_word ti di) [0 ..< k + n])"
proof (induction n arbitrary: k)
  case (Suc n)
  have "[k ..< k + Suc n] = k # [Suc k ..< Suc k + n]" by (simp add: upt_conv_Cons)
  moreover have "(if 0 < k then join '' '' (map (payload_word ti di) [0 ..< k]) @ '' ''
      else join '' '' (map (payload_word ti di) [0 ..< k])) @ payload_word ti di k =
    join '' '' (map (payload_word ti di) [0 ..< Suc k])"
    by (simp add: join_snoc)
  ultimately show ?case using Suc [of "Suc k"] by (simp del: upt_Suc)
qed simp

text \<open>A generated document has exactly the number of words it was asked for: as the chunker and the search
  split it at white space, its words are those of the eight in turn.\<close>
theorem payload_words:
  "str_fields (generateDocumentPayload ti di words) = map (payload_word ti di) [0 ..< nat words]"
  using payload_loop_join [of ti di 0 "nat words"] fields_join payload_word_word
  by (simp add: generateDocumentPayload_def)

section \<open>The failures of the language model\<close>

text \<open>The model after it was asked some prompts.\<close>

definition asked :: "string list \<Rightarrow> bench_llm \<Rightarrow> bench_llm" where
  "asked prompts l = fold (\<lambda>p l. snd (bench_Generate p l)) prompts l"

lemma bench_Generate_state:
  "snd (bench_Generate p l) = l\<lparr>bl_attempts := (bl_attempts l)(p := bl_attempts l p + 1)\<rparr>"
  by (simp add: bench_Generate_def Let_def)

lemma asked_state:
  "asked prompts l = l\<lparr>bl_attempts := \<lambda>p. bl_attempts l p + int (count_list prompts p)\<rparr>"
  unfolding asked_def
  by (induction prompts arbitrary: l) (auto simp: bench_Generate_state fun_eq_iff intro!: bench_llm.equality)

lemma stableBucket_range: "0 \<le> stableBucket t \<and> stableBucket t < 100"
  by (simp add: stableBucket_def)

text \<open>Which prompts fail and how often: after any other prompts in any order, a prompt fails if it is of an
  asynchronous run and its bucket, out of a hundred, is below the percentage of dead letters, on every attempt,
  or is among the next, as many as the percentage of retries, on the first attempt only. Every other prompt,
  and every second attempt at one that is to be retried, is answered.\<close>
theorem bench_llm_failures:
  "(fst (bench_Generate p (asked prompts (newBenchmarkLLM retry dead))) = Inr ''benchmark-response'') \<longleftrightarrow>
     \<not> (contains p ''ASYNC BENCH'' \<and>
        (stableBucket p < dead \<or> stableBucket p < dead + retry \<and> p \<notin> set prompts))"
proof -
  have "(int (count_list prompts p) = 0) = (p \<notin> set prompts)" by (simp add: count_list_0_iff)
  then show ?thesis by (auto simp: asked_state newBenchmarkLLM_def bench_Generate_def Let_def)
qed

section \<open>Examples\<close>

theorem bench_tenants_authenticate_witness:
  "(1 :: nat) < 2 \<and>
   (\<exists>i. Authenticate (memory_auth (\<lambda>s. s) (toAPIKeys (generateTenants 2)) (toTenantModels (generateTenants 2)))
       ''example-bench-key-02'' = Inr i \<and> id_TenantID i = ''tenant-02'' \<and> id_APIKeyID i = ''tenant-02-key'')"
proof -
  have b: "bt_APIKey (generateTenants 2 ! 1) = ''example-bench-key-02''" "bt_ID (generateTenants 2 ! 1) = ''tenant-02''"
    by code_simp+
  have "inj (\<lambda>s :: string. s)" by simp
  from bench_tenants_authenticate [OF this, of 1 2] show ?thesis unfolding b by simp
qed

end
