(* ===== verification/Concurrent.thy ===== *)
theory Concurrent
  imports Prelude
begin

text \<open>
  \<open>forEachConcurrent\<close> of \<open>cmd/bench/main.go\<close>: workers that take indices from a shared counter and call a
  function on them, until all indices are taken or a call fails. The atomic actions of a worker are the
  look at the first error (under its mutex), the increment of the counter, a call, and the recording of an
  error (under the mutex); a schedule says which worker acts next.
\<close>

section \<open>Workers\<close>

datatype activity =
    Checking
  | Taking
  | Calling nat
  | Reporting goerr
  | Gone

record 's pool =
  po_next :: nat
  po_firstErr :: "goerr option"
  po_workers :: "activity list"
  po_state :: 's

text \<open>One action of a worker. A worker that has returned does nothing.\<close>

definition recordErr :: "goerr \<Rightarrow> 's pool \<Rightarrow> 's pool" where
  "recordErr e p = (if po_firstErr p = None then p\<lparr>po_firstErr := Some e\<rparr> else p)"

definition set_activity :: "nat \<Rightarrow> activity \<Rightarrow> 's pool \<Rightarrow> 's pool" where
  "set_activity w a p = p\<lparr>po_workers := (po_workers p)[w := a]\<rparr>"

definition pool_step :: "int \<Rightarrow> (nat \<Rightarrow> 's \<Rightarrow> goerr option \<times> 's) \<Rightarrow> nat \<Rightarrow> 's pool \<Rightarrow> 's pool" where
  "pool_step amount fn w p =
     (if length (po_workers p) \<le> w then p
      else case po_workers p ! w of
        Checking \<Rightarrow> set_activity w (if po_firstErr p \<noteq> None then Gone else Taking) p
      | Taking \<Rightarrow>
          let index = po_next p in
          set_activity w (if amount \<le> int index then Gone else Calling index) (p\<lparr>po_next := index + 1\<rparr>)
      | Calling index \<Rightarrow>
          (case fn index (po_state p) of
             (Some e, s) \<Rightarrow> set_activity w (Reporting e) (p\<lparr>po_state := s\<rparr>)
           | (None, s) \<Rightarrow> set_activity w Checking (p\<lparr>po_state := s\<rparr>))
      | Reporting e \<Rightarrow> set_activity w Gone (recordErr e p)
      | Gone \<Rightarrow> p)"

definition start_pool :: "nat \<Rightarrow> 's \<Rightarrow> 's pool" where
  "start_pool workers s =
     \<lparr>po_next = 0, po_firstErr = None, po_workers = replicate workers Checking, po_state = s\<rparr>"

definition all_gone :: "'s pool \<Rightarrow> bool" where
  "all_gone p = list_all (\<lambda>a. a = Gone) (po_workers p)"

definition run_schedule :: "int \<Rightarrow> (nat \<Rightarrow> 's \<Rightarrow> goerr option \<times> 's) \<Rightarrow> nat list \<Rightarrow> 's pool \<Rightarrow> 's pool" where
  "run_schedule amount fn schedule p = fold (pool_step amount fn) schedule p"

text \<open>The call returns when the wait group is done: \<open>None\<close> is a schedule that ends before.\<close>

definition forEachConcurrent ::
    "int \<Rightarrow> int \<Rightarrow> (nat \<Rightarrow> 's \<Rightarrow> goerr option \<times> 's) \<Rightarrow> nat list \<Rightarrow> 's \<Rightarrow> (goerr option \<times> 's) option" where
  "forEachConcurrent amount concurrency fn schedule s =
     (if amount = 0 then Some (None, s)
      else
        let p = run_schedule amount fn schedule (start_pool (nat (min amount concurrency)) s) in
        if all_gone p then Some (po_firstErr p, po_state p) else None)"

section \<open>Calls one after another\<close>

text \<open>The answers to calls that are made in an order, and the state behind them.\<close>

fun calls :: "(nat \<Rightarrow> 's \<Rightarrow> goerr option \<times> 's) \<Rightarrow> nat list \<Rightarrow> 's \<Rightarrow> goerr option list \<times> 's" where
  "calls fn [] s = ([], s)"
| "calls fn (i # is) s =
     (case fn i s of (answer, s1) \<Rightarrow> case calls fn is s1 of (answers, s2) \<Rightarrow> (answer # answers, s2))"

lemma calls_snoc:
  "calls fn (is @ [i]) s =
     (case calls fn is s of (answers, s1) \<Rightarrow> case fn i s1 of (answer, s2) \<Rightarrow> (answers @ [answer], s2))"
  by (induction "is" arbitrary: s) (auto split: prod.split)

lemma calls_length: "length (fst (calls fn is s)) = length is"
  by (induction "is" arbitrary: s) (auto split: prod.split, metis fst_conv)

section \<open>The invariant\<close>

text \<open>
  \<open>order\<close> are the indices called so far. An index that was taken is called already or will be by the
  one worker that took it; the state is that of the calls in their order; and errors of calls are reported
  by a worker or recorded.
\<close>

definition taken :: "'s pool \<Rightarrow> nat list" where
  "taken p = concat (map (\<lambda>a. case a of Calling i \<Rightarrow> [i] | _ \<Rightarrow> []) (po_workers p))"

definition reported :: "'s pool \<Rightarrow> goerr list" where
  "reported p = concat (map (\<lambda>a. case a of Reporting e \<Rightarrow> [e] | _ \<Rightarrow> []) (po_workers p))"

definition pool_ok ::
    "int \<Rightarrow> (nat \<Rightarrow> 's \<Rightarrow> goerr option \<times> 's) \<Rightarrow> 's \<Rightarrow> 's pool \<Rightarrow> nat list \<Rightarrow> bool" where
  "pool_ok amount fn s0 p order \<longleftrightarrow>
     mset order + mset (taken p) = mset [0 ..< min (po_next p) (nat amount)] \<and>
     po_state p = snd (calls fn order s0) \<and>
     set (reported p) \<subseteq> {e. Some e \<in> set (fst (calls fn order s0))} \<and>
     (\<forall>e. po_firstErr p = Some e \<longrightarrow> Some e \<in> set (fst (calls fn order s0))) \<and>
     (po_firstErr p = None \<longrightarrow> (\<forall>e. Some e \<in> set (fst (calls fn order s0)) \<longrightarrow> e \<in> set (reported p))) \<and>
     (po_firstErr p = None \<and> Gone \<in> set (po_workers p) \<longrightarrow> nat amount \<le> po_next p)"

text \<open>What replacing the activity of a worker does to a collection over the workers.\<close>

lemma collect_update:
  assumes "w < length as"
  shows "mset (concat (map f (as[w := a]))) + mset (f (as ! w)) = mset (concat (map f as)) + mset (f a)"
  using assms
proof (induction as arbitrary: w)
  case (Cons b as)
  then show ?case by (cases w) (auto simp: union_ac)
qed simp

lemma activity_update:
  assumes "w < length (po_workers p)"
  shows "mset (taken (set_activity w a p)) + mset (case po_workers p ! w of Calling i \<Rightarrow> [i] | _ \<Rightarrow> []) =
      mset (taken p) + mset (case a of Calling i \<Rightarrow> [i] | _ \<Rightarrow> [])"
    and "mset (reported (set_activity w a p)) + mset (case po_workers p ! w of Reporting e \<Rightarrow> [e] | _ \<Rightarrow> []) =
      mset (reported p) + mset (case a of Reporting e \<Rightarrow> [e] | _ \<Rightarrow> [])"
  using collect_update [OF assms, of "\<lambda>a. case a of Calling i \<Rightarrow> [i] | _ \<Rightarrow> []" a]
    collect_update [OF assms, of "\<lambda>a. case a of Reporting e \<Rightarrow> [e] | _ \<Rightarrow> []" a]
  by (simp_all add: taken_def reported_def set_activity_def)

lemma pool_frame [simp]:
  "po_next (set_activity w a p) = po_next p" "po_firstErr (set_activity w a p) = po_firstErr p"
  "po_state (set_activity w a p) = po_state p" "po_workers (set_activity w a p) = (po_workers p)[w := a]"
  "taken (p\<lparr>po_next := n\<rparr>) = taken p" "taken (p\<lparr>po_state := s\<rparr>) = taken p" "taken (p\<lparr>po_firstErr := r\<rparr>) = taken p"
  "reported (p\<lparr>po_next := n\<rparr>) = reported p" "reported (p\<lparr>po_state := s\<rparr>) = reported p"
  "reported (p\<lparr>po_firstErr := r\<rparr>) = reported p"
  by (simp_all add: set_activity_def taken_def reported_def)

definition called :: "'s pool \<Rightarrow> nat \<Rightarrow> nat list" where
  "called p w = (if length (po_workers p) \<le> w then [] else case po_workers p ! w of Calling i \<Rightarrow> [i] | _ \<Rightarrow> [])"

lemma gone_update:
  "w < length as \<Longrightarrow> Gone \<in> set (as[w := a]) \<Longrightarrow> a = Gone \<or> Gone \<in> set as"
  by (metis in_set_conv_nth length_list_update nth_list_update)

lemma mset_set_Suc [simp]: "mset_set {0..<Suc n} = add_mset n (mset_set {0..<n})"
  by (metis add_mset_add_single mset.simps mset_append mset_upt upt_Suc_append zero_le)

text \<open>Each action keeps the invariant; a call appends its index to the order.\<close>

lemma checking_ok:
  assumes "pool_ok amount fn s0 p order" and "w < length (po_workers p)" and "po_workers p ! w = Checking"
  shows "pool_ok amount fn s0 (pool_step amount fn w p) (order @ called p w)"
proof -
  note facts = assms(1) [unfolded pool_ok_def] and w = assms(2) and Checking = assms(3) and upd = activity_update [OF assms(2)]
  let ?a = "if po_firstErr p \<noteq> None then Gone else Taking"
  have "taken (set_activity w ?a p) = taken p \<or> mset (taken (set_activity w ?a p)) = mset (taken p)"
    using upd(1) [of ?a] Checking by (auto split: if_splits)
  then have t: "mset (taken (set_activity w ?a p)) = mset (taken p)" by auto
  have "mset (reported (set_activity w ?a p)) = mset (reported p)"
    using upd(2) [of ?a] Checking by (auto split: if_splits)
  then have r: "set (reported (set_activity w ?a p)) = set (reported p)" by (rule mset_eq_setD)
  show ?thesis
    using facts w Checking gone_update [OF w, of ?a] t r
    by (auto simp: pool_ok_def pool_step_def called_def split: if_splits)
qed

lemma taking_ok:
  assumes "pool_ok amount fn s0 p order" and "w < length (po_workers p)" and "po_workers p ! w = Taking"
  shows "pool_ok amount fn s0 (pool_step amount fn w p) (order @ called p w)"
proof -
  note facts = assms(1) [unfolded pool_ok_def] and w = assms(2) and Taking = assms(3) and upd = activity_update [OF assms(2)]
  let ?i = "po_next p"
  let ?a = "if amount \<le> int ?i then Gone else Calling ?i"
  let ?q = "p\<lparr>po_next := ?i + 1\<rparr>"
  have w': "w < length (po_workers ?q)" "po_workers ?q ! w = Taking" using w Taking by simp_all
  have t: "mset (taken (set_activity w ?a ?q)) = mset (taken p) + (if amount \<le> int ?i then {#} else {#?i#})"
    using activity_update(1) [OF w'(1), of ?a] w'(2) by (auto split: if_splits)
  have "mset (reported (set_activity w ?a ?q)) = mset (reported p)"
    using activity_update(2) [OF w'(1), of ?a] w'(2) by (auto split: if_splits)
  then have r: "set (reported (set_activity w ?a ?q)) = set (reported p)" by (rule mset_eq_setD)
  have "mset order + mset (taken (set_activity w ?a ?q)) = mset [0 ..< min (Suc ?i) (nat amount)]"
    using facts t by (cases "amount \<le> int ?i") (auto simp: min_def)
  then show ?thesis
    using facts w Taking gone_update [OF w, of ?a] r
    by (auto simp: pool_ok_def pool_step_def called_def Let_def split: if_splits)
qed

lemma calling_ok:
  assumes "pool_ok amount fn s0 p order" and "w < length (po_workers p)" and "po_workers p ! w = Calling i"
  shows "pool_ok amount fn s0 (pool_step amount fn w p) (order @ called p w)"
proof -
  note facts = assms(1) [unfolded pool_ok_def] and w = assms(2) and Calling = assms(3) and upd = activity_update [OF assms(2)]
  obtain answer s where call: "fn i (po_state p) = (answer, s)" by fastforce
  have all: "calls fn (order @ [i]) s0 = (fst (calls fn order s0) @ [answer], s)"
    using facts call by (cases "calls fn order s0") (simp add: calls_snoc)
  let ?a = "case answer of None \<Rightarrow> Checking | Some e \<Rightarrow> Reporting e"
  let ?q = "p\<lparr>po_state := s\<rparr>"
  have w': "w < length (po_workers ?q)" "po_workers ?q ! w = Calling i" using w Calling by simp_all
  have t: "add_mset i (mset (taken (set_activity w ?a ?q))) = mset (taken p)"
    using activity_update(1) [OF w'(1), of ?a] w'(2) by (auto split: option.splits)
  have "mset (reported (set_activity w ?a ?q)) = mset (reported p @ (case answer of None \<Rightarrow> [] | Some e \<Rightarrow> [e]))"
    using activity_update(2) [OF w'(1), of ?a] w'(2) by (auto split: option.splits)
  from mset_eq_setD [OF this]
  have r: "set (reported (set_activity w ?a ?q)) = set (reported p) \<union> (case answer of None \<Rightarrow> {} | Some e \<Rightarrow> {e})"
    by (auto split: option.splits)
  have step: "pool_step amount fn w p = set_activity w ?a ?q"
    using w Calling call by (simp add: pool_step_def split: option.split)
  have "mset (order @ [i]) + mset (taken (set_activity w ?a ?q)) = mset [0 ..< min (po_next p) (nat amount)]"
    using facts t by (metis (no_types, lifting) add_mset_add_single mset.simps mset_append union_mset_add_mset_left
        union_mset_add_mset_right)
  then show ?thesis
    using facts w Calling gone_update [OF w, of ?a] r
    unfolding step pool_ok_def called_def
    by (auto simp: all split: option.splits)
qed

lemma reporting_ok:
  assumes "pool_ok amount fn s0 p order" and "w < length (po_workers p)" and "po_workers p ! w = Reporting e"
  shows "pool_ok amount fn s0 (pool_step amount fn w p) (order @ called p w)"
proof -
  note facts = assms(1) [unfolded pool_ok_def] and w = assms(2) and Reporting = assms(3) and upd = activity_update [OF assms(2)]
  let ?q = "recordErr e p"
  have same: "po_next ?q = po_next p" "po_state ?q = po_state p" "po_workers ?q = po_workers p"
    "taken ?q = taken p" "reported ?q = reported p" "po_firstErr ?q \<noteq> None"
    by (simp_all add: recordErr_def)
  have w': "w < length (po_workers ?q)" "po_workers ?q ! w = Reporting e" using w Reporting same by simp_all
  have t: "mset (taken (set_activity w Gone ?q)) = mset (taken p)"
    using activity_update(1) [OF w'(1), of Gone] w'(2) same by simp
  have "add_mset e (mset (reported (set_activity w Gone ?q))) = mset (reported p)"
    using activity_update(2) [OF w'(1), of Gone] w'(2) same by simp
  then have r: "insert e (set (reported (set_activity w Gone ?q))) = set (reported p)"
    by (metis set_mset_add_mset_insert set_mset_mset)
  then have first: "\<forall>x. po_firstErr ?q = Some x \<longrightarrow> Some x \<in> set (fst (calls fn order s0))"
    using facts by (auto simp: recordErr_def)
  have step: "pool_step amount fn w p = set_activity w Gone ?q"
    using w Reporting by (simp add: pool_step_def)
  show ?thesis
    using facts w Reporting t r first same
    unfolding step pool_ok_def called_def by auto
qed

lemma pool_step_ok:
  assumes "pool_ok amount fn s0 p order"
  shows "pool_ok amount fn s0 (pool_step amount fn w p) (order @ called p w)"
proof (cases "length (po_workers p) \<le> w")
  case True
  then show ?thesis using assms by (simp add: pool_step_def called_def)
next
  case False
  then have w: "w < length (po_workers p)" by simp
  show ?thesis
  proof (cases "po_workers p ! w")
    case Gone
    then show ?thesis using assms w by (simp add: pool_step_def called_def)
  qed (use assms w in \<open>auto intro: checking_ok taking_ok calling_ok reporting_ok\<close>)
qed

lemma run_schedule_ok:
  assumes "pool_ok amount fn s0 p order"
  shows "\<exists>more. pool_ok amount fn s0 (run_schedule amount fn schedule p) (order @ more)"
  using assms
proof (induction schedule arbitrary: p order)
  case Nil
  then show ?case by (auto simp: run_schedule_def intro: exI [of _ "[]"])
next
  case (Cons w schedule)
  from Cons.IH [OF pool_step_ok [OF Cons.prems]] show ?case by (auto simp: run_schedule_def)
qed

lemma start_pool_ok: "pool_ok amount fn s (start_pool workers s) []"
  by (auto simp: pool_ok_def start_pool_def taken_def reported_def)

text \<open>Nothing is under way when all workers have returned.\<close>

lemma gone_collected: "all_gone p \<Longrightarrow> taken p = [] \<and> reported p = []"
  by (auto simp: all_gone_def taken_def reported_def list_all_iff)

section \<open>Every schedule ends\<close>

definition work_left :: "activity \<Rightarrow> nat" where
  "work_left a = (case a of Gone \<Rightarrow> 0 | Reporting e \<Rightarrow> 1 | Taking \<Rightarrow> 1 | Checking \<Rightarrow> 2 | Calling i \<Rightarrow> 3)"

definition pool_measure :: "int \<Rightarrow> 's pool \<Rightarrow> nat" where
  "pool_measure amount p = 4 * (nat amount - po_next p) + sum_list (map work_left (po_workers p))"

lemma sum_list_work:
  "w < length as \<Longrightarrow> sum_list (map work_left (as[w := a])) + work_left (as ! w) = sum_list (map work_left as) + work_left a"
  by (induction as arbitrary: w) (auto simp: nth_Cons split: nat.splits)

lemma sum_list_work_eq:
  assumes "w < length as"
  shows "sum_list (map work_left (as[w := a])) = sum_list (map work_left as) + work_left a - work_left (as ! w)"
    and "work_left (as ! w) \<le> sum_list (map work_left as)"
  using sum_list_work [OF assms, of a] sum_list_work [OF assms, of Gone] by (simp_all add: work_left_def)

lemma pool_step_measure:
  assumes "w < length (po_workers p)" and "po_workers p ! w \<noteq> Gone"
  shows "pool_measure amount (pool_step amount fn w p) < pool_measure amount p"
  using assms sum_list_work_eq(2) [OF assms(1)]
  by (cases "po_workers p ! w")
    (auto simp: pool_measure_def pool_step_def Let_def recordErr_def sum_list_work_eq(1) work_left_def
      split: prod.split option.split)

lemma pool_step_idle:
  "length (po_workers (pool_step amount fn w p)) = length (po_workers p)"
  "po_workers p ! w = Gone \<Longrightarrow> pool_step amount fn w p = p"
  "v \<noteq> w \<Longrightarrow> po_workers (pool_step amount fn w p) ! v = po_workers p ! v"
  by (auto simp: pool_step_def Let_def recordErr_def split: activity.split prod.split option.split)

lemma run_schedule_length: "length (po_workers (run_schedule amount fn schedule p)) = length (po_workers p)"
  unfolding run_schedule_def by (induction schedule arbitrary: p) (simp_all add: pool_step_idle(1))

lemma run_schedule_append:
  "run_schedule amount fn (xs @ ys) p = run_schedule amount fn ys (run_schedule amount fn xs p)"
  by (simp add: run_schedule_def)

lemma run_schedule_gone: "all_gone p \<Longrightarrow> run_schedule amount fn schedule p = p"
  unfolding run_schedule_def
proof (induction schedule)
  case (Cons w schedule)
  have "pool_step amount fn w p = p"
    using Cons.prems by (cases "w < length (po_workers p)") (auto simp: pool_step_def all_gone_def list_all_length)
  then show ?case using Cons by simp
qed simp

text \<open>A schedule in which the worker acts makes progress.\<close>

lemma run_schedule_progress:
  assumes "w \<in> set schedule" and "w < length (po_workers p)" and "po_workers p ! w \<noteq> Gone"
  shows "pool_measure amount (run_schedule amount fn schedule p) < pool_measure amount p"
proof -
  have le: "pool_measure amount (pool_step amount fn v q) \<le> pool_measure amount q" for v q
    using pool_step_measure [of v q amount fn] pool_step_idle(2) [of q v amount fn]
    by (cases "v < length (po_workers q)"; cases "po_workers q ! v = Gone") (auto simp: pool_step_def)
  have les: "pool_measure amount (run_schedule amount fn vs q) \<le> pool_measure amount q" for vs q
    unfolding run_schedule_def by (induction vs arbitrary: q) (auto intro: order_trans [OF _ le])
  obtain xs ys where split: "schedule = xs @ w # ys" "w \<notin> set xs" using split_list_first [OF assms(1)] by blast
  let ?q = "run_schedule amount fn xs p"
  have "po_workers ?q ! w = po_workers p ! w"
    using split(2) unfolding run_schedule_def
    by (induction xs arbitrary: p) (auto simp: pool_step_idle(3))
  then have "pool_measure amount (pool_step amount fn w ?q) < pool_measure amount ?q"
    using assms(2,3) by (intro pool_step_measure) (simp_all add: run_schedule_length)
  then have "pool_measure amount (pool_step amount fn w ?q) < pool_measure amount p"
    using les [of xs p] by simp
  then have "pool_measure amount (run_schedule amount fn ys (pool_step amount fn w ?q)) < pool_measure amount p"
    using les [of ys "pool_step amount fn w ?q"] by simp
  then show ?thesis unfolding split(1) run_schedule_append by (simp add: run_schedule_def)
qed

text \<open>Rounds in which every worker acts: at most as many as the measure of the start.\<close>

definition fair_rounds :: "nat \<Rightarrow> nat list list \<Rightarrow> bool" where
  "fair_rounds workers rounds = list_all (\<lambda>r. {..<workers} \<subseteq> set r) rounds"

lemma rounds_end:
  assumes "fair_rounds (length (po_workers p)) rounds" and "pool_measure amount p \<le> length rounds"
  shows "all_gone (run_schedule amount fn (concat rounds) p)"
  using assms
proof (induction rounds arbitrary: p)
  case Nil
  then have "sum_list (map work_left (po_workers p)) = 0" by (simp add: pool_measure_def)
  then show ?case
    by (auto simp: run_schedule_def all_gone_def list_all_iff work_left_def split: activity.splits) (metis activity.exhaust)
next
  case (Cons r rounds)
  let ?q = "run_schedule amount fn r p"
  have later: "all_gone (run_schedule amount fn (concat rounds) ?q)" if "pool_measure amount ?q \<le> length rounds"
    using Cons.IH [of ?q] Cons.prems(1) that by (simp add: fair_rounds_def run_schedule_length)
  show ?case
  proof (cases "all_gone p")
    case True
    then show ?thesis by (simp add: run_schedule_gone)
  next
    case False
    then obtain w where "w < length (po_workers p)" "po_workers p ! w \<noteq> Gone"
      by (auto simp: all_gone_def list_all_length)
    moreover from this have "w \<in> set r" using Cons.prems(1) by (auto simp: fair_rounds_def)
    ultimately have "pool_measure amount ?q < pool_measure amount p" by (intro run_schedule_progress)
    then show ?thesis using later Cons.prems(2) by (simp add: run_schedule_append)
  qed
qed

lemma no_errors: "(\<And>e. Some e \<notin> set as) \<Longrightarrow> list_all (\<lambda>a. a = None) as"
proof (unfold list_all_iff, rule ballI)
  fix a assume "\<And>e. Some e \<notin> set as" "a \<in> set as"
  then show "a = None" by (cases a) auto
qed

lemma concurrent_calls:
  assumes "forEachConcurrent amount concurrency fn schedule s = Some (err, s')" and "0 < concurrency"
  shows "\<exists>order. distinct order \<and> set order \<subseteq> {..<nat amount} \<and> s' = snd (calls fn order s) \<and>
    (case err of
       None \<Rightarrow> set order = {..<nat amount} \<and> list_all (\<lambda>a. a = None) (fst (calls fn order s))
     | Some e \<Rightarrow> Some e \<in> set (fst (calls fn order s)))"
proof (cases "amount \<le> 0")
  case True
  have "all_gone (start_pool 0 s)" by (simp add: all_gone_def start_pool_def)
  then have "err = None" "s' = s"
    using assms True
    by (auto simp: forEachConcurrent_def run_schedule_gone Let_def split: if_splits) (simp_all add: start_pool_def)
  then show ?thesis using True by (intro exI [of _ "[]"]) simp
next
  case False
  let ?p = "run_schedule amount fn schedule (start_pool (nat (min amount concurrency)) s)"
  have p: "all_gone ?p" "err = po_firstErr ?p" "s' = po_state ?p"
    using assms(1) False by (auto simp: forEachConcurrent_def Let_def split: if_splits)
  obtain order where ok: "pool_ok amount fn s ?p order"
    using run_schedule_ok [OF start_pool_ok] by force
  note idle = gone_collected [OF p(1)]
  have order: "mset order = mset [0 ..< min (po_next ?p) (nat amount)]"
    using ok idle unfolding pool_ok_def by simp
  then have elems: "distinct order" "set order = {0 ..< min (po_next ?p) (nat amount)}"
    using mset_eq_imp_distinct_iff mset_eq_setD by (metis distinct_upt, metis set_upt)
  have "length (po_workers ?p) \<noteq> 0" using False assms(2) by (simp add: run_schedule_length start_pool_def)
  then have "Gone \<in> set (po_workers ?p)" using p(1) by (cases "po_workers ?p") (auto simp: all_gone_def)
  then have all: "nat amount \<le> po_next ?p" if "err = None"
    using ok that p(2) by (simp add: pool_ok_def)
  have "list_all (\<lambda>a. a = None) (fst (calls fn order s))" if "err = None"
    by (rule no_errors) (use ok that p(2) idle in \<open>simp add: pool_ok_def\<close>)
  moreover have "Some e \<in> set (fst (calls fn order s))" if "err = Some e" for e
    using ok that p(2) by (simp add: pool_ok_def)
  ultimately show ?thesis
    using elems all ok p(3) by (intro exI [of _ order]) (auto simp: pool_ok_def split: option.split)
qed

section \<open>Properties\<close>

text \<open>Concurrent calls are calls one after another: when \<open>forEachConcurrent\<close> returns, whatever the
  schedule, no index was called twice and the state is that of the calls made in some order. Without an
  error every index was called, once, and no call failed; an error is the one of a call.\<close>
theorem forEachConcurrent_linear:
  assumes "forEachConcurrent amount concurrency fn schedule s = Some (err, s')" and "0 < concurrency"
  shows "\<exists>order. distinct order \<and> set order \<subseteq> {..<nat amount} \<and> s' = snd (calls fn order s) \<and>
    (case err of
       None \<Rightarrow> set order = {..<nat amount} \<and> list_all (\<lambda>a. a = None) (fst (calls fn order s))
     | Some e \<Rightarrow> Some e \<in> set (fst (calls fn order s)))"
  by (rule concurrent_calls [OF assms])

text \<open>It always returns: after as many rounds as four for each index and two for each worker, in each of
  which every worker acts at least once, in any order, all workers have returned.\<close>
theorem forEachConcurrent_returns:
  assumes "fair_rounds (nat (min amount concurrency)) rounds"
    and "4 * nat amount + 2 * nat (min amount concurrency) \<le> length rounds"
  shows "\<exists>err s'. forEachConcurrent amount concurrency fn (concat rounds) s = Some (err, s')"
proof -
  let ?p = "start_pool (nat (min amount concurrency)) s"
  have "pool_measure amount ?p = 4 * nat amount + 2 * nat (min amount concurrency)"
    by (simp add: pool_measure_def start_pool_def work_left_def sum_list_replicate)
  then have "all_gone (run_schedule amount fn (concat rounds) ?p)"
    using assms by (intro rounds_end) (simp_all add: start_pool_def)
  then show ?thesis by (simp add: forEachConcurrent_def Let_def)
qed

section \<open>Examples\<close>

definition demo_call :: "nat \<Rightarrow> nat list \<Rightarrow> goerr option \<times> nat list" where
  "demo_call i log = (if i = 5 then Some (Anonymous ''five'') else None, log @ [i])"

definition demo_rounds :: "nat list list" where
  "demo_rounds = replicate 20 [1, 0, 1]"

theorem forEachConcurrent_linear_witness:
  "\<exists>order log. forEachConcurrent 4 2 demo_call (concat demo_rounds) [] = Some (None, log) \<and>
     distinct order \<and> set order = {..<4} \<and> log = snd (calls demo_call order [])"
proof -
  have "case forEachConcurrent 4 2 demo_call (concat demo_rounds) [] of Some (None, log) \<Rightarrow> True | _ \<Rightarrow> False"
    by code_simp
  then obtain log where run: "forEachConcurrent 4 2 demo_call (concat demo_rounds) [] = Some (None, log)"
    by (auto split: option.splits prod.splits)
  from forEachConcurrent_linear [OF run] run show ?thesis by fastforce
qed

theorem forEachConcurrent_returns_witness:
  "\<exists>err s'. forEachConcurrent 4 2 demo_call (concat demo_rounds) [] = Some (err, s')"
proof (rule forEachConcurrent_returns)
  show "fair_rounds (nat (min 4 2)) demo_rounds" by code_simp
  show "4 * nat 4 + 2 * nat (min 4 2) \<le> length demo_rounds" by code_simp
qed

end
