(* ===== verification/Bench_Run.thy ===== *)
theory Bench_Run
  imports Bench Concurrent
begin

text \<open>
  The phases of a benchmark run, \<open>cmd/bench/main.go\<close>: documents are uploaded, workflows created, synchronous and
  asynchronous runs started and the asynchronous ones polled, all through the HTTP client. Calls inside
  \<open>forEachConcurrent\<close> are atomic here; what may interleave inside a call is that of the server's handlers.
\<close>

section \<open>The client\<close>

record run_envelope =
  rv_ID :: string
  rv_Status :: string
  rv_Attempt :: int

text \<open>
  What the driver relies on: the client (in the program the local round tripper), the standard library's
  checks of a request, its multipart writer and its decoding of the three envelopes, the clock, and the
  wait of the polling loop, that ends with the context's error or with the next tick. \<open>be_order\<close> is the
  order in which the map of outstanding runs is visited, \<open>be_worker_err\<close> the look into the worker's channel, and
  the rest what the process asks of the operating system.
\<close>

record 's bench_env =
  be_Do :: "http_request \<Rightarrow> 's \<Rightarrow> http_response result \<times> 's"
  be_NewRequest :: "string \<Rightarrow> string \<Rightarrow> goerr option"
  be_form :: "string \<Rightarrow> string \<Rightarrow> string \<Rightarrow> 's \<Rightarrow> (string \<times> string) \<times> 's"
  be_document_id :: "string \<times> goerr option \<Rightarrow> string result"
  be_workflow_id :: "string \<times> goerr option \<Rightarrow> string result"
  be_run :: "string \<times> goerr option \<Rightarrow> run_envelope result"
  be_fmt :: gofmt
  be_now :: "'s \<Rightarrow> time \<times> 's"
  be_wait :: "'s \<Rightarrow> goerr option \<times> 's"
  be_order :: "string list \<Rightarrow> 's \<Rightarrow> string list"
  be_worker_err :: "'s \<Rightarrow> goerr option"
  be_MkdirTemp :: "'s \<Rightarrow> goerr option \<times> 's"
  be_cancelWorker :: "'s \<Rightarrow> 's"
  be_RemoveAll :: "'s \<Rightarrow> 's"
  be_WriteFile :: "string \<Rightarrow> string \<Rightarrow> 's \<Rightarrow> goerr option \<times> 's"

text \<open>The payload is the JSON text: no value that is sent here fails to encode.\<close>

definition doJSONRequest ::
    "'s bench_env \<Rightarrow> string \<Rightarrow> string \<Rightarrow> string \<Rightarrow> string option \<Rightarrow> 's \<Rightarrow> (int \<times> string \<times> goerr option) result \<times> 's" where
  "doJSONRequest E http_method url apiKey payload s =
     (case be_NewRequest E http_method url of
        Some e \<Rightarrow> (Inl (wrap ''build request'' e), s)
      | None \<Rightarrow>
          let header = header_set ''X-API-Key'' apiKey [];
              header' = (if payload \<noteq> None then header_set ''Content-Type'' ''application/json'' header else header)
          in case be_Do E \<lparr>rq_Method = http_method, rq_URL = url, rq_Header = header', rq_Body = payload\<rparr> s of
               (Inl e, s1) \<Rightarrow> (Inl (wrap ''perform request'' e), s1)
             | (Inr resp, s1) \<Rightarrow> (Inr (rs_StatusCode resp, rs_Body resp), s1))"

definition fetchRun :: "'s bench_env \<Rightarrow> string \<Rightarrow> string \<Rightarrow> string \<Rightarrow> 's \<Rightarrow> run_envelope result \<times> 's" where
  "fetchRun E baseURL apiKey runID s =
     (case doJSONRequest E ''GET'' (baseURL @ ''/v1/workflow-runs/'' @ runID) apiKey None s of
        (Inl e, s1) \<Rightarrow> (Inl e, s1)
      | (Inr (statusCode, body), s1) \<Rightarrow>
          if statusCode \<noteq> 200 then
            (Inl (Anonymous (''fetch run '' @ runID @ '' status: '' @ int_str statusCode)), s1)
          else case be_run E body of
            Inl e \<Rightarrow> (Inl (wrap (''decode run '' @ runID) e), s1)
          | Inr envelope \<Rightarrow> (Inr envelope, s1))"

text \<open>Writing a form into a buffer does not fail.\<close>

definition uploadDocument ::
    "'s bench_env \<Rightarrow> string \<Rightarrow> bench_tenant \<Rightarrow> nat \<Rightarrow> string \<Rightarrow> 's \<Rightarrow> (string \<times> int) result \<times> 's" where
  "uploadDocument E baseURL tenantCfg documentIndex payload s =
     (case be_form E ''file'' (''tenant-'' @ bt_ID tenantCfg @ ''-'' @ zero_padded 4 documentIndex @ ''.txt'') payload s of
        ((body, contentType), s1) \<Rightarrow>
          case be_NewRequest E ''POST'' (baseURL @ ''/v1/documents'') of
            Some e \<Rightarrow> (Inl (wrap ''build upload request'' e), s1)
          | None \<Rightarrow>
              let header = header_set ''Content-Type'' contentType (header_set ''X-API-Key'' (bt_APIKey tenantCfg) []) in
              case be_Do E \<lparr>rq_Method = ''POST'', rq_URL = baseURL @ ''/v1/documents'', rq_Header = header,
                            rq_Body = Some body\<rparr> s1 of
                (Inl e, s2) \<Rightarrow> (Inl (wrap ''upload document'' e), s2)
              | (Inr resp, s2) \<Rightarrow>
                  if rs_StatusCode resp \<noteq> 201 then
                    (Inl (Anonymous (''upload document status: '' @ int_str (rs_StatusCode resp))), s2)
                  else case be_document_id E (rs_Body resp) of
                    Inl e \<Rightarrow> (Inl (wrap ''decode upload response'' e), s2)
                  | Inr k \<Rightarrow> (Inr (k, int (length payload)), s2))"

definition createWorkflow ::
    "'s bench_env \<Rightarrow> string \<Rightarrow> bench_tenant \<Rightarrow> wf_definition \<Rightarrow> 's \<Rightarrow> string result \<times> 's" where
  "createWorkflow E baseURL tenantCfg d s =
     (case doJSONRequest E ''POST'' (baseURL @ ''/v1/workflows'') (bt_APIKey tenantCfg)
             (Some (json_definition (be_fmt E) d)) s of
        (Inl e, s1) \<Rightarrow> (Inl e, s1)
      | (Inr (statusCode, body), s1) \<Rightarrow>
          if statusCode \<noteq> 201 then (Inl (Anonymous (''create workflow status: '' @ int_str statusCode)), s1)
          else case be_workflow_id E body of
            Inl e \<Rightarrow> (Inl (wrap ''decode workflow response'' e), s1)
          | Inr k \<Rightarrow> (Inr k, s1))"

section \<open>Uploads\<close>

record upload_result =
  ur_TenantIndex :: nat
  ur_DocumentID :: string
  ur_Bytes :: int

text \<open>
  The function that the workers call: its state has the results sent to the channel, that has a slot for each.
  There is at least one tenant (\<open>validateOptions\<close>).
\<close>

definition upload_one ::
    "'s bench_env \<Rightarrow> string \<Rightarrow> bench_tenant list \<Rightarrow> bench_options \<Rightarrow> nat \<Rightarrow> 's \<times> upload_result list \<Rightarrow>
     goerr option \<times> 's \<times> upload_result list" where
  "upload_one E baseURL tenants opts index st =
     (case st of (s, results) \<Rightarrow>
      let tenantIndex = index mod length tenants;
          documentIndex = index div length tenants;
          payload = generateDocumentPayload tenantIndex documentIndex (bo_documentWords opts)
      in case uploadDocument E baseURL (tenants ! tenantIndex) documentIndex payload s of
           (Inl e, s1) \<Rightarrow> (Some e, s1, results)
         | (Inr (documentID, bytesWritten), s1) \<Rightarrow>
             (None, s1, results @ [\<lparr>ur_TenantIndex = tenantIndex, ur_DocumentID = documentID, ur_Bytes = bytesWritten\<rparr>]))"

text \<open>The loop over the channel: the documents of the tenants and the sum of the bytes.\<close>

fun collect_uploads :: "upload_result list \<Rightarrow> bench_tenant list \<Rightarrow> int \<Rightarrow> bench_tenant list \<times> int" where
  "collect_uploads [] tenants totalBytes = (tenants, totalBytes)"
| "collect_uploads (r # results) tenants totalBytes =
     (let t = tenants ! ur_TenantIndex r in
      collect_uploads results
        (tenants[ur_TenantIndex r := t\<lparr>bt_DocumentIDs := bt_DocumentIDs t @ [ur_DocumentID r]\<rparr>])
        (totalBytes + ur_Bytes r))"

text \<open>
  The throughput is a rational number; the code's is infinite if the clock has not moved, this one is 0 then.
\<close>

definition uploadDocuments ::
    "'s bench_env \<Rightarrow> string \<Rightarrow> bench_tenant list \<Rightarrow> bench_options \<Rightarrow> nat list \<Rightarrow> 's \<Rightarrow>
     ((ingestion_summary \<times> bench_tenant list) result \<times> 's) option" where
  "uploadDocuments E baseURL tenants opts schedule s =
     (let totalDocs = int (length tenants) * bo_documentsPerTenant opts in
      case be_now E s of (start, s1) \<Rightarrow>
      case forEachConcurrent totalDocs (bo_concurrency opts) (upload_one E baseURL tenants opts) schedule (s1, []) of
        None \<Rightarrow> None
      | Some (Some e, s2, results) \<Rightarrow> Some (Inl e, s2)
      | Some (None, s2, results) \<Rightarrow>
          (case collect_uploads results tenants 0 of (tenants', totalBytes) \<Rightarrow>
           case be_now E s2 of (finish, s3) \<Rightarrow>
           let duration = time_sub finish start in
           Some (Inr (\<lparr>in_Documents = totalDocs, in_Bytes = totalBytes, in_Duration = duration,
                       in_Throughput = of_int totalDocs / (of_int duration / 1000000000)\<rparr>, tenants'), s3)))"

section \<open>Workflows\<close>

definition workflowDocumentLimit :: nat where
  "workflowDocumentLimit = 8"

text \<open>The two definitions differ in their name, the prompt and the message.\<close>

definition bench_definition :: "string \<Rightarrow> string \<Rightarrow> string \<Rightarrow> string list \<Rightarrow> wf_definition" where
  "bench_definition name prompt message documentIDs =
     \<lparr>def_Name = name, def_Description = [], def_Version = 1, def_InputSchema = [],
      def_Nodes =
        [\<lparr>node_ID = ''retrieve'', node_Type = ''retrieve_documents'',
           node_Config = [(''document_ids'', VStrs documentIDs), (''query_input_key'', VStr ''query''), (''limit'', VInt 5)]\<rparr>,
         \<lparr>node_ID = ''llm'', node_Type = ''llm'',
           node_Config = [(''prompt'', VStr prompt), (''input_key'', VStr ''query''), (''context_step'', VStr ''retrieve'')]\<rparr>,
         \<lparr>node_ID = ''audit'', node_Type = ''audit_log'',
           node_Config = [(''message'', VStr message), (''from_step'', VStr ''llm'')]\<rparr>],
      def_Edges =
        [\<lparr>edge_From = ''retrieve'', edge_To = ''llm'', edge_Condition = []\<rparr>,
         \<lparr>edge_From = ''llm'', edge_To = ''audit'', edge_Condition = []\<rparr>]\<rparr>"

definition sync_definition :: "string list \<Rightarrow> wf_definition" where
  "sync_definition = bench_definition ''sync-bench'' ''SYNC BENCH'' ''sync-complete''"

definition async_definition :: "string list \<Rightarrow> wf_definition" where
  "async_definition = bench_definition ''async-bench'' ''ASYNC BENCH'' ''async-complete''"

fun createBenchmarkWorkflows ::
    "'s bench_env \<Rightarrow> string \<Rightarrow> bench_tenant list \<Rightarrow> 's \<Rightarrow> bench_tenant list result \<times> 's" where
  "createBenchmarkWorkflows E baseURL [] s = (Inr [], s)"
| "createBenchmarkWorkflows E baseURL (t # tenants) s =
     (let documentIDs = (if workflowDocumentLimit < length (bt_DocumentIDs t)
                         then take workflowDocumentLimit (bt_DocumentIDs t) else bt_DocumentIDs t) in
      case createWorkflow E baseURL t (sync_definition documentIDs) s of
        (Inl e, s1) \<Rightarrow> (Inl e, s1)
      | (Inr syncWorkflowID, s1) \<Rightarrow>
          (case createWorkflow E baseURL t (async_definition documentIDs) s1 of
             (Inl e, s2) \<Rightarrow> (Inl e, s2)
           | (Inr asyncWorkflowID, s2) \<Rightarrow>
               (case createBenchmarkWorkflows E baseURL tenants s2 of
                  (Inl e, s3) \<Rightarrow> (Inl e, s3)
                | (Inr tenants', s3) \<Rightarrow>
                    (Inr (t\<lparr>bt_SyncWorkflowID := syncWorkflowID, bt_AsyncWorkflowID := asyncWorkflowID\<rparr> # tenants'), s3))))"

section \<open>Synchronous runs\<close>

definition zero_sample :: run_sample where
  "zero_sample = \<lparr>rs_Duration = 0, rs_Completed = False, rs_DeadLetter = False, rs_Retried = False\<rparr>"

definition execute_payload :: "gofmt \<Rightarrow> string \<Rightarrow> nat \<Rightarrow> bench_tenant \<Rightarrow> string" where
  "execute_payload F mode index tenantCfg = json_marshal F (VMap
     [(''mode'', VStr mode),
      (''input'', VMap [(''query'', VStr (mode @ '' query '' @ nat_str index @ '' tenant '' @ bt_ID tenantCfg))])])"

definition execute_url :: "string \<Rightarrow> string \<Rightarrow> string" where
  "execute_url baseURL workflowID = baseURL @ ''/v1/workflows/'' @ workflowID @ ''/execute''"

definition sync_one ::
    "'s bench_env \<Rightarrow> string \<Rightarrow> bench_tenant list \<Rightarrow> nat \<Rightarrow> 's \<times> run_sample list \<Rightarrow>
     goerr option \<times> 's \<times> run_sample list" where
  "sync_one E baseURL tenants index st =
     (case st of (s, samples) \<Rightarrow>
      let tenantCfg = tenants ! (index mod length tenants) in
      case be_now E s of (requestStarted, s1) \<Rightarrow>
      case doJSONRequest E ''POST'' (execute_url baseURL (bt_SyncWorkflowID tenantCfg)) (bt_APIKey tenantCfg)
             (Some (execute_payload (be_fmt E) ''sync'' index tenantCfg)) s1 of
        (Inl e, s2) \<Rightarrow> (Some e, s2, samples)
      | (Inr (statusCode, body), s2) \<Rightarrow>
          if statusCode \<noteq> 200 then
            (Some (Anonymous (''sync execution status: '' @ int_str statusCode)), s2, samples)
          else case be_run E body of
            Inl e \<Rightarrow> (Some (wrap ''decode sync run'' e), s2, samples)
          | Inr envelope \<Rightarrow>
              (case be_now E s2 of (now, s3) \<Rightarrow>
                 (None, s3, samples[index := zero_sample\<lparr>rs_Duration := time_sub now requestStarted,
                                                         rs_Completed := (rv_Status envelope = ''completed'')\<rparr>])))"

definition runSyncBenchmark ::
    "'s bench_env \<Rightarrow> string \<Rightarrow> bench_tenant list \<Rightarrow> bench_options \<Rightarrow> nat list \<Rightarrow> 's \<Rightarrow>
     ((execution_summary \<times> run_sample list \<times> duration) result \<times> 's) option" where
  "runSyncBenchmark E baseURL tenants opts schedule s =
     (case be_now E s of (start, s1) \<Rightarrow>
      case forEachConcurrent (bo_syncRuns opts) (bo_concurrency opts) (sync_one E baseURL tenants) schedule
             (s1, replicate (nat (bo_syncRuns opts)) zero_sample) of
        None \<Rightarrow> None
      | Some (Some e, s2, samples) \<Rightarrow> Some (Inl e, s2)
      | Some (None, s2, samples) \<Rightarrow>
          (case be_now E s2 of (finish, s3) \<Rightarrow>
           let duration = time_sub finish start in
           Some (Inr (SummarizeExecution samples duration, samples, duration), s3)))"

section \<open>Asynchronous runs\<close>

record run_state =
  rt_Tenant :: bench_tenant
  rt_RunID :: string
  rt_StartedAt :: time

definition zero_run_state :: run_state where
  "zero_run_state = \<lparr>rt_Tenant = \<lparr>bt_ID = [], bt_Name = [], bt_APIKey = [], bt_DocumentIDs = [],
     bt_SyncWorkflowID = [], bt_AsyncWorkflowID = []\<rparr>, rt_RunID = [], rt_StartedAt = zero_time\<rparr>"

definition async_one ::
    "'s bench_env \<Rightarrow> string \<Rightarrow> bench_tenant list \<Rightarrow> nat \<Rightarrow> 's \<times> run_state list \<Rightarrow>
     goerr option \<times> 's \<times> run_state list" where
  "async_one E baseURL tenants index st =
     (case st of (s, states) \<Rightarrow>
      let tenantCfg = tenants ! (index mod length tenants) in
      case be_now E s of (startedAt, s1) \<Rightarrow>
      case doJSONRequest E ''POST'' (execute_url baseURL (bt_AsyncWorkflowID tenantCfg)) (bt_APIKey tenantCfg)
             (Some (execute_payload (be_fmt E) ''async'' index tenantCfg)) s1 of
        (Inl e, s2) \<Rightarrow> (Some e, s2, states)
      | (Inr (statusCode, body), s2) \<Rightarrow>
          if statusCode \<noteq> 202 then
            (Some (Anonymous (''async execution status: '' @ int_str statusCode)), s2, states)
          else case be_run E body of
            Inl e \<Rightarrow> (Some (wrap ''decode async run'' e), s2, states)
          | Inr envelope \<Rightarrow>
              (None, s2, states[index := \<lparr>rt_Tenant = tenantCfg, rt_RunID = rv_ID envelope, rt_StartedAt = startedAt\<rparr>]))"

type_synonym outstanding = "(string \<times> nat) list"

definition outstanding_runs :: "run_state list \<Rightarrow> outstanding" where
  "outstanding_runs states = fold (\<lambda>(index, st) m. AList.update (rt_RunID st) index m) (enumerate 0 states) []"

text \<open>One visit of the map of outstanding runs, key by key; the run that is visited is deleted when it is done.\<close>

fun poll_round ::
    "'s bench_env \<Rightarrow> string \<Rightarrow> run_state list \<Rightarrow> string list \<Rightarrow> run_sample list \<times> outstanding \<Rightarrow> 's \<Rightarrow>
     (run_sample list \<times> outstanding) result \<times> 's" where
  "poll_round E baseURL states [] (samples, outs) s = (Inr (samples, outs), s)"
| "poll_round E baseURL states (runID # keys) (samples, outs) s =
     (case map_of outs runID of
        None \<Rightarrow> poll_round E baseURL states keys (samples, outs) s
      | Some index \<Rightarrow>
          (case fetchRun E baseURL (bt_APIKey (rt_Tenant (states ! index))) runID s of
             (Inl e, s1) \<Rightarrow> (Inl e, s1)
           | (Inr envelope, s1) \<Rightarrow>
               if rv_Status envelope \<noteq> ''completed'' \<and> rv_Status envelope \<noteq> ''dead_letter'' then
                 poll_round E baseURL states keys (samples, outs) s1
               else case be_now E s1 of (now, s2) \<Rightarrow>
                 poll_round E baseURL states keys
                   (samples[index := \<lparr>rs_Duration = time_sub now (rt_StartedAt (states ! index)),
                                      rs_Completed = (rv_Status envelope = ''completed''),
                                      rs_DeadLetter = (rv_Status envelope = ''dead_letter''),
                                      rs_Retried = (1 < rv_Attempt envelope)\<rparr>],
                    AList.delete runID outs) s2))"

partial_function (option) poll_loop ::
    "'s bench_env \<Rightarrow> string \<Rightarrow> run_state list \<Rightarrow> run_sample list \<Rightarrow> outstanding \<Rightarrow> 's \<Rightarrow>
     (run_sample list result \<times> 's) option" where
  "poll_loop E baseURL states samples outs s =
     (if outs = [] then Some (Inr samples, s)
      else case be_wait E s of
        (Some e, s1) \<Rightarrow> Some (Inl e, s1)
      | (None, s1) \<Rightarrow>
          (case poll_round E baseURL states (be_order E (map fst outs) s1) (samples, outs) s1 of
             (Inl e, s2) \<Rightarrow> Some (Inl e, s2)
           | (Inr (samples', outs'), s2) \<Rightarrow> poll_loop E baseURL states samples' outs' s2))"

declare poll_loop.simps [code]

definition runAsyncBenchmark ::
    "'s bench_env \<Rightarrow> string \<Rightarrow> bench_tenant list \<Rightarrow> bench_options \<Rightarrow> nat list \<Rightarrow> 's \<Rightarrow>
     ((execution_summary \<times> run_sample list \<times> duration) result \<times> 's) option" where
  "runAsyncBenchmark E baseURL tenants opts schedule s =
     (case be_now E s of (start, s1) \<Rightarrow>
      case forEachConcurrent (bo_asyncRuns opts) (bo_concurrency opts) (async_one E baseURL tenants) schedule
             (s1, replicate (nat (bo_asyncRuns opts)) zero_run_state) of
        None \<Rightarrow> None
      | Some (Some e, s2, states) \<Rightarrow> Some (Inl e, s2)
      | Some (None, s2, states) \<Rightarrow>
          (case poll_loop E baseURL states (replicate (length states) zero_sample) (outstanding_runs states) s2 of
             None \<Rightarrow> None
           | Some (Inl e, s3) \<Rightarrow> Some (Inl e, s3)
           | Some (Inr samples, s3) \<Rightarrow>
               (case be_now E s3 of (finish, s4) \<Rightarrow>
                let duration = time_sub finish start in
                Some (Inr (SummarizeExecution samples duration, samples, duration), s4))))"

section \<open>A benchmark\<close>

definition bench_dataset :: "bench_options \<Rightarrow> dataset" where
  "bench_dataset opts =
     \<lparr>ds_Tenants = bo_tenants opts, ds_Documents = bo_tenants opts * bo_documentsPerTenant opts,
      ds_DocumentsPerTenant = bo_documentsPerTenant opts, ds_DocumentWords = bo_documentWords opts,
      ds_SyncRuns = bo_syncRuns opts, ds_AsyncRuns = bo_asyncRuns opts, ds_Concurrency = bo_concurrency opts,
      ds_RetryPercent = bo_retryPercent opts, ds_DeadLetterPercent = bo_deadLetterPercent opts\<rparr>"

record schedules =
  sc_uploads :: "nat list"
  sc_sync :: "nat list"
  sc_async :: "nat list"

definition bench_phases ::
    "'s bench_env \<Rightarrow> bench_options \<Rightarrow> schedules \<Rightarrow> 's \<Rightarrow> (bench_result result \<times> 's) option" where
  "bench_phases E opts schedule s =
     (let baseURL = ''http://workflow.local''; tenants = generateTenants (nat (bo_tenants opts)) in
      case uploadDocuments E baseURL tenants opts (sc_uploads schedule) s of
        None \<Rightarrow> None
      | Some (Inl e, s1) \<Rightarrow> Some (Inl e, s1)
      | Some (Inr (ingestion, tenants1), s1) \<Rightarrow>
      case createBenchmarkWorkflows E baseURL tenants1 s1 of
        (Inl e, s2) \<Rightarrow> Some (Inl e, s2)
      | (Inr tenants2, s2) \<Rightarrow>
      case runSyncBenchmark E baseURL tenants2 opts (sc_sync schedule) s2 of
        None \<Rightarrow> None
      | Some (Inl e, s3) \<Rightarrow> Some (Inl e, s3)
      | Some (Inr (syncSummary, syncSamples, syncWall), s3) \<Rightarrow>
      case runAsyncBenchmark E baseURL tenants2 opts (sc_async schedule) s3 of
        None \<Rightarrow> None
      | Some (Inl e, s4) \<Rightarrow> Some (Inl e, s4)
      | Some (Inr (asyncSummary, asyncSamples, asyncWall), s4) \<Rightarrow>
      case be_worker_err E s4 of
        Some e \<Rightarrow> Some (Inl (wrap ''worker failed during benchmark'' e), s4)
      | None \<Rightarrow>
      case be_now E s4 of (now, s5) \<Rightarrow>
        Some (Inr \<lparr>br_GeneratedAt = now, br_Dataset = bench_dataset opts, br_Ingestion = ingestion,
                   br_Sync = syncSummary, br_Async = asyncSummary,
                   br_Overall = BuildOverall (syncSamples @ asyncSamples) (syncWall + asyncWall)\<rparr>, s5))"

text \<open>The directory is removed and the worker stopped whatever the phases return.\<close>

definition runBenchmark ::
    "'s bench_env \<Rightarrow> bench_options \<Rightarrow> schedules \<Rightarrow> 's \<Rightarrow> (bench_result result \<times> 's) option" where
  "runBenchmark E opts schedule s =
     (case be_MkdirTemp E s of
        (Some e, s1) \<Rightarrow> Some (Inl (wrap ''create temp dir'' e), s1)
      | (None, s1) \<Rightarrow>
          (case bench_phases E opts schedule s1 of
             None \<Rightarrow> None
           | Some (r, s2) \<Rightarrow> Some (r, be_RemoveAll E (be_cancelWorker E s2))))"

text \<open>What a process leaves: its exit status, and the two output streams.\<close>

record process_exit =
  pe_status :: int
  pe_stdout :: string
  pe_stderr :: string

definition bench_main ::
    "'s bench_env \<Rightarrow> report_fmt \<Rightarrow> bench_options \<Rightarrow> schedules \<Rightarrow> 's \<Rightarrow> (process_exit \<times> 's) option" where
  "bench_main E F opts schedule s =
     (case validateOptions opts of
        Some e \<Rightarrow> Some (\<lparr>pe_status = 2, pe_stdout = [], pe_stderr = error_text e @ [CHR 0x0A]\<rparr>, s)
      | None \<Rightarrow>
          (case runBenchmark E opts schedule s of
             None \<Rightarrow> None
           | Some (Inl e, s1) \<Rightarrow> Some (\<lparr>pe_status = 1, pe_stdout = [], pe_stderr = error_text e @ [CHR 0x0A]\<rparr>, s1)
           | Some (Inr r, s1) \<Rightarrow>
               let markdown = RenderMarkdown F r in
               if trim_space (bo_outputPath opts) = [] then
                 Some (\<lparr>pe_status = 0, pe_stdout = markdown, pe_stderr = []\<rparr>, s1)
               else case be_WriteFile E (bo_outputPath opts) markdown s1 of
                 (Some e, s2) \<Rightarrow>
                   Some (\<lparr>pe_status = 1, pe_stdout = markdown,
                          pe_stderr = ''write benchmark output: '' @ error_text e @ [CHR 0x0A]\<rparr>, s2)
               | (None, s2) \<Rightarrow> Some (\<lparr>pe_status = 0, pe_stdout = markdown, pe_stderr = []\<rparr>, s2)))"

section \<open>The state that the run starts from\<close>

definition bench_triggerLimit :: "bench_options \<Rightarrow> int" where
  "bench_triggerLimit opts = bo_syncRuns opts + bo_asyncRuns opts + 100"

definition bench_world :: "bench_options \<Rightarrow> world" where
  "bench_world opts =
     (start_world (bench_triggerLimit opts) (seconds 3600))
       \<lparr>w_queue := NewMemoryQueue (max 128 (bo_asyncRuns opts * 2))\<rparr>"

section \<open>The workflows of the benchmark\<close>

text \<open>The server accepts both workflows of the benchmark, whatever documents they name: validation finds no
  error in them.\<close>
theorem bench_workflows_valid:
  "ValidateDefinition N F (sync_definition documentIDs) = \<lparr>vr_Valid = True, vr_Errors = []\<rparr> \<and>
   ValidateDefinition N F (async_definition documentIDs) = \<lparr>vr_Valid = True, vr_Errors = []\<rparr>"
proof -
  have trims: "trim_space ''sync-bench'' \<noteq> []" "trim_space ''async-bench'' \<noteq> []"
    "trim_space ''retrieve'' = ''retrieve''" "trim_space ''llm'' = ''llm''" "trim_space ''audit'' = ''audit''"
    "trim_space ''retrieve_documents'' = ''retrieve_documents''" "trim_space ''audit_log'' = ''audit_log''"
    by code_simp+
  have "vr_Errors (ValidateDefinition N F (bench_definition name prompt message documentIDs)) = []"
    if "trim_space name \<noteq> []" for name prompt message
    using that
    by (simp add: ValidateDefinition_def bench_definition_def validateNodeConfig_def supportedNodeType_def
        validate_degrees_def validate_conditions_def Let_def trims)
  moreover have "vr_Valid (ValidateDefinition N F d) = (vr_Errors (ValidateDefinition N F d) = [])" for d
    by (simp add: ValidateDefinition_def Let_def split: prod.split)
  ultimately show ?thesis
    using trims(1,2) unfolding sync_definition_def async_definition_def
    by (intro conjI validation_result.equality) auto
qed

section \<open>The uploads\<close>

lemma upload_calls:
  assumes "list_all (\<lambda>a. a = None) (fst (calls (upload_one E b tenants opts) order (s, results)))"
  shows "\<exists>s' new. snd (calls (upload_one E b tenants opts) order (s, results)) = (s', results @ new) \<and>
    map ur_TenantIndex new = map (\<lambda>i. i mod length tenants) order \<and>
    map ur_Bytes new = map (\<lambda>i. int (length (generateDocumentPayload (i mod length tenants) (i div length tenants)
      (bo_documentWords opts)))) order"
  using assms
proof (induction order arbitrary: s results)
  case (Cons i order)
  let ?t = "tenants ! (i mod length tenants)"
  let ?payload = "generateDocumentPayload (i mod length tenants) (i div length tenants) (bo_documentWords opts)"
  obtain x s1 where up: "uploadDocument E b ?t (i div length tenants) ?payload s = (x, s1)" by fastforce
  then obtain k n where x: "x = Inr (k, n)"
    using Cons.prems by (cases x) (auto simp: upload_one_def Let_def split: prod.splits)
  have n: "n = int (length ?payload)"
    using up x by (auto simp: uploadDocument_def split: prod.splits option.splits sum.splits if_splits)
  let ?new = "\<lparr>ur_TenantIndex = i mod length tenants, ur_DocumentID = k, ur_Bytes = n\<rparr>"
  have one: "upload_one E b tenants opts i (s, results) = (None, s1, results @ [?new])"
    using up x by (simp add: upload_one_def Let_def)
  then have "list_all (\<lambda>a. a = None) (fst (calls (upload_one E b tenants opts) order (s1, results @ [?new])))"
    using Cons.prems by (auto split: prod.splits)
  from Cons.IH [OF this] show ?case using one n by (force split: prod.splits)
qed simp

lemma collect_uploads_spec:
  assumes "list_all (\<lambda>r. ur_TenantIndex r < length tenants) results"
  shows "collect_uploads results tenants n = (tenants', m) \<Longrightarrow>
    length tenants' = length tenants \<and> m = n + sum_list (map ur_Bytes results) \<and>
    (\<forall>i < length tenants. tenants' ! i = (tenants ! i)\<lparr>bt_DocumentIDs := bt_DocumentIDs (tenants ! i) @
      map ur_DocumentID (filter (\<lambda>r. ur_TenantIndex r = i) results)\<rparr>)"
  using assms
proof (induction results arbitrary: tenants n)
  case (Cons r results)
  let ?t = "tenants ! ur_TenantIndex r"
  let ?ts = "tenants[ur_TenantIndex r := ?t\<lparr>bt_DocumentIDs := bt_DocumentIDs ?t @ [ur_DocumentID r]\<rparr>]"
  have "collect_uploads results ?ts (n + ur_Bytes r) = (tenants', m)" using Cons.prems(1) by (simp add: Let_def)
  from Cons.IH [OF this] Cons.prems(2) show ?case by (auto simp: nth_list_update)
qed auto

text \<open>Every tenant's share of the indices.\<close>

lemma residue_count:
  assumes "(i :: nat) < n"
  shows "card {k \<in> {..<n * d}. k mod n = i} = d"
proof -
  have "{k \<in> {..<n * d}. k mod n = i} = (\<lambda>j. j * n + i) ` {..<d}"
  proof
    show "{k \<in> {..<n * d}. k mod n = i} \<subseteq> (\<lambda>j. j * n + i) ` {..<d}"
    proof
      fix k assume k: "k \<in> {k \<in> {..<n * d}. k mod n = i}"
      then have "k div n < d" using assms by (simp add: div_less_iff_less_mult mult.commute)
      moreover have "k = k div n * n + i" using k by (metis (mono_tags) div_mult_mod_eq mem_Collect_eq)
      ultimately show "k \<in> (\<lambda>j. j * n + i) ` {..<d}" by blast
    qed
    show "(\<lambda>j. j * n + i) ` {..<d} \<subseteq> {k \<in> {..<n * d}. k mod n = i}"
    proof
      fix k assume "k \<in> (\<lambda>j. j * n + i) ` {..<d}"
      then obtain j where "j < d" "k = j * n + i" by blast
      moreover have "j * n + i < Suc j * n" using assms by simp
      moreover have "Suc j * n \<le> d * n" using \<open>j < d\<close> by (intro mult_le_mono1) simp
      ultimately show "k \<in> {k \<in> {..<n * d}. k mod n = i}" using assms by (simp add: mult.commute)
    qed
  qed
  moreover have "inj_on (\<lambda>j. j * n + i) {..<d}" using assms by (auto simp: inj_on_def)
  ultimately show ?thesis by (simp add: card_image)
qed

text \<open>An upload phase that succeeds gives every tenant as many new documents as was asked for, whatever the
  interleaving of the workers, and nothing else of the tenants changes; the bytes that are reported are those
  of all the documents.\<close>
theorem uploads_complete:
  assumes "uploadDocuments E b tenants opts schedule s = Some (Inr (ingestion, tenants'), s')"
    and "validateOptions opts = None" and "tenants \<noteq> []"
  shows "length tenants' = length tenants \<and>
    (\<forall>i < length tenants. \<exists>new. length new = nat (bo_documentsPerTenant opts) \<and>
       tenants' ! i = (tenants ! i)\<lparr>bt_DocumentIDs := bt_DocumentIDs (tenants ! i) @ new\<rparr>) \<and>
    in_Bytes ingestion =
      (\<Sum>k < length tenants * nat (bo_documentsPerTenant opts). int (length
         (generateDocumentPayload (k mod length tenants) (k div length tenants) (bo_documentWords opts))))"
proof -
  let ?n = "length tenants" and ?d = "nat (bo_documentsPerTenant opts)"
  let ?fn = "upload_one E b tenants opts"
  have opts: "0 < bo_documentsPerTenant opts" "0 < bo_concurrency opts"
    using assms(2) by (auto simp: validateOptions_def split: if_splits)
  then have all: "nat (int ?n * bo_documentsPerTenant opts) = ?n * ?d"
    by (simp add: nat_mult_distrib)
  obtain start s1 s2 results n where now: "be_now E s = (start, s1)"
    and each: "forEachConcurrent (int ?n * bo_documentsPerTenant opts) (bo_concurrency opts) ?fn schedule (s1, []) =
      Some (None, s2, results)"
    and collect: "collect_uploads results tenants 0 = (tenants', n)" and bytes: "in_Bytes ingestion = n"
    using assms(1) by (auto simp: uploadDocuments_def Let_def split: prod.splits option.splits)
  obtain order where order: "distinct order" "(s2, results) = snd (calls ?fn order (s1, []))"
      "set order = {..<?n * ?d}" "list_all (\<lambda>a. a = None) (fst (calls ?fn order (s1, [])))"
    using concurrent_calls [OF each opts(2)] by (auto simp: all)
  have results: "map ur_TenantIndex results = map (\<lambda>i. i mod ?n) order"
    "map ur_Bytes results = map (\<lambda>i. int (length (generateDocumentPayload (i mod ?n) (i div ?n) (bo_documentWords opts)))) order"
    using upload_calls [OF order(4)] order(2) by auto
  have "list_all (\<lambda>k. k < ?n) (map ur_TenantIndex results)"
    unfolding results(1) using assms(3) by (simp add: list_all_iff)
  then have valid: "list_all (\<lambda>r. ur_TenantIndex r < ?n) results" by (simp add: list.pred_map comp_def)
  note spec = collect_uploads_spec [OF valid collect]
  have share: "length (filter (\<lambda>r. ur_TenantIndex r = i) results) = ?d" if "i < ?n" for i
  proof -
    have "length (filter (\<lambda>r. ur_TenantIndex r = i) results) = length (filter (\<lambda>k. k = i) (map ur_TenantIndex results))"
      by (simp add: filter_map comp_def)
    also have "\<dots> = length (filter (\<lambda>k. k mod ?n = i) order)"
      unfolding results(1) by (simp add: filter_map comp_def)
    also have "\<dots> = card {k \<in> set order. k mod ?n = i}"
      using order(1) by (metis distinct_card distinct_filter set_filter)
    also have "\<dots> = ?d" unfolding order(3) by (rule residue_count [OF that])
    finally show ?thesis .
  qed
  have "n = sum_list (map (\<lambda>i. int (length (generateDocumentPayload (i mod ?n) (i div ?n) (bo_documentWords opts)))) order)"
    using spec results(2) by simp
  also have "\<dots> = (\<Sum>k < ?n * ?d. int (length (generateDocumentPayload (k mod ?n) (k div ?n) (bo_documentWords opts))))"
    using order(1,3) by (simp add: sum_list_distinct_conv_sum_set)
  finally have sum: "in_Bytes ingestion =
      (\<Sum>k < ?n * ?d. int (length (generateDocumentPayload (k mod ?n) (k div ?n) (bo_documentWords opts))))"
    using bytes by simp
  have "\<exists>new. length new = ?d \<and> tenants' ! i = (tenants ! i)\<lparr>bt_DocumentIDs := bt_DocumentIDs (tenants ! i) @ new\<rparr>"
    if "i < ?n" for i
    using spec share [OF that] that
    by (intro exI [of _ "map ur_DocumentID (filter (\<lambda>r. ur_TenantIndex r = i) results)"]) simp
  then show ?thesis using sum spec by blast
qed

section \<open>The quota\<close>

lemma allow_all_below:
  assumes "0 \<le> m" and "m + int (length triggers) \<le> tc_limit c"
    and "\<And>t b. tc_quotas c t = Some b \<Longrightarrow> qb_count b \<le> m"
  shows "list_all (\<lambda>r. snd r = None) (allow_all c triggers)"
  using assms
proof (induction triggers arbitrary: c m)
  case (Cons call triggers)
  obtain u now where call: "call = (u, now)" by (cases call)
  have "qb_count (current_bucket c now u) \<le> m"
    using Cons.prems(1,3) by (auto simp: current_bucket_def Let_def zero_bucket_def split: option.split)
  moreover have "m < tc_limit c" using Cons.prems(2) by simp
  ultimately obtain q c' where allow: "Allow c now u = ((q, None), c')" "tc_limit c' = tc_limit c"
    and later: "\<And>t b. tc_quotas c' t = Some b \<Longrightarrow> qb_count b \<le> m + 1"
    using Cons.prems(3) Cons.prems(1) by (force simp: Allow_def Let_def split: if_splits)
  then show ?case
    using Cons.IH [of "m + 1" c'] Cons.prems(1,2) by (simp add: call)
qed simp

text \<open>The benchmark never runs into its own quota: whatever the tenants and times of its triggers, as many as
  there are synchronous and asynchronous runs are all granted.\<close>
theorem bench_quota_suffices:
  assumes "validateOptions opts = None" and "int (length triggers) \<le> bo_syncRuns opts + bo_asyncRuns opts"
  shows "list_all (\<lambda>r. snd r = None) (allow_all (w_trigger (bench_world opts)) triggers)"
  by (rule allow_all_below [of 0])
     (use assms in \<open>simp_all add: bench_world_def start_world_def NewTriggerControl_def bench_triggerLimit_def
        validateOptions_def split: if_splits\<close>)

section \<open>Polling\<close>

text \<open>What holds while the runs are polled: a run is outstanding, or its sample says how it ended.\<close>

definition poll_ok :: "run_state list \<Rightarrow> run_sample list \<Rightarrow> outstanding \<Rightarrow> bool" where
  "poll_ok states samples outs \<longleftrightarrow>
     length samples = length states \<and>
     (\<forall>(k, i) \<in> set outs. i < length states \<and> k = rt_RunID (states ! i)) \<and>
     (\<forall>i < length states. (rt_RunID (states ! i), i) \<in> set outs \<or>
        rs_Completed (samples ! i) \<noteq> rs_DeadLetter (samples ! i))"

lemma outstanding_runs_eq:
  assumes "distinct (map rt_RunID states)"
  shows "outstanding_runs states = map (\<lambda>i. (rt_RunID (states ! i), i)) [0 ..< length states]"
  using assms
proof (induction states rule: rev_induct)
  case (snoc st states)
  have fresh: "\<forall>i < length states. rt_RunID (states ! i) \<noteq> rt_RunID st"
    using snoc.prems by (metis (no_types, lifting) distinct_append distinct.simps(2) disjoint_iff image_eqI
        list.simps(9) list.set_map map_append nth_mem list.set_intros(1))
  have upd: "AList.update k v xs = xs @ [(k, v)]" if "\<forall>x \<in> set xs. fst x \<noteq> k" for k v and xs :: outstanding
    using that by (induction xs) auto
  have "outstanding_runs (states @ [st]) =
      AList.update (rt_RunID st) (length states) (outstanding_runs states)"
    by (simp add: outstanding_runs_def enumerate_append_eq)
  also have "\<dots> = outstanding_runs states @ [(rt_RunID st, length states)]"
    using snoc fresh by (intro upd) auto
  finally show ?case using snoc by (simp add: nth_append)
qed (simp add: outstanding_runs_def)

lemma poll_start_ok:
  assumes "distinct (map rt_RunID states)"
  shows "poll_ok states (replicate (length states) zero_sample) (outstanding_runs states)"
  unfolding poll_ok_def outstanding_runs_eq [OF assms] by auto

lemma poll_round_ok:
  assumes "poll_round E b states keys (samples, outs) s = (Inr (samples', outs'), s')"
    and "poll_ok states samples outs" and "distinct (map rt_RunID states)"
  shows "poll_ok states samples' outs'"
  using assms
proof (induction keys arbitrary: samples outs s)
  case (Cons k keys)
  show ?case
  proof (cases "map_of outs k")
    case None
    then show ?thesis using Cons by simp
  next
    case (Some i)
    then have i: "i < length states" "k = rt_RunID (states ! i)"
      using Cons.prems(2) map_of_SomeD [OF Some] by (auto simp: poll_ok_def)
    obtain v s1 where fetch: "fetchRun E b (bt_APIKey (rt_Tenant (states ! i))) k s = (Inr v, s1)"
      using Cons.prems(1) Some by (auto split: prod.splits sum.splits)
    show ?thesis
    proof (cases "rv_Status v \<noteq> ''completed'' \<and> rv_Status v \<noteq> ''dead_letter''")
      case True
      then have "poll_round E b states keys (samples, outs) s1 = (Inr (samples', outs'), s')"
        using Cons.prems(1) Some fetch by simp
      then show ?thesis using Cons.IH Cons.prems(2,3) by blast
    next
      case False
      obtain now s2 where now: "be_now E s1 = (now, s2)" by fastforce
      let ?x = "\<lparr>rs_Duration = time_sub now (rt_StartedAt (states ! i)),
        rs_Completed = (rv_Status v = ''completed''), rs_DeadLetter = (rv_Status v = ''dead_letter''),
        rs_Retried = (1 < rv_Attempt v)\<rparr>"
      have rest: "poll_round E b states keys (samples[i := ?x], AList.delete k outs) s2 = (Inr (samples', outs'), s')"
        using Cons.prems(1) Some fetch now False by (auto simp: if_splits)
      have "j = i" if "j < length states" "rt_RunID (states ! j) = k" for j
        using that i Cons.prems(3) by (metis length_map nth_eq_iff_index_eq nth_map)
      then have "poll_ok states (samples[i := ?x]) (AList.delete k outs)"
        using Cons.prems(2) i False unfolding poll_ok_def
        by (auto simp: AList.delete_eq nth_list_update)
      then show ?thesis using Cons.IH [OF rest] Cons.prems(3) by blast
    qed
  qed
qed auto

lemma poll_loop_ok:
  assumes "poll_loop E b states samples outs s = Some r"
  shows "poll_ok states samples outs \<and> distinct (map rt_RunID states) \<and> fst r = Inr samples' \<longrightarrow>
    poll_ok states samples' []"
proof (rule poll_loop.raw_induct
    [where P = "\<lambda>E b states samples outs s r. poll_ok states samples outs \<and> distinct (map rt_RunID states) \<and>
       fst r = Inr samples' \<longrightarrow> poll_ok states samples' []", OF _ assms], goal_cases)
  case (1 loop E b states samples outs s r)
  show ?case
  proof (rule impI, elim conjE)
    assume start: "poll_ok states samples outs" "distinct (map rt_RunID states)" "fst r = Inr samples'"
    show "poll_ok states samples' []"
    proof (cases "outs = []")
      case True
      then show ?thesis using 1(2) start by auto
    next
      case False
      obtain s1 where wait: "be_wait E s = (None, s1)"
        using 1(2) start(3) False by (auto split: prod.splits option.splits)
      then obtain samples1 outs1 s2 where visit:
          "poll_round E b states (be_order E (map fst outs) s1) (samples, outs) s1 = (Inr (samples1, outs1), s2)"
          "loop E b states samples1 outs1 s2 = Some r"
        using 1(2) start(3) False by (auto split: prod.splits sum.splits)
      show ?thesis using 1(1) [OF visit(2)] poll_round_ok [OF visit(1) start(1,2)] start(2,3) by blast
    qed
  qed
qed

lemma filter_partition: "list_all (\<lambda>x. P x \<noteq> Q x) xs \<Longrightarrow> length (filter P xs) + length (filter Q xs) = length xs"
  by (induction xs) auto

text \<open>The asynchronous runs are all accounted for: when the polling ends without an error, every run is counted
  as completed or as a dead letter and none as both, provided that no two runs have the same id.\<close>
theorem poll_accounts:
  assumes "distinct (map rt_RunID states)"
    and "poll_loop E b states (replicate (length states) zero_sample) (outstanding_runs states) s = Some (Inr samples, s')"
  shows "es_Runs (SummarizeExecution samples d) = int (length states) \<and>
    es_Completed (SummarizeExecution samples d) + es_DeadLetters (SummarizeExecution samples d) = int (length states) \<and>
    list_all (\<lambda>x. rs_Completed x \<noteq> rs_DeadLetter x) samples"
proof -
  have "poll_ok states samples []"
    using poll_loop_ok [OF assms(2)] poll_start_ok [OF assms(1)] assms(1) by simp
  then have "length samples = length states" "list_all (\<lambda>x. rs_Completed x \<noteq> rs_DeadLetter x) samples"
    by (simp_all add: poll_ok_def list_all_length)
  then show ?thesis
    using filter_partition [of rs_Completed rs_DeadLetter samples]
    by (simp add: SummarizeExecution_def tally_counts flip: of_nat_add)
qed

text \<open>One visit of the map, when the server answers and its remaining work is measured by \<open>remaining\<close>.\<close>

definition answering :: "'s bench_env \<Rightarrow> string \<Rightarrow> ('s \<Rightarrow> nat) \<Rightarrow> run_state list \<Rightarrow> bool" where
  "answering E b remaining states \<longleftrightarrow>
     (\<forall>s. remaining (snd (be_now E s)) \<le> remaining s) \<and>
     (\<forall>s. \<forall>st \<in> set states. \<exists>v s'. fetchRun E b (bt_APIKey (rt_Tenant st)) (rt_RunID st) s = (Inr v, s') \<and>
        remaining s' \<le> remaining s \<and>
        (remaining s = 0 \<longrightarrow> rv_Status v = ''completed'' \<or> rv_Status v = ''dead_letter''))"

lemma poll_round_answered:
  assumes "answering E b remaining states" and "poll_ok states samples outs" and "distinct (map rt_RunID states)"
  shows "\<exists>samples' outs' s'. poll_round E b states keys (samples, outs) s = (Inr (samples', outs'), s') \<and>
    remaining s' \<le> remaining s \<and> set outs' \<subseteq> set outs \<and>
    (remaining s = 0 \<longrightarrow> (\<forall>k \<in> set keys. map_of outs' k = None))"
  using assms(2)
proof (induction keys arbitrary: samples outs s)
  case (Cons k keys)
  show ?case
  proof (cases "map_of outs k")
    case None
    obtain samples' outs' s' where rest: "poll_round E b states keys (samples, outs) s = (Inr (samples', outs'), s')"
        "remaining s' \<le> remaining s" "set outs' \<subseteq> set outs" "remaining s = 0 \<longrightarrow> (\<forall>k \<in> set keys. map_of outs' k = None)"
      using Cons.IH [OF Cons.prems] by blast
    moreover have "map_of outs' k = None" using None rest(3) by (auto simp: map_of_eq_None_iff)
    ultimately show ?thesis using None by auto
  next
    case (Some i)
    then have i: "i < length states" "k = rt_RunID (states ! i)"
      using Cons.prems map_of_SomeD [OF Some] by (auto simp: poll_ok_def)
    obtain v s1 where fetch: "fetchRun E b (bt_APIKey (rt_Tenant (states ! i))) k s = (Inr v, s1)"
        "remaining s1 \<le> remaining s" "remaining s = 0 \<longrightarrow> rv_Status v = ''completed'' \<or> rv_Status v = ''dead_letter''"
      using assms(1) i unfolding answering_def by (metis nth_mem)
    show ?thesis
    proof (cases "rv_Status v \<noteq> ''completed'' \<and> rv_Status v \<noteq> ''dead_letter''")
      case True
      obtain samples' outs' s' where "poll_round E b states keys (samples, outs) s1 = (Inr (samples', outs'), s')"
          "remaining s' \<le> remaining s1" "set outs' \<subseteq> set outs"
        using Cons.IH [OF Cons.prems] by blast
      then show ?thesis using True Some fetch by auto
    next
      case False
      obtain now s2 where now: "be_now E s1 = (now, s2)" by fastforce
      then have s2: "remaining s2 \<le> remaining s1" using assms(1) unfolding answering_def by (metis snd_conv)
      let ?x = "\<lparr>rs_Duration = time_sub now (rt_StartedAt (states ! i)),
        rs_Completed = (rv_Status v = ''completed''), rs_DeadLetter = (rv_Status v = ''dead_letter''),
        rs_Retried = (1 < rv_Attempt v)\<rparr>"
      have one: "poll_round E b states (k # ks) (samples, outs) s =
          poll_round E b states ks (samples[i := ?x], AList.delete k outs) s2" for ks
        using Some fetch(1) now False by auto
      have "poll_ok states (samples[i := ?x]) (AList.delete k outs)"
        using poll_round_ok [OF _ Cons.prems assms(3), of E b "[k]" s] unfolding one by fastforce
      from Cons.IH [OF this] obtain samples' outs' s' where
          rest: "poll_round E b states keys (samples[i := ?x], AList.delete k outs) s2 = (Inr (samples', outs'), s')"
          "remaining s' \<le> remaining s2" "set outs' \<subseteq> set (AList.delete k outs)"
          "remaining s2 = 0 \<longrightarrow> (\<forall>k \<in> set keys. map_of outs' k = None)"
        by blast
      moreover have "map_of outs' k = None" using rest(3) by (auto simp: map_of_eq_None_iff AList.delete_eq)
      ultimately show ?thesis
        using s2 fetch(2) unfolding one by (auto simp: AList.delete_eq)
    qed
  qed
qed auto

lemma poll_loop_answered:
  assumes "answering E b remaining states" and "distinct (map rt_RunID states)"
    and wait: "\<And>s. fst (be_wait E s) = None \<and> remaining (snd (be_wait E s)) \<le> remaining s - 1"
    and order: "\<And>keys s. set keys \<subseteq> set (be_order E keys s)"
  shows "poll_ok states samples outs \<Longrightarrow> \<exists>samples' s'. poll_loop E b states samples outs s = Some (Inr samples', s')"
proof (induction "remaining s" arbitrary: s samples outs rule: less_induct)
  case less
  show ?case
  proof (cases "outs = []")
    case True
    then show ?thesis by (simp add: poll_loop.simps)
  next
    case False
    obtain s1 where s1: "be_wait E s = (None, s1)" "remaining s1 \<le> remaining s - 1"
      using wait [of s] by (cases "be_wait E s") auto
    let ?keys = "be_order E (map fst outs) s1"
    obtain samples1 outs1 s2 where visit: "poll_round E b states ?keys (samples, outs) s1 = (Inr (samples1, outs1), s2)"
        "remaining s2 \<le> remaining s1" "set outs1 \<subseteq> set outs"
        "remaining s1 = 0 \<longrightarrow> (\<forall>k \<in> set ?keys. map_of outs1 k = None)"
      using poll_round_answered [OF assms(1) less.prems assms(2)] by metis
    have once: "poll_loop E b states samples outs s = poll_loop E b states samples1 outs1 s2"
      using False s1(1) visit(1) by (subst poll_loop.simps) simp
    have ok: "poll_ok states samples1 outs1" by (rule poll_round_ok [OF visit(1) less.prems assms(2)])
    show ?thesis
    proof (cases "remaining s1 = 0")
      case True
      have "outs1 = []"
      proof (rule ccontr)
        assume "outs1 \<noteq> []"
        then obtain k v xs where "outs1 = (k, v) # xs" by (metis list.exhaust surj_pair)
        moreover from this have "k \<in> set (map fst outs)" using visit(3) by force
        then have "k \<in> set ?keys" using order by blast
        ultimately show False using visit(4) True by force
      qed
      then show ?thesis unfolding once by (simp add: poll_loop.simps)
    next
      case False
      then have "remaining s2 < remaining s" using s1(2) visit(2) by simp
      then show ?thesis unfolding once using less.hyps ok by blast
    qed
  qed
qed

text \<open>The polling ends when the runs do: if the server answers every request for one of the runs, the context
  is not ended, a visit reaches every outstanding run, and the work that remains before all runs are completed or
  dead letters shrinks with every tick and never grows, then the loop returns the samples.\<close>
theorem polling_ends:
  assumes "distinct (map rt_RunID states)" and "answering E b remaining states"
    and "\<And>s. fst (be_wait E s) = None \<and> remaining (snd (be_wait E s)) \<le> remaining s - 1"
    and "\<And>keys s. set keys \<subseteq> set (be_order E keys s)"
  shows "\<exists>samples s'. poll_loop E b states (replicate (length states) zero_sample) (outstanding_runs states) s =
    Some (Inr samples, s')"
  by (rule poll_loop_answered [OF assms(2,1,3,4) poll_start_ok [OF assms(1)]])

section \<open>Examples\<close>

text \<open>A server that takes everything, and whose runs are pending for as many ticks as its state says.\<close>

definition demo_bench :: "nat bench_env" where
  "demo_bench =
     \<lparr>be_Do = (\<lambda>rq s. (Inr \<lparr>rs_StatusCode = (if rq_Method rq = ''POST'' then 201 else 200), rs_ContentType = [],
        rs_Body = (if s = 0 then ''completed'' else ''pending'', None)\<rparr>, s)),
      be_NewRequest = (\<lambda>m u. None), be_form = (\<lambda>f n c s. ((c, ''form''), s)),
      be_document_id = (\<lambda>body. Inr ''d''), be_workflow_id = (\<lambda>body. Inr ''w''),
      be_run = (\<lambda>(body, e). Inr \<lparr>rv_ID = ''r'', rv_Status = body, rv_Attempt = 1\<rparr>),
      be_fmt = \<lparr>fmt_float_json = (\<lambda>_. []), fmt_time_json = (\<lambda>_. []), fmt_Sprint = (\<lambda>_. [])\<rparr>,
      be_now = (\<lambda>s. (5, s)), be_wait = (\<lambda>s. (None, s - 1)), be_order = (\<lambda>keys s. keys),
      be_worker_err = (\<lambda>s. None), be_MkdirTemp = (\<lambda>s. (None, s)), be_cancelWorker = (\<lambda>s. s),
      be_RemoveAll = (\<lambda>s. s), be_WriteFile = (\<lambda>path text s. (None, s))\<rparr>"

definition demo_options :: bench_options where
  "demo_options = default_options\<lparr>bo_documentsPerTenant := 1, bo_documentWords := 3, bo_concurrency := 1\<rparr>"

definition demo_states :: "run_state list" where
  "demo_states = [zero_run_state\<lparr>rt_RunID := ''r1''\<rparr>, zero_run_state\<lparr>rt_RunID := ''r2''\<rparr>]"

theorem uploads_complete_witness:
  "\<exists>ingestion tenants' s'.
     uploadDocuments demo_bench ''u'' (generateTenants 2) demo_options (replicate 9 0) 0 = Some (Inr (ingestion, tenants'), s') \<and>
     length tenants' = 2 \<and> (\<exists>new. length new = 1 \<and> bt_DocumentIDs (tenants' ! 1) = new)"
proof -
  have "case uploadDocuments demo_bench ''u'' (generateTenants 2) demo_options (replicate 9 0) 0 of
      Some (Inr r, s) \<Rightarrow> True | _ \<Rightarrow> False"
    by code_simp
  then obtain ingestion tenants' s' where
      run: "uploadDocuments demo_bench ''u'' (generateTenants 2) demo_options (replicate 9 0) 0 = Some (Inr (ingestion, tenants'), s')"
    by (auto split: option.splits sum.splits prod.splits)
  have "validateOptions demo_options = None" by code_simp
  moreover have n: "length (generateTenants 2) = 2" by (simp add: generateTenants_def)
  moreover from n have "generateTenants 2 \<noteq> []" by auto
  ultimately have "length tenants' = 2 \<and> (\<exists>new. length new = nat (bo_documentsPerTenant demo_options) \<and>
      tenants' ! 1 = (generateTenants 2 ! 1)\<lparr>bt_DocumentIDs := bt_DocumentIDs (generateTenants 2 ! 1) @ new\<rparr>)"
    using uploads_complete [OF run] by simp
  moreover have "bt_DocumentIDs (generateTenants 2 ! 1) = []" by code_simp
  ultimately show ?thesis using run by (auto simp: demo_options_def)
qed

theorem bench_quota_suffices_witness:
  "list_all (\<lambda>r. snd r = None) (allow_all (w_trigger (bench_world default_options)) (replicate 2000 (''t'', 7)))"
proof (rule bench_quota_suffices)
  show "validateOptions default_options = None" by code_simp
  show "int (length (replicate 2000 (''t'', 7 :: time))) \<le> bo_syncRuns default_options + bo_asyncRuns default_options"
    by (simp add: default_options_def)
qed

lemma demo_distinct: "distinct (map rt_RunID demo_states)"
  by (simp add: demo_states_def)

theorem poll_accounts_witness:
  "\<exists>samples s'. poll_loop demo_bench ''u'' demo_states (replicate (length demo_states) zero_sample)
       (outstanding_runs demo_states) 2 = Some (Inr samples, s') \<and>
     es_Completed (SummarizeExecution samples 1) + es_DeadLetters (SummarizeExecution samples 1) = 2"
proof -
  have "case poll_loop demo_bench ''u'' demo_states (replicate (length demo_states) zero_sample)
       (outstanding_runs demo_states) 2 of Some (Inr r, s) \<Rightarrow> True | _ \<Rightarrow> False"
    by code_simp
  then obtain samples s' where
      run: "poll_loop demo_bench ''u'' demo_states (replicate (length demo_states) zero_sample)
        (outstanding_runs demo_states) 2 = Some (Inr samples, s')"
    by (auto split: option.splits sum.splits prod.splits)
  then show ?thesis using poll_accounts [OF demo_distinct run, of 1] by (simp add: demo_states_def)
qed

theorem polling_ends_witness:
  "\<exists>samples s'. poll_loop demo_bench ''u'' demo_states (replicate (length demo_states) zero_sample)
     (outstanding_runs demo_states) 7 = Some (Inr samples, s')"
proof (rule polling_ends [OF demo_distinct])
  show "answering demo_bench ''u'' (\<lambda>s. s) demo_states"
    by (simp add: answering_def demo_bench_def fetchRun_def doJSONRequest_def)
qed (simp_all add: demo_bench_def)

end
