(* ===== verification/Wiring.thy ===== *)
theory Wiring
  imports Deployment Bench_Run
begin

text \<open>
  The constructors of the services (\<open>NewService\<close> and the \<open>With\<close> methods of \<open>internal/executor/service.go\<close> and
  \<open>internal/worker/service.go\<close>) and what the three programs put together with them (\<open>cmd/api/main.go\<close>,
  \<open>cmd/worker/main.go\<close>, \<open>cmd/bench/main.go\<close>).
\<close>

section \<open>Interfaces\<close>

record 's run_repository =
  rp_CreateRun :: "run \<Rightarrow> 's \<Rightarrow> goerr option \<times> 's"
  rp_UpdateRun :: "run \<Rightarrow> 's \<Rightarrow> goerr option \<times> 's"
  rp_CompleteRun :: "run \<Rightarrow> step list \<Rightarrow> 's \<Rightarrow> goerr option \<times> 's"
  rp_SavePending :: "run \<Rightarrow> step list \<Rightarrow> pending_state \<Rightarrow> 's \<Rightarrow> goerr option \<times> 's"
  rp_LoadPending :: "string \<Rightarrow> string \<Rightarrow> 's \<Rightarrow> (run \<times> step list \<times> pending_state) result"
  rp_GetRun :: "string \<Rightarrow> string \<Rightarrow> 's \<Rightarrow> run result"
  rp_ListRuns :: "string \<Rightarrow> string \<Rightarrow> 's \<Rightarrow> run list result"
  rp_ListSteps :: "string \<Rightarrow> string \<Rightarrow> 's \<Rightarrow> step list result"

record 's queue_ops =
  jq_Enqueue :: "async_job \<Rightarrow> 's \<Rightarrow> goerr option \<times> 's"
  jq_EnqueueAfter :: "async_job \<Rightarrow> duration \<Rightarrow> 's \<Rightarrow> goerr option \<times> 's"
  jq_Dequeue :: "duration \<Rightarrow> 's \<Rightarrow> async_job option result \<times> 's"

text \<open>What a service takes from the process around it: the clock, new ids, the HTTP client and the libraries.\<close>

record 's host =
  ho_now :: "'s \<Rightarrow> time \<times> 's"
  ho_newID :: "'s \<Rightarrow> string result \<times> 's"
  ho_Do :: "http_request \<Rightarrow> 's \<Rightarrow> http_response result \<times> 's"
  ho_net :: net_lib
  ho_fmt :: gofmt
  ho_NewRequest :: "string \<Rightarrow> string \<Rightarrow> goerr option"
  ho_Unmarshal :: "string \<Rightarrow> anyv option"

section \<open>Constructors\<close>

text \<open>\<open>NewService\<close> leaves the queue, the audit trail and the trigger control nil.\<close>

definition exec_NewService ::
    "'s host \<Rightarrow> 's run_repository \<Rightarrow> 's wf_env \<Rightarrow> 's doc_env \<Rightarrow> (string \<Rightarrow> 's \<Rightarrow> string result \<times> 's) \<Rightarrow> 's exec_env" where
  "exec_NewService H repository wfs docs llm =
     \<lparr>ee_CreateRun = rp_CreateRun repository, ee_UpdateRun = rp_UpdateRun repository,
      ee_CompleteRun = rp_CompleteRun repository, ee_SavePending = rp_SavePending repository,
      ee_LoadPending = rp_LoadPending repository, ee_GetRun = rp_GetRun repository,
      ee_ListRuns = rp_ListRuns repository, ee_ListSteps = rp_ListSteps repository,
      ee_workflows_Get = workflows_Get wfs, ee_documents_ListChunks = documents_ListChunks docs,
      ee_audit_Record = None, ee_trigger = None, ee_Generate = llm, ee_Do = ho_Do H, ee_Enqueue = None,
      ee_now = ho_now H, ee_newID = ho_newID H, ee_net = ho_net H, ee_fmt = ho_fmt H,
      ee_NewRequest = ho_NewRequest H, ee_Unmarshal = ho_Unmarshal H\<rparr>"

definition WithHTTPClient ::
    "(http_request \<Rightarrow> 's \<Rightarrow> http_response result \<times> 's) option \<Rightarrow> 's exec_env \<Rightarrow> 's exec_env" where
  "WithHTTPClient client E = (case client of None \<Rightarrow> E | Some f \<Rightarrow> E\<lparr>ee_Do := f\<rparr>)"

definition WithJobQueue :: "'s queue_ops option \<Rightarrow> 's exec_env \<Rightarrow> 's exec_env" where
  "WithJobQueue queue E = (case queue of None \<Rightarrow> E | Some q \<Rightarrow> E\<lparr>ee_Enqueue := Some (jq_Enqueue q)\<rparr>)"

definition WithAudit :: "'s audit_env option \<Rightarrow> 's exec_env \<Rightarrow> 's exec_env" where
  "WithAudit audit E = (case audit of None \<Rightarrow> E | Some a \<Rightarrow> E\<lparr>ee_audit_Record := Some (audit_Record a)\<rparr>)"

definition WithTriggerControl :: "'s trigger_ops option \<Rightarrow> 's exec_env \<Rightarrow> 's exec_env" where
  "WithTriggerControl control E = (case control of None \<Rightarrow> E | Some c \<Rightarrow> E\<lparr>ee_trigger := Some c\<rparr>)"

definition worker_NewService :: "'s queue_ops \<Rightarrow> 's exec_env \<Rightarrow> 's worker_env" where
  "worker_NewService queue E =
     \<lparr>wk_exec = E, wk_Dequeue = jq_Dequeue queue, wk_EnqueueAfter = jq_EnqueueAfter queue,
      wk_pollTimeout = default_pollTimeout, wk_baseBackoff = default_baseBackoff\<rparr>"

text \<open>The chain of calls in each program.\<close>

definition full_service ::
    "'s host \<Rightarrow> 's run_repository \<Rightarrow> 's wf_env \<Rightarrow> 's doc_env \<Rightarrow> (string \<Rightarrow> 's \<Rightarrow> string result \<times> 's) \<Rightarrow>
     's queue_ops \<Rightarrow> 's audit_env \<Rightarrow> 's trigger_ops \<Rightarrow> 's exec_env" where
  "full_service H repository wfs docs llm queue audit control =
     WithTriggerControl (Some control) (WithAudit (Some audit) (WithJobQueue (Some queue)
       (exec_NewService H repository wfs docs llm)))"

section \<open>The parts of a process\<close>

definition mock_llm :: "string \<Rightarrow> 's \<Rightarrow> string result \<times> 's" where
  "mock_llm prompt s = (Inr (Generate_mock prompt), s)"

definition memory_host :: "platform \<Rightarrow> world host" where
  "memory_host P =
     \<lparr>ho_now = app_now P, ho_newID = app_newID P, ho_Do = (\<lambda>rq w. (pf_http P (w_tick w) rq, tick w)),
      ho_net = pf_net P, ho_fmt = pf_fmt P, ho_NewRequest = pf_NewRequest P, ho_Unmarshal = pf_Unmarshal P\<rparr>"

definition memory_runs :: "world run_repository" where
  "memory_runs =
     \<lparr>rp_CreateRun = (\<lambda>r. on_runs (run_mem_CreateRun r)), rp_UpdateRun = (\<lambda>r. on_runs (run_mem_UpdateRun r)),
      rp_CompleteRun = (\<lambda>r steps. on_runs (run_mem_CompleteRun r steps)),
      rp_SavePending = (\<lambda>r steps p. on_runs (run_mem_SavePending r steps p)),
      rp_LoadPending = (\<lambda>t k w. run_mem_LoadPending t k (w_runs w)),
      rp_GetRun = (\<lambda>t k w. run_mem_GetRun t k (w_runs w)),
      rp_ListRuns = (\<lambda>t st w. run_mem_ListRuns t st (w_runs w)),
      rp_ListSteps = (\<lambda>t k w. run_mem_ListSteps t k (w_runs w))\<rparr>"

definition memory_jobs :: "platform \<Rightarrow> world queue_ops" where
  "memory_jobs P =
     \<lparr>jq_Enqueue = (\<lambda>job. on_queue (mq_Enqueue (pf_ctx_err P) job)),
      jq_EnqueueAfter = (\<lambda>job delay. on_queue (mq_EnqueueAfter None job delay)),
      jq_Dequeue = (\<lambda>wait. on_queue mq_Dequeue)\<rparr>"

definition pg_host :: "platform \<Rightarrow> pg_world host" where
  "pg_host P =
     \<lparr>ho_now = PgProgram.beside (app_now P), ho_newID = PgProgram.beside (app_newID P),
      ho_Do = (\<lambda>rq. PgProgram.beside (\<lambda>w. (pf_http P (w_tick w) rq, tick w))),
      ho_net = pf_net P, ho_fmt = pf_fmt P, ho_NewRequest = pf_NewRequest P, ho_Unmarshal = pf_Unmarshal P\<rparr>"

definition pg_runs :: "pg_lib \<Rightarrow> pg_world run_repository" where
  "pg_runs L =
     \<lparr>rp_CreateRun = (\<lambda>r. on_pg (pg_CreateRun L r)), rp_UpdateRun = (\<lambda>r. on_pg (pg_UpdateRun L r)),
      rp_CompleteRun = (\<lambda>r steps. on_pg (pg_CompleteRun L r steps)),
      rp_SavePending = (\<lambda>r steps p. on_pg (pg_SavePending L r steps p)),
      rp_LoadPending = (\<lambda>t k sw. pg_LoadPending L t k (fst sw)),
      rp_GetRun = (\<lambda>t k sw. pg_GetRun L t k (fst sw)),
      rp_ListRuns = (\<lambda>t st sw. pg_ListRuns L t st (fst sw)),
      rp_ListSteps = (\<lambda>t k sw. pg_ListSteps L t k (fst sw))\<rparr>"

definition local_jobs :: "platform \<Rightarrow> pg_world queue_ops" where
  "local_jobs P =
     \<lparr>jq_Enqueue = (\<lambda>job. PgProgram.beside (jq_Enqueue (memory_jobs P) job)),
      jq_EnqueueAfter = (\<lambda>job delay. PgProgram.beside (jq_EnqueueAfter (memory_jobs P) job delay)),
      jq_Dequeue = (\<lambda>wait. PgProgram.beside (jq_Dequeue (memory_jobs P) wait))\<rparr>"

definition redis_jobs :: "'r redis_env \<Rightarrow> 'r deployment queue_ops" where
  "redis_jobs R =
     \<lparr>jq_Enqueue = (\<lambda>job. redis_part (redis_send R job)),
      jq_EnqueueAfter = (\<lambda>job delay. redis_part (redis_send_after R job delay)),
      jq_Dequeue = (\<lambda>wait. redis_part (redis_receive R wait))\<rparr>"

section \<open>The programs\<close>

lemmas wiring_defs = full_service_def exec_NewService_def WithTriggerControl_def WithAudit_def WithJobQueue_def
  worker_NewService_def memory_host_def memory_runs_def memory_jobs_def pg_host_def pg_runs_def local_jobs_def redis_jobs_def

text \<open>
  The services of the models are what the programs construct: the API server in memory or over
  PostgreSQL, and the worker's over the shared queue.
\<close>

theorem services_as_constructed:
  "app_executor P = full_service (memory_host P) memory_runs (app_workflows P) (app_documents P) mock_llm
     (memory_jobs P) (app_audit P) (app_trigger P)"
  "app_worker P = worker_NewService (memory_jobs P) (app_executor P)"
  "pg_executor L P = full_service (pg_host P) (pg_runs L) (pg_workflows L P) (pg_documents L P) mock_llm
     (local_jobs P) (pg_audit L P) (pg_trigger P)"
  "api_executor L P R = WithJobQueue (Some (redis_jobs R)) (up_executor api_part set_api_part (pg_executor L P))"
  "worker_service L P R = worker_NewService (redis_jobs R) (worker_executor L P R)"
  by (simp_all add: wiring_defs app_executor_def app_worker_def pg_executor_def api_executor_def worker_executor_def
      worker_service_def mock_llm_def [abs_def])

text \<open>A service without its optional parts: no jobs, no quota, no audit trail. A nil part changes nothing.\<close>

theorem bare_service:
  assumes "trim_space t \<noteq> []"
  shows "ExecuteAsync (exec_NewService H repository wfs docs llm) t k input s = (Inl ErrAsyncDisabled, s)"
    and "ReserveExecution (exec_NewService H repository wfs docs llm) t s = ((zero_quota, None), s)"
    and "LookupIdempotentRun (exec_NewService H repository wfs docs llm) t key fingerprint s = Inr None"
    and "recordAudit (exec_NewService H repository wfs docs llm) t p s = s"
    and "WithHTTPClient None E = E" "WithJobQueue None E = E" "WithAudit None E = E" "WithTriggerControl None E = E"
  using assms
  by (simp_all add: exec_NewService_def ExecuteAsync_def ReserveExecution_def LookupIdempotentRun_def recordAudit_def
      WithHTTPClient_def WithJobQueue_def WithAudit_def WithTriggerControl_def)

section \<open>The benchmark\<close>

text \<open>
  The benchmark's process: the services in memory beside its language model, with a larger quota and queue
  (\<open>bench_world\<close>); its worker waits two milliseconds for a job.
\<close>

type_synonym bench_process = "world \<times> bench_llm"

definition set_world :: "world \<Rightarrow> bench_process \<Rightarrow> bench_process" where
  "set_world w x = (w, snd x)"

definition on_llm :: "(bench_llm \<Rightarrow> 'a \<times> bench_llm) \<Rightarrow> bench_process \<Rightarrow> 'a \<times> bench_process" where
  "on_llm f x = (case f (snd x) of (y, l) \<Rightarrow> (y, (fst x, l)))"

definition bench_executor :: "platform \<Rightarrow> bench_process exec_env" where
  "bench_executor P = (up_executor fst set_world (app_executor P))\<lparr>ee_Generate := (\<lambda>prompt. on_llm (bench_Generate prompt))\<rparr>"

definition bench_jobs :: "platform \<Rightarrow> bench_process queue_ops" where
  "bench_jobs P =
     \<lparr>jq_Enqueue = (\<lambda>job. up fst set_world (jq_Enqueue (memory_jobs P) job)),
      jq_EnqueueAfter = (\<lambda>job delay. up fst set_world (jq_EnqueueAfter (memory_jobs P) job delay)),
      jq_Dequeue = (\<lambda>wait. up fst set_world (jq_Dequeue (memory_jobs P) wait))\<rparr>"

definition bench_worker :: "platform \<Rightarrow> bench_process worker_env" where
  "bench_worker P = WithPollTimeout (milliseconds 2) (worker_NewService (bench_jobs P) (bench_executor P))"

definition bench_start :: "bench_options \<Rightarrow> bench_process" where
  "bench_start opts = (bench_world opts, newBenchmarkLLM (bo_retryPercent opts) (bo_deadLetterPercent opts))"

text \<open>The transport of its HTTP client calls the handler; a handler always answers, so no request fails on the way.\<close>

definition local_RoundTrip ::
    "(http_request \<Rightarrow> 's \<Rightarrow> http_response \<times> 's) \<Rightarrow> http_request \<Rightarrow> 's \<Rightarrow> http_response result \<times> 's" where
  "local_RoundTrip serve rq s = (case serve rq s of (resp, s1) \<Rightarrow> (Inr resp, s1))"

theorem local_requests_answered:
  assumes "be_Do E = local_RoundTrip serve" and "doJSONRequest E http_method url key payload s = (Inl e, s')"
  shows "\<exists>e0. be_NewRequest E http_method url = Some e0 \<and> e = wrap ''build request'' e0 \<and> s' = s"
  using assms by (auto simp: doJSONRequest_def local_RoundTrip_def Let_def split: option.splits prod.splits)

text \<open>The benchmark's own \<open>min\<close> and \<open>max\<close>.\<close>

definition bench_min :: "int \<Rightarrow> int \<Rightarrow> int" where
  "bench_min left right = (if left < right then left else right)"

definition bench_max :: "int \<Rightarrow> int \<Rightarrow> int" where
  "bench_max left right = (if left > right then left else right)"

lemma bench_min_max: "bench_min a b = min a b" "bench_max a b = max a b"
  by (simp_all add: bench_min_def bench_max_def)

end
