(* ===== verification/Tracing.thy ===== *)
theory Tracing
  imports Worker
begin

text \<open>
  The spans of the executor and of the worker (\<open>internal/executor/tracing.go\<close>, and the calls to it in \<open>service.go\<close>,
  \<open>async.go\<close> and \<open>worker/service.go\<close>): the operations again, as they are written there, with their spans. A
  span is the record of the calls made on it, and a local value of the operation that starts it; what the
  tracing library makes of these calls, and a span's parent, times and sampling, are left out. The state
  holds the spans that have ended, oldest first.
\<close>

section \<open>Spans\<close>

datatype attribute = AString string | AInt int | ABool bool

record span =
  sp_name :: string
  sp_attributes :: "(string \<times> attribute) list"
  sp_events :: "(string \<times> (string \<times> attribute) list) list"
  sp_errors :: "string list"
  sp_status :: "string option"

type_synonym 's traced = "'s \<times> span list"

definition startTrace :: "string \<Rightarrow> (string \<times> attribute) list \<Rightarrow> span" where
  "startTrace name attrs = \<lparr>sp_name = name, sp_attributes = attrs, sp_events = [], sp_errors = [], sp_status = None\<rparr>"

text \<open>\<open>SetAttributes\<close>, \<open>AddEvent\<close> and the deferred \<open>End\<close>.\<close>

definition set_attribute :: "string \<Rightarrow> attribute \<Rightarrow> span \<Rightarrow> span" where
  "set_attribute k a sp = sp\<lparr>sp_attributes := sp_attributes sp @ [(k, a)]\<rparr>"

definition add_event :: "string \<Rightarrow> (string \<times> attribute) list \<Rightarrow> span \<Rightarrow> span" where
  "add_event name attrs sp = sp\<lparr>sp_events := sp_events sp @ [(name, attrs)]\<rparr>"

definition end_span :: "span \<Rightarrow> span list \<Rightarrow> span list" where
  "end_span sp tr = tr @ [sp]"

text \<open>\<open>RecordError\<close>, then \<open>SetStatus\<close> with \<open>codes.Error\<close>. The status is \<open>None\<close> as long as it is not set.\<close>

definition recordTraceError :: "goerr option \<Rightarrow> span \<Rightarrow> span" where
  "recordTraceError err sp =
     (case err of
        None \<Rightarrow> sp
      | Some e \<Rightarrow> sp\<lparr>sp_errors := sp_errors sp @ [error_text e], sp_status := Some (error_text e)\<rparr>)"

definition runTraceAttributes :: "run \<Rightarrow> (string \<times> attribute) list" where
  "runTraceAttributes r =
     [(''tenant.id'', AString (run_TenantID r)), (''workflow.id'', AString (run_WorkflowID r)),
      (''run.id'', AString (run_ID r)), (''run.trigger_mode'', AString (run_TriggerMode r)),
      (''run.attempt'', AInt (run_Attempt r)), (''run.max_attempts'', AInt (run_MaxAttempts r))]"

definition jobTraceAttributes :: "async_job \<Rightarrow> (string \<times> attribute) list" where
  "jobTraceAttributes job =
     [(''tenant.id'', AString (job_TenantID job)), (''workflow.id'', AString (job_WorkflowID job)),
      (''run.id'', AString (job_RunID job)), (''run.attempt'', AInt (job_Attempt job)),
      (''run.max_attempts'', AInt (job_MaxAttempts job))]"

definition nodeTraceAttributes :: "string \<Rightarrow> string \<Rightarrow> node \<Rightarrow> (string \<times> attribute) list" where
  "nodeTraceAttributes runID tenantID n =
     [(''tenant.id'', AString tenantID), (''run.id'', AString runID),
      (''node.id'', AString (node_ID n)), (''node.type'', AString (node_Type n))]"

section \<open>Steps and the loop\<close>

definition traced_executeStep ::
    "'s exec_env \<Rightarrow> string \<Rightarrow> string \<Rightarrow> node \<Rightarrow> vmap \<Rightarrow> vmap \<Rightarrow> 's traced \<Rightarrow> (step \<times> anyv result) \<times> 's traced" where
  "traced_executeStep E runID tenantID n workflowInput stepOutputs = (\<lambda>(s, tr).
     let sp = startTrace ''workflow.step'' (nodeTraceAttributes runID tenantID n) in
     case ee_newID E s of
        (Inl e, s1) \<Rightarrow>
          ((zero_step, Inl (wrap ''generate step id'' e)), (s1, end_span (recordTraceError (Some e) sp) tr))
      | (Inr stepID, s1) \<Rightarrow>
          let sp1 = set_attribute ''step.id'' (AString stepID) sp in
          case ee_now E s1 of (startedAt, s2) \<Rightarrow>
          case executeNode E tenantID n workflowInput stepOutputs s2 of (answer, s3) \<Rightarrow>
          case ee_now E s3 of (completedAt, s4) \<Rightarrow>
            let st = (step_of stepID runID n StepStatusCompleted startedAt)
                       \<lparr>step_CompletedAt := completedAt\<rparr>
            in case answer of
                 Inl e \<Rightarrow>
                   ((st\<lparr>step_Status := StepStatusFailed, step_Error := error_text e\<rparr>, Inl e),
                    (s4, end_span (recordTraceError (Some e) sp1) tr))
               | Inr output \<Rightarrow>
                   ((st\<lparr>step_Output := output\<rparr>, Inr output),
                    (s4, end_span (set_attribute ''step.status'' (AString ''completed'') sp1) tr)))"

definition traced_run_node ::
    "'s exec_env \<Rightarrow> string \<Rightarrow> string \<Rightarrow> graph \<Rightarrow> vmap \<Rightarrow> node \<Rightarrow> execution_state \<Rightarrow> string set \<Rightarrow> 's traced \<Rightarrow>
     ((execution_state \<times> string set) + (execution_state \<times> outcome)) \<times> 's traced" where
  "traced_run_node E runID tenantID g workflowInput n st queued x =
     (if node_Type n = ''approval'' then
        (case pause_at E runID tenantID g n st (fst x) of (r, s1) \<Rightarrow> (Inr r, (s1, snd x)))
      else
        case traced_executeStep E runID tenantID n workflowInput (es_stepOutputs st) x of
          ((new_step, answer), (s1, tr)) \<Rightarrow>
            let st1 = st\<lparr>es_steps := es_steps st @ [new_step], es_lastNodeID := node_ID n\<rparr> in
            (case answer of
               Inl e \<Rightarrow>
                 (Inr (st1, Failed \<lparr>rf_NodeID = node_ID n, rf_Err = e\<rparr>),
                  (recordAudit E tenantID (auditParamsForStep ''step_failed'' (error_text e) new_step
                    [(''error'', VStr (error_text e))]) s1, tr))
             | Inr output \<Rightarrow>
                 let s2 = recordAudit E tenantID
                            (auditParamsForStep ''step_completed'' [] new_step [(''output'', output)]) s1;
                     executed = insert (node_ID n) (es_executed st1);
                     (queue, queued1) =
                       push_next executed (graph_next g n output) (es_queue st1) queued
                 in (Inl (st1\<lparr>es_executed := executed,
                              es_stepOutputs := AList.update (node_ID n) output (es_stepOutputs st1),
                              es_queue := queue\<rparr>, queued1), (s2, tr))))"

partial_function (option) traced_loop ::
    "'s exec_env \<Rightarrow> string \<Rightarrow> string \<Rightarrow> graph \<Rightarrow> vmap \<Rightarrow> execution_state \<Rightarrow> string set \<Rightarrow> 's traced \<Rightarrow>
     ((execution_state \<times> outcome) \<times> 's traced) option" where
  "traced_loop E runID tenantID g workflowInput st queued x =
     (case es_queue st of
        [] \<Rightarrow> Some ((st, Finished), x)
      | nodeID # rest \<Rightarrow>
          (case traced_run_node E runID tenantID g workflowInput (graph_node g nodeID) (st\<lparr>es_queue := rest\<rparr>)
                  (queued - {nodeID}) x of
             (Inl (st', queued'), x') \<Rightarrow> traced_loop E runID tenantID g workflowInput st' queued' x'
           | (Inr r, x') \<Rightarrow> Some (r, x')))"

declare traced_loop.simps [code]

definition traced_continueExecution ::
    "'s exec_env \<Rightarrow> string \<Rightarrow> string \<Rightarrow> graph \<Rightarrow> vmap \<Rightarrow> execution_state \<Rightarrow> 's traced \<Rightarrow>
     ((execution_state \<times> outcome) \<times> 's traced) option" where
  "traced_continueExecution E runID tenantID g workflowInput st x =
     traced_loop E runID tenantID g workflowInput st (set (es_queue st)) x"

section \<open>Runs\<close>

text \<open>The status of a run as an attribute; the text of a status is that of the code.\<close>

definition set_status :: "run \<Rightarrow> span \<Rightarrow> span" where
  "set_status r = set_attribute ''run.status'' (AString (run_status_text (run_Status r)))"

text \<open>The end of \<open>executeRun\<close>, with what becomes of its span.\<close>

definition traced_complete_run ::
    "'s exec_env \<Rightarrow> string \<Rightarrow> run \<Rightarrow> step list \<Rightarrow> string \<Rightarrow> string \<Rightarrow> vmap \<Rightarrow> span \<Rightarrow> 's \<Rightarrow> (run result \<times> span) \<times> 's" where
  "traced_complete_run E context_text r steps eventType message metadata sp s =
     (case ee_CompleteRun E r steps s of
        (Some e, s1) \<Rightarrow> ((Inl (wrap context_text e), recordTraceError (Some e) sp), s1)
      | (None, s1) \<Rightarrow>
          ((Inr r, set_status r sp),
           recordAudit E (run_TenantID r) (newRunAudit r eventType message metadata) s1))"

definition traced_settle_run ::
    "'s exec_env \<Rightarrow> run \<Rightarrow> execution_state \<Rightarrow> outcome \<Rightarrow> span \<Rightarrow> 's \<Rightarrow> (run result \<times> span) \<times> 's" where
  "traced_settle_run E r st out sp s =
     (case out of
        Aborted e \<Rightarrow> ((Inl e, recordTraceError (Some e) sp), s)
      | Failed failure \<Rightarrow>
          (case ee_now E s of (now, s1) \<Rightarrow>
             let failed_node = [(''failed_node'', VStr (rf_NodeID failure))];
                 r1 = r\<lparr>run_Status := RunStatusFailed, run_Error := error_text (rf_Err failure),
                        run_Output := VMap failed_node, run_CompletedAt := now\<rparr>
             in traced_complete_run E ''complete failed run'' r1 (es_steps st) ''run_failed'' (run_Error r1)
                  failed_node sp s1)
      | Paused pause \<Rightarrow>
          let r1 = r\<lparr>run_Status := RunStatusWaitingApproval, run_Output := pp_output pause\<rparr> in
          (case ee_SavePending E r1 (es_steps st) (pp_pending pause) s of
             (Some e, s1) \<Rightarrow> ((Inl (wrap ''save pending run'' e), recordTraceError (Some e) sp), s1)
           | (None, s1) \<Rightarrow>
               ((Inr r1, set_status r1 sp), recordAudit E (run_TenantID r1)
                  (newRunAudit r1 ''run_waiting_approval'' ''workflow run is waiting for approval'' []) s1))
      | Finished \<Rightarrow>
          (case ee_now E s of (now, s1) \<Rightarrow>
             let r1 = r\<lparr>run_Status := RunStatusCompleted,
                        run_Output := buildRunOutput (es_lastNodeID st) (es_stepOutputs st),
                        run_CompletedAt := now\<rparr>
             in traced_complete_run E ''complete run'' r1 (es_steps st) ''run_completed''
                  ''workflow run completed'' [] sp s1))"

definition traced_executeRun ::
    "'s exec_env \<Rightarrow> run \<Rightarrow> graph \<Rightarrow> vmap \<Rightarrow> execution_state \<Rightarrow> 's traced \<Rightarrow> (run result \<times> 's traced) option" where
  "traced_executeRun E r g input st = (\<lambda>(s, tr).
     let sp = startTrace ''workflow.run.execute'' (runTraceAttributes r);
         s1 = recordAudit E (run_TenantID r)
                (newRunAudit r ''run_started'' ''workflow run started'' []) s in
     case traced_continueExecution E (run_ID r) (run_TenantID r) g input st (s1, tr) of
       None \<Rightarrow> None
     | Some ((st', out), (s2, tr2)) \<Rightarrow>
         (case traced_settle_run E r st' out sp s2 of
            ((res, sp1), s3) \<Rightarrow> Some (res, (s3, end_span sp1 tr2))))"

section \<open>Operations\<close>

text \<open>An operation returns after its span was given the error, or the status of the run it answers.\<close>

definition fail_span :: "goerr \<Rightarrow> goerr \<Rightarrow> span \<Rightarrow> 's traced \<Rightarrow> run result \<times> 's traced" where
  "fail_span returned cause sp x = (Inl returned, (fst x, end_span (recordTraceError (Some cause) sp) (snd x)))"

definition answer_span :: "run \<Rightarrow> span \<Rightarrow> 's traced \<Rightarrow> run result \<times> 's traced" where
  "answer_span r sp x = (Inr r, (fst x, end_span (set_status r sp) (snd x)))"

definition after_executeRun :: "span \<Rightarrow> (run result \<times> 's traced) option \<Rightarrow> (run result \<times> 's traced) option" where
  "after_executeRun sp answer =
     (case answer of
        None \<Rightarrow> None
      | Some (Inl e, x) \<Rightarrow> Some (fail_span e e sp x)
      | Some (Inr r, x) \<Rightarrow> Some (answer_span r sp x))"

definition traced_ExecuteSync ::
    "'s exec_env \<Rightarrow> string \<Rightarrow> string \<Rightarrow> vmap \<Rightarrow> 's traced \<Rightarrow> (run result \<times> 's traced) option" where
  "traced_ExecuteSync E tenantID workflowID input = (\<lambda>(s, tr).
     if trim_space tenantID = [] then Some (Inl exec_ErrInvalidTenant, (s, tr))
     else
       let sp = startTrace ''workflow.run.sync'' [(''tenant.id'', AString tenantID),
                  (''workflow.id'', AString workflowID), (''run.trigger_mode'', AString ''sync'')] in
       case ee_workflows_Get E tenantID workflowID s of
         Inl e \<Rightarrow> Some (fail_span e e sp (s, tr))
       | Inr w \<Rightarrow>
           (case ee_newID E s of
              (Inl e, s1) \<Rightarrow> Some (fail_span (wrap ''generate run id'' e) e sp (s1, tr))
            | (Inr runID, s1) \<Rightarrow>
                let sp1 = set_attribute ''run.id'' (AString runID) sp in
                (case ee_now E s1 of (startedAt, s2) \<Rightarrow>
                   let r = sync_run runID tenantID workflowID input startedAt in
                   case ee_CreateRun E r s2 of
                     (Some e, s3) \<Rightarrow> Some (fail_span (wrap ''create run'' e) e sp1 (s3, tr))
                   | (None, s3) \<Rightarrow>
                       (case buildGraph (wf_Definition w) of
                          Inl e \<Rightarrow> Some (fail_span e e sp1 (s3, tr))
                        | Inr g \<Rightarrow>
                            after_executeRun sp1
                              (traced_executeRun E r g input (newExecutionState (graph_roots g)) (s3, tr))))))"

definition traced_ExecuteAsync ::
    "'s exec_env \<Rightarrow> string \<Rightarrow> string \<Rightarrow> vmap \<Rightarrow> 's traced \<Rightarrow> run result \<times> 's traced" where
  "traced_ExecuteAsync E tenantID workflowID input = (\<lambda>(s, tr).
     if trim_space tenantID = [] then (Inl exec_ErrInvalidTenant, (s, tr))
     else
       let sp = startTrace ''workflow.run.async.enqueue'' [(''tenant.id'', AString tenantID),
                  (''workflow.id'', AString workflowID), (''run.trigger_mode'', AString ''async'')] in
       case ee_Enqueue E of
         None \<Rightarrow> fail_span ErrAsyncDisabled ErrAsyncDisabled sp (s, tr)
       | Some enqueue \<Rightarrow>
           (case ee_workflows_Get E tenantID workflowID s of
              Inl e \<Rightarrow> fail_span e e sp (s, tr)
            | Inr w \<Rightarrow>
                (case ee_newID E s of
                   (Inl e, s1) \<Rightarrow> fail_span (wrap ''generate run id'' e) e sp (s1, tr)
                 | (Inr runID, s1) \<Rightarrow>
                     let sp1 = set_attribute ''run.id'' (AString runID) sp in
                     (case ee_now E s1 of (createdAt, s2) \<Rightarrow>
                        let r = queued_run runID tenantID workflowID input createdAt in
                        case ee_CreateRun E r s2 of
                          (Some e, s3) \<Rightarrow> fail_span (wrap ''create async run'' e) e sp1 (s3, tr)
                        | (None, s3) \<Rightarrow>
                            let s4 = recordAudit E tenantID
                                  (newRunAudit r ''run_queued'' ''async run queued'' []) s3
                            in case enqueue (new_job r input) s4 of
                                 (None, s5) \<Rightarrow> answer_span r sp1 (s5, tr)
                               | (Some e, s5) \<Rightarrow>
                                   (case ee_now E s5 of (now, s6) \<Rightarrow>
                                      let r1 = r\<lparr>run_Status := RunStatusFailed,
                                                 run_Error := error_text e, run_CompletedAt := now\<rparr>
                                      in case ee_CompleteRun E r1 [] s6 of
                                           (Some e2, s7) \<Rightarrow>
                                             fail_span (Wrapped ''enqueue async run: '' e
                                               ('' (mark failed: '' @ error_text e2 @ '')'')) e sp1 (s7, tr)
                                         | (None, s7) \<Rightarrow>
                                             fail_span (wrap ''enqueue async run'' e) e sp1 (s7, tr))))))"

text \<open>
  A job whose run fails before it starts: the span has the error of the workflow, whether or not the run
  could be completed.
\<close>

definition traced_fail_job :: "'s exec_env \<Rightarrow> string \<Rightarrow> run \<Rightarrow> goerr \<Rightarrow> span \<Rightarrow> 's traced \<Rightarrow> run result \<times> 's traced" where
  "traced_fail_job E context_text r e sp = (\<lambda>(s, tr).
     case ee_now E s of (now, s1) \<Rightarrow>
       let sp1 = recordTraceError (Some e) sp;
           r1 = r\<lparr>run_Status := RunStatusFailed, run_Error := error_text e, run_CompletedAt := now\<rparr> in
       case ee_CompleteRun E r1 [] s1 of
         (Some e2, s2) \<Rightarrow> (Inl (wrap context_text e2), (s2, end_span sp1 tr))
       | (None, s2) \<Rightarrow> (Inr r1, (s2, end_span sp1 tr)))"

definition traced_ProcessAsyncJob :: "'s exec_env \<Rightarrow> async_job \<Rightarrow> 's traced \<Rightarrow> (run result \<times> 's traced) option" where
  "traced_ProcessAsyncJob E job = (\<lambda>(s, tr).
     if trim_space (job_TenantID job) = [] then Some (Inl exec_ErrInvalidTenant, (s, tr))
     else
       let sp = startTrace ''workflow.run.async.process'' (jobTraceAttributes job) in
       case ee_GetRun E (job_TenantID job) (job_RunID job) s of
         Inl e \<Rightarrow> Some (fail_span e e sp (s, tr))
       | Inr r \<Rightarrow>
           if run_Status r \<noteq> RunStatusQueued then Some (answer_span r sp (s, tr))
           else case ee_workflows_Get E (job_TenantID job) (job_WorkflowID job) s of
             Inl e \<Rightarrow> Some (traced_fail_job E ''complete missing async workflow run'' r e sp (s, tr))
           | Inr w \<Rightarrow>
               (case buildGraph (wf_Definition w) of
                  Inl e \<Rightarrow> Some (traced_fail_job E ''complete invalid async workflow run'' r e sp (s, tr))
                | Inr g \<Rightarrow>
                    (case ee_now E s of (startedAt, s1) \<Rightarrow>
                       let r1 = started_run job r startedAt
                       in case ee_UpdateRun E r1 s1 of
                            (Some e, s2) \<Rightarrow> Some (fail_span (wrap ''update async run'' e) e sp (s2, tr))
                          | (None, s2) \<Rightarrow>
                              after_executeRun sp (traced_executeRun E r1 g (run_Input r1)
                                (newExecutionState (graph_roots g)) (s2, tr)))))"

definition traced_reject ::
    "'s exec_env \<Rightarrow> run \<Rightarrow> step list \<Rightarrow> vmap \<Rightarrow> span \<Rightarrow> 's traced \<Rightarrow> run result \<times> 's traced" where
  "traced_reject E r steps rejection sp = (\<lambda>(s, tr).
     case traced_complete_run E ''complete rejected run'' r steps ''run_failed'' (run_Error r) rejection sp s of
       ((res, sp1), s1) \<Rightarrow> (res, (s1, end_span sp1 tr)))"

definition traced_ResumeApproval ::
    "'s exec_env \<Rightarrow> string \<Rightarrow> string \<Rightarrow> bool \<Rightarrow> string \<Rightarrow> vmap \<Rightarrow> 's traced \<Rightarrow> (run result \<times> 's traced) option" where
  "traced_ResumeApproval E tenantID runID approved comment input = (\<lambda>(s, tr).
     if trim_space tenantID = [] then Some (Inl exec_ErrInvalidTenant, (s, tr))
     else
       let sp = startTrace ''workflow.run.resume'' [(''tenant.id'', AString tenantID),
                  (''run.id'', AString runID), (''approval.approved'', ABool approved)] in
       case ee_LoadPending E tenantID runID s of
         Inl e \<Rightarrow> Some (fail_span e e sp (s, tr))
       | Inr (r0, steps0, pending) \<Rightarrow>
           let sp1 = set_attribute ''workflow.id'' (AString (run_WorkflowID r0)) sp in
           (case ee_workflows_Get E tenantID (run_WorkflowID r0) s of
              Inl e \<Rightarrow> Some (fail_span e e sp1 (s, tr))
            | Inr w \<Rightarrow>
                (case buildGraph (wf_Definition w) of
                   Inl e \<Rightarrow> Some (fail_span e e sp1 (s, tr))
                 | Inr g \<Rightarrow>
                     let r = r0\<lparr>run_Input := mergeInput (run_Input r0) input\<rparr>;
                         waiting = pn_WaitingNodeID pending
                     in if steps0 = [] \<or> step_NodeID (last steps0) \<noteq> waiting
                        then Some (fail_span ErrRunNotAwaitingReview ErrRunNotAwaitingReview sp1 (s, tr))
                        else
                          let approvalOutput = approval_output approved comment in
                          case ee_now E s of (resolvedAt, s1) \<Rightarrow>
                            let steps = resolve_last approvalOutput resolvedAt steps0;
                                s2 = recordAudit E tenantID
                                  \<lparr>rp_RunID = run_ID r, rp_WorkflowID = run_WorkflowID r,
                                   rp_StepID = step_ID (last steps), rp_NodeID = waiting,
                                   rp_Type = ''approval_resolved'',
                                   rp_Message = ''approval decision recorded'',
                                   rp_Metadata = approval_fields approved comment\<rparr> s1
                            in if \<not> approved then
                                 (case ee_now E s2 of (now, s3) \<Rightarrow>
                                    let rejection = [(''failed_node'', VStr waiting),
                                                     (''approval'', approvalOutput)];
                                        r1 = r\<lparr>run_Status := RunStatusFailed,
                                               run_Error := ''approval rejected'',
                                               run_Output := VMap rejection, run_CompletedAt := now\<rparr>
                                    in Some (traced_reject E r1 steps rejection sp1 (s3, tr)))
                               else
                                 let r1 = r\<lparr>run_Status := RunStatusRunning, run_Error := [],
                                            run_Output := VNil, run_CompletedAt := zero_time\<rparr>
                                 in after_executeRun sp1 (traced_executeRun E r1 g (run_Input r1)
                                      (resumed_state steps pending approvalOutput) (s2, tr)))))"

section \<open>The worker\<close>

definition traced_retry_job ::
    "'s worker_env \<Rightarrow> async_job \<Rightarrow> run \<Rightarrow> span \<Rightarrow> 's traced \<Rightarrow> (bool \<times> goerr option) \<times> 's traced" where
  "traced_retry_job W job r sp = (\<lambda>(s, tr).
     let job' = job\<lparr>job_Attempt := run_Attempt r, job_MaxAttempts := run_MaxAttempts r\<rparr>;
         delay = sint (retryDelay (wk_baseBackoff W) (run_Attempt r))
     in case MarkAsyncRetry (wk_exec W) r delay s of
          (Inl e, s1) \<Rightarrow> ((True, Some e), (s1, end_span (recordTraceError (Some e) sp) tr))
        | (Inr r', s1) \<Rightarrow>
            (case wk_EnqueueAfter W job' delay s1 of
               (Some e, s2) \<Rightarrow> ((True, Some e), (s2, end_span (recordTraceError (Some e) sp) tr))
             | (None, s2) \<Rightarrow>
                 let sp1 = add_event ''retry_scheduled'' [(''retry.delay_ms'', AInt (duration_ms delay))] sp;
                     sp2 = set_attribute ''run.status'' (AString (run_status_text RunStatusQueued)) sp1
                 in ((True, None), (s2, end_span sp2 tr))))"

definition traced_ProcessNext ::
    "'s worker_env \<Rightarrow> 's traced \<Rightarrow> ((bool \<times> goerr option) \<times> 's traced) option" where
  "traced_ProcessNext W = (\<lambda>(s, tr).
     case wk_Dequeue W (wk_pollTimeout W) s of
       (Inl e, s1) \<Rightarrow> Some ((False, Some e), (s1, tr))
     | (Inr None, s1) \<Rightarrow> Some ((False, None), (s1, tr))
     | (Inr (Some job), s1) \<Rightarrow>
         let sp = startTrace ''worker.process_next'' (jobTraceAttributes job) in
         (case traced_ProcessAsyncJob (wk_exec W) job (s1, tr) of
            None \<Rightarrow> None
          | Some (Inl e, (s2, tr2)) \<Rightarrow> Some ((True, Some e), (s2, end_span (recordTraceError (Some e) sp) tr2))
          | Some (Inr r, (s2, tr2)) \<Rightarrow>
              if run_Status r \<noteq> RunStatusFailed then Some ((True, None), (s2, end_span (set_status r sp) tr2))
              else if run_Attempt r < run_MaxAttempts r then Some (traced_retry_job W job r sp (s2, tr2))
              else
                (case MarkDeadLetter (wk_exec W) r s2 of
                   (Inl e, s3) \<Rightarrow> Some ((True, Some e), (s3, end_span (recordTraceError (Some e) sp) tr2))
                 | (Inr r', s3) \<Rightarrow>
                     Some ((True, None), (s3, end_span
                       (set_attribute ''run.status'' (AString (run_status_text RunStatusDeadLetter)) sp) tr2)))))"

section \<open>What spans say\<close>

definition marked :: "span \<Rightarrow> bool" where
  "marked sp \<longleftrightarrow> sp_status sp \<noteq> None"

lemma marked_simps [simp]:
  "\<not> marked (startTrace name attrs)" "marked (set_attribute k a sp) = marked sp" "marked (set_status r sp) = marked sp"
  "marked (add_event name attrs sp) = marked sp" "marked (recordTraceError (Some e) sp)"
  "marked (recordTraceError None sp) = marked sp"
  by (simp_all add: marked_def startTrace_def set_attribute_def set_status_def add_event_def recordTraceError_def)

lemma name_simps [simp]:
  "sp_name (startTrace name attrs) = name" "sp_name (set_attribute k a sp) = sp_name sp"
  "sp_name (set_status r sp) = sp_name sp" "sp_name (add_event n attrs sp) = sp_name sp"
  "sp_name (recordTraceError err sp) = sp_name sp"
  by (simp_all add: startTrace_def set_attribute_def set_status_def add_event_def recordTraceError_def split: option.split)

text \<open>
  The span of a step that was executed: of its run, node and id, with its status if it has completed and
  else with its error. A step for which no id could be made is empty: its span has an error.
\<close>

definition step_span :: "string \<Rightarrow> string \<Rightarrow> step \<Rightarrow> span" where
  "step_span tenantID runID st =
     (let completed = (step_Status st = StepStatusCompleted) in
      \<lparr>sp_name = ''workflow.step'',
       sp_attributes = [(''tenant.id'', AString tenantID), (''run.id'', AString runID), (''node.id'', AString (step_NodeID st)),
         (''node.type'', AString (step_NodeType st)), (''step.id'', AString (step_ID st))] @
         (if completed then [(''step.status'', AString ''completed'')] else []),
       sp_events = [], sp_errors = (if completed then [] else [step_Error st]),
       sp_status = (if completed then None else Some (step_Error st))\<rparr>)"

definition step_traced :: "string \<Rightarrow> string \<Rightarrow> step \<Rightarrow> span \<Rightarrow> bool" where
  "step_traced tenantID runID st sp \<longleftrightarrow>
     (if st = zero_step then sp_name sp = ''workflow.step'' \<and> marked sp else sp = step_span tenantID runID st)"

text \<open>The steps of a loop that were executed: not the one that waits at an approval node.\<close>

definition executed_steps :: "step list \<Rightarrow> step list" where
  "executed_steps = filter (\<lambda>st. step_Status st \<noteq> StepStatusWaitingApproval)"

text \<open>All spans but the last are without an error, and that one has one exactly when its step failed.\<close>

definition step_spans :: "span list \<Rightarrow> outcome \<Rightarrow> bool" where
  "step_spans spans out \<longleftrightarrow>
     (case out of
        Failed failure \<Rightarrow> spans \<noteq> [] \<and> list_all (\<lambda>sp. \<not> marked sp) (butlast spans) \<and> marked (last spans)
      | _ \<Rightarrow> list_all (\<lambda>sp. \<not> marked sp) spans)"

lemma traced_executeStep_spans:
  assumes "executeStep E runID t n i outs s = ((st, answer), s')"
  shows "\<exists>sp. traced_executeStep E runID t n i outs (s, tr) = ((st, answer), (s', tr @ [sp])) \<and>
    step_traced t runID st sp \<and> executed_steps [st] = [st] \<and> (marked sp \<longleftrightarrow> isl answer)"
  using assms
  by (auto simp: executeStep_def traced_executeStep_def Let_def end_span_def executed_steps_def step_traced_def step_span_def
      zero_step_def step_of_def startTrace_def nodeTraceAttributes_def set_attribute_def recordTraceError_def marked_def
      split: sum.splits prod.splits)

lemma traced_run_node_spans:
  assumes "run_node E runID t g i n st queued s = (answer, s')"
  shows "\<exists>new spans. traced_run_node E runID t g i n st queued (s, tr) = (answer, (s', tr @ spans)) \<and>
    list_all2 (step_traced t runID) (executed_steps new) spans \<and>
    (case answer of
       Inl (st', _) \<Rightarrow> es_steps st' = es_steps st @ new \<and> step_spans spans Finished
     | Inr (st', out) \<Rightarrow> es_steps st' = es_steps st @ new \<and> step_spans spans out)"
proof (cases "node_Type n = ''approval''")
  case True
  obtain st' out a where pause: "pause_at E runID t g n st s = ((st', out), a)" by (metis prod.collapse)
  then obtain new where "es_steps st' = es_steps st @ new" "executed_steps new = []" "out \<noteq> Failed f" for f
    by (auto simp: pause_at_def awaitApproval_def executed_steps_def step_of_def Let_def split: sum.splits prod.splits)
  then show ?thesis
    using assms True pause
    by (intro exI [of _ new] exI [of _ "[]"])
       (auto simp: run_node_def traced_run_node_def step_spans_def split: outcome.splits)
next
  case False
  obtain new_step result a where step: "executeStep E runID t n i (es_stepOutputs st) s = ((new_step, result), a)"
    by (metis prod.collapse)
  from traced_executeStep_spans [OF this, of tr] obtain sp where
    "traced_executeStep E runID t n i (es_stepOutputs st) (s, tr) = ((new_step, result), (a, tr @ [sp]))"
    "step_traced t runID new_step sp" "executed_steps [new_step] = [new_step]" "marked sp \<longleftrightarrow> isl result" by blast
  then show ?thesis
    using assms False step
    by (intro exI [of _ "[new_step]"] exI [of _ "[sp]"])
       (auto simp: run_node_def traced_run_node_def step_spans_def Let_def split: sum.splits prod.splits)
qed

lemma step_spans_Cons:
  assumes "step_spans first Finished" and "step_spans later out"
  shows "step_spans (first @ later) out"
  using assms by (auto simp: step_spans_def butlast_append split: outcome.splits)

lemma executed_steps_append: "executed_steps (xs @ ys) = executed_steps xs @ executed_steps ys"
  by (simp add: executed_steps_def)

text \<open>What a loop that answers \<open>((st', out), s')\<close> has traced.\<close>

definition loop_traced :: "string \<Rightarrow> string \<Rightarrow> execution_state \<Rightarrow> execution_state \<Rightarrow> outcome \<Rightarrow> span list \<Rightarrow> bool" where
  "loop_traced t runID st st' out spans \<longleftrightarrow> (\<exists>new. es_steps st' = es_steps st @ new \<and>
     list_all2 (step_traced t runID) (executed_steps new) spans \<and> step_spans spans out)"

lemma exec_loop_traced:
  assumes "exec_loop E runID t g i st queued s = Some ((st', out), s')"
  shows "\<exists>spans. traced_loop E runID t g i st queued (s, tr) = Some ((st', out), (s', tr @ spans)) \<and>
    loop_traced t runID st st' out spans"
proof -
  have "\<forall>tr. \<exists>spans. traced_loop E runID t g i st queued (s, tr) = Some ((st', out), (s', tr @ spans)) \<and>
      loop_traced t runID st st' out spans"
  proof (rule exec_loop.raw_induct
      [where P = "\<lambda>E runID t g i st queued s r. \<forall>tr. \<exists>spans.
         traced_loop E runID t g i st queued (s, tr) = Some (fst r, (snd r, tr @ spans)) \<and>
         loop_traced t runID st (fst (fst r)) (snd (fst r)) spans"
       and y = "((st', out), s')", unfolded fst_conv snd_conv, OF _ assms], intro allI, goal_cases)
    case (1 loop E runID t g i st queued s r tr)
    obtain st' out s' where r: "r = ((st', out), s')" by (metis prod.collapse)
    show ?case
    proof (cases "es_queue st")
      case Nil
      then show ?thesis
        using 1(2) r
        by (subst traced_loop.simps)
           (auto simp: loop_traced_def step_spans_def executed_steps_def intro!: exI [of _ "[]"])
    next
      case (Cons k rest)
      obtain x a where run: "run_node E runID t g i (graph_node g k) (st\<lparr>es_queue := rest\<rparr>) (queued - {k}) s = (x, a)"
        by (metis prod.collapse)
      from traced_run_node_spans [OF this, of tr] obtain new spans where
        spans: "traced_run_node E runID t g i (graph_node g k) (st\<lparr>es_queue := rest\<rparr>) (queued - {k}) (s, tr) =
            (x, (a, tr @ spans))"
          "list_all2 (step_traced t runID) (executed_steps new) spans"
        and new: "case x of
           Inl (st', _) \<Rightarrow> es_steps st' = es_steps (st\<lparr>es_queue := rest\<rparr>) @ new \<and> step_spans spans Finished
         | Inr (st', out) \<Rightarrow> es_steps st' = es_steps (st\<lparr>es_queue := rest\<rparr>) @ new \<and> step_spans spans out"
        by blast
      show ?thesis
      proof (cases x)
        case (Inl y)
        obtain st1 queued1 where y: "y = (st1, queued1)" by (cases y)
        have "loop E runID t g i st1 queued1 a = Some r" using 1(2) Cons run Inl y by simp
        from spec [OF 1(1) [OF this], of "tr @ spans"] r obtain later where
          later: "traced_loop E runID t g i st1 queued1 (a, tr @ spans) = Some ((st', out), (s', (tr @ spans) @ later))"
          "loop_traced t runID st1 st' out later" by auto
        then obtain more_steps where "es_steps st' = es_steps st1 @ more_steps"
            "list_all2 (step_traced t runID) (executed_steps more_steps) later" "step_spans later out"
          by (auto simp: loop_traced_def)
        then have "loop_traced t runID st st' out (spans @ later)"
          unfolding loop_traced_def using spans(2) new Inl y step_spans_Cons [of spans later out]
          by (intro exI [of _ "new @ more_steps"]) (simp add: executed_steps_append list_all2_appendI)
        then show ?thesis
          using Cons spans(1) Inl y r later(1)
          by (subst traced_loop.simps) (auto intro!: exI [of _ "spans @ later"])
      next
        case (Inr y)
        then show ?thesis
          using 1(2) Cons run spans new r by (subst traced_loop.simps) (auto simp: loop_traced_def)
      qed
    qed
  qed
  then show ?thesis by blast
qed

text \<open>
  A run that is executed: the arguments of \<open>executeRun\<close>. Its spans are those of the steps that it
  executes, then its own, with the attributes of the run and the status that is answered; it has an error
  exactly when no run is answered. The last step's has one exactly when the answered run has failed.
\<close>

type_synonym 's execution = "run \<times> graph \<times> vmap \<times> execution_state \<times> 's"

definition run_traced :: "'s exec_env \<Rightarrow> 's execution \<Rightarrow> run result \<Rightarrow> span list \<Rightarrow> bool" where
  "run_traced E call res spans \<longleftrightarrow>
     (case call of (r, g, input, st, s) \<Rightarrow>
        \<exists>st' out s' new steps sp.
          continueExecution E (run_ID r) (run_TenantID r) g input st
            (recordAudit E (run_TenantID r) (newRunAudit r ''run_started'' ''workflow run started'' []) s) =
            Some ((st', out), s') \<and>
          es_steps st' = es_steps st @ new \<and> spans = steps @ [sp] \<and>
          list_all2 (step_traced (run_TenantID r) (run_ID r)) (executed_steps new) steps \<and>
          list_all (\<lambda>sp. \<not> marked sp) (butlast steps) \<and>
          sp_name sp = ''workflow.run.execute'' \<and> sp_attributes sp = runTraceAttributes r @
            (case res of Inl e \<Rightarrow> [] | Inr r' \<Rightarrow> [(''run.status'', AString (run_status_text (run_Status r')))]) \<and>
          (marked sp \<longleftrightarrow> isl res) \<and>
          (case res of Inl e \<Rightarrow> True
           | Inr r' \<Rightarrow> (steps \<noteq> [] \<and> marked (last steps)) = (run_Status r' = RunStatusFailed)))"

lemma attribute_simps [simp]:
  "sp_attributes (recordTraceError err sp) = sp_attributes sp"
  "sp_attributes (set_status r sp) = sp_attributes sp @ [(''run.status'', AString (run_status_text (run_Status r)))]"
  "sp_attributes (startTrace name attrs) = attrs" "sp_attributes (set_attribute k a sp) = sp_attributes sp @ [(k, a)]"
  by (simp_all add: recordTraceError_def set_status_def set_attribute_def startTrace_def split: option.split)

text \<open>What a span becomes that is given an answer: the error, or the status of the run.\<close>

definition given :: "span \<Rightarrow> run result \<Rightarrow> span \<Rightarrow> bool" where
  "given sp res sp' \<longleftrightarrow> sp_name sp' = sp_name sp \<and> (marked sp' \<longleftrightarrow> marked sp \<or> isl res) \<and>
     sp_attributes sp' = sp_attributes sp @
       (case res of Inl e \<Rightarrow> [] | Inr r \<Rightarrow> [(''run.status'', AString (run_status_text (run_Status r)))])"

lemma traced_complete_run_spans:
  assumes "complete_run E c r steps ty msg meta s = (res, s')"
  shows "\<exists>sp'. traced_complete_run E c r steps ty msg meta sp s = ((res, sp'), s') \<and> given sp res sp' \<and>
    (\<forall>r'. res = Inr r' \<longrightarrow> r' = r)"
  using assms by (auto simp: complete_run_def traced_complete_run_def given_def split: prod.splits option.splits)

lemma traced_settle_run_spans:
  assumes "settle_run E r st out s = (res, s')"
  shows "\<exists>sp'. traced_settle_run E r st out sp s = ((res, sp'), s') \<and> given sp res sp' \<and>
    (\<forall>r'. res = Inr r' \<longrightarrow> (run_Status r' = RunStatusFailed) = (\<exists>f. out = Failed f))"
proof (cases out)
  case (Failed failure)
  obtain now s1 where now: "ee_now E s = (now, s1)" by (metis prod.collapse)
  show ?thesis
    using assms Failed now traced_complete_run_spans [where sp = sp and s = s1 and res = res and s' = s']
    by (fastforce simp: settle_run_def traced_settle_run_def Let_def)
next
  case Finished
  obtain now s1 where now: "ee_now E s = (now, s1)" by (metis prod.collapse)
  show ?thesis
    using assms Finished now traced_complete_run_spans [where sp = sp and s = s1 and res = res and s' = s']
    by (fastforce simp: settle_run_def traced_settle_run_def Let_def)
qed (use assms in \<open>auto simp: settle_run_def traced_settle_run_def given_def Let_def split: prod.splits option.splits\<close>)

lemma traced_executeRun_spans:
  assumes "executeRun E r g input st s = Some (res, s')"
  shows "\<exists>spans. traced_executeRun E r g input st (s, tr) = Some (res, (s', tr @ spans)) \<and>
    run_traced E (r, g, input, st, s) res spans"
proof -
  let ?s1 = "recordAudit E (run_TenantID r) (newRunAudit r ''run_started'' ''workflow run started'' []) s"
  let ?sp = "startTrace ''workflow.run.execute'' (runTraceAttributes r)"
  obtain st' out s2 where run: "continueExecution E (run_ID r) (run_TenantID r) g input st ?s1 = Some ((st', out), s2)"
    and settled: "settle_run E r st' out s2 = (res, s')"
    using assms by (auto simp: executeRun_def Let_def split: option.splits prod.splits)
  from exec_loop_traced [OF run [unfolded continueExecution_def], of tr] obtain steps where
    steps: "traced_loop E (run_ID r) (run_TenantID r) g input st (set (es_queue st)) (?s1, tr) =
        Some ((st', out), (s2, tr @ steps))" "loop_traced (run_TenantID r) (run_ID r) st st' out steps" by blast
  obtain sp where sp: "traced_settle_run E r st' out ?sp s2 = ((res, sp), s')" "given ?sp res sp"
      "\<forall>r'. res = Inr r' \<longrightarrow> (run_Status r' = RunStatusFailed) = (\<exists>f. out = Failed f)"
    using traced_settle_run_spans [OF settled, of ?sp] by auto
  obtain new where new: "es_steps st' = es_steps st @ new"
      "list_all2 (step_traced (run_TenantID r) (run_ID r)) (executed_steps new) steps" "step_spans steps out"
    using steps(2) by (auto simp: loop_traced_def)
  have "list_all (\<lambda>sp. \<not> marked sp) (butlast steps)"
    using new(3) by (auto simp: step_spans_def list_all_iff dest: in_set_butlastD split: outcome.splits)
  moreover have "case res of Inl e \<Rightarrow> True | Inr r \<Rightarrow> (steps \<noteq> [] \<and> marked (last steps)) = (run_Status r = RunStatusFailed)"
    using new(3) sp(3) by (auto simp: step_spans_def list_all_iff split: outcome.splits sum.splits)
  ultimately have "run_traced E (r, g, input, st, s) res (steps @ [sp])"
    unfolding run_traced_def prod.case using run new(1,2) sp(2)
    by (intro exI [of _ st'] exI [of _ out] exI [of _ s2] exI [of _ new] exI [of _ steps] exI [of _ sp])
       (simp add: given_def)
  then show ?thesis
    using steps(1) sp(1)
    by (auto simp: traced_executeRun_def traced_continueExecution_def Let_def end_span_def intro!: exI [of _ "steps @ [sp]"])
qed

section \<open>The runs that operations execute\<close>

text \<open>
  Which run an operation executes, if it gets so far: past the guards, with the run stored. It answers
  then what \<open>executeRun\<close> answers.
\<close>

definition sync_execution :: "'s exec_env \<Rightarrow> string \<Rightarrow> string \<Rightarrow> vmap \<Rightarrow> 's \<Rightarrow> 's execution option" where
  "sync_execution E t k input s =
     (case ee_workflows_Get E t k s of
        Inl e \<Rightarrow> None
      | Inr w \<Rightarrow>
          (case ee_newID E s of
             (Inl e, s1) \<Rightarrow> None
           | (Inr runID, s1) \<Rightarrow>
               (case ee_now E s1 of (startedAt, s2) \<Rightarrow>
                  let r = sync_run runID t k input startedAt in
                  case (ee_CreateRun E r s2, buildGraph (wf_Definition w)) of
                    ((None, s3), Inr g) \<Rightarrow> Some (r, g, input, newExecutionState (graph_roots g), s3)
                  | _ \<Rightarrow> None)))"

definition job_execution :: "'s exec_env \<Rightarrow> async_job \<Rightarrow> run \<Rightarrow> 's \<Rightarrow> 's execution option" where
  "job_execution E job r s =
     (case ee_workflows_Get E (job_TenantID job) (job_WorkflowID job) s of
        Inl e \<Rightarrow> None
      | Inr w \<Rightarrow>
          (case buildGraph (wf_Definition w) of
             Inl e \<Rightarrow> None
           | Inr g \<Rightarrow>
               (case ee_now E s of (startedAt, s1) \<Rightarrow>
                  let r1 = started_run job r startedAt in
                  case ee_UpdateRun E r1 s1 of
                    (Some e, s2) \<Rightarrow> None
                  | (None, s2) \<Rightarrow> Some (r1, g, run_Input r1, newExecutionState (graph_roots g), s2))))"

definition resume_execution ::
    "'s exec_env \<Rightarrow> string \<Rightarrow> string \<Rightarrow> bool \<Rightarrow> string \<Rightarrow> vmap \<Rightarrow> 's \<Rightarrow> 's execution option" where
  "resume_execution E t runID approved comment input s =
     (case ee_LoadPending E t runID s of
        Inl e \<Rightarrow> None
      | Inr (r0, steps0, pending) \<Rightarrow>
          (case ee_workflows_Get E t (run_WorkflowID r0) s of
             Inl e \<Rightarrow> None
           | Inr w \<Rightarrow>
               (case buildGraph (wf_Definition w) of
                  Inl e \<Rightarrow> None
                | Inr g \<Rightarrow>
                    if \<not> approved \<or> steps0 = [] \<or> step_NodeID (last steps0) \<noteq> pn_WaitingNodeID pending then None
                    else
                      (case ee_now E s of (resolvedAt, s1) \<Rightarrow>
                         let steps = resolve_last (approval_output approved comment) resolvedAt steps0;
                             r1 = r0\<lparr>run_Input := mergeInput (run_Input r0) input, run_Status := RunStatusRunning,
                                     run_Error := [], run_Output := VNil, run_CompletedAt := zero_time\<rparr>
                         in Some (r1, g, run_Input r1, resumed_state steps pending (approval_output approved comment),
                              recordAudit E t
                                \<lparr>rp_RunID = run_ID r0, rp_WorkflowID = run_WorkflowID r0,
                                 rp_StepID = step_ID (last steps), rp_NodeID = pn_WaitingNodeID pending,
                                 rp_Type = ''approval_resolved'', rp_Message = ''approval decision recorded'',
                                 rp_Metadata = approval_fields approved comment\<rparr> s1)))))"

text \<open>The answer of an operation that executes a run, if it does.\<close>

definition as_executed :: "'s exec_env \<Rightarrow> 's execution option \<Rightarrow> (run result \<times> 's) option \<Rightarrow> bool" where
  "as_executed E call answer \<longleftrightarrow>
     (case call of None \<Rightarrow> True | Some (r, g, input, st, s) \<Rightarrow> answer = executeRun E r g input st s)"

section \<open>Traced operations\<close>

text \<open>
  The spans of an operation: those of the run if it executes one, and then its own, with the attributes that
  it starts with first and the answered status last, and with an error exactly if it has met one.
\<close>

definition operation_spans ::
    "string \<Rightarrow> (string \<times> attribute) list \<Rightarrow> bool \<Rightarrow> 's exec_env \<Rightarrow> 's execution option \<Rightarrow> run result \<Rightarrow> span list \<Rightarrow> bool" where
  "operation_spans name attrs failed E call res spans \<longleftrightarrow> (\<exists>inner sp. spans = inner @ [sp] \<and> sp_name sp = name \<and>
     (\<exists>others. sp_attributes sp = attrs @ others) \<and> (marked sp \<longleftrightarrow> failed) \<and>
     (if failed then True else \<exists>r. res = Inr r \<and>
        last (sp_attributes sp) = (''run.status'', AString (run_status_text (run_Status r)))) \<and>
     (case call of None \<Rightarrow> inner = [] | Some c \<Rightarrow> run_traced E c res inner))"

lemma failed_spans:
  assumes "sp_name sp = name" and "sp_attributes sp = attrs @ others"
  shows "\<exists>spans. fail_span e c sp (a, tr) = (Inl e, a, tr @ spans) \<and> operation_spans name attrs True E None (Inl e) spans"
  using assms by (auto simp: fail_span_def end_span_def operation_spans_def)

lemma answered_spans:
  assumes "sp_name sp = name" and "sp_attributes sp = attrs @ others" and "\<not> marked sp"
  shows "\<exists>spans. answer_span r sp (a, tr) = (Inr r, a, tr @ spans) \<and> operation_spans name attrs False E None (Inr r) spans"
  using assms by (auto simp: answer_span_def end_span_def operation_spans_def)

lemma after_executeRun_spans:
  assumes "executeRun E r g input st s = Some (res, s')" and "\<not> marked sp" and "sp_name sp = name"
    and "sp_attributes sp = attrs @ others"
  shows "\<exists>spans. after_executeRun sp (traced_executeRun E r g input st (s, tr)) = Some (res, (s', tr @ spans)) \<and>
    operation_spans name attrs (isl res) E (Some (r, g, input, st, s)) res spans"
proof -
  obtain inner where inner: "traced_executeRun E r g input st (s, tr) = Some (res, (s', tr @ inner))"
      "run_traced E (r, g, input, st, s) res inner"
    using traced_executeRun_spans [OF assms(1), of tr] by blast
  let ?sp = "case res of Inl e \<Rightarrow> recordTraceError (Some e) sp | Inr r \<Rightarrow> set_status r sp"
  have "after_executeRun sp (Some (res, (s', tr @ inner))) = Some (res, (s', tr @ inner @ [?sp]))"
    by (auto simp: after_executeRun_def fail_span_def answer_span_def end_span_def split: sum.split)
  moreover have "operation_spans name attrs (isl res) E (Some (r, g, input, st, s)) res (inner @ [?sp])"
    unfolding operation_spans_def using inner(2) assms(2-)
    by (intro exI [of _ inner] exI [of _ ?sp]) (auto split: sum.split)
  ultimately show ?thesis using inner(1) by auto
qed

lemma traced_ExecuteSync_spans:
  assumes "ExecuteSync E t k input s = Some (res, s')" and "trim_space t \<noteq> []"
  shows "\<exists>spans. traced_ExecuteSync E t k input (s, tr) = Some (res, (s', tr @ spans)) \<and>
    operation_spans ''workflow.run.sync'' [(''tenant.id'', AString t), (''workflow.id'', AString k),
      (''run.trigger_mode'', AString ''sync'')] (isl res) E (sync_execution E t k input s) res spans"
    and "as_executed E (sync_execution E t k input s) (Some (res, s'))"
proof -
  let ?attrs = "[(''tenant.id'', AString t), (''workflow.id'', AString k), (''run.trigger_mode'', AString ''sync'')]"
  let ?sp = "startTrace ''workflow.run.sync'' ?attrs"
  show "\<exists>spans. traced_ExecuteSync E t k input (s, tr) = Some (res, (s', tr @ spans)) \<and>
    operation_spans ''workflow.run.sync'' ?attrs (isl res) E (sync_execution E t k input s) res spans"
    using assms after_executeRun_spans [of E _ _ input _ _ res s' "set_attribute ''run.id'' (AString _) ?sp"
        "''workflow.run.sync''" ?attrs _ tr]
    by (auto simp: ExecuteSync_def traced_ExecuteSync_def sync_execution_def Let_def
        failed_spans [of _ _ ?attrs "[]"] failed_spans [of _ _ ?attrs "[_]"]
        split: if_splits sum.splits prod.splits option.splits)
  show "as_executed E (sync_execution E t k input s) (Some (res, s'))"
    using assms by (auto simp: ExecuteSync_def sync_execution_def as_executed_def Let_def
        split: if_splits sum.splits prod.splits option.splits)
qed

lemma traced_ExecuteAsync_spans:
  assumes "ExecuteAsync E t k input s = (res, s')" and "trim_space t \<noteq> []"
  shows "\<exists>spans. traced_ExecuteAsync E t k input (s, tr) = (res, (s', tr @ spans)) \<and>
    operation_spans ''workflow.run.async.enqueue'' [(''tenant.id'', AString t), (''workflow.id'', AString k),
      (''run.trigger_mode'', AString ''async'')] (isl res) E None res spans"
proof -
  let ?attrs = "[(''tenant.id'', AString t), (''workflow.id'', AString k), (''run.trigger_mode'', AString ''async'')]"
  show ?thesis
    using assms
    by (auto simp: ExecuteAsync_def traced_ExecuteAsync_def Let_def failed_spans [of _ _ ?attrs "[]"]
        failed_spans [of _ _ ?attrs "[_]"] answered_spans [of _ _ ?attrs "[_]"]
        split: if_splits sum.splits prod.splits option.splits)
qed

lemma traced_ResumeApproval_spans:
  assumes "ResumeApproval E t k approved comment input s = Some (res, s')" and "trim_space t \<noteq> []"
  shows "\<exists>spans. traced_ResumeApproval E t k approved comment input (s, tr) = Some (res, (s', tr @ spans)) \<and>
    operation_spans ''workflow.run.resume'' [(''tenant.id'', AString t), (''run.id'', AString k),
      (''approval.approved'', ABool approved)] (isl res) E (resume_execution E t k approved comment input s) res spans"
    and "as_executed E (resume_execution E t k approved comment input s) (Some (res, s'))"
proof -
  let ?attrs = "[(''tenant.id'', AString t), (''run.id'', AString k), (''approval.approved'', ABool approved)]"
  let ?sp = "startTrace ''workflow.run.resume'' ?attrs"
  have rejected: "\<exists>spans. traced_reject E r steps rejection (set_attribute ''workflow.id'' x
          (startTrace ''workflow.run.resume'' [(''tenant.id'', AString t), (''run.id'', AString k),
            (''approval.approved'', ABool b)])) (a, tr) =
        (res, (s', tr @ spans)) \<and>
      operation_spans ''workflow.run.resume'' [(''tenant.id'', AString t), (''run.id'', AString k),
        (''approval.approved'', ABool b)] (isl res) E None res spans"
    if "complete_run E ''complete rejected run'' r steps ''run_failed'' (run_Error r) rejection a = (res, s')"
    for r steps rejection x a b
    using traced_complete_run_spans [OF that, of "set_attribute ''workflow.id'' x (startTrace ''workflow.run.resume''
        [(''tenant.id'', AString t), (''run.id'', AString k), (''approval.approved'', ABool b)])"]
    by (cases res) (auto simp: traced_reject_def end_span_def operation_spans_def given_def)
  show "\<exists>spans. traced_ResumeApproval E t k approved comment input (s, tr) = Some (res, (s', tr @ spans)) \<and>
    operation_spans ''workflow.run.resume'' ?attrs (isl res) E (resume_execution E t k approved comment input s) res spans"
    using assms after_executeRun_spans [of E _ _ _ _ _ res s' "set_attribute ''workflow.id'' (AString _) ?sp"
        "''workflow.run.resume''" ?attrs _ tr]
    by (auto simp: ResumeApproval_def traced_ResumeApproval_def resume_execution_def Let_def rejected
        failed_spans [of _ _ ?attrs "[]"] failed_spans [of _ _ ?attrs "[_]"]
        split: if_splits sum.splits prod.splits option.splits)
  show "as_executed E (resume_execution E t k approved comment input s) (Some (res, s'))"
    using assms by (auto simp: ResumeApproval_def resume_execution_def as_executed_def Let_def
        split: if_splits sum.splits prod.splits option.splits)
qed

text \<open>A job whose run is queued but is not executed meets an error, even if the failed run can be answered.\<close>

definition job_failed :: "'s exec_env \<Rightarrow> async_job \<Rightarrow> run result \<Rightarrow> 's \<Rightarrow> bool" where
  "job_failed E job res s \<longleftrightarrow> isl res \<or>
     (case ee_GetRun E (job_TenantID job) (job_RunID job) s of
        Inl e \<Rightarrow> True | Inr r \<Rightarrow> run_Status r = RunStatusQueued \<and> job_execution E job r s = None)"

definition queued_execution :: "'s exec_env \<Rightarrow> async_job \<Rightarrow> 's \<Rightarrow> 's execution option" where
  "queued_execution E job s =
     (case ee_GetRun E (job_TenantID job) (job_RunID job) s of
        Inl e \<Rightarrow> None
      | Inr r \<Rightarrow> if run_Status r = RunStatusQueued then job_execution E job r s else None)"

lemma traced_ProcessAsyncJob_spans:
  assumes "ProcessAsyncJob E job s = Some (res, s')" and "trim_space (job_TenantID job) \<noteq> []"
  shows "\<exists>spans. traced_ProcessAsyncJob E job (s, tr) = Some (res, (s', tr @ spans)) \<and>
    operation_spans ''workflow.run.async.process'' (jobTraceAttributes job) (job_failed E job res s) E
      (queued_execution E job s) res spans"
    and "as_executed E (queued_execution E job s) (Some (res, s'))"
proof -
  let ?sp = "startTrace ''workflow.run.async.process'' (jobTraceAttributes job)"
  have gone: "\<exists>spans. traced_fail_job E c r e ?sp (a, tr) = (res, (s', tr @ spans)) \<and>
      operation_spans ''workflow.run.async.process'' (jobTraceAttributes job) True E None res spans"
    if "fail_job E c r e a = (res, s')" for c r e a
    using that by (auto simp: fail_job_def traced_fail_job_def Let_def end_span_def operation_spans_def
        split: prod.splits option.splits)
  note failed = failed_spans [of ?sp _ "jobTraceAttributes job" "[]"]
  show "\<exists>spans. traced_ProcessAsyncJob E job (s, tr) = Some (res, (s', tr @ spans)) \<and>
    operation_spans ''workflow.run.async.process'' (jobTraceAttributes job) (job_failed E job res s) E
      (queued_execution E job s) res spans"
  proof (cases "ee_GetRun E (job_TenantID job) (job_RunID job) s")
    case (Inr r)
    show ?thesis
    proof (cases "run_Status r = RunStatusQueued")
      case True
      then show ?thesis
        using assms Inr after_executeRun_spans [of E _ _ _ _ _ res s' ?sp "''workflow.run.async.process''"
            "jobTraceAttributes job" "[]" tr]
        by (auto simp: ProcessAsyncJob_def traced_ProcessAsyncJob_def queued_execution_def job_execution_def job_failed_def
            Let_def failed gone split: sum.splits prod.splits option.splits)
    next
      case False
      then have "res = Inr r" "s' = s" using assms Inr by (auto simp: ProcessAsyncJob_def)
      then show ?thesis
        using assms(2) Inr False answered_spans [of ?sp _ "jobTraceAttributes job" "[]" r s tr E]
        by (simp add: traced_ProcessAsyncJob_def queued_execution_def job_failed_def Let_def)
    qed
  next
    case (Inl e)
    then have "res = Inl e" "s' = s" using assms by (auto simp: ProcessAsyncJob_def)
    then show ?thesis
      using assms(2) Inl by (simp add: traced_ProcessAsyncJob_def queued_execution_def job_failed_def failed Let_def)
  qed
  show "as_executed E (queued_execution E job s) (Some (res, s'))"
    using assms by (auto simp: ProcessAsyncJob_def queued_execution_def job_execution_def as_executed_def Let_def
        split: if_splits sum.splits prod.splits option.splits)
qed

text \<open>The worker's own span, after those of the job: marked exactly when the turn answers an error.\<close>

definition worker_spans :: "span list \<Rightarrow> bool \<times> goerr option \<Rightarrow> bool" where
  "worker_spans spans answer \<longleftrightarrow>
     (if fst answer then \<exists>inner sp. spans = inner @ [sp] \<and> sp_name sp = ''worker.process_next'' \<and>
        (marked sp \<longleftrightarrow> snd answer \<noteq> None)
      else spans = [])"

lemma worker_spansI:
  "sp_name sp = ''worker.process_next'' \<Longrightarrow> (marked sp \<longleftrightarrow> err \<noteq> None) \<Longrightarrow> worker_spans (inner @ [sp]) (True, err)"
  by (simp add: worker_spans_def)

lemma traced_retry_job_spans:
  assumes "retry_job W job r s = (answer, s')" and "sp_name sp = ''worker.process_next''" and "\<not> marked sp"
  shows "\<exists>spans. traced_retry_job W job r sp (s, tr) = (answer, (s', tr @ spans)) \<and> worker_spans (inner @ spans) answer"
  using assms
  by (auto simp: retry_job_def traced_retry_job_def Let_def end_span_def worker_spans_def
      split: prod.splits sum.splits option.splits)

lemma traced_ProcessNext_spans:
  assumes "ProcessNext W s = Some (answer, s')"
  shows "\<exists>spans. traced_ProcessNext W (s, tr) = Some (answer, (s', tr @ spans)) \<and> worker_spans spans answer"
proof -
  obtain got s1 where got: "wk_Dequeue W (wk_pollTimeout W) s = (got, s1)" by (metis prod.collapse)
  show ?thesis
  proof (cases "\<exists>job. got = Inr (Some job)")
    case False
    then show ?thesis
      using assms got by (auto simp: ProcessNext_def traced_ProcessNext_def worker_spans_def split: sum.splits option.splits)
  next
    case True
    then obtain job where job: "got = Inr (Some job)" by blast
    obtain res s2 where run: "ProcessAsyncJob (wk_exec W) job s1 = Some (res, s2)"
      using assms got job by (auto simp: ProcessNext_def split: option.splits)
    obtain inner where inner: "traced_ProcessAsyncJob (wk_exec W) job (s1, tr) = Some (res, (s2, tr @ inner))"
    proof (cases "trim_space (job_TenantID job) = []")
      case True
      then show ?thesis using run that [of "[]"] by (simp add: ProcessAsyncJob_def traced_ProcessAsyncJob_def)
    next
      case False
      then show ?thesis using traced_ProcessAsyncJob_spans(1) [OF run False] that by blast
    qed
    let ?sp = "startTrace ''worker.process_next'' (jobTraceAttributes job)"
    have retried: "\<exists>spans. traced_retry_job W job r ?sp (s2, tr @ inner) = (answer, (s', tr @ spans)) \<and> worker_spans spans answer"
      if "retry_job W job r s2 = (answer, s')" for r
      using traced_retry_job_spans [OF that, of ?sp "tr @ inner" inner] by auto
    show ?thesis
      using assms got job run inner retried
      by (auto simp: ProcessNext_def traced_ProcessNext_def Let_def end_span_def worker_spansI
          split: sum.splits prod.splits if_splits)
  qed
qed

section \<open>Properties\<close>

text \<open>C33: traces change nothing and tell what was done: with its spans each operation of the executor answers what
  it answers without, in the same state. If it executes a run (\<open>sync_execution\<close>, \<open>resume_execution\<close>,
  \<open>queued_execution\<close>: the arguments of \<open>executeRun\<close>, whose answer is then its own), the spans that it ends are
  exactly: one for every step that was executed, in order, with the step's run, node, id, status or error;
  one of the run, with its attributes and the answered status; and its own. If it executes none there is only
  its own, with the attributes it starts with and the answered status, or an error if it has met one.\<close>
theorem runs_are_traced:
  assumes "trim_space t \<noteq> []" and "job_TenantID job = t"
  shows "(\<exists>res s' spans. ExecuteSync E t k input s = Some (res, s') \<and>
      traced_ExecuteSync E t k input (s, tr) = Some (res, (s', tr @ spans)) \<and>
      as_executed E (sync_execution E t k input s) (Some (res, s')) \<and>
      operation_spans ''workflow.run.sync'' [(''tenant.id'', AString t), (''workflow.id'', AString k),
        (''run.trigger_mode'', AString ''sync'')] (isl res) E (sync_execution E t k input s) res spans) \<and>
    (\<exists>res s' spans. ExecuteAsync E t k input s = (res, s') \<and>
      traced_ExecuteAsync E t k input (s, tr) = (res, (s', tr @ spans)) \<and>
      operation_spans ''workflow.run.async.enqueue'' [(''tenant.id'', AString t), (''workflow.id'', AString k),
        (''run.trigger_mode'', AString ''async'')] (isl res) E None res spans) \<and>
    (\<exists>res s' spans. ResumeApproval E t runID approved comment input s = Some (res, s') \<and>
      traced_ResumeApproval E t runID approved comment input (s, tr) = Some (res, (s', tr @ spans)) \<and>
      as_executed E (resume_execution E t runID approved comment input s) (Some (res, s')) \<and>
      operation_spans ''workflow.run.resume'' [(''tenant.id'', AString t), (''run.id'', AString runID),
        (''approval.approved'', ABool approved)] (isl res) E
        (resume_execution E t runID approved comment input s) res spans) \<and>
    (\<exists>res s' spans. ProcessAsyncJob E job s = Some (res, s') \<and>
      traced_ProcessAsyncJob E job (s, tr) = Some (res, (s', tr @ spans)) \<and>
      as_executed E (queued_execution E job s) (Some (res, s')) \<and>
      operation_spans ''workflow.run.async.process'' (jobTraceAttributes job) (job_failed E job res s) E
        (queued_execution E job s) res spans)"
proof -
  obtain res1 s1 where sync: "ExecuteSync E t k input s = Some (res1, s1)"
    using ExecuteSync_total [of E t k input s] by auto
  obtain res2 s2 where async: "ExecuteAsync E t k input s = (res2, s2)" by (metis prod.collapse)
  obtain res3 s3 where decision: "ResumeApproval E t runID approved comment input s = Some (res3, s3)"
    using ResumeApproval_total [of E t runID approved comment input s] by auto
  obtain res4 s4 where work: "ProcessAsyncJob E job s = Some (res4, s4)"
    using ProcessAsyncJob_total [of E job s] by auto
  have tenant: "trim_space (job_TenantID job) \<noteq> []" using assms by simp
  show ?thesis
    using traced_ExecuteSync_spans [OF sync assms(1)] traced_ExecuteAsync_spans [OF async assms(1), of tr]
      traced_ResumeApproval_spans [OF decision assms(1)] traced_ProcessAsyncJob_spans [OF work tenant]
      sync async decision work
    by (intro conjI) blast+
qed

text \<open>A turn of the worker with its span answers what it answers without.\<close>

theorem worker_turn_traced:
  assumes "ProcessNext W s = Some (answer, s')"
  shows "\<exists>spans. traced_ProcessNext W (s, tr) = Some (answer, (s', tr @ spans)) \<and> worker_spans spans answer"
  by (rule traced_ProcessNext_spans [OF assms])

section \<open>Examples\<close>

definition failing_env :: "unit exec_env" where
  "failing_env = demo_env\<lparr>ee_workflows_Get := (\<lambda>t k s. Inr (new_workflow k t failing_flow 0))\<rparr>"

lemma failing_sync:
  "case traced_ExecuteSync failing_env ''acme'' ''w'' [] ((), []) of
     Some (Inr r, (s, spans)) \<Rightarrow> run_Status r = RunStatusFailed \<and>
       map sp_name spans = [''workflow.step'', ''workflow.step'', ''workflow.run.execute'', ''workflow.run.sync''] \<and>
       map marked spans = [False, True, False, False]
   | _ \<Rightarrow> False"
  by code_simp

theorem runs_are_traced_witness:
  "\<exists>r s' spans. ExecuteSync failing_env ''acme'' ''w'' [] () = Some (Inr r, s') \<and> run_Status r = RunStatusFailed \<and>
     traced_ExecuteSync failing_env ''acme'' ''w'' [] ((), []) = Some (Inr r, (s', spans)) \<and>
     map sp_name spans = [''workflow.step'', ''workflow.step'', ''workflow.run.execute'', ''workflow.run.sync''] \<and>
     map marked spans = [False, True, False, False]"
proof -
  have "trim_space ''acme'' \<noteq> []" by code_simp
  moreover have "job_TenantID ((new_job (demo_run ''r1'' 1) [])\<lparr>job_TenantID := ''acme''\<rparr>) = ''acme''" by simp
  ultimately obtain res s' spans where
    "ExecuteSync failing_env ''acme'' ''w'' [] () = Some (res, s')"
    "traced_ExecuteSync failing_env ''acme'' ''w'' [] ((), []) = Some (res, (s', [] @ spans))"
    using runs_are_traced [of "''acme''" _ failing_env "''w''" "[]" "()" "[]" "[]" False "[]"] by blast
  then show ?thesis using failing_sync by (auto split: sum.splits)
qed

end
