(* ===== verification/Request_Log.thy ===== *)
theory Request_Log
  imports Api Tracing
begin

text \<open>
  \<open>internal/api/server.go\<close> and \<open>internal/auth/context.go\<close>: the identity in a request's context, the writer that
  remembers the status of an answer, and the log entry and span of each request.
\<close>

section \<open>The identity in the context\<close>

text \<open>A context is a chain of values; the type of a key belongs to the package that made it.\<close>

datatype context_key = IdentityContextKey | OtherKey string

datatype context_value = IdentityValue identity | OtherValue string

type_synonym request_context = "(context_key \<times> context_value) list"

definition ContextWithIdentity :: "request_context \<Rightarrow> identity \<Rightarrow> request_context" where
  "ContextWithIdentity c i = (IdentityContextKey, IdentityValue i) # c"

definition IdentityFromContext :: "request_context \<Rightarrow> identity option" where
  "IdentityFromContext c =
     (case map_of c IdentityContextKey of Some (IdentityValue i) \<Rightarrow> Some i | _ \<Rightarrow> None)"

lemma IdentityFromContext_with [simp]: "IdentityFromContext (ContextWithIdentity c i) = Some i"
  by (simp add: IdentityFromContext_def ContextWithIdentity_def)

lemma IdentityFromContext_other [simp]: "IdentityFromContext ((OtherKey k, v) # c) = IdentityFromContext c"
  by (simp add: IdentityFromContext_def)

text \<open>Behind the check of the key, a handler finds in the context the identity that the check put there.\<close>

theorem handler_has_identity:
  assumes "av_auth A = Some U" and "Authenticate U (ar_Header req ''X-API-Key'') = Inr i"
  shows "requireAPIKey A (\<lambda>_. h (IdentityFromContext (ContextWithIdentity c i))) req s = requireAPIKey A h req s"
    and "currentIdentity (IdentityFromContext (ContextWithIdentity c i)) = Inr i"
  using assms by (simp_all add: requireAPIKey_def currentIdentity_def Authenticate_def)

section \<open>The recorder\<close>

text \<open>
  \<open>statusCode\<close> is that of the last \<open>WriteHeader\<close>. The response writer of \<open>net/http\<close> sends the first, and ignores
  the others.
\<close>

record status_recorder =
  sr_statusCode :: int
  sr_sent :: "int option"

definition WriteHeader :: "int \<Rightarrow> status_recorder \<Rightarrow> status_recorder" where
  "WriteHeader code sr =
     \<lparr>sr_statusCode = code, sr_sent = Some (case sr_sent sr of None \<Rightarrow> code | Some first \<Rightarrow> first)\<rparr>"

text \<open>
  An answer of \<open>writeJSON\<close> written to the recorder: the header, then the body; the encoder may refuse the body, then
  \<open>http.Error\<close> writes a header too. The answer of the router is a text and cannot be refused.
\<close>

definition write_response :: "(payload \<Rightarrow> goerr option) \<Rightarrow> api_response \<Rightarrow> status_recorder \<Rightarrow> status_recorder" where
  "write_response encode_error resp sr =
     (let sr1 = WriteHeader (ap_Status resp) sr in
      case encode_error (ap_Body resp) of None \<Rightarrow> sr1 | Some e \<Rightarrow> WriteHeader 500 sr1)"

section \<open>The logger\<close>

record span_context =
  sc_IsValid :: bool
  sc_TraceID :: string
  sc_SpanID :: string

definition traceLogFields :: "span_context \<Rightarrow> string \<times> string" where
  "traceLogFields c = (if \<not> sc_IsValid c then ([], []) else (sc_TraceID c, sc_SpanID c))"

record log_entry =
  lg_method :: string
  lg_path :: string
  lg_status_code :: int
  lg_duration_ms :: int
  lg_remote_addr :: string
  lg_trace_id :: string
  lg_span_id :: string

text \<open>What the log takes of a request beside its method, and the texts of \<open>http.StatusText\<close>.\<close>

record log_input =
  li_path :: string
  li_remote_addr :: string
  li_span :: span_context
  li_StatusText :: "int \<Rightarrow> string"

definition requestLogger ::
    "('s \<Rightarrow> time \<times> 's) \<Rightarrow> log_input \<Rightarrow> string \<Rightarrow> (status_recorder \<Rightarrow> 's \<Rightarrow> (('a \<times> status_recorder) \<times> 's) option) \<Rightarrow> 's \<Rightarrow>
     (('a \<times> log_entry \<times> span) \<times> 's) option" where
  "requestLogger now I http_method handler s =
     (case now s of (start, s1) \<Rightarrow>
        let sp = startTrace ''http.request'' [(''http.method'', AString http_method), (''http.path'', AString (li_path I))];
            recorder = \<lparr>sr_statusCode = 200, sr_sent = None\<rparr>
        in case handler recorder s1 of
             None \<Rightarrow> None
           | Some ((answer, sr), s2) \<Rightarrow>
               (case now s2 of (ended, s3) \<Rightarrow>
                  let durationMS = duration_ms (ended - start);
                      sp1 = set_attribute ''http.duration_ms'' (AInt durationMS)
                              (set_attribute ''http.status_code'' (AInt (sr_statusCode sr)) sp);
                      sp2 = (if 500 \<le> sr_statusCode sr
                             then sp1\<lparr>sp_status := Some (li_StatusText I (sr_statusCode sr))\<rparr> else sp1);
                      (traceID, spanID) = traceLogFields (li_span I)
                  in Some ((answer,
                       \<lparr>lg_method = http_method, lg_path = li_path I, lg_status_code = sr_statusCode sr,
                        lg_duration_ms = durationMS, lg_remote_addr = li_remote_addr I, lg_trace_id = traceID,
                        lg_span_id = spanID\<rparr>, sp2), s3)))"

text \<open>The handler of the API behind the logger (\<open>NewHandler\<close>).\<close>

definition logged_request ::
    "'s api_env \<Rightarrow> (payload \<Rightarrow> goerr option) \<Rightarrow> log_input \<Rightarrow> api_request \<Rightarrow> 's \<Rightarrow>
     (((api_response \<times> int option) \<times> log_entry \<times> span) \<times> 's) option" where
  "logged_request A encode_error I req =
     requestLogger (av_now A) I (ar_Method req)
       (\<lambda>sr s. case handle_request A req s of
          None \<Rightarrow> None
        | Some (resp, s') \<Rightarrow>
            let sr1 = write_response encode_error resp sr in Some (((resp, sr_sent sr1), sr1), s'))"

section \<open>What is logged\<close>

text \<open>
  A request that is answered is logged with the status that the client got, and its span has an error if that is
  500 or more. An answer whose body cannot be encoded is the exception: the client gets its status,
  not the 500 of the log.
\<close>

theorem request_logged:
  assumes "logged_request A encode_error I req s = Some (((resp, sent), entry, sp), s')"
  shows "sent = Some (ap_Status resp)"
    and "encode_error (ap_Body resp) = None \<Longrightarrow> lg_status_code entry = ap_Status resp \<and> (marked sp \<longleftrightarrow> 500 \<le> ap_Status resp)"
    and "encode_error (ap_Body resp) = Some e \<Longrightarrow> lg_status_code entry = 500 \<and> marked sp"
  using assms
  by (auto simp: logged_request_def requestLogger_def write_response_def WriteHeader_def Let_def traceLogFields_def
      marked_def startTrace_def set_attribute_def split: prod.splits option.splits if_splits)

text \<open>The logger changes nothing of the answer: it is the handler's, between two readings of the clock.\<close>

theorem logged_request_answer:
  assumes "av_now A s = (start, s1)"
  shows "map_option (\<lambda>x. (fst (fst (fst x)), snd x)) (logged_request A encode_error I req s) =
    map_option (\<lambda>(resp, s2). (resp, snd (av_now A s2))) (handle_request A req s1)"
  using assms
  by (auto simp: logged_request_def requestLogger_def Let_def split: prod.splits option.splits)

end
