(* ===== verification/Spec2Isabelle.thy ===== *)
theory Spec2Isabelle
  imports Lifecycle Api_Program Run_Frames Api_Quota Redis Config Outputs Pg_Execution Races Key_Races Worker_Loop Wiring Request_Log
begin

text \<open>
  A model of the AI workflow service (a Go program): tenants upload documents and define workflows,
  graphs of nodes (retrieval, language model, HTTP tool, condition, audit log, approval); runs of a
  workflow are executed synchronously, or as jobs of a queue that a worker takes up, stop for
  approvals and are resumed. Source paths below are relative to \<open>src/internal\<close>.

  \<^bold>\<open>Values and conventions.\<close> Strings are lists of bytes. A Go error is a value of \<open>goerr\<close> (a sentinel,
  an anonymous error, or one wrapped by \<open>fmt.Errorf\<close>), a fallible operation returns \<open>goerr + 'a\<close>. Structs
  are records (\<open>run_Status\<close> is the field \<open>Status\<close> of \<open>Run\<close>), string enumerations datatypes. A dynamic value
  (\<open>any\<close>) is an \<open>anyv\<close>; a map of dynamic values is an association list with distinct keys, other Go maps
  are HOL maps. Counters, limits and times are integers; the retry delay is a 64-bit word, because
  it overflows. A service is a record of the operations it was given (\<open>'s doc_env\<close>, \<open>'s wf_env\<close>,
  \<open>'s exec_env\<close>, \<open>'s worker_env\<close>) over an arbitrary state \<open>'s\<close>, and its operations pass the state on; the
  same definitions therefore describe a service with any repository.

  \<^bold>\<open>Theories.\<close>
  \<^item> \<open>Prelude\<close>: errors, times, stable sorting by a comparison function (locale \<open>comparator\<close>), the contract
    of tenant-scoped stores (locale \<open>scoped_store\<close>).
  \<^item> \<open>GoStrings\<close>: the functions of \<open>strings\<close> and \<open>path/filepath\<close> that the code uses, with UTF-8 white space.
    Case mapping is that of ASCII.
  \<^item> \<open>Documents\<close> (\<open>documents/service.go\<close>): repository, upload, chunking. Chunking is lossless, bounded and
    greedy; an upload stores document and chunks under the tenant and inside its directory.
  \<^item> \<open>ObjectStore\<close> (\<open>documents/local_store.go\<close>), \<open>Ids\<close> (\<open>platform/ids/ids.go\<close>).
  \<^item> \<open>Values\<close> (\<open>executor/helpers.go\<close>): dynamic values, their JSON text, configuration readers, the queue of
    nodes. \<open>Egress\<close> (\<open>platform/egress/policy.go\<close>): which URLs an HTTP tool may call.
  \<^item> \<open>Workflows\<close> (\<open>workflow/service.go\<close>): the validator, equivalent to the declarative \<open>well_formed\<close>, and the
    service. \<open>Graph\<close> (\<open>executor/graph.go\<close>): the graph of a definition and the routing of conditions.
  \<^item> \<open>Tenants\<close> (\<open>tenant/service.go\<close>, \<open>tenant/controls.go\<close>): quotas, idempotency records. \<open>Auth\<close>
    (\<open>auth/service.go\<close>) and \<open>Bootstrap\<close> (\<open>platform/config/bootstrap.go\<close>, \<open>platform/bootstrap/repositories.go\<close>):
    who gets in. \<open>AuditLog\<close> (\<open>audit/service.go\<close>): the audit trail.
  \<^item> \<open>RunStore\<close> (\<open>executor/service.go\<close>): runs, steps, pending states and the in-memory repository. \<open>Nodes\<close>
    (\<open>executor/nodes.go\<close>): what each type of node computes.
  \<^item> \<open>Engine\<close>, \<open>Engine_Run\<close> (\<open>executor/engine.go\<close>): the execution loop, once as the partial function
    \<open>exec_loop\<close>, as the code has it, and once as the step relation \<open>loop_step\<close>, which the two are shown to
    agree on; the invariant \<open>engine_ok\<close> of an active run; that a finished run of a validated workflow
    has executed exactly the reached nodes, once each, however many approvals it waited for. \<open>Outputs\<close>:
    the types of the dynamic outputs of nodes, which the engine preserves.
  \<^item> \<open>Executor\<close> (\<open>executor/service.go\<close>, \<open>executor/async.go\<close>): synchronous and asynchronous runs, approvals,
    retries, dead letters; the locale \<open>run_repository\<close> says what they need of a repository, and
    \<open>node_effects\<close> and \<open>effect_frame\<close> what the effects of nodes leave alone.
  \<^item> \<open>Worker\<close> (\<open>worker/service.go\<close>, \<open>worker/memory_queue.go\<close>): one turn of the worker, retry delays, the
    in-memory queue (locale \<open>fifo_queue\<close>).
  \<^item> \<open>Races\<close>: two decisions on one approval that overlap; \<open>ResumeApproval\<close> split into the stage that reads and the
    stage that writes. \<open>Key_Races\<close> (\<open>api/server.go\<close>): two requests with one idempotency key that overlap, which are both
    executed. \<open>Worker_Loop\<close> (\<open>worker/service.go\<close>): the worker's loop, why it stops and what is lost then.
  \<^item> \<open>S3Store\<close> (\<open>documents/s3_store.go\<close>): the object store in a bucket; what the code relies on of the server is
    the hypothesis \<open>s3_serves\<close>, which allows for other clients of the same bucket.
  \<^item> \<open>App\<close>, \<open>Program\<close>, \<open>Lifecycle\<close> (\<open>cmd/api/main.go\<close>): the services over one state \<open>world\<close> with the in-memory
    repositories; \<open>app_step\<close> is one operation of the program, \<open>reachable\<close> the states it can get to, and
    \<open>world_ok\<close> their invariant. The locales are interpreted here on the program's own operations.
  \<^item> \<open>Health\<close> (\<open>platform/health/service.go\<close>), \<open>Api\<close> (\<open>api/server.go\<close>): the HTTP handlers over any services, with
    the routes, the check of the API key in front of them and the mapping of errors to answers. \<open>Api_Program\<close>
    puts them over the program's own services: a request is a sequence of steps of \<open>app_step\<close>, so the
    invariants hold behind the API, an answer shows only the caller's data, and a replayed request
    executes nothing. \<open>Run_Frames\<close>: each operation writes at most one run, of the tenant it works for, whether it
    succeeds or fails (\<open>run_frame\<close>); so deliveries of jobs leave runs alone that are neither queued nor failed.
    \<open>Api_Quota\<close>: the runs of a tenant against its quota, over any sequence of requests, turns of the worker and timers
    while a window lasts (\<open>window_move\<close>).
  \<^item> \<open>Resp\<close>, \<open>Redis\<close> (\<open>worker/redis_queue.go\<close>): the wire protocol, byte by byte through a buffered reader, and
    the queue over it. What the code relies on of the server is the hypothesis \<open>serves\<close>: a view of the state
    as a \<open>redis_db\<close>, and for each of the five commands its answer and its effect there, as documented; the bytes of an answer
    arrive in any pieces. The reader of the code copes with that for numbers, not for payloads: the properties of
    taking jobs are restricted to answers of at most 4096 bytes that the network does not cut (\<open>uncut\<close>, \<open>all_fit\<close>, \<open>job_fits\<close>), and
    \<open>cut_answer_loses_job\<close> shows what happens otherwise. The operations are shown to refine operations on that
    view; \<open>demo_redis\<close> is a server with these laws.
  \<^item> \<open>Config\<close> (\<open>platform/config/config.go\<close>, \<open>cmd/api/main.go\<close>, \<open>cmd/worker/main.go\<close>): the configuration and what
    the two processes decide from it. \<open>Stats\<close> (\<open>benchmark/stats.go\<close>): the summaries of the benchmark.
  \<^item> \<open>Database\<close> (\<open>migrations\<close>), \<open>PgRuns\<close> (\<open>executor/postgres_repository.go\<close>), \<open>PgStores\<close> (\<open>postgres_repository.go\<close>
    of the other packages): the tables with their constraints, and the repositories as statements and
    transactions on them. The repository of runs is shown to refine the in-memory one (\<open>represents\<close>).
    \<open>PgKeys\<close> (\<open>platform/bootstrap/repositories.go\<close>): what seeding does to the keys of a database. \<open>PgProgram\<close>
    (\<open>cmd/api/main.go\<close>): the services over the database, and what becomes of documents and audit events.
  \<^item> \<open>Simulation\<close> (locale \<open>same_effects\<close>): effects that agree along a relation of two states give executions that
    agree. \<open>Pg_Execution\<close> uses it with the relation \<open>mirrors\<close> of a database and a memory: a whole synchronous
    execution, decision or job over PostgreSQL answers what the same operation answers over the memory
    (\<open>pg_sync_as_in_memory\<close>, \<open>pg_decision_as_in_memory\<close>, \<open>pg_job_as_in_memory\<close>).
  \<^item> \<open>Startup\<close> (\<open>platform/bootstrap/repositories.go\<close>, \<open>platform/persistence/postgres.go\<close>): opening the repositories, the
    pool of connections, and what a restart finds. \<open>Process\<close> (\<open>cmd/api/main.go\<close>, \<open>cmd/worker/main.go\<close>,
    \<open>platform/observability/tracing.go\<close>): the two processes from start to exit, and what is released on the way.
    \<open>Deployment\<close>: both processes over one database and one Redis queue, each with its own memory.
  \<^item> \<open>Tracing\<close> (\<open>executor/tracing.go\<close>): the operations of the executor and the worker with their spans, which answer
    what they answer without, and the exact spans that each operation ends: of every executed step, of the run, and its own
    (\<open>operation_spans\<close>). \<open>Request_Log\<close> (\<open>api/server.go\<close>, \<open>auth/context.go\<close>): the log entry of a request and
    the identity in its context.
  \<^item> \<open>Concurrent\<close>, \<open>Bench\<close>, \<open>Bench_Run\<close> (\<open>cmd/bench/main.go\<close>): the load generator. Its concurrent loop as atomic
    actions of workers under an arbitrary schedule, shown to be calls one after another; the tenants, documents
    and failures that it generates; and its phases over an HTTP client. \<open>Wiring\<close> (\<open>cmd\<close>): the constructors of the
    services; what the programs build with them are the services of the models.
  \<^item> This theory: properties that span the components.

  \<^bold>\<open>Loops.\<close> Loops over slices are structural recursion. The execution loop may in principle run for
  ever, so its value is optional and \<open>None\<close> is a run that does not return; \<open>loop_measure\<close> (the nodes not
  executed yet, then the length of the queue) decreases in each iteration, so it always returns
  (\<open>continueExecution_terminates\<close>, \<open>execution_always_returns\<close>). The loop that moves due jobs of the Redis
  queue is optional in the same way, and returns because each batch removes what it was given
  (\<open>promote_loop_moves\<close>). The benchmark's polling loop is optional too, and returns when the runs end
  (\<open>polling_ends\<close>); its concurrent loop takes a schedule and is \<open>None\<close> if that stops too early, and four rounds
  for each index and two for each worker, in which all workers act, are enough (\<open>forEachConcurrent_returns\<close>).
  The worker's loop is meant to run until its context ends; its value is what it returns then
  (\<open>worker_stops_only_by_context\<close>, \<open>worker_shutdown_ends\<close>). No fuel is used.

  \<^bold>\<open>Parameters.\<close> Code outside the repository is an argument of the model: \<open>url.Parse\<close> and \<open>net.ParseIP\<close>
  (\<open>net_lib\<close>), the text of floating point numbers, times and \<open>fmt.Sprint\<close> of composite values (\<open>gofmt\<close>),
  \<open>json.Unmarshal\<close>, the checks of \<open>http.NewRequest\<close>, SHA-256, random bytes, the clock, the answers of HTTP
  servers and the faults of the file system. In \<open>world\<close> the last four are functions of a counter that
  each such effect advances, so that a property holds for whatever they deliver. Around these: the
  decoders of request bodies and \<open>http.DetectContentType\<close> (\<open>api_lib\<close>), the router's answer to a request
  without a pattern, the network of the health checks, the Redis server, \<open>time.ParseDuration\<close> and
  \<open>strconv.ParseFloat\<close>. Of PostgreSQL and its driver (\<open>pg_lib\<close>): the precision of timestamps, which texts a
  text or JSON column takes and gives back, the order of texts, which statement fails (by the number of
  writes before it), and whether a commit whose answer is lost was carried out. The MinIO client (\<open>s3_client\<close>), and of the benchmark its
  HTTP client, its multipart writer and the decoding of answers (\<open>bench_env\<close>).

  \<^bold>\<open>Not modelled.\<close> The log beside the entries of requests, what the tracing library makes of the spans, the HTTP
  listener and the signals (what a process does while it serves is a parameter of \<open>Process\<close>), the parsing of the
  benchmark's flags and the goroutine of its worker. An operation of a service is one step of the program: the methods of
  repositories, trigger control and queue hold a lock and are atomic in the code too, but interleavings
  inside an operation, between two calls of a repository, are left out but for those in \<open>Races\<close> and \<open>Key_Races\<close>, as are
  cancelled contexts outside the worker, which the in-memory repositories ignore, and the time limit of a
  synchronous execution, which only the requests of HTTP tools could notice, whose answers are a parameter.
\<close>

section \<open>Runs in the reachable states\<close>

text \<open>C20: the state invariant of the program holds after any sequence of operations: every run is stored
  once and under its own id, a run that waits for an approval has its pending state with the waiting
  step last, and every chunk of a document belongs to the document's tenant.\<close>
theorem reachable_world_ok:
  assumes "reachable P w"
  shows "run_memory_ok (w_runs w) \<and> waiting_ok (w_runs w) \<and> documents_ok (w_documents w)"
  using reachable_ok [OF assms] by (simp add: world_ok_def)

theorem reachable_world_ok_witness:
  "waiting_ok (w_runs demo_start)"
  using reachable_world_ok [OF demo_start_reachable] by simp

text \<open>C12: the answer to a synchronous request is what is stored: the run is completed, failed or waiting
  for an approval, its tenant reads exactly the returned run, no other tenant reads it, and pending
  state exists exactly when it waits.\<close>
theorem sync_run_is_stored:
  assumes "ExecuteSync (app_executor P) t k input w = Some (Inr r, w')"
  shows "run_TenantID r = t \<and> run_mem_GetRun t (run_ID r) (w_runs w') = Inr r \<and>
    run_Status r \<in> {RunStatusCompleted, RunStatusFailed, RunStatusWaitingApproval} \<and>
    (run_Status r = RunStatusWaitingApproval) =
      (\<exists>steps p. run_mem_LoadPending t (run_ID r) (w_runs w') = Inr (r, steps, p)) \<and>
    (if t' = t then True else run_mem_GetRun t' (run_ID r) (w_runs w') = Inl exec_ErrNotFound)"
proof -
  have settled: "settled (app_executor P) t (run_ID r) r w'"
    by (rule app.ExecuteSync_settled [OF assms])
  then have own: "run_mem_GetRun t (run_ID r) (w_runs w') = Inr r" "run_TenantID r = t"
    by (simp_all add: settled_def app_executor_fields)
  have "t' \<noteq> t \<Longrightarrow> run_mem_GetRun t' (run_ID r) (w_runs w') = Inl exec_ErrNotFound"
    using own by (auto simp: run_mem_GetRun_def split: option.splits if_splits)
  then show ?thesis
    using settled own by (auto simp: settled_def app_executor_fields split: if_splits)
qed

theorem sync_run_is_stored_witness:
  "\<exists>r (w :: world). run_mem_GetRun ''acme'' (run_ID r) (w_runs w) = Inr r \<and>
     run_mem_GetRun ''globex'' (run_ID r) (w_runs w) = Inl exec_ErrNotFound"
proof -
  obtain r w where "ExecuteSync (app_executor demo_platform) ''acme'' [] [] demo_start = Some (Inr r, w)"
    by (rule ask_runE)
  from sync_run_is_stored [OF this, of "''globex''"] show ?thesis
    by (intro exI [of _ r] exI [of _ w]) simp
qed

text \<open>C4: an approval is decided once: after a decision that did not lead to another approval, every
  further decision on the run is refused and changes nothing; and a rejected run has failed.\<close>
theorem approval_decided_once:
  assumes "reachable P w"
    and "ResumeApproval (app_executor P) t k approved comment input w = Some (Inr r, w')"
    and "run_Status r \<noteq> RunStatusWaitingApproval"
  shows "ResumeApproval (app_executor P) t k approved2 comment2 input2 w' =
      Some (Inl ErrRunNotAwaitingReview, w') \<and>
    (if approved then True
     else run_Status r = RunStatusFailed \<and> run_Error r = ''approval rejected'' \<and>
          run_mem_GetRun t k (w_runs w') = Inr r)"
proof -
  have key: "ee_GetRun (app_executor P) t k w = Inr r0 \<Longrightarrow> run_ID r0 = k" for r0
    by (rule reachable_key [OF assms(1)])
  have "settled (app_executor P) t k r w'"
    "approved \<or> run_Status r = RunStatusFailed \<and> run_Error r = ''approval rejected''"
    using app.ResumeApproval_settled [OF assms(2) key] by blast+
  then show ?thesis
    using app.ResumeApproval_again [OF assms(2) key assms(3)]
    by (auto simp: settled_def app_executor_fields)
qed

text \<open>C35: a waiting run can always be rejected: in a reachable state, rejecting a run that waits, whose
  workflow is still there, fails the run; it is never refused as not awaiting review.\<close>
theorem waiting_run_can_be_rejected:
  assumes "reachable P w" and "run_mem_GetRun t k (w_runs w) = Inr r"
    and "run_Status r = RunStatusWaitingApproval" and "trim_space t \<noteq> []"
    and "workflows_Get (app_workflows P) t (run_WorkflowID r) w = Inr flow"
    and "buildGraph (wf_Definition flow) = Inr g"
  shows "\<exists>r' w'. ResumeApproval (app_executor P) t k False comment input w = Some (Inr r', w') \<and>
    run_Status r' = RunStatusFailed \<and> run_ID r' = k"
  by (rule reject_waiting [OF assms])

theorem waiting_run_can_be_rejected_witness:
  "\<exists>w r' w'. ResumeApproval (app_executor demo_platform) ''acme'' [] False ''no'' [] w = Some (Inr r', w') \<and>
     run_Status r' = RunStatusFailed"
proof -
  obtain r w where w: "reachable demo_platform w"
    and run: "ExecuteSync (app_executor demo_platform) ''acme'' [] [] demo_start = Some (Inr r, w)"
    and r: "run_Status r = RunStatusWaitingApproval" "run_ID r = []" and flow: "run_WorkflowID r = []"
      "workflows_Get (app_workflows demo_platform) ''acme'' [] w = Inr (new_workflow [] ''acme'' ask_flow 2)"
    by (rule ask_runE)
  have stored: "run_mem_GetRun ''acme'' [] (w_runs w) = Inr r"
    using app.ExecuteSync_settled [OF run] r(2) by (simp add: settled_def app_executor_fields)
  obtain g where "buildGraph ask_flow = Inr g" using ask_graph by blast
  then have g: "buildGraph (wf_Definition (new_workflow [] ''acme'' ask_flow 2)) = Inr g" by simp
  have named: "trim_space ''acme'' \<noteq> []" by (simp add: trim_acme)
  have "workflows_Get (app_workflows demo_platform) ''acme'' (run_WorkflowID r) w =
      Inr (new_workflow [] ''acme'' ask_flow 2)"
    using flow by simp
  from waiting_run_can_be_rejected [OF w stored r(1) named this g, of "''no''" "[]"]
  show ?thesis by blast
qed

theorem approval_decided_once_witness:
  "\<exists>w'. ResumeApproval (app_executor demo_platform) ''acme'' [] True ''yes'' [] w' =
     Some (Inl ErrRunNotAwaitingReview, w')"
proof -
  obtain r w where w: "reachable demo_platform w"
    and run: "ExecuteSync (app_executor demo_platform) ''acme'' [] [] demo_start = Some (Inr r, w)"
    and r: "run_Status r = RunStatusWaitingApproval" "run_ID r = []" and flow: "run_WorkflowID r = []"
      "workflows_Get (app_workflows demo_platform) ''acme'' [] w = Inr (new_workflow [] ''acme'' ask_flow 2)"
    by (rule ask_runE)
  have stored: "run_mem_GetRun ''acme'' [] (w_runs w) = Inr r"
    using app.ExecuteSync_settled [OF run] r(2) by (simp add: settled_def app_executor_fields)
  obtain g where "buildGraph ask_flow = Inr g" using ask_graph by blast
  then have g: "buildGraph (wf_Definition (new_workflow [] ''acme'' ask_flow 2)) = Inr g" by simp
  have named: "trim_space ''acme'' \<noteq> []" by (simp add: trim_acme)
  have "workflows_Get (app_workflows demo_platform) ''acme'' (run_WorkflowID r) w =
      Inr (new_workflow [] ''acme'' ask_flow 2)"
    using flow by simp
  from reject_waiting [OF w stored r(1) named this g, of "''no''" "[]"]
  obtain r' w' where rejected:
    "ResumeApproval (app_executor demo_platform) ''acme'' [] False ''no'' [] w = Some (Inr r', w')"
    "run_Status r' = RunStatusFailed" by blast
  then have "run_Status r' \<noteq> RunStatusWaitingApproval" by simp
  from approval_decided_once [OF w rejected(1) this] show ?thesis by blast
qed

section \<open>Attempts of asynchronous runs\<close>

text \<open>C13: the worker counts the attempts of a run whose workflow it can read: when a turn of the worker takes
  a job of a queued run, with a positive maximum of attempts, whose workflow can be read and has a graph, and
  the turn reports no error, then the stored run has one attempt more than the job says; it is queued again,
  with the job scheduled for the next attempt, only while attempts are left, is dead-lettered only when they
  are used up, and otherwise has completed or waits for an approval. (A workflow that cannot be read is
  the case of \<open>missing_workflow_not_counted\<close>, where nothing is counted.)\<close>
theorem worker_counts_attempts:
  assumes "reachable P w" and "mq_jobs (w_queue w) = job # rest"
    and "trim_space (job_TenantID job) \<noteq> []"
    and "run_mem_GetRun (job_TenantID job) (job_RunID job) (w_runs w) = Inr r0"
    and "run_Status r0 = RunStatusQueued"
    and "workflows_Get (app_workflows P) (job_TenantID job) (job_WorkflowID job) w = Inr flow"
    and "buildGraph (wf_Definition flow) = Inr g" and "0 < job_MaxAttempts job"
    and "ProcessNext (app_worker P) w = Some ((True, None), w')"
  shows "\<exists>r. run_mem_GetRun (job_TenantID job) (job_RunID job) (w_runs w') = Inr r \<and>
    run_Attempt r = job_Attempt job + 1 \<and> run_MaxAttempts r = job_MaxAttempts job \<and>
    (if run_Status r = RunStatusQueued then run_Attempt r < run_MaxAttempts r \<and> requeued w' job r
     else if run_Status r = RunStatusDeadLetter then run_MaxAttempts r \<le> run_Attempt r
     else run_Status r \<in> {RunStatusCompleted, RunStatusWaitingApproval})"
  by (rule worker_turn [OF assms])

theorem worker_counts_attempts_witness:
  "\<exists>w' r. run_mem_GetRun ''acme'' [] (w_runs (w' :: world)) = Inr r \<and> run_Attempt r = 1 \<and> run_MaxAttempts r = 3"
proof -
  obtain r w where w: "reachable demo_platform w" and jobs: "mq_jobs (w_queue w) = [new_job r []]"
    and run: "run_mem_GetRun ''acme'' [] (w_runs w) = Inr r" "run_Status r = RunStatusQueued"
    and r: "run_ID r = []" "run_TenantID r = ''acme''" "run_WorkflowID r = []"
    and flow: "workflows_Get (app_workflows demo_platform) ''acme'' [] w = Inr (new_workflow [] ''acme'' ask_flow 2)"
    by (rule async_runE)
  let ?job = "new_job r []" and ?w1 = "w\<lparr>w_queue := (w_queue w)\<lparr>mq_jobs := []\<rparr>\<rparr>"
  have job: "job_TenantID ?job = ''acme''" "job_RunID ?job = []" "job_WorkflowID ?job = []"
    "job_MaxAttempts ?job = 3" "job_Attempt ?job = 0"
    using r by (simp_all add: new_job_def defaultAsyncMaxAttempts_def)
  have run1: "run_mem_GetRun ''acme'' [] (w_runs ?w1) = Inr r"
    "workflows_Get (app_workflows demo_platform) ''acme'' [] ?w1 = Inr (new_workflow [] ''acme'' ask_flow 2)"
    using run flow by (simp_all add: app_workflows_Get trim_acme)
  obtain r' w2 where "ProcessAsyncJob (app_executor demo_platform) ?job ?w1 = Some (Inr r', w2)"
    "run_Status r' = RunStatusWaitingApproval"
    using async_job_waits [OF run1(1) run(2) run1(2) job(1-3)] by blast
  then have next_turn: "ProcessNext (app_worker demo_platform) w = Some ((True, None), w2)"
    using jobs by (simp add: ProcessNext_def app_worker_fields on_queue_def mq_Dequeue_def)
  obtain g where "buildGraph ask_flow = Inr g" using ask_graph by blast
  then have g: "buildGraph (wf_Definition (new_workflow [] ''acme'' ask_flow 2)) = Inr g" by simp
  have "trim_space (job_TenantID ?job) \<noteq> []" "0 < job_MaxAttempts ?job" by (simp_all add: job trim_acme)
  from worker_counts_attempts [OF w jobs this(1), unfolded job(1-3), OF run flow g]
  show ?thesis using next_turn by (auto simp: job)
qed

text \<open>The attempts of a job whose workflow cannot be read are never counted: the worker marks the run
  for a retry and schedules the job again with the same number of attempts as before, so such a run is
  retried for ever and never reaches the dead letters.\<close>
theorem missing_workflow_not_counted:
  assumes "run_ID r0 = job_RunID job" and "mq_jobs (w_queue w) = job # rest"
    and "trim_space (job_TenantID job) \<noteq> []"
    and "run_mem_GetRun (job_TenantID job) (job_RunID job) (w_runs w) = Inr r0"
    and "run_Status r0 = RunStatusQueued"
    and "workflows_Get (app_workflows P) (job_TenantID job) (job_WorkflowID job) w = Inl e"
    and "run_Attempt r0 < run_MaxAttempts r0"
    and "ProcessNext (app_worker P) w = Some (x, w')"
  shows "\<exists>r. run_mem_GetRun (job_TenantID job) (job_RunID job) (w_runs w') = Inr r \<and>
    run_Status r = RunStatusQueued \<and> run_Attempt r = run_Attempt r0 \<and>
    run_MaxAttempts r = run_MaxAttempts r0 \<and> requeued w' job r"
  by (rule worker_turn_no_workflow [OF assms])

theorem missing_workflow_not_counted_witness:
  "\<exists>w' r. run_mem_GetRun ''acme'' ''r1'' (w_runs (w' :: world)) = Inr r \<and>
     run_Status r = RunStatusQueued \<and> run_Attempt r = 0"
proof -
  let ?r = "queued_run ''r1'' ''acme'' ''w1'' [] 1"
  let ?job = "new_job ?r []"
  let ?w = "(start_world 0 0)\<lparr>w_runs := snd (run_mem_CreateRun ?r empty_run_memory),
      w_queue := (NewMemoryQueue 0)\<lparr>mq_jobs := [?job]\<rparr>\<rparr>"
  have job: "job_TenantID ?job = ''acme''" "job_RunID ?job = ''r1''" "job_WorkflowID ?job = ''w1''"
    by (simp_all add: new_job_def queued_run_def)
  have r: "run_ID ?r = job_RunID ?job" "run_Status ?r = RunStatusQueued" "run_Attempt ?r < run_MaxAttempts ?r"
    "run_Attempt ?r = 0"
    by (simp_all add: new_job_def queued_run_def defaultAsyncMaxAttempts_def)
  have w: "mq_jobs (w_queue ?w) = ?job # []" "trim_space (job_TenantID ?job) \<noteq> []"
    by (simp_all add: job trim_acme)
  have get: "run_mem_GetRun (job_TenantID ?job) (job_RunID ?job) (w_runs ?w) = Inr ?r"
    by (simp add: job store_simps) (simp add: queued_run_def)
  have none: "workflows_Get (app_workflows demo_platform) (job_TenantID ?job) (job_WorkflowID ?job) ?w =
      Inl workflow_ErrNotFound"
    by (simp add: job app_workflows_Get trim_acme start_world_def wf_mem_GetByID_def)
  obtain x w' where "ProcessNext (app_worker demo_platform) ?w = Some (x, w')"
    using ProcessNext_total [of "app_worker demo_platform" ?w] by fastforce
  from missing_workflow_not_counted [OF r(1) w get r(2) none r(3) this] show ?thesis
    unfolding job r(4) by blast
qed

section \<open>Documents\<close>

text \<open>What was uploaded can be read: after a successful upload its tenant reads the document, and the
  listing of its chunks is exactly the chunking of a text document's content, or empty.\<close>
theorem uploaded_document_readable:
  assumes "documents_Create (app_documents P) t p w = (Inr d, w')" and "cp_Content p = Some (Inr content)"
    and "trim_space t \<noteq> []"
  shows "documents_Get (app_documents P) t (doc_ID d) w' = Inr d \<and>
    (\<exists>cs. documents_ListChunks (app_documents P) t (doc_ID d) w' = Inr cs \<and>
       map chunk_Content cs =
         (if has_prefix (doc_ContentType d) ''text/'' then chunkText content defaultChunkSize else []))"
  by (rule app_upload [OF assms])

lemma demo_app_upload:
  "case documents_Create (app_documents demo_platform) ''acme'' demo_upload demo_start of
     (Inr d, s) \<Rightarrow> True | _ \<Rightarrow> False"
  by code_simp

theorem uploaded_document_readable_witness:
  "\<exists>d w. documents_Get (app_documents demo_platform) ''acme'' (doc_ID d) w = Inr d"
proof -
  obtain d w where "documents_Create (app_documents demo_platform) ''acme'' demo_upload demo_start = (Inr d, w)"
    using demo_app_upload by (auto split: prod.split_asm sum.split_asm)
  from uploaded_document_readable [OF this, of "''refunds take days''"] show ?thesis
    by (auto simp: demo_upload_def trim_acme)
qed

text \<open>C32: retrieval is confined to the tenant: in every reachable state, every chunk that a retrieval
  step of a run returns belongs to the run's tenant, whatever documents the step names.\<close>
theorem retrieval_stays_in_tenant:
  assumes "reachable P w" and "executeRetrieval (app_executor P) t config input w = Inr v"
  shows "\<exists>query cs. v = VMap [(''query'', VStr query), (''documents'', VChunks cs)] \<and>
    list_all (\<lambda>c. chunk_TenantID c = t) cs"
  by (rule retrieval_own [OF reachable_ok [OF assms(1)] assms(2)])

theorem retrieval_stays_in_tenant_witness:
  "\<exists>w v query cs. executeRetrieval (app_executor demo_platform) ''acme'' [(''document_ids'', VStrs [[]])] [] w =
      Inr v \<and> v = VMap [(''query'', VStr query), (''documents'', VChunks cs)]"
proof -
  obtain d w where created: "documents_Create (app_documents demo_platform) ''acme'' demo_upload demo_start = (Inr d, w)"
    using demo_app_upload by (auto split: prod.split_asm sum.split_asm)
  have w: "reachable demo_platform w"
    by (rule reachable.step [OF demo_start_reachable app_step.upload [OF created]])
  have "doc_ID d = []"
    using created by (rule documents_Create_success) (simp add: app_documents_def demo_effects)
  then obtain cs where "documents_ListChunks (app_documents demo_platform) ''acme'' [] w = Inr cs"
    using app_upload [OF created, of "''refunds take days''"] by (auto simp: demo_upload_def trim_acme)
  then obtain v where v: "executeRetrieval (app_executor demo_platform) ''acme''
      [(''document_ids'', VStrs [[]])] [] w = Inr v"
    by (simp add: executeRetrieval_def stringSliceConfig_def app_executor_fields(10,16) Let_def)
  from retrieval_stays_in_tenant [OF w v] v show ?thesis by blast
qed

end
